(* ===== verification/Prelude.thy ===== *)
theory Prelude
  imports Main "HOL-Library.Word"
begin

text \<open>
  Shared layer of the development. It fixes how effects of the hub are written (a state and
  exception monad: a program takes a state and returns either an exception or a value, together
  with the new state), how invariants of such programs are stated and composed, and the small
  facts on lists that model SQL tables. It also opens the fact collections the components add to:
  \<open>prog_simps\<close> and \<open>run_simps\<close> evaluate programs, \<open>keep_intros\<close> proves that a program keeps an invariant.
\<close>

named_theorems prog_simps "evaluation rules of the state and exception monad"
named_theorems run_simps "one step of a program applied to a state"
named_theorems keep_intros "rules that show a program keeps an invariant"
named_theorems table_simps "facts on tables kept as lists of rows"

section \<open>Programs with state and exceptions\<close>

type_synonym ('s, 'e, 'a) prog = "'s \<Rightarrow> ('e + 'a) \<times> 's"

definition ret :: "'a \<Rightarrow> ('s, 'e, 'a) prog" where
  "ret x = (\<lambda>s. (Inr x, s))"

definition throw :: "'e \<Rightarrow> ('s, 'e, 'a) prog" where
  "throw e = (\<lambda>s. (Inl e, s))"

definition bindE :: "('s, 'e, 'a) prog \<Rightarrow> ('a \<Rightarrow> ('s, 'e, 'b) prog) \<Rightarrow> ('s, 'e, 'b) prog" where
  "bindE m k = (\<lambda>s. case m s of (r, s') \<Rightarrow> (case r of Inl e \<Rightarrow> (Inl e, s') | Inr x \<Rightarrow> k x s'))"

definition seqE :: "('s, 'e, 'a) prog \<Rightarrow> ('s, 'e, 'b) prog \<Rightarrow> ('s, 'e, 'b) prog" where
  "seqE m k = bindE m (\<lambda>_. k)"

definition catchE :: "('s, 'e, 'a) prog \<Rightarrow> ('e \<Rightarrow> ('s, 'e, 'a) prog) \<Rightarrow> ('s, 'e, 'a) prog" where
  "catchE m h = (\<lambda>s. case m s of (r, s') \<Rightarrow> (case r of Inl e \<Rightarrow> h e s' | Inr x \<Rightarrow> (Inr x, s')))"

text \<open>\<open>try: ... finally: ...\<close>\<close>

definition finallyE :: "('s, 'e, 'a) prog \<Rightarrow> ('s, 'e, unit) prog \<Rightarrow> ('s, 'e, 'a) prog" where
  "finallyE m k = bindE (catchE m (\<lambda>x. seqE k (throw x))) (\<lambda>r. seqE k (ret r))"

definition gets :: "('s \<Rightarrow> 'a) \<Rightarrow> ('s, 'e, 'a) prog" where
  "gets f = (\<lambda>s. (Inr (f s), s))"

definition modify :: "('s \<Rightarrow> 's) \<Rightarrow> ('s, 'e, unit) prog" where
  "modify f = (\<lambda>s. (Inr (), f s))"

definition liftE :: "'e + 'a \<Rightarrow> ('s, 'e, 'a) prog" where
  "liftE r = (\<lambda>s. (r, s))"

primrec mapE :: "('x \<Rightarrow> ('s, 'e, 'a) prog) \<Rightarrow> 'x list \<Rightarrow> ('s, 'e, 'a list) prog" where
  "mapE f [] = ret []"
| "mapE f (x # xs) = bindE (f x) (\<lambda>y. bindE (mapE f xs) (\<lambda>ys. ret (y # ys)))"

lemma ret_apply [prog_simps, run_simps]: "ret x s = (Inr x, s)"
  by (simp add: ret_def)

lemma throw_apply [prog_simps, run_simps]: "throw e s = (Inl e, s)"
  by (simp add: throw_def)

lemma gets_apply [prog_simps, run_simps]: "gets f s = (Inr (f s), s)"
  by (simp add: gets_def)

lemma modify_apply [prog_simps, run_simps]: "modify f s = (Inr (), f s)"
  by (simp add: modify_def)

lemma liftE_apply [prog_simps, run_simps]: "liftE r s = (r, s)"
  by (simp add: liftE_def)

lemma bindE_ok [prog_simps]: "m s = (Inr x, s') \<Longrightarrow> bindE m k s = k x s'"
  by (simp add: bindE_def)

lemma bindE_err [prog_simps]: "m s = (Inl e, s') \<Longrightarrow> bindE m k s = (Inl e, s')"
  by (simp add: bindE_def)

lemma seqE_ok [prog_simps]: "m s = (Inr x, s') \<Longrightarrow> seqE m k s = k s'"
  by (simp add: seqE_def bindE_def)

lemma seqE_err [prog_simps]: "m s = (Inl e, s') \<Longrightarrow> seqE m k s = (Inl e, s')"
  by (simp add: seqE_def bindE_def)

lemma catchE_ok [prog_simps]: "m s = (Inr x, s') \<Longrightarrow> catchE m h s = (Inr x, s')"
  by (simp add: catchE_def)

lemma catchE_err [prog_simps]: "m s = (Inl e, s') \<Longrightarrow> catchE m h s = h e s'"
  by (simp add: catchE_def)

text \<open>
  Running a composed program on a state: the equations fire only once the program is applied, so
  a rewriter follows the control flow and leaves the steps it has not reached folded.
\<close>

lemma bindE_run [run_simps]:
  "bindE m k s = (case m s of (r, s') \<Rightarrow> (case r of Inl e \<Rightarrow> (Inl e, s') | Inr x \<Rightarrow> k x s'))"
  by (simp add: bindE_def)

lemma seqE_run [run_simps]:
  "seqE m k s = (case m s of (r, s') \<Rightarrow> (case r of Inl e \<Rightarrow> (Inl e, s') | Inr x \<Rightarrow> k s'))"
  by (simp add: seqE_def bindE_def)

lemma catchE_run [run_simps]:
  "catchE m h s = (case m s of (r, s') \<Rightarrow> (case r of Inl e \<Rightarrow> h e s' | Inr x \<Rightarrow> (Inr x, s')))"
  by (simp add: catchE_def)

lemma finallyE_run: "finallyE m k s = (case m s of (Inl x, s1) \<Rightarrow> seqE k (throw x) s1 | (Inr r, s1) \<Rightarrow> seqE k (ret r) s1)"
  by (auto simp: finallyE_def bindE_run catchE_run seqE_run throw_apply split: prod.splits sum.splits)

lemma mapE_run [run_simps]:
  "mapE f [] s = (Inr [], s)"
  "mapE f (x # xs) s = bindE (f x) (\<lambda>y. bindE (mapE f xs) (\<lambda>ys. ret (y # ys))) s"
  by (simp_all add: ret_apply)

lemma seqE_ret_state [simp]: "snd (seqE m (ret x) s) = snd (m s)"
  by (simp add: seqE_run ret_apply split: prod.split sum.split)

lemma mapE_snoc:
  "mapE f xs s = (Inr ys, s') \<Longrightarrow> f x s' = (Inr y, s'') \<Longrightarrow> mapE f (xs @ [x]) s = (Inr (ys @ [y]), s'')"
  by (induction xs arbitrary: s ys) (auto simp: bindE_run ret_apply split: prod.splits sum.splits)

text \<open>Steps that cannot fail disappear from a composed program.\<close>

lemma bindE_simps [prog_simps]:
  "bindE (ret x) k = k x"
  "bindE (throw e) k = throw e"
  "bindE (gets f) k = (\<lambda>s. k (f s) s)"
  "bindE (modify g) l = (\<lambda>s. l () (g s))"
  "bindE (liftE (Inr x)) k = k x"
  "bindE (liftE (Inl e)) k = throw e"
  by (simp_all add: bindE_def ret_def throw_def gets_def modify_def liftE_def)

lemma seqE_simps [prog_simps]:
  "seqE (ret x) k = k"
  "seqE (throw e) k = throw e"
  "seqE (modify g) k = (\<lambda>s. k (g s))"
  "seqE (liftE (Inr x)) k = k"
  "seqE (liftE (Inl e)) k = throw e"
  by (simp_all add: seqE_def bindE_def ret_def throw_def modify_def liftE_def)

lemma bindE_assoc: "bindE (bindE m k) l = bindE m (\<lambda>x. bindE (k x) l)"
  by (auto simp: bindE_def fun_eq_iff split: prod.splits sum.splits)

lemma bindE_Inr:
  "bindE m k s = (Inr y, s'') \<longleftrightarrow> (\<exists>x s'. m s = (Inr x, s') \<and> k x s' = (Inr y, s''))"
  by (auto simp: bindE_def split: prod.splits sum.splits)

lemma bindE_Inl:
  "bindE m k s = (Inl e, s'') \<longleftrightarrow>
     m s = (Inl e, s'') \<or> (\<exists>x s'. m s = (Inr x, s') \<and> k x s' = (Inl e, s''))"
  by (auto simp: bindE_def split: prod.splits sum.splits)

section \<open>Invariants of programs\<close>

definition keeps :: "('s \<Rightarrow> bool) \<Rightarrow> ('s, 'e, 'a) prog \<Rightarrow> bool" where
  "keeps I m \<longleftrightarrow> (\<forall>s. I s \<longrightarrow> I (snd (m s)))"

lemma keepsI: "(\<And>s. I s \<Longrightarrow> I (snd (m s))) \<Longrightarrow> keeps I m"
  by (simp add: keeps_def)

lemma keepsD: "keeps I m \<Longrightarrow> I s \<Longrightarrow> I (snd (m s))"
  by (simp add: keeps_def)

lemma keeps_ret [keep_intros]: "keeps I (ret x)"
  by (simp add: keeps_def ret_def)

lemma keeps_throw [keep_intros]: "keeps I (throw e)"
  by (simp add: keeps_def throw_def)

lemma keeps_gets [keep_intros]: "keeps I (gets f)"
  by (simp add: keeps_def gets_def)

lemma keeps_liftE [keep_intros]: "keeps I (liftE r)"
  by (simp add: keeps_def liftE_def)

lemma keeps_bindE [keep_intros]:
  "keeps I m \<Longrightarrow> (\<And>x. keeps I (k x)) \<Longrightarrow> keeps I (bindE m k)"
  unfolding keeps_def bindE_def
  by (fastforce split: prod.splits sum.splits)

lemma keeps_seqE [keep_intros]: "keeps I m \<Longrightarrow> keeps I k \<Longrightarrow> keeps I (seqE m k)"
  unfolding seqE_def by (rule keeps_bindE)

lemma keeps_catchE [keep_intros]:
  "keeps I m \<Longrightarrow> (\<And>e. keeps I (h e)) \<Longrightarrow> keeps I (catchE m h)"
  unfolding keeps_def catchE_def
  by (fastforce split: prod.splits sum.splits)

lemma keeps_mapE [keep_intros]: "(\<And>x. keeps I (f x)) \<Longrightarrow> keeps I (mapE f xs)"
  by (induction xs) (auto intro: keep_intros)

lemma keeps_mapE_in: "(\<And>x. x \<in> set xs \<Longrightarrow> keeps I (f x)) \<Longrightarrow> keeps I (mapE f xs)"
  by (induction xs) (auto intro: keep_intros)

lemma keeps_if [keep_intros]: "keeps I m \<Longrightarrow> keeps I k \<Longrightarrow> keeps I (if b then m else k)"
  by simp

lemma keeps_case_option [keep_intros]:
  "keeps I m \<Longrightarrow> (\<And>x. keeps I (k x)) \<Longrightarrow> keeps I (case y of None \<Rightarrow> m | Some x \<Rightarrow> k x)"
  by (cases y) auto

lemma keeps_case_prod [keep_intros]:
  "(\<And>a b. keeps I (k a b)) \<Longrightarrow> keeps I (case p of (a, b) \<Rightarrow> k a b)"
  by (cases p) auto

lemma keeps_Let [keep_intros]: "(\<And>x. keeps I (k x)) \<Longrightarrow> keeps I (let x = y in k x)"
  by simp

section \<open>Tables as lists of rows\<close>

text \<open>An UPDATE of one row by its primary key, and the rows a unique constraint inspects.\<close>

definition put_row :: "('r \<Rightarrow> 'k) \<Rightarrow> 'r \<Rightarrow> 'r list \<Rightarrow> 'r list" where
  "put_row key r rows = map (\<lambda>x. if key x = key r then r else x) rows"

definition unique_on :: "('r \<Rightarrow> 'k) \<Rightarrow> 'r list \<Rightarrow> bool" where
  "unique_on key rows \<longleftrightarrow> distinct (map key rows)"

lemma unique_on_Nil [simp]: "unique_on key []"
  by (simp add: unique_on_def)

lemma unique_on_snoc [table_simps]:
  "unique_on key (rows @ [r]) \<longleftrightarrow> unique_on key rows \<and> key r \<notin> key ` set rows"
  by (simp add: unique_on_def)

lemma unique_on_append [table_simps]:
  "unique_on key (rows @ rs) \<longleftrightarrow>
     unique_on key rows \<and> unique_on key rs \<and> key ` set rows \<inter> key ` set rs = {}"
  by (simp add: unique_on_def)

lemma unique_onD:
  "unique_on key rows \<Longrightarrow> a \<in> set rows \<Longrightarrow> b \<in> set rows \<Longrightarrow> key a = key b \<Longrightarrow> a = b"
  by (auto simp: unique_on_def distinct_map inj_on_def)

lemma put_row_absent [table_simps]: "key r \<notin> key ` set rows \<Longrightarrow> put_row key r rows = rows"
  unfolding put_row_def by (rule map_idI) (metis image_eqI)

lemma map_put_row_same [table_simps]:
  "(\<And>x. x \<in> set rows \<Longrightarrow> key x = key r \<Longrightarrow> f x = f r) \<Longrightarrow> map f (put_row key r rows) = map f rows"
  by (auto simp: put_row_def)

lemma unique_on_put_row:
  assumes "\<And>x. x \<in> set rows \<Longrightarrow> key x = key r \<Longrightarrow> f x = f r"
  shows "unique_on f (put_row key r rows) = unique_on f rows"
  using map_put_row_same [of rows key r f] assms by (simp add: unique_on_def)

lemma length_put_row [simp]: "length (put_row key r rows) = length rows"
  by (simp add: put_row_def)

lemma set_put_rowD: "x \<in> set (put_row key r rows) \<Longrightarrow> x = r \<or> (x \<in> set rows \<and> key x \<noteq> key r)"
  by (auto simp: put_row_def split: if_splits)

lemma in_put_row: "a \<in> set rows \<Longrightarrow> key a = key r \<Longrightarrow> r \<in> set (put_row key r rows)"
  by (force simp: put_row_def)

lemma in_put_row_other: "a \<in> set rows \<Longrightarrow> key a \<noteq> key r \<Longrightarrow> a \<in> set (put_row key r rows)"
  by (force simp: put_row_def)

lemma filter_unique_on:
  "unique_on key rows \<Longrightarrow> a \<in> set rows \<Longrightarrow> filter (\<lambda>x. key x = key a) rows = [a]"
  by (induction rows) (auto simp: unique_on_def filter_empty_conv rev_image_eqI)

lemma find_unique_on:
  "unique_on key rows \<Longrightarrow> a \<in> set rows \<Longrightarrow> find (\<lambda>x. key x = key a) rows = Some a"
  by (induction rows) (auto simp: unique_on_def rev_image_eqI)

text \<open>A loop of updates over selected rows of a table is one pass over the table.\<close>

lemma foldl_put_row_pointwise:
  "foldl (\<lambda>t row. if P row then put_row key (f row) t else t) tbl rows =
     map (\<lambda>x. foldl (\<lambda>y row. if P row \<and> key y = key (f row) then f row else y) x rows) tbl"
  by (induction rows arbitrary: tbl) (auto simp: put_row_def)

lemma foldl_row_find:
  assumes "\<And>r. key (f r) = key r"
  shows "unique_on key rows \<Longrightarrow>
     foldl (\<lambda>y row. if P row \<and> key y = key (f row) then f row else y) y rows =
       (case find (\<lambda>r. P r \<and> key r = key y) rows of None \<Rightarrow> y | Some r \<Rightarrow> f r)"
proof (induction rows arbitrary: y)
  case (Cons r rows)
  have none: "find (\<lambda>x. P x \<and> key x = key r) rows = None"
    unfolding find_None_iff using Cons.prems by (auto simp: unique_on_def rev_image_eqI)
  show ?case
  proof (cases "P r \<and> key y = key r")
    case True
    with Cons none show ?thesis by (simp add: assms unique_on_def)
  next
    case False
    with Cons show ?thesis by (auto simp: assms unique_on_def)
  qed
qed simp

lemma find_filter_self:
  assumes "unique_on key tbl" "x \<in> set tbl"
  shows "find (\<lambda>r. P r \<and> key r = key x) (filter Q tbl) = (if P x \<and> Q x then Some x else None)"
proof -
  have same: "r = x" if "r \<in> set tbl" "key r = key x" for r
    using unique_onD [OF assms(1) that(1) assms(2) that(2)] .
  show ?thesis
  proof (cases "P x \<and> Q x")
    case True
    have "unique_on key (filter Q tbl)"
      using assms(1) by (simp add: unique_on_def distinct_map_filter)
    then have "find (\<lambda>r. key r = key x) (filter Q tbl) = Some x"
      using True assms(2) by (intro find_unique_on) auto
    moreover have "find (\<lambda>r. P r \<and> key r = key x) (filter Q tbl) = find (\<lambda>r. key r = key x) (filter Q tbl)"
      using True same by (intro find_cong) auto
    ultimately show ?thesis using True by simp
  next
    case False
    then show ?thesis using same by (auto simp: find_None_iff)
  qed
qed

lemma foldl_put_rows:
  assumes "\<And>r. key (f r) = key r" and "unique_on key tbl"
  shows "foldl (\<lambda>t row. if P row then put_row key (f row) t else t) tbl (filter Q tbl) =
     map (\<lambda>x. if P x \<and> Q x then f x else x) tbl"
proof -
  have "unique_on key (filter Q tbl)"
    using assms(2) by (simp add: unique_on_def distinct_map_filter)
  then show ?thesis
    unfolding foldl_put_row_pointwise
    using foldl_row_find [of key f, OF assms(1)] find_filter_self [OF assms(2)]
    by (auto split: if_splits)
qed

end
