(* ===== verification/PyText.thy ===== *)
theory PyText
  imports Prelude
begin

text \<open>
  The fragment of Python's text library the hub uses. A \<open>str\<close> is a list of code points below
  256 (type \<open>string\<close>); \<open>bytes\<close> is a list of bytes, also kept as characters. Modelled are
  \<open>str.strip\<close>, \<open>str.split(" ", 1)\<close>, \<open>str.startswith\<close>, \<open>str.lower\<close>, the decimal text of an
  integer, \<open>int(text)\<close>, UTF-8 encoding, and \<open>uuid.UUID\<close> with its text form, its parser and its
  version field. The lemmas show that these texts identify what they encode, which the hub's
  composed cache, lock and idempotency keys rely on.
\<close>

type_synonym bytes = "char list"
type_synonym uuid = "128 word"

section \<open>Characters and string methods\<close>

definition is_space :: "char \<Rightarrow> bool" where
  "is_space c = (let n = (of_char c :: nat) in
     (9 \<le> n \<and> n \<le> 13) \<or> (28 \<le> n \<and> n \<le> 32) \<or> n = 133 \<or> n = 160)"

definition py_strip :: "string \<Rightarrow> string" where
  "py_strip s = rev (dropWhile is_space (rev (dropWhile is_space s)))"

definition py_startswith :: "string \<Rightarrow> string \<Rightarrow> bool" where
  "py_startswith s p \<longleftrightarrow> take (length p) s = p"

text \<open>\<open>p in s\<close> on texts.\<close>

fun py_in :: "string \<Rightarrow> string \<Rightarrow> bool" where
  "py_in p [] \<longleftrightarrow> p = []"
| "py_in p (c # cs) \<longleftrightarrow> py_startswith (c # cs) p \<or> py_in p cs"

fun py_split1 :: "char \<Rightarrow> string \<Rightarrow> string list" where
  "py_split1 sep [] = [[]]"
| "py_split1 sep (c # cs) =
     (if c = sep then [[], cs]
      else (case py_split1 sep cs of [] \<Rightarrow> [[c]] | p # ps \<Rightarrow> (c # p) # ps))"

definition lower_char :: "char \<Rightarrow> char" where
  "lower_char c = (let n = (of_char c :: nat) in
     if (65 \<le> n \<and> n \<le> 90) \<or> (192 \<le> n \<and> n \<le> 222 \<and> n \<noteq> 215) then char_of (n + 32) else c)"

definition py_lower :: "string \<Rightarrow> string" where
  "py_lower s = map lower_char s"

definition is_ascii :: "string \<Rightarrow> bool" where
  "is_ascii s = list_all (\<lambda>c. (of_char c :: nat) < 128) s"

definition utf8_char :: "char \<Rightarrow> bytes" where
  "utf8_char c = (let n = (of_char c :: nat) in
     if n < 128 then [c] else [char_of (192 + n div 64), char_of (128 + n mod 64)])"

definition utf8_encode :: "string \<Rightarrow> bytes" where
  "utf8_encode s = concat (map utf8_char s)"

lemma startswith_append [simp]: "py_startswith (p @ s) p"
  by (simp add: py_startswith_def)

lemma startswith_iff: "py_startswith s p \<longleftrightarrow> (\<exists>r. s = p @ r)"
proof
  assume "py_startswith s p"
  then have "s = p @ drop (length p) s"
    unfolding py_startswith_def by (metis append_take_drop_id)
  then show "\<exists>r. s = p @ r" by blast
qed auto

lemma utf8_ascii: "is_ascii s \<Longrightarrow> utf8_encode s = s"
  by (induction s) (auto simp: is_ascii_def utf8_encode_def utf8_char_def)

section \<open>Integers as text\<close>

definition digit_char :: "nat \<Rightarrow> char" where
  "digit_char d = char_of (if d < 10 then 48 + d else 87 + d)"

definition digit_val :: "char \<Rightarrow> nat option" where
  "digit_val c = (let n = (of_char c :: nat) in
     if 48 \<le> n \<and> n \<le> 57 then Some (n - 48)
     else if 97 \<le> n \<and> n \<le> 122 then Some (n - 87)
     else if 65 \<le> n \<and> n \<le> 90 then Some (n - 55)
     else None)"

fun dec_nat :: "nat \<Rightarrow> string" where
  "dec_nat n = (if n < 10 then [digit_char n] else dec_nat (n div 10) @ [digit_char (n mod 10)])"

declare dec_nat.simps [simp del]

definition str_int :: "int \<Rightarrow> string" where
  "str_int i = (if i < 0 then CHR ''-'' # dec_nat (nat (- i)) else dec_nat (nat i))"

fun parse_digits :: "nat \<Rightarrow> nat \<Rightarrow> bool \<Rightarrow> string \<Rightarrow> nat option" where
  "parse_digits b acc after_digit [] = (if after_digit then Some acc else None)"
| "parse_digits b acc after_digit (c # cs) =
     (if c = CHR ''_'' then (if after_digit then parse_digits b acc False cs else None)
      else (case digit_val c of
              None \<Rightarrow> None
            | Some d \<Rightarrow> if d < b then parse_digits b (acc * b + d) True cs else None))"

text \<open>
  \<open>int(text, base)\<close>: surrounding white space, an optional sign, for base 16 an optional
  \<open>0x\<close>, then digits with single underscores between them. Decimal texts of more than 4300
  digits are refused.
\<close>

definition unsigned_int :: "nat \<Rightarrow> string \<Rightarrow> nat option" where
  "unsigned_int b s =
     (if b = 16 \<and> (py_startswith s ''0x'' \<or> py_startswith s ''0X'')
      then (if drop 2 s = [] then None else parse_digits b 0 True (drop 2 s))
      else if b = 10 \<and> 4300 < length (filter (\<lambda>c. c \<noteq> CHR ''_'') s) then None
      else parse_digits b 0 False s)"

definition py_int :: "nat \<Rightarrow> string \<Rightarrow> int option" where
  "py_int b s =
     (case py_strip s of
        [] \<Rightarrow> None
      | c # cs \<Rightarrow>
          if c = CHR ''-'' then map_option (\<lambda>n. - int n) (unsigned_int b cs)
          else if c = CHR ''+'' then map_option int (unsigned_int b cs)
          else map_option int (unsigned_int b (c # cs)))"

lemma digit_val_char [simp]: "d < 16 \<Longrightarrow> digit_val (digit_char d) = Some d"
  by (auto simp: digit_val_def digit_char_def of_char_of Let_def)

lemma digit_char_inj: "d < 16 \<Longrightarrow> e < 16 \<Longrightarrow> digit_char d = digit_char e \<Longrightarrow> d = e"
  by (metis digit_val_char option.inject)

lemma of_char_digit_char: "d < 16 \<Longrightarrow> of_char (digit_char d) = (if d < 10 then 48 + d else 87 + d)"
  by (auto simp: digit_char_def of_char_of)

lemma digit_char_neq:
  assumes "d < 16"
  shows "digit_char d \<noteq> CHR ''_''" "digit_char d \<noteq> CHR ''-''" "digit_char d \<noteq> CHR '':''"
    "digit_char d \<noteq> CHR ''+''" "digit_char d \<noteq> CHR ''{''" "digit_char d \<noteq> CHR ''}''"
    "digit_char d \<noteq> CHR ''x''" "digit_char d \<noteq> CHR ''X''" "digit_char d \<noteq> CHR ''u''"
    "digit_char d \<noteq> CHR ''r''" "\<not> is_space (digit_char d)"
proof -
  have n: "(of_char (digit_char d) :: nat) = (if d < 10 then 48 + d else 87 + d)"
    using assms by (rule of_char_digit_char)
  have neq: "digit_char d \<noteq> c" if "(of_char c :: nat) \<notin> {48..57} \<union> {97..102}" for c
    using that n assms by (auto split: if_splits)
  show "digit_char d \<noteq> CHR ''_''" "digit_char d \<noteq> CHR ''-''" "digit_char d \<noteq> CHR '':''"
    "digit_char d \<noteq> CHR ''+''" "digit_char d \<noteq> CHR ''{''" "digit_char d \<noteq> CHR ''}''"
    "digit_char d \<noteq> CHR ''x''" "digit_char d \<noteq> CHR ''X''" "digit_char d \<noteq> CHR ''u''"
    "digit_char d \<noteq> CHR ''r''"
    by (rule neq, simp)+
  show "\<not> is_space (digit_char d)"
    using n assms by (auto simp: is_space_def Let_def split: if_splits)
qed

lemma dec_nat_digits: "c \<in> set (dec_nat n) \<Longrightarrow> \<exists>d<10. c = digit_char d"
proof (induction n rule: dec_nat.induct)
  case (1 n)
  show ?case
  proof (cases "n < 10")
    case True
    with 1 show ?thesis by (subst (asm) (2) dec_nat.simps) auto
  next
    case False
    with 1 have "c \<in> set (dec_nat (n div 10)) \<or> c = digit_char (n mod 10)"
      by (subst (asm) (2) dec_nat.simps) auto
    moreover have "n mod 10 < 10" by simp
    ultimately show ?thesis using 1(1) False by blast
  qed
qed

lemma dec_nat_not_Nil [simp]: "dec_nat n \<noteq> []"
  by (subst dec_nat.simps) simp

lemma parse_digits_snoc:
  "d < b \<Longrightarrow> d < 16 \<Longrightarrow> parse_digits b acc a s = Some v \<Longrightarrow>
     parse_digits b acc a (s @ [digit_char d]) = Some (v * b + d)"
proof (induction b acc a s rule: parse_digits.induct)
  case (1 b acc a)
  then show ?case using digit_char_neq(1) [of d] by (auto split: if_splits)
next
  case (2 b acc a c cs)
  then show ?case by (auto split: if_splits option.splits)
qed

lemma parse_dec_nat: "parse_digits 10 0 False (dec_nat n) = Some n"
proof (induction n rule: dec_nat.induct)
  case (1 n)
  show ?case
  proof (cases "n < 10")
    case True
    then show ?thesis using digit_char_neq(1) [of n] by (subst dec_nat.simps) simp
  next
    case False
    then have "parse_digits 10 0 False (dec_nat (n div 10) @ [digit_char (n mod 10)])
        = Some (n div 10 * 10 + n mod 10)"
      using 1 by (intro parse_digits_snoc) auto
    with False show ?thesis by (subst dec_nat.simps) (simp add: div_mult_mod_eq)
  qed
qed

lemma dec_nat_inj [simp]: "dec_nat m = dec_nat n \<longleftrightarrow> m = n"
  by (metis option.inject parse_dec_nat)

lemma dec_nat_no_minus: "dec_nat n \<noteq> CHR ''-'' # s"
proof
  assume "dec_nat n = CHR ''-'' # s"
  then obtain d where "d < 10" "CHR ''-'' = digit_char d"
    using dec_nat_digits [of "CHR ''-''" n] by auto
  then show False using digit_char_neq(2) [of d] by simp
qed

lemma str_int_inj [simp]: "str_int i = str_int j \<longleftrightarrow> i = j"
proof (cases "i < 0"; cases "j < 0")
qed (use dec_nat_no_minus in \<open>auto simp: str_int_def dest: sym\<close>)

lemma str_int_no_colon: "CHR '':'' \<notin> set (str_int i)"
proof
  assume "CHR '':'' \<in> set (str_int i)"
  then have "\<exists>n. CHR '':'' \<in> set (dec_nat n)"
    by (auto simp: str_int_def split: if_splits)
  then obtain d where "d < 10" "CHR '':'' = digit_char d"
    using dec_nat_digits by blast
  then show False using digit_char_neq(3) [of d] by simp
qed

text \<open>A field that cannot contain the separator is recovered from a joined key.\<close>

lemma joined_inj:
  assumes "c \<notin> set a" and "c \<notin> set b"
  shows "a @ c # x = b @ c # y \<longleftrightarrow> a = b \<and> x = y"
proof
  assume eq: "a @ c # x = b @ c # y"
  have "takeWhile (\<lambda>z. z \<noteq> c) (a @ c # x) = a" "takeWhile (\<lambda>z. z \<noteq> c) (b @ c # y) = b"
    using assms by (auto simp: takeWhile_tail)
  with eq have "a = b" by simp
  with eq show "a = b \<and> x = y" by simp
qed simp

section \<open>UUIDs\<close>

text \<open>
  A UUID is a 128 bit word. Its text is 32 lower case hexadecimal digits in groups of 8, 4, 4, 4
  and 12; the parser is the one of \<open>uuid.UUID\<close>: it drops \<open>urn:\<close> and \<open>uuid:\<close>, braces at the
  ends and all dashes, and then wants exactly 32 characters that \<open>int(_, 16)\<close> accepts.
\<close>

primrec hex_fixed :: "nat \<Rightarrow> nat \<Rightarrow> string" where
  "hex_fixed 0 n = []"
| "hex_fixed (Suc k) n = hex_fixed k (n div 16) @ [digit_char (n mod 16)]"

definition str_uuid :: "uuid \<Rightarrow> string" where
  "str_uuid u = (let h = hex_fixed 32 (unat u) in
     take 8 h @ ''-'' @ take 4 (drop 8 h) @ ''-'' @ take 4 (drop 12 h) @ ''-'' @
     take 4 (drop 16 h) @ ''-'' @ drop 20 h)"

fun remove_sub :: "string \<Rightarrow> string \<Rightarrow> string" where
  "remove_sub p [] = []"
| "remove_sub p (c # cs) =
     (if p \<noteq> [] \<and> py_startswith (c # cs) p then remove_sub p (drop (length p) (c # cs))
      else c # remove_sub p cs)"

definition is_brace :: "char \<Rightarrow> bool" where
  "is_brace c \<longleftrightarrow> c = CHR ''{'' \<or> c = CHR ''}''"

definition uuid_hex :: "string \<Rightarrow> string" where
  "uuid_hex s = filter (\<lambda>c. c \<noteq> CHR ''-'')
     (rev (dropWhile is_brace (rev (dropWhile is_brace
        (remove_sub ''uuid:'' (remove_sub ''urn:'' s))))))"

definition uuid_parse :: "string \<Rightarrow> uuid option" where
  "uuid_parse s =
     (if length (uuid_hex s) \<noteq> 32 then None
      else (case py_int 16 (uuid_hex s) of
              None \<Rightarrow> None
            | Some i \<Rightarrow> if 0 \<le> i \<and> i < 2 ^ 128 then Some (word_of_int i) else None))"

definition uuid_version :: "uuid \<Rightarrow> nat option" where
  "uuid_version u =
     (if bit u 63 \<and> \<not> bit u 62 then Some (unat u div 2 ^ 76 mod 16) else None)"

definition is_hex_char :: "char \<Rightarrow> bool" where
  "is_hex_char c \<longleftrightarrow> (\<exists>d<16. c = digit_char d)"

lemma length_hex_fixed [simp]: "length (hex_fixed k n) = k"
  by (induction k arbitrary: n) auto

lemma hex_fixed_chars: "c \<in> set (hex_fixed k n) \<Longrightarrow> is_hex_char c"
proof (induction k arbitrary: n)
  case (Suc k)
  moreover have "is_hex_char (digit_char (n mod 16))"
    unfolding is_hex_char_def by (rule exI [of _ "n mod 16"]) simp
  ultimately show ?case by auto
qed simp

lemma parse_hex_fixed_Suc:
  "n < 16 ^ Suc k \<Longrightarrow> parse_digits 16 0 False (hex_fixed (Suc k) n) = Some n"
proof (induction k arbitrary: n)
  case 0
  then show ?case using digit_char_neq(1) [of n] by simp
next
  case (Suc k)
  then have "n div 16 < 16 ^ Suc k" by (simp add: less_mult_imp_div_less)
  then have "parse_digits 16 0 False (hex_fixed (Suc k) (n div 16) @ [digit_char (n mod 16)])
      = Some (n div 16 * 16 + n mod 16)"
    using Suc.IH by (intro parse_digits_snoc) auto
  then show ?case by (simp add: div_mult_mod_eq)
qed

lemma parse_hex_fixed:
  "0 < k \<Longrightarrow> n < 16 ^ k \<Longrightarrow> parse_digits 16 0 False (hex_fixed k n) = Some n"
  using parse_hex_fixed_Suc [of n "k - 1"] by simp

lemma hex_char_neq:
  assumes "is_hex_char c"
  shows "c \<noteq> CHR ''u''" "c \<noteq> CHR ''-''" "\<not> is_brace c" "\<not> is_space c"
    "c \<noteq> CHR ''+''" "c \<noteq> CHR ''x''" "c \<noteq> CHR ''X''" "c \<noteq> CHR '':''"
  using assms digit_char_neq by (auto simp: is_hex_char_def is_brace_def)

lemma remove_sub_u:
  "CHR ''u'' \<notin> set s \<Longrightarrow> p = CHR ''u'' # q \<Longrightarrow> remove_sub p s = s"
  by (induction p s rule: remove_sub.induct) (auto simp: py_startswith_def)

lemma str_uuid_chars: "c \<in> set (str_uuid u) \<Longrightarrow> is_hex_char c \<or> c = CHR ''-''"
  unfolding str_uuid_def Let_def
  by (auto dest!: in_set_takeD in_set_dropD hex_fixed_chars)

lemma length_str_uuid [simp]: "length (str_uuid u) = 36"
  by (simp add: str_uuid_def Let_def)

lemma filter_hex [simp]: "(\<And>c. c \<in> set s \<Longrightarrow> is_hex_char c) \<Longrightarrow> filter (\<lambda>c. c \<noteq> CHR ''-'') s = s"
  by (rule filter_True) (auto dest: hex_char_neq)

lemma dropWhile_all_false: "(\<And>c. c \<in> set s \<Longrightarrow> \<not> P c) \<Longrightarrow> dropWhile P s = s"
  by (cases s) auto

lemma take_drop_next: "take k (drop j h) @ drop (j + k) h = drop j h"
  by (metis append_take_drop_id drop_drop add.commute)

lemma uuid_hex_str: "uuid_hex (str_uuid u) = hex_fixed 32 (unat u)"
proof -
  let ?h = "hex_fixed 32 (unat u)"
  have h: "\<And>c. c \<in> set ?h \<Longrightarrow> is_hex_char c" by (rule hex_fixed_chars)
  have part: "filter (\<lambda>c. c \<noteq> CHR ''-'') (take k (drop j ?h)) = take k (drop j ?h)" for j k
    by (rule filter_hex) (auto dest: in_set_takeD in_set_dropD h)
  have chars: "\<And>c. c \<in> set (str_uuid u) \<Longrightarrow> c \<noteq> CHR ''u'' \<and> \<not> is_brace c"
    using str_uuid_chars hex_char_neq by (fastforce simp: is_brace_def)
  then have "remove_sub ''uuid:'' (remove_sub ''urn:'' (str_uuid u)) = str_uuid u"
    by (metis remove_sub_u)
  moreover have "dropWhile is_brace (str_uuid u) = str_uuid u"
    "dropWhile is_brace (rev (str_uuid u)) = rev (str_uuid u)"
    using chars by (auto intro: dropWhile_all_false)
  ultimately have "uuid_hex (str_uuid u) = filter (\<lambda>c. c \<noteq> CHR ''-'') (str_uuid u)"
    by (simp add: uuid_hex_def)
  also have "\<dots> = take 8 ?h @ take 4 (drop 8 ?h) @ take 4 (drop 12 ?h) @ take 4 (drop 16 ?h)
      @ drop 20 ?h"
    using part [of 8 0] part [of 4 8] part [of 4 12] part [of 4 16] part [of 12 20]
    by (simp add: str_uuid_def Let_def)
  also have "\<dots> = ?h"
    using take_drop_next [of 4 16 ?h] take_drop_next [of 4 12 ?h] take_drop_next [of 4 8 ?h]
    by simp
  finally show ?thesis .
qed

theorem uuid_roundtrip [simp]: "uuid_parse (str_uuid u) = Some u"
proof -
  let ?h = "hex_fixed 32 (unat u)"
  obtain c cs where h: "?h = c # cs" by (cases ?h) (auto dest: arg_cong [where f = length])
  have hex: "\<And>z. z \<in> set ?h \<Longrightarrow> is_hex_char z" by (rule hex_fixed_chars)
  then have strip: "py_strip ?h = ?h"
    unfolding py_strip_def
    by (subst dropWhile_all_false [of ?h], use hex_char_neq(4) in blast,
        subst dropWhile_all_false, use hex_char_neq(4) in auto)
  have no0x: "\<not> py_startswith ?h ''0x'' \<and> \<not> py_startswith ?h ''0X''"
    using hex [of "CHR ''x''"] hex [of "CHR ''X''"]
      hex_char_neq(6) [of "CHR ''x''"] hex_char_neq(7) [of "CHR ''X''"] by (auto simp: startswith_iff)
  have bound: "unat u < 16 ^ 32" using unsigned_less [of u] by simp
  have parse: "parse_digits 16 0 False ?h = Some (unat u)"
    using bound by (intro parse_hex_fixed) simp_all
  have "py_int 16 ?h = Some (int (unat u))"
    using strip h no0x parse hex_char_neq(2,5) [of c] hex
    by (simp add: py_int_def unsigned_int_def)
  moreover have "int (unat u) < 2 ^ 128" using uint_lt2p [of u] by simp
  ultimately show ?thesis by (simp add: uuid_parse_def uuid_hex_str)
qed

lemma str_uuid_inj [simp]: "str_uuid u = str_uuid v \<longleftrightarrow> u = v"
  by (metis option.inject uuid_roundtrip)

lemma str_uuid_no_colon: "CHR '':'' \<notin> set (str_uuid u)"
  using str_uuid_chars hex_char_neq(8) by fastforce

end
