(* ===== verification/Json.thy ===== *)
theory Json
  imports PyText "HOL-Library.Multiset" "HOL-Library.Char_ord" "HOL-Library.List_Lexorder"
begin

text \<open>
  JSON documents as Python values, and the canonical text
  \<open>json.dumps(value, sort_keys=True, separators=(",", ":"))\<close> the hub signs and hashes. A dictionary
  is the list of its items in insertion order; a float is kept as the number text Python prints for
  it. The main fact is that the canonical text does not depend on the insertion order of any
  dictionary, at any depth.
\<close>

datatype json =
    JNull
  | JBool bool
  | JInt int
  | JFloat string
  | JStr string
  | JArr "json list"
  | JObj "(string \<times> json) list"

definition jget :: "json \<Rightarrow> string \<Rightarrow> json option" where
  "jget j k = (case j of JObj kvs \<Rightarrow> map_of kvs k | _ \<Rightarrow> None)"

section \<open>The canonical text\<close>

definition escape_char :: "char \<Rightarrow> string" where
  "escape_char c = (let n = (of_char c :: nat) in
     if n = 34 then [CHR 0x5C, CHR 0x22]
     else if n = 92 then [CHR 0x5C, CHR 0x5C]
     else if n = 10 then [CHR 0x5C, CHR ''n'']
     else if n = 13 then [CHR 0x5C, CHR ''r'']
     else if n = 9 then [CHR 0x5C, CHR ''t'']
     else if n = 8 then [CHR 0x5C, CHR ''b'']
     else if n = 12 then [CHR 0x5C, CHR ''f'']
     else if n < 32 \<or> 126 < n then [CHR 0x5C, CHR ''u''] @ hex_fixed 4 n
     else [c])"

definition quote_str :: "string \<Rightarrow> string" where
  "quote_str s = [CHR 0x22] @ concat (map escape_char s) @ [CHR 0x22]"

fun join_with :: "string \<Rightarrow> string list \<Rightarrow> string" where
  "join_with sep [] = []"
| "join_with sep [s] = s"
| "join_with sep (s # t # ss) = s @ sep @ join_with sep (t # ss)"

fun dumps :: "json \<Rightarrow> string" where
  "dumps JNull = ''null''"
| "dumps (JBool b) = (if b then ''true'' else ''false'')"
| "dumps (JInt i) = str_int i"
| "dumps (JFloat r) = r"
| "dumps (JStr s) = quote_str s"
| "dumps (JArr js) = ''['' @ join_with '','' (map dumps js) @ '']''"
| "dumps (JObj kvs) = ''{'' @ join_with '',''
     (map (\<lambda>(k, t). quote_str k @ '':'' @ t) (sort_key fst (map (\<lambda>(k, v). (k, dumps v)) kvs))) @ ''}''"

section \<open>Insertion order does not matter\<close>

text \<open>The same document: equal up to the order of dictionary items, at every level.\<close>

inductive json_same :: "json \<Rightarrow> json \<Rightarrow> bool" where
  same_null: "json_same JNull JNull"
| same_bool: "json_same (JBool b) (JBool b)"
| same_int: "json_same (JInt i) (JInt i)"
| same_float: "json_same (JFloat r) (JFloat r)"
| same_str: "json_same (JStr s) (JStr s)"
| same_arr: "list_all2 json_same js ks \<Longrightarrow> json_same (JArr js) (JArr ks)"
| same_obj: "distinct (map fst kvs) \<Longrightarrow>
    list_all2 (\<lambda>p q. fst p = fst q \<and> json_same (snd p) (snd q)) kvs lvs \<Longrightarrow>
    mset lvs = mset mvs \<Longrightarrow> json_same (JObj kvs) (JObj mvs)"

theorem dumps_insertion_order: "json_same a b \<Longrightarrow> dumps a = dumps b"
proof (induction rule: json_same.induct)
  case (same_arr js ks)
  then have "map dumps js = map dumps ks"
    by (auto simp: list_all2_conv_all_nth intro: nth_equalityI)
  then show ?case by simp
next
  case (same_obj kvs lvs mvs)
  let ?g = "\<lambda>(k, v). (k, dumps v)"
  have "map ?g kvs = map ?g lvs"
    using same_obj.IH by (auto simp: list_all2_conv_all_nth split_beta intro!: nth_equalityI)
  moreover have "mset (map ?g lvs) = mset (map ?g mvs)"
    using same_obj.hyps by simp
  moreover have "inj_on fst (set (map ?g kvs))"
  proof -
    have "map fst (map ?g kvs) = map fst kvs" by auto
    then show ?thesis using same_obj.hyps by (metis distinct_map)
  qed
  ultimately have "sort_key fst (map ?g kvs) = sort_key fst (map ?g mvs)"
    by (intro sort_key_eq_sort_key) auto
  then show ?case by simp
qed auto

end
