(* ===== verification/PyTime.thy ===== *)
theory PyTime
  imports PyText
begin

text \<open>
  Time as the hub uses it: an aware UTC \<open>datetime\<close> is the number of microseconds since the Unix
  epoch. The text form \<open>datetime.isoformat()\<close> goes through the proleptic Gregorian calendar of
  Python's \<open>datetime\<close> module (ordinals, years, months), and \<open>datetime.fromisoformat\<close> reads the
  extended format that \<open>isoformat\<close> writes, with or without a fraction and an offset. The main
  fact is that reading back a written time gives the same time.
\<close>

type_synonym time = int

definition us_per_second :: int where
  "us_per_second = 1000000"

definition us_per_day :: int where
  "us_per_day = 86400000000"

definition seconds :: "int \<Rightarrow> int" where
  "seconds n = n * us_per_second"

section \<open>The calendar\<close>

definition is_leap :: "nat \<Rightarrow> bool" where
  "is_leap y \<longleftrightarrow> y mod 4 = 0 \<and> (y mod 100 \<noteq> 0 \<or> y mod 400 = 0)"

definition month_lengths :: "bool \<Rightarrow> nat list" where
  "month_lengths leap = [31, if leap then 29 else 28, 31, 30, 31, 30, 31, 31, 30, 31, 30, 31]"

definition days_before_year :: "nat \<Rightarrow> nat" where
  "days_before_year y = (y - 1) * 365 + (y - 1) div 4 - (y - 1) div 100 + (y - 1) div 400"

definition ymd2ord :: "nat \<Rightarrow> nat \<Rightarrow> nat \<Rightarrow> nat" where
  "ymd2ord y m d = days_before_year y + sum_list (take (m - 1) (month_lengths (is_leap y))) + d"

fun month_day :: "nat list \<Rightarrow> nat \<Rightarrow> nat \<Rightarrow> nat \<times> nat" where
  "month_day [] m r = (m, r + 1)"
| "month_day (l # ls) m r = (if r < l then (m, r + 1) else month_day ls (Suc m) (r - l))"

definition ord2ymd :: "nat \<Rightarrow> nat \<times> nat \<times> nat" where
  "ord2ymd n =
     (let n0 = n - 1;
          n400 = n0 div 146097; r400 = n0 mod 146097;
          n100 = r400 div 36524; r100 = r400 mod 36524;
          n4 = r100 div 1461; r4 = r100 mod 1461;
          n1 = r4 div 365; r1 = r4 mod 365;
          y = n400 * 400 + 1 + n100 * 100 + n4 * 4 + n1
      in if n1 = 4 \<or> n100 = 4 then (y - 1, 12, 31)
         else (case month_day (month_lengths (n1 = 3 \<and> (n4 \<noteq> 24 \<or> n100 = 3))) 1 r1 of
                 (m, d) \<Rightarrow> (y, m, d)))"

definition valid_date :: "nat \<Rightarrow> nat \<Rightarrow> nat \<Rightarrow> bool" where
  "valid_date y m d \<longleftrightarrow> 1 \<le> y \<and> 1 \<le> m \<and> m \<le> 12 \<and> 1 \<le> d \<and>
     d \<le> month_lengths (is_leap y) ! (m - 1)"

lemma length_month_lengths [simp]: "length (month_lengths l) = 12"
  by (simp add: month_lengths_def)

lemma sum_month_lengths: "sum_list (month_lengths l) = (if l then 366 else 365)"
  by (simp add: month_lengths_def)

lemma month_day_spec:
  "r < sum_list ls \<Longrightarrow> month_day ls k r = (m, d) \<Longrightarrow>
     k \<le> m \<and> m < k + length ls \<and> 1 \<le> d \<and> d \<le> ls ! (m - k) \<and>
     sum_list (take (m - k) ls) + d = r + 1"
proof (induction ls k r arbitrary: m d rule: month_day.induct)
  case (2 l ls k r)
  show ?case
  proof (cases "r < l")
    case True
    with 2 show ?thesis by auto
  next
    case False
    with 2 have IH: "Suc k \<le> m \<and> m < Suc k + length ls \<and> 1 \<le> d \<and> d \<le> ls ! (m - Suc k) \<and>
        sum_list (take (m - Suc k) ls) + d = r - l + 1"
      by simp
    moreover from IH have "m - k = Suc (m - Suc k)" by arith
    ultimately show ?thesis using False by auto
  qed
qed simp

lemma mod_eq_0_top: "0 < x \<Longrightarrow> x \<le> k \<Longrightarrow> x mod k = 0 \<longleftrightarrow> x = (k :: nat)"
  by (cases "x = k") auto

lemma days_before_year_split:
  assumes "n100 \<le> 3" "n4 \<le> 24" "n1 \<le> 3" and y: "y = n400 * 400 + 1 + n100 * 100 + n4 * 4 + n1"
  shows "days_before_year y = 146097 * n400 + 36524 * n100 + 1461 * n4 + 365 * n1"
    and "is_leap y \<longleftrightarrow> n1 = 3 \<and> (n4 \<noteq> 24 \<or> n100 = 3)"
proof -
  have d4: "(y - 1) div 4 = n400 * 100 + n100 * 25 + n4" using assms by simp
  have d100: "(y - 1) div 100 = n400 * 4 + n100" using assms by simp
  have d400: "(y - 1) div 400 = n400" using assms by simp
  show "days_before_year y = 146097 * n400 + 36524 * n100 + 1461 * n4 + 365 * n1"
    unfolding days_before_year_def d4 d100 d400 using y by simp
  have "y = (1 + n1) + (n400 * 100 + n100 * 25 + n4) * 4" by (simp add: y)
  then have "y mod 4 = (1 + n1) mod 4" by (metis mod_mult_self1)
  then have m4: "y mod 4 = 0 \<longleftrightarrow> n1 = 3"
    using assms(3) mod_eq_0_top [of "1 + n1" 4] by simp
  have "y = (1 + n4 * 4 + n1) + (n400 * 4 + n100) * 100" by (simp add: y)
  then have "y mod 100 = (1 + n4 * 4 + n1) mod 100" by (metis mod_mult_self1)
  then have m100: "y mod 100 = 0 \<longleftrightarrow> 1 + n4 * 4 + n1 = 100"
    using assms(2,3) mod_eq_0_top [of "1 + n4 * 4 + n1" 100] by simp
  have "y = (1 + n100 * 100 + n4 * 4 + n1) + n400 * 400" by (simp add: y)
  then have "y mod 400 = (1 + n100 * 100 + n4 * 4 + n1) mod 400" by (metis mod_mult_self1)
  then have m400: "y mod 400 = 0 \<longleftrightarrow> 1 + n100 * 100 + n4 * 4 + n1 = 400"
    using assms(1-3) mod_eq_0_top [of "1 + n100 * 100 + n4 * 4 + n1" 400] by simp
  show "is_leap y \<longleftrightarrow> n1 = 3 \<and> (n4 \<noteq> 24 \<or> n100 = 3)"
    unfolding is_leap_def m4 m100 m400 using assms(1-3) by auto
qed

theorem ord2ymd_roundtrip:
  assumes "1 \<le> n" and "ord2ymd n = (y, m, d)"
  shows "ymd2ord y m d = n \<and> valid_date y m d"
proof -
  define n0 where "n0 = n - 1"
  define n400 where "n400 = n0 div 146097"
  define r400 where "r400 = n0 mod 146097"
  define n100 where "n100 = r400 div 36524"
  define r100 where "r100 = r400 mod 36524"
  define n4 where "n4 = r100 div 1461"
  define r4 where "r4 = r100 mod 1461"
  define n1 where "n1 = r4 div 365"
  define r1 where "r1 = r4 mod 365"
  note defs = n400_def r400_def n100_def r100_def n4_def r4_def n1_def r1_def
  define yy where "yy = n400 * 400 + 1 + n100 * 100 + n4 * 4 + n1"
  have split: "n = 1 + 146097 * n400 + r400" "r400 = 36524 * n100 + r100"
    "r100 = 1461 * n4 + r4" "r4 = 365 * n1 + r1"
    using assms(1) by (auto simp: defs n0_def)
  have bounds: "r400 < 146097" "r100 < 36524" "r4 < 1461" "r1 < 365"
    by (simp_all add: defs)
  then have small: "n100 \<le> 4" "n4 \<le> 24" "n1 \<le> 4" using split by auto
  have eq: "(y, m, d) = (if n1 = 4 \<or> n100 = 4 then (yy - 1, 12, 31)
      else (case month_day (month_lengths (n1 = 3 \<and> (n4 \<noteq> 24 \<or> n100 = 3))) 1 r1 of
              (m, d) \<Rightarrow> (yy, m, d)))"
    using assms(2) [unfolded ord2ymd_def Let_def, folded n0_def, folded n400_def r400_def,
        folded n100_def r100_def, folded n4_def r4_def, folded n1_def r1_def, folded yy_def]
    by simp
  show ?thesis
  proof (cases "n100 = 4")
    case True
    with split bounds have r: "r100 = 0" by linarith
    with split have n: "n4 = 0" "n1 = 0" by auto
    have y: "y = n400 * 400 + 1 + 3 * 100 + 24 * 4 + 3" using True eq n by (simp add: yy_def)
    have "days_before_year y = 146097 * n400 + 36524 * 3 + 1461 * 24 + 365 * 3" "is_leap y"
      using days_before_year_split [of 3 24 3 y n400] y by auto
    moreover have "1 \<le> y" using y by simp
    ultimately show ?thesis using True eq r n split
      by (auto simp: ymd2ord_def valid_date_def month_lengths_def)
  next
    case n100: False
    show ?thesis
    proof (cases "n1 = 4")
      case True
      with split bounds have "r1 = 0" "n4 \<noteq> 24" by linarith+
      then have r: "r1 = 0" "n4 \<noteq> 24 \<or> n100 = 3" by auto
      have y: "y = n400 * 400 + 1 + n100 * 100 + n4 * 4 + 3" using True eq by (simp add: yy_def)
      have "days_before_year y = 146097 * n400 + 36524 * n100 + 1461 * n4 + 365 * 3" "is_leap y"
        using days_before_year_split [of n100 n4 3 y n400] y small n100 r by auto
      with True eq r split y show ?thesis
        by (auto simp: ymd2ord_def valid_date_def month_lengths_def)
    next
      case False
      then have n1: "n1 \<le> 3" and n100': "n100 \<le> 3" using small n100 by auto
      obtain m' d' where md: "month_day (month_lengths (n1 = 3 \<and> (n4 \<noteq> 24 \<or> n100 = 3))) 1 r1 = (m', d')"
        by fastforce
      have ymd: "y = yy" "m = m'" "d = d'" using eq False n100 md by auto
      have dby: "days_before_year yy = 146097 * n400 + 36524 * n100 + 1461 * n4 + 365 * n1"
        and leap: "is_leap yy \<longleftrightarrow> n1 = 3 \<and> (n4 \<noteq> 24 \<or> n100 = 3)"
        using days_before_year_split [OF n100' small(2) n1 yy_def] by auto
      have "r1 < sum_list (month_lengths (n1 = 3 \<and> (n4 \<noteq> 24 \<or> n100 = 3)))"
        using bounds by (simp add: sum_month_lengths)
      from month_day_spec [OF this md] leap dby split ymd show ?thesis
        by (auto simp: ymd2ord_def valid_date_def yy_def)
    qed
  qed
qed

section \<open>The ISO text\<close>

primrec pad :: "nat \<Rightarrow> nat \<Rightarrow> string" where
  "pad 0 n = []"
| "pad (Suc k) n = pad k (n div 10) @ [digit_char (n mod 10)]"

definition time_ordinal :: "time \<Rightarrow> nat" where
  "time_ordinal t = nat (t div us_per_day + 719163)"

text \<open>The times that \<open>datetime\<close> can represent: the years 1 to 9999.\<close>

definition time_ok :: "time \<Rightarrow> bool" where
  "time_ok t \<longleftrightarrow> - 719162 * us_per_day \<le> t \<and> t < 2932897 * us_per_day"

definition isoformat :: "time \<Rightarrow> string" where
  "isoformat t =
     (case ord2ymd (time_ordinal t) of (y, m, d) \<Rightarrow>
      let us = nat (t mod us_per_day); s = us div 1000000; f = us mod 1000000
      in pad 4 y @ ''-'' @ pad 2 m @ ''-'' @ pad 2 d @ ''T'' @
         pad 2 (s div 3600) @ '':'' @ pad 2 (s div 60 mod 60) @ '':'' @ pad 2 (s mod 60) @
         (if f = 0 then [] else ''.'' @ pad 6 f) @ ''+00:00'')"

definition plain_num :: "string \<Rightarrow> nat option" where
  "plain_num s = (if CHR ''_'' \<in> set s then None else parse_digits 10 0 False s)"

text \<open>The offset at the end of the text: absent, \<open>Z\<close>, or a sign with hours and minutes.\<close>

definition parse_offset :: "string \<Rightarrow> int option option" where
  "parse_offset z =
     (if z = [] then Some None
      else if z = ''Z'' then Some (Some 0)
      else if length z = 6 \<and> z ! 3 = CHR '':'' \<and> z ! 0 \<in> {CHR ''+'', CHR ''-''} then
        (case (plain_num (take 2 (drop 1 z)), plain_num (drop 4 z)) of
           (Some h, Some m) \<Rightarrow>
             if h < 24 \<and> m < 60 then
               Some (Some ((if z ! 0 = CHR ''-'' then -1 else 1) * int (h * 3600 + m * 60)))
             else None
         | _ \<Rightarrow> None)
      else None)"

definition parse_fraction :: "string \<Rightarrow> (nat \<times> string) option" where
  "parse_fraction r =
     (if py_startswith r ''.'' then
        map_option (\<lambda>f. (f, drop 7 r)) (plain_num (take 6 (drop 1 r)))
      else Some (0, r))"

text \<open>
  \<open>fromisoformat\<close> returns the local wall clock time and the offset, absent for a naive time.
\<close>

definition fromisoformat :: "string \<Rightarrow> (time \<times> int option) option" where
  "fromisoformat s =
     (if length s < 19 \<or> s ! 4 \<noteq> CHR ''-'' \<or> s ! 7 \<noteq> CHR ''-'' \<or> s ! 13 \<noteq> CHR '':'' \<or>
         s ! 16 \<noteq> CHR '':'' then None
      else (case (plain_num (take 4 s), plain_num (take 2 (drop 5 s)), plain_num (take 2 (drop 8 s)),
                  plain_num (take 2 (drop 11 s)), plain_num (take 2 (drop 14 s)),
                  plain_num (take 2 (drop 17 s)), parse_fraction (drop 19 s)) of
              (Some y, Some m, Some d, Some hh, Some mi, Some ss, Some (f, z)) \<Rightarrow>
                (case parse_offset z of
                   None \<Rightarrow> None
                 | Some off \<Rightarrow>
                     if valid_date y m d \<and> hh < 24 \<and> mi < 60 \<and> ss < 60 then
                       Some ((int (ymd2ord y m d) - 719163) * us_per_day +
                             int (hh * 3600 + mi * 60 + ss) * us_per_second + int f, off)
                     else None)
            | _ \<Rightarrow> None))"

definition instant_of :: "time \<times> int option \<Rightarrow> time" where
  "instant_of p = fst p - (case snd p of None \<Rightarrow> 0 | Some off \<Rightarrow> off * us_per_second)"

lemma length_pad [simp]: "length (pad k n) = k"
  by (induction k arbitrary: n) auto

lemma parse_pad: "0 < k \<Longrightarrow> n < 10 ^ k \<Longrightarrow> parse_digits 10 0 False (pad k n) = Some n"
proof (induction k arbitrary: n)
  case (Suc k)
  show ?case
  proof (cases k)
    case 0
    with Suc.prems show ?thesis using digit_char_neq(1) [of n] by simp
  next
    case (Suc j)
    with Suc.prems have "n div 10 < 10 ^ k" by (simp add: less_mult_imp_div_less)
    with Suc Suc.IH have "parse_digits 10 0 False (pad k (n div 10) @ [digit_char (n mod 10)])
        = Some (n div 10 * 10 + n mod 10)"
      by (intro parse_digits_snoc) auto
    then show ?thesis by (simp add: div_mult_mod_eq)
  qed
qed simp

lemma pad_chars: "c \<in> set (pad k n) \<Longrightarrow> \<exists>d<10. c = digit_char d"
proof (induction k arbitrary: n)
  case (Suc k)
  moreover have "\<exists>d<10. digit_char (n mod 10) = digit_char d" by (rule exI [of _ "n mod 10"]) simp
  ultimately show ?case by auto
qed simp

lemma plain_num_pad: "0 < k \<Longrightarrow> n < 10 ^ k \<Longrightarrow> plain_num (pad k n) = Some n"
proof -
  assume k: "0 < k" "n < 10 ^ k"
  have "CHR ''_'' \<notin> set (pad k n)"
  proof
    assume "CHR ''_'' \<in> set (pad k n)"
    then obtain e where "e < 10" "CHR ''_'' = digit_char e" using pad_chars by blast
    then show False using digit_char_neq(1) [of e] by simp
  qed
  then show ?thesis using parse_pad [OF k] by (simp add: plain_num_def)
qed

definition iso_text :: "nat \<Rightarrow> nat \<Rightarrow> nat \<Rightarrow> nat \<Rightarrow> nat \<Rightarrow> nat \<Rightarrow> nat \<Rightarrow> string" where
  "iso_text y m d hh mi ss f = pad 4 y @ ''-'' @ pad 2 m @ ''-'' @ pad 2 d @ ''T'' @
     pad 2 hh @ '':'' @ pad 2 mi @ '':'' @ pad 2 ss @
     (if f = 0 then [] else ''.'' @ pad 6 f) @ ''+00:00''"

lemma parse_offset_utc: "parse_offset ''+00:00'' = Some (Some 0)"
  by (simp add: parse_offset_def plain_num_def digit_val_def)

lemma parse_fraction_iso:
  "f < 1000000 \<Longrightarrow>
     parse_fraction ((if f = 0 then [] else ''.'' @ pad 6 f) @ ''+00:00'') = Some (f, ''+00:00'')"
  using plain_num_pad [of 6 f] by (auto simp: parse_fraction_def py_startswith_def)

lemma fromisoformat_iso_text:
  assumes "y < 10000" "m < 100" "d < 100" "hh < 24" "mi < 60" "ss < 60" "f < 1000000"
    and "valid_date y m d"
  shows "fromisoformat (iso_text y m d hh mi ss f) =
    Some ((int (ymd2ord y m d) - 719163) * us_per_day +
          int (hh * 3600 + mi * 60 + ss) * us_per_second + int f, Some 0)"
proof -
  let ?tail = "(if f = 0 then [] else ''.'' @ pad 6 f) @ ''+00:00''"
  have nums: "plain_num (pad 4 y) = Some y" "plain_num (pad 2 m) = Some m"
    "plain_num (pad 2 d) = Some d" "plain_num (pad 2 hh) = Some hh"
    "plain_num (pad 2 mi) = Some mi" "plain_num (pad 2 ss) = Some ss"
    using assms by (simp_all add: plain_num_pad)
  have shape: "iso_text y m d hh mi ss f = pad 4 y @ CHR ''-'' # pad 2 m @ CHR ''-'' # pad 2 d @
      CHR ''T'' # pad 2 hh @ CHR '':'' # pad 2 mi @ CHR '':'' # pad 2 ss @ ?tail"
    by (simp add: iso_text_def)
  have tail: "parse_fraction ?tail = Some (f, ''+00:00'')"
    using assms(7) by (rule parse_fraction_iso)
  define tl where "tl = ?tail"
  show ?thesis
    unfolding fromisoformat_def shape tl_def [symmetric]
    using nums tail [folded tl_def] assms parse_offset_utc
    by (simp add: nth_append nth_Cons')
qed

lemma days_before_10000: "10000 \<le> y \<Longrightarrow> 3652059 \<le> days_before_year y"
  unfolding days_before_year_def by (cases "y = 10000") (simp, linarith)

theorem isoformat_roundtrip:
  assumes "time_ok t"
  shows "fromisoformat (isoformat t) = Some (t, Some 0)"
proof -
  obtain y m d where ymd: "ord2ymd (time_ordinal t) = (y, m, d)" by (metis prod_cases3)
  define us where "us = nat (t mod us_per_day)"
  define s where "s = us div 1000000"
  have day: "- 719162 \<le> t div us_per_day" "t div us_per_day < 2932897"
    using assms by (auto simp: time_ok_def us_per_day_def)
  then have n: "1 \<le> time_ordinal t" "int (time_ordinal t) = t div us_per_day + 719163"
    by (simp_all add: time_ordinal_def)
  have date: "ymd2ord y m d = time_ordinal t" "valid_date y m d"
    using ord2ymd_roundtrip [OF n(1) ymd] by auto
  have "days_before_year y < time_ordinal t"
    using date by (auto simp: ymd2ord_def valid_date_def)
  then have y: "y < 10000" using days_before_10000 [of y] n(2) day by linarith
  have len: "\<And>i. i < 12 \<Longrightarrow> month_lengths (is_leap y) ! i \<le> 31"
    by (auto simp: month_lengths_def less_Suc_eq numeral_eq_Suc)
  have "m - 1 < 12" "d \<le> month_lengths (is_leap y) ! (m - 1)"
    using date(2) by (auto simp: valid_date_def)
  with len [of "m - 1"] have "d \<le> 31" by linarith
  then have md: "m < 100" "d < 100" using date(2) by (simp_all add: valid_date_def)
  have us: "us < 86400000000" "int us = t mod us_per_day"
    by (simp_all add: us_def us_per_day_def nat_less_iff)
  have "isoformat t = iso_text y m d (s div 3600) (s div 60 mod 60) (s mod 60) (us mod 1000000)"
    by (simp add: isoformat_def ymd iso_text_def Let_def us_def s_def)
  moreover have "s div 3600 < 24" using us by (simp add: s_def div_mult2_eq [symmetric])
  moreover have "s = s div 3600 * 3600 + s div 60 mod 60 * 60 + s mod 60"
  proof -
    have "s div 3600 * 60 + s div 60 mod 60 = s div 60"
      using div_mult_mod_eq [of "s div 60" 60] by (simp add: div_mult2_eq [symmetric])
    then show ?thesis using div_mult_mod_eq [of s 60] by linarith
  qed
  ultimately have "fromisoformat (isoformat t) =
      Some ((t div us_per_day) * us_per_day + int s * us_per_second + int (us mod 1000000), Some 0)"
    using fromisoformat_iso_text [OF y md, of "s div 3600" "s div 60 mod 60" "s mod 60" "us mod 1000000"]
      date n(2) by simp
  moreover have "int s * us_per_second + int (us mod 1000000) = t mod us_per_day"
    using us(2) by (simp add: s_def us_per_second_def zdiv_int zmod_int)
  moreover have "t div us_per_day * us_per_day + t mod us_per_day = t" by (rule div_mult_mod_eq)
  ultimately show ?thesis by (simp add: add.assoc)
qed

lemma instant_of_isoformat: "time_ok t \<Longrightarrow> map_option instant_of (fromisoformat (isoformat t)) = Some t"
  by (simp add: isoformat_roundtrip instant_of_def)

end
