(* ===== verification/Domain.thy ===== *)
theory Domain
  imports Json PyTime
begin

text \<open>
  The vocabulary every component shares: the enumerations of \<open>app/domain/enums.py\<close> with their
  stored texts, the domain errors of \<open>app/domain/errors.py\<close> with their HTTP status and detail,
  the exceptions that leave a function of the hub, and the settings of \<open>app/config.py\<close> with their
  defaults and validators.
\<close>

section \<open>Enumerations\<close>

datatype DeliveryStatus = PENDING | DELIVERING | DELIVERED | RETRYING | FAILED | REPLAYING

datatype PartnerStatus = ACTIVE | SUSPENDED | PROVISIONING

datatype EndpointDirection = OUTBOUND | INBOUND

datatype EndpointStatus = ACTIVE | PAUSED | DISABLED

datatype DeliveryDirection = OUTBOUND

datatype DeadLetterReason = MAX_ATTEMPTS_EXCEEDED | NON_RETRYABLE_ERROR | MANUAL_PURGE

datatype HubRole = HUB_ADMIN | HUB_OPERATOR | HUB_VIEWER

datatype SigningSecretStatus = PRIMARY | PREVIOUS | REVOKED

datatype PayloadSchemaStatus = ACTIVE | DEPRECATED

datatype ReplayApprovalStatus = PENDING | APPROVED | REJECTED

fun delivery_status_value :: "DeliveryStatus \<Rightarrow> string" where
  "delivery_status_value DeliveryStatus.PENDING = ''pending''"
| "delivery_status_value DELIVERING = ''delivering''"
| "delivery_status_value DELIVERED = ''delivered''"
| "delivery_status_value RETRYING = ''retrying''"
| "delivery_status_value FAILED = ''failed''"
| "delivery_status_value REPLAYING = ''replaying''"

definition all_delivery_statuses :: "DeliveryStatus list" where
  "all_delivery_statuses =
     [DeliveryStatus.PENDING, DELIVERING, DELIVERED, RETRYING, FAILED, REPLAYING]"

fun dead_letter_reason_value :: "DeadLetterReason \<Rightarrow> string" where
  "dead_letter_reason_value MAX_ATTEMPTS_EXCEEDED = ''max_attempts_exceeded''"
| "dead_letter_reason_value NON_RETRYABLE_ERROR = ''non_retryable_error''"
| "dead_letter_reason_value MANUAL_PURGE = ''manual_purge''"

fun hub_role_value :: "HubRole \<Rightarrow> string" where
  "hub_role_value HUB_ADMIN = ''hub_admin''"
| "hub_role_value HUB_OPERATOR = ''hub_operator''"
| "hub_role_value HUB_VIEWER = ''hub_viewer''"

fun replay_approval_status_value :: "ReplayApprovalStatus \<Rightarrow> string" where
  "replay_approval_status_value ReplayApprovalStatus.PENDING = ''pending''"
| "replay_approval_status_value APPROVED = ''approved''"
| "replay_approval_status_value REJECTED = ''rejected''"

text \<open>\<open>HubRole(text)\<close>: the member with that value, or a \<open>ValueError\<close>.\<close>

definition hub_role_of :: "string \<Rightarrow> HubRole option" where
  "hub_role_of s = find (\<lambda>r. hub_role_value r = s) [HUB_ADMIN, HUB_OPERATOR, HUB_VIEWER]"

lemma hub_role_of_value [simp]: "hub_role_of (hub_role_value r) = Some r"
  by (cases r) (simp_all add: hub_role_of_def)

lemma hub_role_of_Some: "hub_role_of s = Some r \<Longrightarrow> s = hub_role_value r"
  by (auto simp: hub_role_of_def split: if_splits)

lemma delivery_status_value_inj [simp]:
  "delivery_status_value a = delivery_status_value b \<longleftrightarrow> a = b"
  by (cases a; cases b) simp_all

section \<open>Errors\<close>

datatype HubError =
    PartnerNotFoundError
  | DeliveryNotFoundError
  | ReplayApprovalNotFoundError
  | PartnerInactiveError
  | SchemaValidationFailedError
  | NoActiveEndpointError string
  | IdempotencyConflictError
  | DeliveryNotReplayableError string
  | ReplayApprovalNotPendingError string

fun hub_error_status :: "HubError \<Rightarrow> int" where
  "hub_error_status PartnerNotFoundError = 404"
| "hub_error_status DeliveryNotFoundError = 404"
| "hub_error_status ReplayApprovalNotFoundError = 404"
| "hub_error_status PartnerInactiveError = 422"
| "hub_error_status SchemaValidationFailedError = 422"
| "hub_error_status (NoActiveEndpointError _) = 422"
| "hub_error_status IdempotencyConflictError = 409"
| "hub_error_status (DeliveryNotReplayableError _) = 409"
| "hub_error_status (ReplayApprovalNotPendingError _) = 409"

fun hub_error_detail :: "HubError \<Rightarrow> string" where
  "hub_error_detail PartnerNotFoundError = ''Partner not found.''"
| "hub_error_detail DeliveryNotFoundError = ''Delivery not found.''"
| "hub_error_detail ReplayApprovalNotFoundError = ''Replay approval not found.''"
| "hub_error_detail PartnerInactiveError = ''Partner is not active.''"
| "hub_error_detail SchemaValidationFailedError = ''payload does not match registered schema''"
| "hub_error_detail (NoActiveEndpointError event_type) =
     ''No active outbound endpoint for event_type: '' @ event_type"
| "hub_error_detail IdempotencyConflictError = ''Idempotency conflict; retry.''"
| "hub_error_detail (DeliveryNotReplayableError current_status) =
     ''Delivery cannot be replayed from status: '' @ current_status @ ''.''"
| "hub_error_detail (ReplayApprovalNotPendingError current_status) =
     ''Replay approval is not pending: '' @ current_status @ ''.''"

text \<open>What can leave a function as an exception, beside the domain errors.\<close>

datatype exn =
    HubExn HubError
  | HTTPException int string
  | ValueError string
  | TypeError
  | KeyError string
  | IndexError
  | IntegrityError
  | MultipleResultsFound
  | MissingGreenlet
  | RedisError
  | KafkaError
  | HttpxError string
  | SecretDecryptionError
  | SchemaValidationError
  | RequestValidationError string
  | SystemExit string

section \<open>Settings\<close>


record settings =
  fernet_key :: string
  admin_bootstrap_token :: string
  hub_max_attempts_default :: int
  hub_backoff_base_seconds :: int
  hub_backoff_multiplier :: int
  hub_backoff_max_seconds :: int
  hub_inbound_timestamp_tolerance :: int
  hub_http_connect_timeout_ms :: int
  hub_http_read_timeout_ms :: int
  hub_idempotency_ttl_hours :: int
  hub_circuit_failure_threshold :: int
  hub_circuit_window_seconds :: int
  hub_circuit_open_seconds :: int
  hub_rate_limit_rps_default :: int
  hub_secret_rotation_overlap_hours :: int
  hub_sla_seconds_default :: int
  hub_dlq_age_alert_seconds :: int
  hub_max_payload_bytes :: int
  hub_replay_approval_required :: bool

definition default_settings :: settings where
  "default_settings = \<lparr>
     fernet_key = [], admin_bootstrap_token = [],
     hub_max_attempts_default = 8,
     hub_backoff_base_seconds = 30,
     hub_backoff_multiplier = 2,
     hub_backoff_max_seconds = 3600,
     hub_inbound_timestamp_tolerance = 300,
     hub_http_connect_timeout_ms = 3000,
     hub_http_read_timeout_ms = 10000,
     hub_idempotency_ttl_hours = 24,
     hub_circuit_failure_threshold = 10,
     hub_circuit_window_seconds = 60,
     hub_circuit_open_seconds = 300,
     hub_rate_limit_rps_default = 100,
     hub_secret_rotation_overlap_hours = 24,
     hub_sla_seconds_default = 60,
     hub_dlq_age_alert_seconds = 3600,
     hub_max_payload_bytes = 256 * 1024,
     hub_replay_approval_required = False\<rparr>"

text \<open>The validator of the bootstrap token: empty, or at least 32 bytes for HS256.\<close>

definition hmac_secret_min_length :: "string \<Rightarrow> exn + string" where
  "hmac_secret_min_length v =
     (if v \<noteq> [] \<and> length (utf8_encode v) < 32
      then Inl (ValueError (''ADMIN_BOOTSTRAP_TOKEN must be at least 32 bytes for HS256 (RFC 7518 '' @
              [CHR 0xA7] @ ''3.2)''))
      else Inr v)"

end
