(* ===== verification/Models.thy ===== *)
theory Models
  imports Domain
begin

text \<open>
  The tables of \<open>app/domain/models\<close> and the constraints they declare. A row is a record with the
  columns of the ORM class (status columns carry the enumeration, JSONB columns the JSON value);
  a table is the list of its rows in insertion order; the database is the record of all tables.
  A column the server or the ORM fills on INSERT is an option where an object that was never
  stored (the copies of the accept-path cache) leaves it \<open>None\<close>. \<open>constraints_ok\<close> is what
  PostgreSQL enforces: primary keys, unique constraints and foreign keys.
\<close>

section \<open>Rows\<close>

record partner =
  p_id :: int
  p_public_id :: uuid
  p_slug :: string
  p_name :: string
  p_status :: PartnerStatus
  p_sla_seconds :: int
  p_auto_replay_enabled :: bool
  p_circuit_breaker_config :: json
  p_rate_limit_rps :: int
  p_signing_secret_encrypted :: "bytes option"
  p_created_at :: "time option"
  p_updated_at :: "time option"

record partner_endpoint =
  ep_id :: uuid
  ep_partner_id :: int
  ep_direction :: EndpointDirection
  ep_url :: string
  ep_event_types :: "string list"
  ep_status :: EndpointStatus
  ep_sla_seconds :: "int option"
  ep_max_attempts :: int
  ep_backoff_policy :: json
  ep_retry_on_status_codes :: "int list"
  ep_timeout_connect_ms :: int
  ep_timeout_read_ms :: int
  ep_created_at :: "time option"
  ep_updated_at :: "time option"

record delivery =
  d_id :: int
  d_public_id :: uuid
  d_partner_id :: int
  d_endpoint_id :: uuid
  d_direction :: DeliveryDirection
  d_event_type :: string
  d_idempotency_key :: string
  d_payload :: json
  d_payload_hash :: string
  d_status :: DeliveryStatus
  d_attempt_count :: int
  d_max_attempts :: int
  d_next_retry_at :: "time option"
  d_first_success_at :: "time option"
  d_sla_deadline_at :: time
  d_sla_breached :: bool
  d_last_error_code :: "string option"
  d_last_error_message :: "string option"
  d_correlation_id :: string
  d_source_event_id :: "string option"
  d_created_at :: "time option"
  d_updated_at :: "time option"

record delivery_attempt =
  at_id :: uuid
  at_delivery_id :: int
  at_attempt_number :: int
  at_requested_at :: time
  at_responded_at :: "time option"
  at_http_status_code :: "int option"
  at_response_headers :: "(string \<times> string) list"
  at_response_body :: string
  at_error_type :: "string option"
  at_duration_ms :: "int option"
  at_created_at :: "time option"

record dead_letter =
  dl_id :: uuid
  dl_delivery_id :: int
  dl_partner_id :: int
  dl_reason :: DeadLetterReason
  dl_last_http_status :: "int option"
  dl_last_error_message :: string
  dl_kafka_offset :: "int option"
  dl_acknowledged_at :: "time option"
  dl_acknowledged_by :: "string option"
  dl_created_at :: time

record outbox_event =
  ob_id :: int
  ob_aggregate_type :: string
  ob_aggregate_id :: int
  ob_topic :: string
  ob_message_key :: string
  ob_payload :: json
  ob_created_at :: time
  ob_published_at :: "time option"
  ob_publish_attempts :: int

record inbound_event =
  ie_id :: uuid
  ie_partner_id :: int
  ie_idempotency_key :: string
  ie_event_type :: string
  ie_payload :: json
  ie_payload_hash :: string
  ie_signature_valid :: bool
  ie_signing_secret_version :: "int option"
  ie_received_at :: time
  ie_published_at :: "time option"
  ie_correlation_id :: string

record partner_api_key =
  ak_id :: uuid
  ak_partner_id :: int
  ak_key_prefix :: string
  ak_key_hash :: string
  ak_scopes :: "string list"
  ak_expires_at :: "time option"
  ak_revoked_at :: "time option"
  ak_created_at :: time

record partner_signing_secret =
  ss_id :: uuid
  ss_partner_id :: int
  ss_secret_encrypted :: bytes
  ss_version :: int
  ss_status :: SigningSecretStatus
  ss_valid_from :: time
  ss_valid_until :: "time option"
  ss_created_at :: time

record payload_schema =
  ps_id :: uuid
  ps_event_type :: string
  ps_version :: int
  ps_json_schema :: json
  ps_status :: PayloadSchemaStatus
  ps_created_at :: "time option"
  ps_updated_at :: "time option"

record replay_approval =
  ra_id :: uuid
  ra_delivery_id :: int
  ra_reason :: string
  ra_requested_by :: string
  ra_approved_by :: "string option"
  ra_status :: ReplayApprovalStatus
  ra_created_at :: time
  ra_updated_at :: time

record audit_log =
  al_id :: uuid
  al_actor_id :: string
  al_action :: string
  al_resource_type :: string
  al_resource_id :: uuid
  al_metadata :: "(string \<times> json) list"
  al_created_at :: time

section \<open>The database\<close>

record database =
  db_partners :: "partner list"
  db_endpoints :: "partner_endpoint list"
  db_deliveries :: "delivery list"
  db_attempts :: "delivery_attempt list"
  db_dead_letters :: "dead_letter list"
  db_outbox :: "outbox_event list"
  db_inbound_events :: "inbound_event list"
  db_api_keys :: "partner_api_key list"
  db_signing_secrets :: "partner_signing_secret list"
  db_payload_schemas :: "payload_schema list"
  db_replay_approvals :: "replay_approval list"
  db_audit_logs :: "audit_log list"

definition empty_database :: database where
  "empty_database = \<lparr>db_partners = [], db_endpoints = [], db_deliveries = [], db_attempts = [],
     db_dead_letters = [], db_outbox = [], db_inbound_events = [], db_api_keys = [],
     db_signing_secrets = [], db_payload_schemas = [], db_replay_approvals = [],
     db_audit_logs = []\<rparr>"

text \<open>The constraints, table by table; \<open>references\<close> is a foreign key.\<close>

definition references :: "('a \<Rightarrow> 'k) \<Rightarrow> 'a list \<Rightarrow> ('b \<Rightarrow> 'k) \<Rightarrow> 'b list \<Rightarrow> bool" where
  "references fk rows pk targets \<longleftrightarrow> list_all (\<lambda>r. fk r \<in> set (map pk targets)) rows"

definition partners_ok :: "database \<Rightarrow> bool" where
  "partners_ok db \<longleftrightarrow> unique_on p_id (db_partners db) \<and> unique_on p_public_id (db_partners db)
     \<and> unique_on p_slug (db_partners db)"

definition endpoints_ok :: "database \<Rightarrow> bool" where
  "endpoints_ok db \<longleftrightarrow> unique_on ep_id (db_endpoints db)
     \<and> references ep_partner_id (db_endpoints db) p_id (db_partners db)"

definition deliveries_ok :: "database \<Rightarrow> bool" where
  "deliveries_ok db \<longleftrightarrow> unique_on d_id (db_deliveries db)
     \<and> unique_on d_public_id (db_deliveries db)
     \<and> unique_on (\<lambda>d. (d_partner_id d, d_idempotency_key d)) (db_deliveries db)
     \<and> references d_partner_id (db_deliveries db) p_id (db_partners db)
     \<and> references d_endpoint_id (db_deliveries db) ep_id (db_endpoints db)"

definition attempts_ok :: "database \<Rightarrow> bool" where
  "attempts_ok db \<longleftrightarrow> unique_on at_id (db_attempts db)
     \<and> unique_on (\<lambda>a. (at_delivery_id a, at_attempt_number a)) (db_attempts db)
     \<and> references at_delivery_id (db_attempts db) d_id (db_deliveries db)"

definition dead_letters_ok :: "database \<Rightarrow> bool" where
  "dead_letters_ok db \<longleftrightarrow> unique_on dl_id (db_dead_letters db)
     \<and> unique_on dl_delivery_id (db_dead_letters db)
     \<and> references dl_delivery_id (db_dead_letters db) d_id (db_deliveries db)
     \<and> references dl_partner_id (db_dead_letters db) p_id (db_partners db)"

definition outbox_ok :: "database \<Rightarrow> bool" where
  "outbox_ok db \<longleftrightarrow> unique_on ob_id (db_outbox db)"

definition inbound_events_ok :: "database \<Rightarrow> bool" where
  "inbound_events_ok db \<longleftrightarrow> unique_on ie_id (db_inbound_events db)
     \<and> unique_on (\<lambda>e. (ie_partner_id e, ie_idempotency_key e)) (db_inbound_events db)
     \<and> references ie_partner_id (db_inbound_events db) p_id (db_partners db)"

definition keys_and_secrets_ok :: "database \<Rightarrow> bool" where
  "keys_and_secrets_ok db \<longleftrightarrow> unique_on ak_id (db_api_keys db)
     \<and> references ak_partner_id (db_api_keys db) p_id (db_partners db)
     \<and> unique_on ss_id (db_signing_secrets db)
     \<and> references ss_partner_id (db_signing_secrets db) p_id (db_partners db)"

definition payload_schemas_ok :: "database \<Rightarrow> bool" where
  "payload_schemas_ok db \<longleftrightarrow> unique_on ps_id (db_payload_schemas db)
     \<and> unique_on (\<lambda>s. (ps_event_type s, ps_version s)) (db_payload_schemas db)"

definition journals_ok :: "database \<Rightarrow> bool" where
  "journals_ok db \<longleftrightarrow> unique_on ra_id (db_replay_approvals db)
     \<and> references ra_delivery_id (db_replay_approvals db) d_id (db_deliveries db)
     \<and> unique_on al_id (db_audit_logs db)"

definition constraints_ok :: "database \<Rightarrow> bool" where
  "constraints_ok db \<longleftrightarrow> partners_ok db \<and> endpoints_ok db \<and> deliveries_ok db \<and> attempts_ok db
     \<and> dead_letters_ok db \<and> outbox_ok db \<and> inbound_events_ok db \<and> keys_and_secrets_ok db
     \<and> payload_schemas_ok db \<and> journals_ok db"

lemmas table_ok_defs = partners_ok_def endpoints_ok_def deliveries_ok_def attempts_ok_def
  dead_letters_ok_def outbox_ok_def inbound_events_ok_def keys_and_secrets_ok_def
  payload_schemas_ok_def journals_ok_def

lemma references_Nil [simp]: "references fk [] pk targets"
  by (simp add: references_def)

lemma references_append [table_simps]:
  "references fk (rows @ rs) pk targets \<longleftrightarrow> references fk rows pk targets \<and> references fk rs pk targets"
  by (simp add: references_def)

lemma references_put_row:
  assumes "\<And>x. x \<in> set targets \<Longrightarrow> key x = key r \<Longrightarrow> pk x = pk r"
  shows "references fk rows pk (put_row key r targets) = references fk rows pk targets"
  using map_put_row_same [of targets key r pk] assms by (simp add: references_def)

lemma references_target_mono:
  "references fk rows pk targets \<Longrightarrow> references fk rows pk (targets @ rest)"
  by (auto simp: references_def list_all_iff)

lemma constraints_ok_empty: "constraints_ok empty_database"
  by (simp add: constraints_ok_def table_ok_defs empty_database_def)

end
