(* ===== verification/AcceptCache.thy ===== *)
theory AcceptCache
  imports Models
begin

text \<open>
  The process-local cache of \<open>app/domain/services/accept_path_cache.py\<close>: a dict from keys to an
  expiry on the monotonic clock and a value. The operations are functions of the cache and the
  clock. A \<open>ttl_cache\<close> is the contract the accept path relies on (a read returns the last write
  while it lives, and nothing once the key is invalidated); the interpretation shows the dict keeps
  it. The key lemmas show that the three kinds of keys never collide, so that invalidating one
  partner's endpoints drops no other partner's.
\<close>

datatype cache_value =
    CachedPartner partner
  | CachedSchema payload_schema
  | SchemaAbsent
  | CachedEndpoints "partner_endpoint list"

type_synonym cache = "string \<Rightarrow> (time \<times> cache_value) option"

definition DEFAULT_TTL :: time where
  "DEFAULT_TTL = 30 * us_per_second"

section \<open>Operations\<close>

definition cache_get :: "time \<Rightarrow> string \<Rightarrow> cache \<Rightarrow> cache_value option \<times> cache" where
  "cache_get monotonic key c =
     (case c key of
        None \<Rightarrow> (None, c)
      | Some (expires_at, v) \<Rightarrow>
          if monotonic \<ge> expires_at then (None, c(key := None)) else (Some v, c))"

definition cache_set :: "time \<Rightarrow> string \<Rightarrow> cache_value \<Rightarrow> cache \<Rightarrow> cache" where
  "cache_set monotonic key v c = c(key \<mapsto> (monotonic + DEFAULT_TTL, v))"

definition partner_cache_key :: "uuid \<Rightarrow> string" where
  "partner_cache_key public_id = ''partner:'' @ str_uuid public_id"

definition endpoints_cache_key :: "int \<Rightarrow> string \<Rightarrow> string" where
  "endpoints_cache_key partner_id event_type =
     ''endpoints:'' @ str_int partner_id @ '':'' @ event_type"

definition schema_cache_key :: "string \<Rightarrow> string" where
  "schema_cache_key event_type = ''schema:'' @ event_type"

definition invalidate_endpoints_for_partner :: "int \<Rightarrow> cache \<Rightarrow> cache" where
  "invalidate_endpoints_for_partner partner_id c =
     (let prefix = ''endpoints:'' @ str_int partner_id @ '':''
      in (\<lambda>key. if py_startswith key prefix then None else c key))"

definition invalidate_partner_endpoints :: "int \<Rightarrow> cache \<Rightarrow> cache" where
  "invalidate_partner_endpoints partner_id c = invalidate_endpoints_for_partner partner_id c"

definition invalidate_partner :: "uuid \<Rightarrow> cache \<Rightarrow> cache" where
  "invalidate_partner public_id c =
     (let partner_key = ''partner:'' @ str_uuid public_id;
          partner_id = (case c partner_key of
                          Some (_, CachedPartner p) \<Rightarrow> Some (p_id p)
                        | _ \<Rightarrow> None);
          c1 = c(partner_key := None)
      in case partner_id of
           None \<Rightarrow> c1
         | Some i \<Rightarrow> invalidate_endpoints_for_partner i c1)"

definition invalidate_schema :: "string \<Rightarrow> cache \<Rightarrow> cache" where
  "invalidate_schema event_type c = c(''schema:'' @ event_type := None)"

definition reset_accept_path_cache :: "cache \<Rightarrow> cache" where
  "reset_accept_path_cache c = Map.empty"

text \<open>
  The detached copies that are cached: the columns the constructor call names, the rest unset.
  The copy of a partner never carries its signing secret.
\<close>

definition copy_partner :: "partner \<Rightarrow> partner" where
  "copy_partner p = \<lparr>p_id = p_id p, p_public_id = p_public_id p, p_slug = p_slug p,
     p_name = p_name p, p_status = p_status p, p_sla_seconds = p_sla_seconds p,
     p_auto_replay_enabled = p_auto_replay_enabled p,
     p_circuit_breaker_config = p_circuit_breaker_config p,
     p_rate_limit_rps = p_rate_limit_rps p, p_signing_secret_encrypted = None,
     p_created_at = None, p_updated_at = None\<rparr>"

definition copy_endpoint :: "partner_endpoint \<Rightarrow> partner_endpoint" where
  "copy_endpoint ep = \<lparr>ep_id = ep_id ep, ep_partner_id = ep_partner_id ep,
     ep_direction = ep_direction ep, ep_url = ep_url ep, ep_event_types = ep_event_types ep,
     ep_status = ep_status ep, ep_sla_seconds = ep_sla_seconds ep,
     ep_max_attempts = ep_max_attempts ep, ep_backoff_policy = ep_backoff_policy ep,
     ep_retry_on_status_codes = ep_retry_on_status_codes ep,
     ep_timeout_connect_ms = ep_timeout_connect_ms ep,
     ep_timeout_read_ms = ep_timeout_read_ms ep, ep_created_at = None, ep_updated_at = None\<rparr>"

definition copy_schema :: "payload_schema \<Rightarrow> payload_schema" where
  "copy_schema row = \<lparr>ps_id = ps_id row, ps_event_type = ps_event_type row,
     ps_version = ps_version row, ps_json_schema = ps_json_schema row,
     ps_status = ps_status row, ps_created_at = None, ps_updated_at = None\<rparr>"

definition cache_schema_value :: "payload_schema option \<Rightarrow> cache_value" where
  "cache_schema_value row = (case row of None \<Rightarrow> SchemaAbsent | Some r \<Rightarrow> CachedSchema (copy_schema r))"

definition schema_from_cache :: "cache_value \<Rightarrow> payload_schema option" where
  "schema_from_cache cached = (case cached of CachedSchema r \<Rightarrow> Some r | _ \<Rightarrow> None)"

section \<open>Keys\<close>

lemma partner_cache_key_inj [simp]: "partner_cache_key a = partner_cache_key b \<longleftrightarrow> a = b"
  using str_uuid_inj [of a b] by (auto simp: partner_cache_key_def)

lemma schema_cache_key_inj [simp]: "schema_cache_key a = schema_cache_key b \<longleftrightarrow> a = b"
  by (simp add: schema_cache_key_def)

lemma key_kinds_differ [simp]:
  "partner_cache_key u \<noteq> schema_cache_key t" "schema_cache_key t \<noteq> partner_cache_key u"
  "partner_cache_key u \<noteq> endpoints_cache_key i t" "endpoints_cache_key i t \<noteq> partner_cache_key u"
  "schema_cache_key t \<noteq> endpoints_cache_key i t'" "endpoints_cache_key i t' \<noteq> schema_cache_key t"
  by (simp_all add: partner_cache_key_def schema_cache_key_def endpoints_cache_key_def)

lemma endpoints_cache_key_inj [simp]:
  "endpoints_cache_key i t = endpoints_cache_key j t' \<longleftrightarrow> i = j \<and> t = t'"
  using joined_inj [OF str_int_no_colon str_int_no_colon, of i t j t']
  by (simp add: endpoints_cache_key_def)

lemma invalidate_endpoints_apply:
  "invalidate_endpoints_for_partner i c (partner_cache_key u) = c (partner_cache_key u)"
  "invalidate_endpoints_for_partner i c (schema_cache_key t) = c (schema_cache_key t)"
  "invalidate_endpoints_for_partner i c (endpoints_cache_key j t) =
     (if i = j then None else c (endpoints_cache_key j t))"
  using joined_inj [OF str_int_no_colon str_int_no_colon, of j t i]
  by (auto simp: invalidate_endpoints_for_partner_def Let_def startswith_iff partner_cache_key_def
      schema_cache_key_def endpoints_cache_key_def)

lemma schema_cache_roundtrip [simp]:
  "schema_from_cache (cache_schema_value row) = map_option copy_schema row"
  by (cases row) (simp_all add: schema_from_cache_def cache_schema_value_def)

section \<open>The contract of a cache with a time to live\<close>

locale ttl_cache =
  fixes rd :: "time \<Rightarrow> 'k \<Rightarrow> 'c \<Rightarrow> 'v option \<times> 'c"
    and put :: "time \<Rightarrow> 'k \<Rightarrow> 'v \<Rightarrow> 'c \<Rightarrow> 'c"
    and drop_key :: "'k \<Rightarrow> 'c \<Rightarrow> 'c"
    and ttl :: time
  assumes rd_put: "t \<le> t' \<Longrightarrow> fst (rd t' k (put t k v c)) = (if t' < t + ttl then Some v else None)"
    and rd_put_other: "k' \<noteq> k \<Longrightarrow> fst (rd t' k' (put t k v c)) = fst (rd t' k' c)"
    and rd_rd: "t \<le> t' \<Longrightarrow> fst (rd t' k' (snd (rd t k c))) = fst (rd t' k' c)"
    and rd_drop: "fst (rd t k (drop_key k c)) = None"
    and rd_drop_other: "k' \<noteq> k \<Longrightarrow> fst (rd t k' (drop_key k c)) = fst (rd t k' c)"
begin

text \<open>Reading through the cache: the value kept, or the one the source has, which is then kept.\<close>

definition read_through :: "('k \<Rightarrow> 'v) \<Rightarrow> time \<Rightarrow> 'k \<Rightarrow> 'c \<Rightarrow> 'v \<times> 'c" where
  "read_through src t k c =
     (case rd t k c of (Some v, c') \<Rightarrow> (v, c') | (None, c') \<Rightarrow> (src k, put t k (src k) c'))"

text \<open>Every value the cache would still serve from \<open>t\<close> on is the source's.\<close>

definition coherent :: "('k \<Rightarrow> 'v) \<Rightarrow> time \<Rightarrow> 'c \<Rightarrow> bool" where
  "coherent src t c \<longleftrightarrow> (\<forall>t' k v. t \<le> t' \<longrightarrow> fst (rd t' k c) = Some v \<longrightarrow> v = src k)"

lemma read_through_value: "coherent src t c \<Longrightarrow> fst (read_through src t k c) = src k"
  unfolding read_through_def coherent_def
  by (cases "rd t k c"; cases "fst (rd t k c)") auto

lemma read_through_coherent:
  assumes "coherent src t c"
  shows "coherent src t (snd (read_through src t k c))"
proof (cases "fst (rd t k c)")
  case (Some v)
  then have "snd (read_through src t k c) = snd (rd t k c)"
    by (cases "rd t k c") (simp add: read_through_def)
  then show ?thesis using assms rd_rd by (simp add: coherent_def)
next
  case None
  then have eq: "snd (read_through src t k c) = put t k (src k) (snd (rd t k c))"
    by (cases "rd t k c") (simp add: read_through_def)
  show ?thesis unfolding coherent_def eq
  proof (intro allI impI)
    fix t' k' v
    assume t: "t \<le> t'" and r: "fst (rd t' k' (put t k (src k) (snd (rd t k c)))) = Some v"
    show "v = src k'"
    proof (cases "k' = k")
      case True
      with t r show ?thesis by (simp add: rd_put split: if_splits)
    next
      case False
      with t r have "fst (rd t' k' c) = Some v" by (simp add: rd_put_other rd_rd)
      with assms t show ?thesis by (simp add: coherent_def)
    qed
  qed
qed

text \<open>A change of the source at one key keeps coherence when that key is dropped.\<close>

lemma drop_coherent:
  assumes "coherent src t c" and "\<And>k'. k' \<noteq> k \<Longrightarrow> src' k' = src k'"
  shows "coherent src' t (drop_key k c)"
  unfolding coherent_def
proof (intro allI impI)
  fix t' k' v assume t: "t \<le> t'" and r: "fst (rd t' k' (drop_key k c)) = Some v"
  then have "k' \<noteq> k" using rd_drop by auto
  with r t assms show "v = src' k'" by (simp add: coherent_def rd_drop_other)
qed

end

lemma cache_get_value:
  "fst (cache_get t k c) = (case c k of Some (e, v) \<Rightarrow> if t < e then Some v else None | None \<Rightarrow> None)"
  by (auto simp: cache_get_def split: option.splits)

lemma cache_get_state:
  "snd (cache_get t k c) k' = (case c k of Some (e, v) \<Rightarrow> if t < e \<or> k' \<noteq> k then c k' else None
                               | None \<Rightarrow> c k')"
  by (auto simp: cache_get_def split: option.splits)

interpretation accept: ttl_cache cache_get cache_set "\<lambda>k c. c(k := None)" DEFAULT_TTL
  by unfold_locales
     (auto simp: cache_get_value cache_get_state cache_set_def split: option.splits)

end
