(* ===== verification/RetryPolicy.thy ===== *)
theory RetryPolicy
  imports Domain Complex_Main
begin

text \<open>
  The pure decisions of the outbound pipeline: exponential backoff (\<open>backoff.py\<close>), the retry topic
  of an attempt (\<open>retry_topics.py\<close>), the classification of an HTTP outcome
  (\<open>delivery_attempt.py\<close>) and the SLA clock (\<open>sla_service.py\<close>). Python floats are exact rationals
  here; the delays the worker computes are integers times 0.9, far inside the exact range of a
  double.
\<close>

section \<open>Backoff\<close>

definition compute_delay_seconds ::
  "int \<Rightarrow> int \<Rightarrow> int \<Rightarrow> int \<Rightarrow> rat \<Rightarrow> rat \<Rightarrow> exn + rat" where
  "compute_delay_seconds attempt_number base multiplier max_seconds jitter_pct uniform =
     (if attempt_number < 1 then Inl (ValueError ''attempt_number must be >= 1'')
      else
        let delay_seconds = of_int (min (base * multiplier ^ nat (attempt_number - 1)) max_seconds);
            jitter = delay_seconds * (uniform * 2 - 1) * jitter_pct
        in Inr (delay_seconds + jitter))"

definition default_jitter_pct :: rat where
  "default_jitter_pct = 1 / 10"

text \<open>The unjittered delay.\<close>

definition nominal_delay :: "int \<Rightarrow> int \<Rightarrow> int \<Rightarrow> int \<Rightarrow> int" where
  "nominal_delay attempt_number base multiplier max_seconds =
     min (base * multiplier ^ nat (attempt_number - 1)) max_seconds"

lemma compute_delay_ok:
  "1 \<le> n \<Longrightarrow> compute_delay_seconds n b m mx j u =
     Inr (of_int (nominal_delay n b m mx) * (1 + (2 * u - 1) * j))"
  by (simp add: compute_delay_seconds_def nominal_delay_def Let_def algebra_simps)

lemma nominal_delay_nonneg:
  "0 \<le> b \<Longrightarrow> 0 \<le> m \<Longrightarrow> 0 \<le> mx \<Longrightarrow> 0 \<le> nominal_delay n b m mx"
  by (simp add: nominal_delay_def)

lemma nominal_delay_mono:
  assumes "0 \<le> b" "1 \<le> m" "n \<le> n'"
  shows "nominal_delay n b m mx \<le> nominal_delay n' b m mx"
proof -
  have "m ^ nat (n - 1) \<le> m ^ nat (n' - 1)"
    using assms by (intro power_increasing) auto
  then have "b * m ^ nat (n - 1) \<le> b * m ^ nat (n' - 1)"
    using assms(1) by (rule mult_left_mono)
  then show ?thesis by (simp add: nominal_delay_def min_le_iff_disj)
qed

text \<open>
  Backoff: for an attempt number of at least one, the delay is the exponential delay capped at
  \<open>max_seconds\<close>, off by at most the jitter fraction in either direction, and the unjittered delay does
  not decrease from one attempt to the next; an attempt number below one is refused.
\<close>

lemma backoff_bounds:
  assumes "0 \<le> b" and "1 \<le> m" and "0 \<le> mx" and "0 \<le> j" and "0 \<le> u" and "u \<le> 1"
  shows "(if n < 1 then compute_delay_seconds n b m mx j u = Inl (ValueError ''attempt_number must be >= 1'')
     else \<exists>d. compute_delay_seconds n b m mx j u = Inr d \<and>
       of_int (nominal_delay n b m mx) * (1 - j) \<le> d \<and> d \<le> of_int (nominal_delay n b m mx) * (1 + j) \<and>
       d \<le> of_int mx * (1 + j) \<and> nominal_delay n b m mx \<le> nominal_delay (n + 1) b m mx)"
proof (cases "n < 1")
  case False
  let ?N = "of_int (nominal_delay n b m mx) :: rat"
  have N: "0 \<le> ?N" using nominal_delay_nonneg [of b m mx n] assms by simp
  have NM: "?N \<le> of_int mx" by (simp add: nominal_delay_def)
  have "- j \<le> (2 * u - 1) * j" using mult_right_mono [of "-1" "2 * u - 1" j] assms by simp
  moreover have up: "(2 * u - 1) * j \<le> j" using mult_right_mono [of "2 * u - 1" 1 j] assms by simp
  ultimately have "?N * (1 - j) \<le> ?N * (1 + (2 * u - 1) * j)" "?N * (1 + (2 * u - 1) * j) \<le> ?N * (1 + j)"
    using N by (auto intro: mult_left_mono)
  moreover have "?N * (1 + j) \<le> of_int mx * (1 + j)" using NM assms by (intro mult_right_mono) auto
  then have "?N * (1 + (2 * u - 1) * j) \<le> of_int mx * (1 + j)"
    using calculation(2) by (rule order_trans [rotated])
  ultimately show ?thesis
    using False compute_delay_ok [of n b m mx j u] nominal_delay_mono [of b m n "n + 1" mx] assms by auto
qed (simp add: compute_delay_seconds_def)

lemma backoff_bounds_witness:
  "\<exists>d. compute_delay_seconds 3 30 2 3600 (1 / 10) 1 = Inr d \<and> 108 \<le> d \<and> d \<le> 132"
  using backoff_bounds [of 30 2 3600 "1 / 10" 1 3] by (auto simp: nominal_delay_def)

text \<open>\<open>timedelta(seconds=x)\<close> in microseconds: rounded to the nearest, ties to even.\<close>

definition timedelta_seconds :: "rat \<Rightarrow> int" where
  "timedelta_seconds x =
     (let y = x * 1000000; lo = \<lfloor>y\<rfloor>; r = y - of_int lo
      in if r < 1 / 2 then lo else if 1 / 2 < r then lo + 1
         else if even lo then lo else lo + 1)"

lemma timedelta_of_int [simp]: "timedelta_seconds (of_int n) = n * 1000000"
proof -
  have "(of_int n :: rat) * 1000000 = of_int (n * 1000000)" by simp
  then have "\<lfloor>(of_int n :: rat) * 1000000\<rfloor> = n * 1000000" by (metis floor_of_int)
  then show ?thesis by (simp add: timedelta_seconds_def Let_def)
qed

section \<open>Retry topics\<close>

definition OUTBOUND_RETRY_30S_TOPIC :: string where
  "OUTBOUND_RETRY_30S_TOPIC = ''hub.outbound.retry.30s''"
definition OUTBOUND_RETRY_1M_TOPIC :: string where
  "OUTBOUND_RETRY_1M_TOPIC = ''hub.outbound.retry.1m''"
definition OUTBOUND_RETRY_5M_TOPIC :: string where
  "OUTBOUND_RETRY_5M_TOPIC = ''hub.outbound.retry.5m''"
definition OUTBOUND_RETRY_15M_TOPIC :: string where
  "OUTBOUND_RETRY_15M_TOPIC = ''hub.outbound.retry.15m''"
definition OUTBOUND_RETRY_1H_TOPIC :: string where
  "OUTBOUND_RETRY_1H_TOPIC = ''hub.outbound.retry.1h''"

lemmas retry_topic_defs = OUTBOUND_RETRY_30S_TOPIC_def OUTBOUND_RETRY_1M_TOPIC_def
  OUTBOUND_RETRY_5M_TOPIC_def OUTBOUND_RETRY_15M_TOPIC_def OUTBOUND_RETRY_1H_TOPIC_def

definition OUTBOUND_RETRY_TOPICS :: "string list" where
  "OUTBOUND_RETRY_TOPICS = [OUTBOUND_RETRY_30S_TOPIC, OUTBOUND_RETRY_1M_TOPIC,
     OUTBOUND_RETRY_5M_TOPIC, OUTBOUND_RETRY_15M_TOPIC, OUTBOUND_RETRY_1H_TOPIC]"

definition retry_topic_for :: "int \<Rightarrow> rat \<Rightarrow> string" where
  "retry_topic_for attempt_number delay_seconds =
     (if attempt_number \<le> 2 then OUTBOUND_RETRY_30S_TOPIC
      else if attempt_number = 3 \<and> 45 < delay_seconds \<and> delay_seconds \<le> 90
        then OUTBOUND_RETRY_1M_TOPIC
      else if attempt_number \<le> 4 then OUTBOUND_RETRY_5M_TOPIC
      else if attempt_number \<le> 6 then OUTBOUND_RETRY_15M_TOPIC
      else OUTBOUND_RETRY_1H_TOPIC)"

lemma retry_topic_in: "retry_topic_for n d \<in> set OUTBOUND_RETRY_TOPICS"
  by (simp add: retry_topic_for_def OUTBOUND_RETRY_TOPICS_def)

section \<open>HTTP outcomes\<close>

datatype ResponseClassification = SUCCESS | RETRYABLE | POISON

datatype httpx_error = TimeoutException | ConnectError | NetworkError | OtherHttpxError

definition default_poison_codes :: "int list" where
  "default_poison_codes = [400, 401, 403, 404, 422]"

definition default_retryable_codes :: "int list" where
  "default_retryable_codes = [408, 429]"

definition RESPONSE_BODY_MAX_LEN :: nat where
  "RESPONSE_BODY_MAX_LEN = 4096"

definition truncate_response_body :: "string \<Rightarrow> string" where
  "truncate_response_body s =
     (if length s \<le> RESPONSE_BODY_MAX_LEN then s else take RESPONSE_BODY_MAX_LEN s)"

definition classify_http_outcome ::
  "int option \<Rightarrow> int list \<Rightarrow> httpx_error option \<Rightarrow> ResponseClassification" where
  "classify_http_outcome status_code retry_on_status_codes error =
     (case error of
        Some e \<Rightarrow> if e = TimeoutException \<or> e = ConnectError \<or> e = NetworkError
                  then RETRYABLE else POISON
      | None \<Rightarrow>
        (case status_code of
           None \<Rightarrow> RETRYABLE
         | Some c \<Rightarrow>
             if 200 \<le> c \<and> c < 300 then SUCCESS
             else if c \<ge> 500 then RETRYABLE
             else if set retry_on_status_codes \<noteq> {} then
               (if c \<in> set retry_on_status_codes then RETRYABLE
                else if 400 \<le> c \<and> c < 500 then POISON else POISON)
             else if c \<in> set default_retryable_codes then RETRYABLE
             else if c \<in> set default_poison_codes then POISON
             else if 400 \<le> c \<and> c < 500 then POISON
             else POISON))"

lemma length_truncate: "length (truncate_response_body s) \<le> RESPONSE_BODY_MAX_LEN"
  by (simp add: truncate_response_body_def)

lemma truncate_idem [simp]:
  "truncate_response_body (truncate_response_body s) = truncate_response_body s"
  using length_truncate [of s] by (subst truncate_response_body_def) simp

lemma classify_success:
  "classify_http_outcome sc codes err = SUCCESS \<longleftrightarrow>
     err = None \<and> (\<exists>c. sc = Some c \<and> 200 \<le> c \<and> c < 300)"
  by (auto simp: classify_http_outcome_def split: option.splits)

text \<open>
  Classification of an HTTP outcome: a success is a 2xx answer; retryable are the network errors,
  an answer without status, every 5xx, and otherwise the codes the endpoint lists, or 408 and 429
  when it lists none; everything else is poison.
\<close>

lemma classify_exact:
  "(classify_http_outcome sc codes err = SUCCESS \<longleftrightarrow> err = None \<and> (\<exists>c. sc = Some c \<and> 200 \<le> c \<and> c < 300)) \<and>
   (classify_http_outcome sc codes err = RETRYABLE \<longleftrightarrow>
      err \<in> {Some TimeoutException, Some ConnectError, Some NetworkError} \<or>
      err = None \<and> (sc = None \<or> (\<exists>c. sc = Some c \<and>
        (500 \<le> c \<or> \<not> (200 \<le> c \<and> c < 300) \<and> c \<in> set (if codes = [] then [408, 429] else codes)))))"
  by (cases err; cases sc) (auto simp: classify_http_outcome_def default_retryable_codes_def)

section \<open>The SLA clock\<close>

definition apply_first_success ::
  "time \<Rightarrow> time \<Rightarrow> time option \<Rightarrow> bool \<Rightarrow> time \<times> bool" where
  "apply_first_success now sla_deadline_at first_success_at sla_breached =
     (case first_success_at of
        Some t \<Rightarrow> (t, sla_breached)
      | None \<Rightarrow> (now, sla_breached \<or> now > sla_deadline_at))"

definition deadline_passed_while_open ::
  "time \<Rightarrow> time \<Rightarrow> time option \<Rightarrow> bool \<Rightarrow> bool" where
  "deadline_passed_while_open now sla_deadline_at first_success_at sla_breached =
     (if sla_breached \<or> first_success_at \<noteq> None then False else now > sla_deadline_at)"

end
