(* ===== verification/Ports.thy ===== *)
theory Ports
  imports Models RetryPolicy
begin

text \<open>
  What the hub calls and does not contain: Redis, Kafka, the partners' HTTP servers, Fernet,
  argon2, PyJWT, jsonschema, the random sources and the trace propagator. They are parameters,
  bundled in the record \<open>env\<close>. The laws a proof relies on are the locales \<open>redis_service\<close> and
  \<open>kafka_service\<close>; a theorem that needs one names it as a hypothesis. Each is interpreted here on
  concrete services, so the laws can hold. Random sources are numbered draws; nothing is assumed
  of them but what a theorem states.
\<close>

section \<open>Redis\<close>

text \<open>
  A stored value is a text, or the decimal text of a number (\<open>str(x)\<close> in Python, read back by
  \<open>float\<close> or counted by \<open>INCR\<close>). A command answers, or fails with a \<open>RedisError\<close>.
\<close>

datatype rval = RText string | RNum rat

datatype 'a reply = Fault | Reply 'a

record 'r redis_ops =
  redis_get :: "time \<Rightarrow> string \<Rightarrow> 'r \<Rightarrow> rval option reply \<times> 'r"
  redis_set :: "time \<Rightarrow> string \<Rightarrow> rval \<Rightarrow> bool \<Rightarrow> int option \<Rightarrow> 'r \<Rightarrow> bool reply \<times> 'r"
  redis_incr :: "time \<Rightarrow> string \<Rightarrow> 'r \<Rightarrow> int reply \<times> 'r"
  redis_expire :: "time \<Rightarrow> string \<Rightarrow> int \<Rightarrow> 'r \<Rightarrow> unit reply \<times> 'r"
  redis_delete :: "time \<Rightarrow> string list \<Rightarrow> 'r \<Rightarrow> unit reply \<times> 'r"

text \<open>Whether a key written at \<open>t\<close> with the given expiry is still there at \<open>t'\<close>.\<close>

definition live :: "time \<Rightarrow> int option \<Rightarrow> time \<Rightarrow> bool" where
  "live t ex t' = (case ex of None \<Rightarrow> True | Some n \<Rightarrow> t' < t + n * us_per_second)"

text \<open>
  \<open>view s t k\<close> is what a \<open>GET k\<close> at time \<open>t\<close> shows. A command that answers has its documented
  effect on the view from then on; one that fails may or may not have run, but touches no key
  beside those it names.
\<close>

locale redis_service =
  fixes ops :: "'r redis_ops" and view :: "'r \<Rightarrow> time \<Rightarrow> string \<Rightarrow> rval option"
  assumes get_reply: "redis_get ops t k s = (Reply x, s') \<Longrightarrow> x = view s t k"
    and get_frame: "redis_get ops t k s = (rg, s') \<Longrightarrow> view s' = view s"
    and set_reply: "redis_set ops t k v nx ex s = (Reply b, s') \<Longrightarrow> b = (nx \<longrightarrow> view s t k = None)"
    and set_view: "redis_set ops t k v nx ex s = (Reply b, s') \<Longrightarrow> t \<le> t' \<Longrightarrow>
          view s' t' k = (if b then if live t ex t' then Some v else None else view s t' k)"
    and set_frame: "redis_set ops t k v nx ex s = (rb, s') \<Longrightarrow> k' \<noteq> k \<Longrightarrow> view s' t' k' = view s t' k'"
    and incr_reply: "redis_incr ops t k s = (Reply n, s') \<Longrightarrow>
          n = 1 \<and> view s t k = None \<or> view s t k = Some (RNum (of_int (n - 1)))"
    and incr_view: "redis_incr ops t k s = (Reply n, s') \<Longrightarrow> t \<le> t' \<Longrightarrow>
          view s' t' k = (if view s t k \<noteq> None \<and> view s t' k = None then None
                          else Some (RNum (of_int n)))"
    and incr_frame: "redis_incr ops t k s = (ri, s') \<Longrightarrow> k' \<noteq> k \<Longrightarrow> view s' t' k' = view s t' k'"
    and expire_view: "redis_expire ops t k n s = (Reply u, s') \<Longrightarrow> t \<le> t' \<Longrightarrow>
          view s' t' k = (if live t (Some n) t' then view s t k else None)"
    and expire_frame: "redis_expire ops t k n s = (ru, s') \<Longrightarrow> k' \<noteq> k \<Longrightarrow> view s' t' k' = view s t' k'"
    and delete_view: "redis_delete ops t ks s = (Reply u, s') \<Longrightarrow> k \<in> set ks \<Longrightarrow> t \<le> t' \<Longrightarrow> view s' t' k = None"
    and delete_frame: "redis_delete ops t ks s = (ru, s') \<Longrightarrow> k' \<notin> set ks \<Longrightarrow> view s' t' k' = view s t' k'"

text \<open>
  A service that is up: it answers every command that does not count a non-integer. (Redis refuses an expiry that is
  not positive; the expiries of the hub come from settings whose defaults are.)
\<close>

locale redis_up = redis_service ops view
  for ops :: "'r redis_ops" and view :: "'r \<Rightarrow> time \<Rightarrow> string \<Rightarrow> rval option" +
  assumes get_up: "fst (redis_get ops t k s) \<noteq> Fault"
    and set_up: "fst (redis_set ops t k v nx ex s) \<noteq> Fault"
    and incr_up: "view s t k = None \<or> view s t k = Some (RNum (of_int n)) \<Longrightarrow> fst (redis_incr ops t k s) \<noteq> Fault"
    and expire_up: "fst (redis_expire ops t k n s) \<noteq> Fault"
    and delete_up: "fst (redis_delete ops t ks s) \<noteq> Fault"

text \<open>
  The in-memory service: a map from keys to a value and its optional expiry instant. It answers
  every command, except an \<open>INCR\<close> of a key that does not hold an integer.
\<close>

type_synonym mem_redis = "string \<Rightarrow> (rval \<times> time option) option"

definition mem_view :: "mem_redis \<Rightarrow> time \<Rightarrow> string \<Rightarrow> rval option" where
  "mem_view m t k = (case m k of None \<Rightarrow> None
     | Some (v, None) \<Rightarrow> Some v
     | Some (v, Some e) \<Rightarrow> if t < e then Some v else None)"

definition mem_expiry :: "mem_redis \<Rightarrow> time \<Rightarrow> string \<Rightarrow> time option" where
  "mem_expiry m t k = (case m k of Some (v, Some e) \<Rightarrow> if t < e then Some e else None | _ \<Rightarrow> None)"

definition mem_incr :: "time \<Rightarrow> string \<Rightarrow> mem_redis \<Rightarrow> int reply \<times> mem_redis" where
  "mem_incr t k m = (case mem_view m t k of
     None \<Rightarrow> (Reply 1, m(k \<mapsto> (RNum 1, None)))
   | Some (RText x) \<Rightarrow> (Fault, m)
   | Some (RNum q) \<Rightarrow>
       if q = of_int \<lfloor>q\<rfloor> then (Reply (\<lfloor>q\<rfloor> + 1), m(k \<mapsto> (RNum (q + 1), mem_expiry m t k)))
       else (Fault, m))"

definition mem_redis_ops :: "mem_redis redis_ops" where
  "mem_redis_ops = \<lparr>
     redis_get = (\<lambda>t k m. (Reply (mem_view m t k), m)),
     redis_set = (\<lambda>t k v nx ex m.
        if nx \<and> mem_view m t k \<noteq> None then (Reply False, m)
        else (Reply True, m(k \<mapsto> (v, map_option (\<lambda>n. t + n * us_per_second) ex)))),
     redis_incr = mem_incr,
     redis_expire = (\<lambda>t k n m. (Reply (), m(k := (case mem_view m t k of None \<Rightarrow> None
        | Some v \<Rightarrow> Some (v, Some (t + n * us_per_second)))))),
     redis_delete = (\<lambda>t ks m. (Reply (), \<lambda>k. if k \<in> set ks then None else m k))\<rparr>"

lemma mem_incr_reply:
  "mem_incr t k m = (Reply n, m') \<Longrightarrow>
     n = 1 \<and> mem_view m t k = None \<or> mem_view m t k = Some (RNum (of_int (n - 1)))"
  by (auto simp: mem_incr_def split: option.splits rval.splits if_splits)

lemma mem_incr_view:
  assumes "mem_incr t k m = (Reply n, m')" "t \<le> t'"
  shows "mem_view m' t' k = (if mem_view m t k \<noteq> None \<and> mem_view m t' k = None then None
                             else Some (RNum (of_int n)))"
proof (cases "mem_view m t k")
  case None
  with assms show ?thesis by (auto simp: mem_incr_def mem_view_def)
next
  case (Some v)
  then obtain q where q: "v = RNum q" "q = of_int \<lfloor>q\<rfloor>" "n = \<lfloor>q\<rfloor> + 1"
      "m' = m(k \<mapsto> (RNum (q + 1), mem_expiry m t k))"
    using assms(1) by (auto simp: mem_incr_def split: rval.splits if_splits)
  then have "q + 1 = of_int n" by (metis of_int_1 of_int_add)
  with Some q assms(2) show ?thesis
    by (auto simp: mem_view_def mem_expiry_def split: option.splits if_splits)
qed

lemma mem_incr_frame: "mem_incr t k m = (r, m') \<Longrightarrow> k' \<noteq> k \<Longrightarrow> m' k' = m k'"
  by (auto simp: mem_incr_def split: option.splits rval.splits if_splits)

interpretation mem: redis_service mem_redis_ops mem_view
proof (unfold_locales, goal_cases)
  case (6 t k s n s')
  then show ?case using mem_incr_reply [of t k s n s'] by (auto simp: mem_redis_ops_def)
next
  case (7 t k s n s' t')
  then show ?case using mem_incr_view [of t k s n s' t'] by (simp add: mem_redis_ops_def)
next
  case (8 t k s r s' k' t')
  then show ?case using mem_incr_frame [of t k s r s' k'] by (simp add: mem_redis_ops_def mem_view_def)
qed (auto simp: mem_redis_ops_def mem_view_def live_def split: option.splits if_splits)

interpretation memup: redis_up mem_redis_ops mem_view
  by unfold_locales (auto simp: mem_redis_ops_def mem_incr_def)

text \<open>A Redis that is down: every command fails and changes nothing.\<close>

definition down_redis_ops :: "mem_redis redis_ops" where
  "down_redis_ops = \<lparr>redis_get = (\<lambda>t k m. (Fault, m)), redis_set = (\<lambda>t k v nx ex m. (Fault, m)),
     redis_incr = (\<lambda>t k m. (Fault, m)), redis_expire = (\<lambda>t k n m. (Fault, m)),
     redis_delete = (\<lambda>t ks m. (Fault, m))\<rparr>"

interpretation down: redis_service down_redis_ops mem_view
  by unfold_locales (simp_all add: down_redis_ops_def)

section \<open>Kafka\<close>

record message =
  m_topic :: string
  m_key :: string
  m_value :: json
  m_headers :: "(string \<times> bytes) list"

record 'k kafka_ops =
  kafka_send :: "message \<Rightarrow> 'k \<Rightarrow> unit reply \<times> 'k"

text \<open>
  \<open>send_and_wait\<close> returns once the message is in the log; when it raises, the message may have
  been stored or not.
\<close>

locale kafka_service =
  fixes kops :: "'k kafka_ops" and klog :: "'k \<Rightarrow> message list"
  assumes send_ok: "kafka_send kops m k = (Reply u, k') \<Longrightarrow> klog k' = klog k @ [m]"
    and send_fault: "kafka_send kops m k = (Fault, k') \<Longrightarrow> klog k' = klog k \<or> klog k' = klog k @ [m]"

definition mem_kafka_ops :: "message list kafka_ops" where
  "mem_kafka_ops = \<lparr>kafka_send = (\<lambda>m log. (Reply (), log @ [m]))\<rparr>"

interpretation memk: kafka_service mem_kafka_ops "\<lambda>log. log"
  by unfold_locales (simp_all add: mem_kafka_ops_def)

text \<open>A broker that is down: every send fails and stores nothing.\<close>

definition down_kafka_ops :: "message list kafka_ops" where
  "down_kafka_ops = \<lparr>kafka_send = (\<lambda>m log. (Fault, log))\<rparr>"

interpretation downk: kafka_service down_kafka_ops "\<lambda>log. log"
  by unfold_locales (simp_all add: down_kafka_ops_def)

section \<open>HTTP, randomness and cryptography\<close>

record http_request =
  rq_url :: string
  rq_body :: bytes
  rq_headers :: "(string \<times> string) list"
  rq_timeout_connect_ms :: int
  rq_timeout_read_ms :: int

text \<open>The outcome of a POST: a response, or an httpx exception with its class name.\<close>

datatype http_outcome = HttpResponse int "(string \<times> string) list" string | HttpRaises httpx_error string

record jwt_claims =
  cl_sub :: "json option"
  cl_role :: "json option"

text \<open>\<open>json.loads\<close> of a request body: its value, or one of the two exceptions it raises on bad input.\<close>

datatype json_parse = Parsed json | JSONDecodeError | UnicodeDecodeError

record ('r, 'k) env =
  redis :: "'r redis_ops option"
  producer :: "'k kafka_ops"
  http_post :: "http_request list \<Rightarrow> http_request \<Rightarrow> http_outcome \<times> int"
  uuid7 :: "nat \<Rightarrow> uuid"
  uuid4 :: "nat \<Rightarrow> uuid"
  token_urlsafe :: "nat \<Rightarrow> int \<Rightarrow> string"
  fernet_key_ok :: "string \<Rightarrow> bool"
  fernet_encrypt :: "string \<Rightarrow> nat \<Rightarrow> bytes \<Rightarrow> bytes"
  fernet_decrypt :: "string \<Rightarrow> bytes \<Rightarrow> bytes option"
  argon2_hash :: "nat \<Rightarrow> string \<Rightarrow> string"
  argon2_verify :: "string \<Rightarrow> string \<Rightarrow> bool"
  json_loads :: "bytes \<Rightarrow> json_parse"
  jsonschema_valid :: "json \<Rightarrow> json \<Rightarrow> bool"
  jsonschema_check :: "json \<Rightarrow> bool"
  jwt_decode :: "string \<Rightarrow> string \<Rightarrow> time \<Rightarrow> jwt_claims option"
  trace_headers :: "(string \<times> string) list"

end
