(* ===== verification/World.thy ===== *)
theory World
  imports AcceptCache Ports
begin

text \<open>
  The state the hub's handlers run on and the primitives they use: the SQLAlchemy session (a
  working copy of the database, committed or rolled back as a whole), the clocks, the random
  draws, calls of Redis and Kafka, the accept-path cache, the memo of compiled validators, and the
  metrics of \<open>app/observability/metrics.py\<close>. A handler is a program over \<open>world\<close>; sessions run one
  after the other, so what another process does is a step between two handlers.
\<close>

section \<open>State\<close>

datatype metric =
    Counter string int "(string \<times> string) list"
  | Gauge string int "(string \<times> string) list"

record ('r, 'k) world =
  w_committed :: database
  w_db :: database
  w_seq_partners :: int
  w_seq_deliveries :: int
  w_seq_outbox :: int
  w_clock :: time
  w_monotonic :: time
  w_draws :: nat
  w_redis :: 'r
  w_kafka :: 'k
  w_http :: "http_request list"
  w_metrics :: "metric list"
  w_cache :: cache
  w_validators :: "uuid \<times> int \<Rightarrow> json option"

type_synonym ('r, 'k, 'a) hub = "(('r, 'k) world, exn, 'a) prog"

definition initial_world :: "'r \<Rightarrow> 'k \<Rightarrow> ('r, 'k) world" where
  "initial_world r k = \<lparr>w_committed = empty_database, w_db = empty_database,
     w_seq_partners = 0, w_seq_deliveries = 0, w_seq_outbox = 0, w_clock = 0, w_monotonic = 0,
     w_draws = 0, w_redis = r, w_kafka = k, w_http = [], w_metrics = [], w_cache = Map.empty,
     w_validators = Map.empty\<rparr>"

section \<open>The session\<close>

definition update_db :: "(database \<Rightarrow> database) \<Rightarrow> ('r, 'k, unit) hub" where
  "update_db f = modify (\<lambda>w. w\<lparr>w_db := f (w_db w)\<rparr>)"

text \<open>A flush sends the pending statements: a violated constraint raises \<open>IntegrityError\<close>.\<close>

definition flush :: "('r, 'k, unit) hub" where
  "flush = (\<lambda>w. if constraints_ok (w_db w) then (Inr (), w) else (Inl IntegrityError, w))"

definition commit :: "('r, 'k, unit) hub" where
  "commit = seqE flush (modify (\<lambda>w. w\<lparr>w_committed := w_db w\<rparr>))"

definition rollback :: "('r, 'k, unit) hub" where
  "rollback = modify (\<lambda>w. w\<lparr>w_db := w_committed w\<rparr>)"

text \<open>
  A rollback expires every object attached to the session, whatever \<open>expire_on_commit\<close> says: the next
  read of one of its attributes is a lazy load, which an \<open>AsyncSession\<close> refuses outside an awaited call.
  An object that never was in the session (a copy from the accept cache) keeps its values.
\<close>

definition read_after_rollback :: "bool \<Rightarrow> ('r, 'k, unit) hub" where
  "read_after_rollback attached = (if attached then throw MissingGreenlet else ret ())"

text \<open>
  \<open>async with sessionmaker() as session\<close>: a session starts from the committed state and drops what
  was not committed when it ends, also by an exception.
\<close>

definition with_session :: "('r, 'k, 'a) hub \<Rightarrow> ('r, 'k, 'a) hub" where
  "with_session m = (\<lambda>w. case m (w\<lparr>w_db := w_committed w\<rparr>) of
     (r, w') \<Rightarrow> (r, w'\<lparr>w_db := w_committed w'\<rparr>))"

text \<open>\<open>Result.scalar_one_or_none\<close> and \<open>Result.one_or_none\<close>.\<close>

definition one_or_none :: "'a list \<Rightarrow> ('r, 'k, 'a option) hub" where
  "one_or_none rows = (case rows of [] \<Rightarrow> ret None | [x] \<Rightarrow> ret (Some x)
     | _ \<Rightarrow> throw MultipleResultsFound)"

section \<open>Clocks, draws, services\<close>

definition utcnow :: "('r, 'k, time) hub" where
  "utcnow = gets w_clock"

text \<open>Running a step after the clock moved to \<open>t\<close>.\<close>

definition at_time :: "time \<Rightarrow> ('r, 'k, 'a) hub \<Rightarrow> ('r, 'k, 'a) hub" where
  "at_time t m = (\<lambda>w. m (w\<lparr>w_clock := t\<rparr>))"

definition next_draw :: "('r, 'k, nat) hub" where
  "next_draw = (\<lambda>w. (Inr (w_draws w), w\<lparr>w_draws := Suc (w_draws w)\<rparr>))"

definition generate_uuidv7 :: "('r, 'k) env \<Rightarrow> ('r, 'k, uuid) hub" where
  "generate_uuidv7 e = bindE next_draw (\<lambda>n. ret (uuid7 e n))"

definition call_redis :: "(time \<Rightarrow> 'r \<Rightarrow> 'a reply \<times> 'r) \<Rightarrow> ('r, 'k, 'a) hub" where
  "call_redis f = (\<lambda>w. case f (w_clock w) (w_redis w) of
     (Fault, r) \<Rightarrow> (Inl RedisError, w\<lparr>w_redis := r\<rparr>)
   | (Reply x, r) \<Rightarrow> (Inr x, w\<lparr>w_redis := r\<rparr>))"

text \<open>\<open>try: ... except RedisError: ...\<close>\<close>

definition except_redis :: "('r, 'k, 'a) hub \<Rightarrow> ('r, 'k, 'a) hub \<Rightarrow> ('r, 'k, 'a) hub" where
  "except_redis m h = catchE m (\<lambda>x. if x = RedisError then h else throw x)"

definition send_and_wait :: "('r, 'k) env \<Rightarrow> message \<Rightarrow> ('r, 'k, unit) hub" where
  "send_and_wait e m = (\<lambda>w. case kafka_send (producer e) m (w_kafka w) of
     (Fault, k) \<Rightarrow> (Inl KafkaError, w\<lparr>w_kafka := k\<rparr>)
   | (Reply u, k) \<Rightarrow> (Inr (), w\<lparr>w_kafka := k\<rparr>))"

definition read_cache :: "string \<Rightarrow> ('r, 'k, cache_value option) hub" where
  "read_cache key = (\<lambda>w. case cache_get (w_monotonic w) key (w_cache w) of
     (v, c) \<Rightarrow> (Inr v, w\<lparr>w_cache := c\<rparr>))"

definition write_cache :: "string \<Rightarrow> cache_value \<Rightarrow> ('r, 'k, unit) hub" where
  "write_cache key v = modify (\<lambda>w. w\<lparr>w_cache := cache_set (w_monotonic w) key v (w_cache w)\<rparr>)"

definition update_cache :: "(cache \<Rightarrow> cache) \<Rightarrow> ('r, 'k, unit) hub" where
  "update_cache f = modify (\<lambda>w. w\<lparr>w_cache := f (w_cache w)\<rparr>)"

text \<open>\<open>session.add(AuditLog(...))\<close>: the key is drawn on INSERT, the server stamps the time.\<close>

definition add_audit_log ::
  "('r, 'k) env \<Rightarrow> string \<Rightarrow> string \<Rightarrow> string \<Rightarrow> uuid \<Rightarrow> (string \<times> json) list \<Rightarrow> ('r, 'k, unit) hub" where
  "add_audit_log e actor_id action resource_type resource_id metadata =
     bindE (generate_uuidv7 e) (\<lambda>u. bindE utcnow (\<lambda>now.
     update_db (\<lambda>db. db\<lparr>db_audit_logs := db_audit_logs db @
       [\<lparr>al_id = u, al_actor_id = actor_id, al_action = action, al_resource_type = resource_type,
         al_resource_id = resource_id, al_metadata = metadata, al_created_at = now\<rparr>]\<rparr>)))"

section \<open>Metrics\<close>

definition HUB_METRIC_NAMES :: "string list" where
  "HUB_METRIC_NAMES =
     [''hub_deliveries_total'', ''hub_delivery_attempts_total'', ''hub_delivery_duration_seconds'',
      ''hub_dlq_messages_total'', ''hub_dlq_backlog'', ''hub_dlq_oldest_age_seconds'',
      ''hub_replay_total'', ''hub_circuit_breaker_state'', ''hub_inbound_events_total'',
      ''hub_inbound_duplicate_suppressed_total'', ''hub_rate_limit_rejected_total'',
      ''hub_sla_breaches_total'', ''hub_sla_compliance_ratio'', ''hub_outbox_unpublished'',
      ''hub_kafka_consumer_lag'', ''hub_invalid_transition_total'']"

definition FORBIDDEN_METRIC_ATTRIBUTES :: "string list" where
  "FORBIDDEN_METRIC_ATTRIBUTES = [''delivery_id'', ''correlation_id'', ''trace_id'', ''partner_id'']"

definition validate_metric_attributes :: "(string \<times> string) list \<Rightarrow> exn + (string \<times> string) list" where
  "validate_metric_attributes attributes =
     (case find (\<lambda>key. key \<in> set FORBIDDEN_METRIC_ATTRIBUTES) (map fst attributes) of
        Some key \<Rightarrow> Inl (ValueError (''high-cardinality metric attribute forbidden: '' @ key))
      | None \<Rightarrow> Inr attributes)"

definition emit_metric :: "metric \<Rightarrow> ('r, 'k, unit) hub" where
  "emit_metric m = modify (\<lambda>w. w\<lparr>w_metrics := w_metrics w @ [m]\<rparr>)"

definition record_delivery_metric :: "string \<Rightarrow> (string \<times> string) list \<Rightarrow> int \<Rightarrow> ('r, 'k, unit) hub" where
  "record_delivery_metric metric_name attributes amount =
     (if metric_name \<notin> set HUB_METRIC_NAMES
      then throw (ValueError (''unknown metric name: '' @ metric_name))
      else bindE (liftE (validate_metric_attributes attributes)) (\<lambda>safe.
           emit_metric (Counter metric_name amount safe)))"

definition set_gauge_metric :: "string \<Rightarrow> int \<Rightarrow> (string \<times> string) list \<Rightarrow> ('r, 'k, unit) hub" where
  "set_gauge_metric metric_name amount attributes =
     (if metric_name \<notin> set HUB_METRIC_NAMES
      then throw (ValueError (''unknown metric name: '' @ metric_name))
      else bindE (liftE (validate_metric_attributes attributes)) (\<lambda>safe.
           emit_metric (Gauge metric_name amount safe)))"

section \<open>Evaluation\<close>

lemma update_db_apply [prog_simps, run_simps]: "update_db f w = (Inr (), w\<lparr>w_db := f (w_db w)\<rparr>)"
  by (simp add: update_db_def modify_def)

lemma commit_ok [prog_simps, run_simps]:
  "constraints_ok (w_db w) \<Longrightarrow> commit w = (Inr (), w\<lparr>w_committed := w_db w\<rparr>)"
  by (simp add: commit_def flush_def prog_simps)

lemma commit_violation [prog_simps, run_simps]:
  "\<not> constraints_ok (w_db w) \<Longrightarrow> commit w = (Inl IntegrityError, w)"
  by (simp add: commit_def flush_def prog_simps)

lemma rollback_apply [prog_simps, run_simps]: "rollback w = (Inr (), w\<lparr>w_db := w_committed w\<rparr>)"
  by (simp add: rollback_def modify_def)

lemma read_after_rollback_apply [prog_simps, run_simps]:
  "read_after_rollback attached w = (if attached then Inl MissingGreenlet else Inr (), w)"
  by (simp add: read_after_rollback_def throw_apply ret_apply)

lemma utcnow_apply [prog_simps, run_simps]: "utcnow w = (Inr (w_clock w), w)"
  by (simp add: utcnow_def gets_def)

lemma next_draw_apply [prog_simps, run_simps]: "next_draw w = (Inr (w_draws w), w\<lparr>w_draws := Suc (w_draws w)\<rparr>)"
  by (simp add: next_draw_def)

lemma generate_uuidv7_apply [prog_simps, run_simps]:
  "generate_uuidv7 e w = (Inr (uuid7 e (w_draws w)), w\<lparr>w_draws := Suc (w_draws w)\<rparr>)"
  by (simp add: generate_uuidv7_def next_draw_def bindE_def ret_def)

lemma one_or_none_simps [prog_simps, run_simps]:
  "one_or_none [] = ret None" "one_or_none [x] = ret (Some x)"
  by (simp_all add: one_or_none_def)

lemma write_cache_apply [prog_simps, run_simps]:
  "write_cache key v w = (Inr (), w\<lparr>w_cache := cache_set (w_monotonic w) key v (w_cache w)\<rparr>)"
  by (simp add: write_cache_def modify_def)

lemma update_cache_apply [prog_simps, run_simps]: "update_cache f w = (Inr (), w\<lparr>w_cache := f (w_cache w)\<rparr>)"
  by (simp add: update_cache_def modify_def)

lemma read_cache_apply [prog_simps, run_simps]:
  "read_cache key w = (Inr (fst (cache_get (w_monotonic w) key (w_cache w))),
     w\<lparr>w_cache := snd (cache_get (w_monotonic w) key (w_cache w))\<rparr>)"
  by (simp add: read_cache_def split: prod.splits)

lemma emit_metric_apply [prog_simps, run_simps]: "emit_metric m w = (Inr (), w\<lparr>w_metrics := w_metrics w @ [m]\<rparr>)"
  by (simp add: emit_metric_def modify_def)

text \<open>Every counter and gauge the hub emits has a known name and no forbidden attribute.\<close>

lemma metric_names_known [simp]:
  "''hub_invalid_transition_total'' \<in> set HUB_METRIC_NAMES"
  "''hub_dlq_messages_total'' \<in> set HUB_METRIC_NAMES"
  "''hub_sla_breaches_total'' \<in> set HUB_METRIC_NAMES"
  "''hub_replay_total'' \<in> set HUB_METRIC_NAMES"
  "''hub_circuit_breaker_state'' \<in> set HUB_METRIC_NAMES"
  "''hub_outbox_unpublished'' \<in> set HUB_METRIC_NAMES"
  "''hub_inbound_events_total'' \<in> set HUB_METRIC_NAMES"
  "''hub_inbound_duplicate_suppressed_total'' \<in> set HUB_METRIC_NAMES"
  "''hub_rate_limit_rejected_total'' \<in> set HUB_METRIC_NAMES"
  "''hub_dlq_backlog'' \<in> set HUB_METRIC_NAMES"
  "''hub_dlq_oldest_age_seconds'' \<in> set HUB_METRIC_NAMES"
  by (simp_all add: HUB_METRIC_NAMES_def)

lemma validate_metric_ok:
  "set (map fst attributes) \<inter> set FORBIDDEN_METRIC_ATTRIBUTES = {} \<Longrightarrow>
     validate_metric_attributes attributes = Inr attributes"
  by (auto simp: validate_metric_attributes_def find_None_iff split: option.splits)

lemma metric_attributes_ok [simp]:
  "validate_metric_attributes [] = Inr []"
  "validate_metric_attributes [(''partner_slug'', a)] = Inr [(''partner_slug'', a)]"
  "validate_metric_attributes [(''partner_slug'', a), (''state'', b)] =
     Inr [(''partner_slug'', a), (''state'', b)]"
  "validate_metric_attributes [(''trigger'', b), (''partner_slug'', a)] =
     Inr [(''trigger'', b), (''partner_slug'', a)]"
  by (simp_all add: validate_metric_ok FORBIDDEN_METRIC_ATTRIBUTES_def)

lemma record_delivery_metric_ok [prog_simps, run_simps]:
  "metric_name \<in> set HUB_METRIC_NAMES \<Longrightarrow> validate_metric_attributes attrs = Inr attrs' \<Longrightarrow>
     record_delivery_metric metric_name attrs n = emit_metric (Counter metric_name n attrs')"
  by (rule ext) (simp add: record_delivery_metric_def prog_simps)

lemma set_gauge_metric_ok [prog_simps, run_simps]:
  "metric_name \<in> set HUB_METRIC_NAMES \<Longrightarrow> validate_metric_attributes attrs = Inr attrs' \<Longrightarrow>
     set_gauge_metric metric_name n attrs = emit_metric (Gauge metric_name n attrs')"
  by (rule ext) (simp add: set_gauge_metric_def prog_simps)

lemma except_redis_run [run_simps]:
  "except_redis m h w = (case m w of (r, w') \<Rightarrow> (case r of
     Inl x \<Rightarrow> if x = RedisError then h w' else (Inl x, w') | Inr x \<Rightarrow> (Inr x, w')))"
  by (simp add: except_redis_def catchE_run throw_apply if_distrib [of "\<lambda>f. f _"] split: prod.split sum.split)

lemma except_redis_no_fault [simp]: "fst (except_redis m (ret x) w) \<noteq> Inl RedisError"
  by (auto simp: except_redis_run ret_apply split: prod.split sum.split)

lemma except_redis_ok [prog_simps]: "m w = (Inr x, w') \<Longrightarrow> except_redis m h w = (Inr x, w')"
  by (simp add: except_redis_def prog_simps)

lemma except_redis_fault [prog_simps]: "m w = (Inl RedisError, w') \<Longrightarrow> except_redis m h w = h w'"
  by (simp add: except_redis_def prog_simps)

lemma except_redis_other [prog_simps]:
  "m w = (Inl x, w') \<Longrightarrow> x \<noteq> RedisError \<Longrightarrow> except_redis m h w = (Inl x, w')"
  by (simp add: except_redis_def prog_simps)

lemma redis_update_eq [simp]: "w\<lparr>w_redis := a\<rparr> = w\<lparr>w_redis := b\<rparr> \<longleftrightarrow> a = b"
  by (cases w) simp

text \<open>A call of a Redis that is up, as an equation on the world.\<close>

context redis_up
begin

definition seen :: "('r, 'k) world \<Rightarrow> string \<Rightarrow> rval option" where
  "seen w k = view (w_redis w) (w_clock w) k"

lemma get_eq: "redis_get ops t k s = (Reply (view s t k), snd (redis_get ops t k s))"
  using get_up [of t k s] get_reply [of t k s]
  by (cases "redis_get ops t k s"; cases "fst (redis_get ops t k s)") auto

lemma set_eq: "redis_set ops t k v nx ex s =
    (Reply (nx \<longrightarrow> view s t k = None), snd (redis_set ops t k v nx ex s))"
  using set_up [of t k v nx ex s] set_reply [of t k v nx ex s]
  by (cases "redis_set ops t k v nx ex s"; cases "fst (redis_set ops t k v nx ex s)") auto

lemma delete_eq: "redis_delete ops t ks s = (Reply (), snd (redis_delete ops t ks s))"
  using delete_up [of t ks s]
  by (cases "redis_delete ops t ks s"; cases "fst (redis_delete ops t ks s)") auto

lemma expire_eq: "redis_expire ops t k n s = (Reply (), snd (redis_expire ops t k n s))"
  using expire_up [of t k n s]
  by (cases "redis_expire ops t k n s"; cases "fst (redis_expire ops t k n s)") auto

lemma view_get [simp]: "view (snd (redis_get ops t k s)) = view s"
  using get_frame [of t k s] by (cases "redis_get ops t k s") auto

lemma view_set:
  "t \<le> t' \<Longrightarrow> view (snd (redis_set ops t k v nx ex s)) t' k' =
     (if k' = k \<and> (nx \<longrightarrow> view s t k = None) then if live t ex t' then Some v else None
      else view s t' k')"
  using set_view [OF set_eq [of t k v nx ex s]] set_frame [OF set_eq [of t k v nx ex s]]
  by (cases "k' = k") auto

lemma view_delete:
  "t \<le> t' \<Longrightarrow> view (snd (redis_delete ops t ks s)) t' k' = (if k' \<in> set ks then None else view s t' k')"
  using delete_view [OF delete_eq [of t ks s]] delete_frame [OF delete_eq [of t ks s]] by auto

lemma view_expire:
  "t \<le> t' \<Longrightarrow> view (snd (redis_expire ops t k n s)) t' k' =
     (if k' = k then if live t (Some n) t' then view s t k else None else view s t' k')"
  using expire_view [OF expire_eq [of t k n s]] expire_frame [OF expire_eq [of t k n s]] by auto

lemma call_get: "call_redis (\<lambda>t. redis_get ops t k) w =
    (Inr (seen w k), w\<lparr>w_redis := snd (redis_get ops (w_clock w) k (w_redis w))\<rparr>)"
  using get_eq [of "w_clock w" k "w_redis w"]
  by (auto simp: call_redis_def seen_def split: prod.splits)

lemma call_set: "call_redis (\<lambda>t. redis_set ops t k v nx ex) w =
    (Inr (nx \<longrightarrow> seen w k = None), w\<lparr>w_redis := snd (redis_set ops (w_clock w) k v nx ex (w_redis w))\<rparr>)"
  using set_eq [of "w_clock w" k v nx ex "w_redis w"]
  by (auto simp: call_redis_def seen_def split: prod.splits)

lemma call_delete: "call_redis (\<lambda>t. redis_delete ops t ks) w =
    (Inr (), w\<lparr>w_redis := snd (redis_delete ops (w_clock w) ks (w_redis w))\<rparr>)"
  using delete_eq [of "w_clock w" ks "w_redis w"]
  by (auto simp: call_redis_def split: prod.splits)

lemma call_expire: "call_redis (\<lambda>t. redis_expire ops t k n) w =
    (Inr (), w\<lparr>w_redis := snd (redis_expire ops (w_clock w) k n (w_redis w))\<rparr>)"
  using expire_eq [of "w_clock w" k n "w_redis w"]
  by (auto simp: call_redis_def split: prod.splits)

lemma call_incr:
  assumes "seen w k = None \<and> n = 1 \<or> seen w k = Some (RNum (of_int (n - 1)))"
  shows "call_redis (\<lambda>t. redis_incr ops t k) w =
    (Inr n, w\<lparr>w_redis := snd (redis_incr ops (w_clock w) k (w_redis w))\<rparr>)"
    and "w_clock w \<le> t' \<Longrightarrow> view (snd (redis_incr ops (w_clock w) k (w_redis w))) t' k =
      (if seen w k \<noteq> None \<and> view (w_redis w) t' k = None then None else Some (RNum (of_int n)))"
proof -
  have "fst (redis_incr ops (w_clock w) k (w_redis w)) \<noteq> Fault"
    using assms incr_up [of "w_redis w" "w_clock w" k] unfolding seen_def by blast
  then obtain m where m: "redis_incr ops (w_clock w) k (w_redis w) =
      (Reply m, snd (redis_incr ops (w_clock w) k (w_redis w)))"
    by (cases "redis_incr ops (w_clock w) k (w_redis w)";
        cases "fst (redis_incr ops (w_clock w) k (w_redis w))") auto
  have "m = n" using incr_reply [OF m] assms by (auto simp: seen_def)
  with m show "call_redis (\<lambda>t. redis_incr ops t k) w =
      (Inr n, w\<lparr>w_redis := snd (redis_incr ops (w_clock w) k (w_redis w))\<rparr>)"
    by (auto simp: call_redis_def split: prod.splits)
  show "w_clock w \<le> t' \<Longrightarrow> view (snd (redis_incr ops (w_clock w) k (w_redis w))) t' k =
      (if seen w k \<noteq> None \<and> view (w_redis w) t' k = None then None else Some (RNum (of_int n)))"
    using incr_view [OF m] \<open>m = n\<close> by (simp add: seen_def)
qed

lemma view_incr_other:
  "k' \<noteq> k \<Longrightarrow> view (snd (redis_incr ops t k s)) t' k' = view s t' k'"
  using incr_frame [of t k s] by (cases "redis_incr ops t k s") auto

lemma seen_update [simp]: "seen (w\<lparr>w_redis := r\<rparr>) k = view r (w_clock w) k"
  by (simp add: seen_def)

lemmas redis_eval = call_get call_set call_delete call_expire
lemmas redis_view = view_get view_set view_delete view_expire view_incr_other

end

section \<open>Invariants of the database\<close>

text \<open>
  An invariant of the committed state and the working copy. Everything but \<open>update_db\<close>, \<open>commit\<close>
  and \<open>rollback\<close> keeps each of them.
\<close>

definition on_db :: "(database \<Rightarrow> database \<Rightarrow> bool) \<Rightarrow> ('r, 'k) world \<Rightarrow> bool" where
  "on_db J w \<longleftrightarrow> J (w_committed w) (w_db w)"

lemma on_db_call_redis [keep_intros]: "keeps (on_db J) (call_redis f)"
  by (auto simp: keeps_def call_redis_def on_db_def split: prod.splits reply.splits)

lemma on_db_send [keep_intros]: "keeps (on_db J) (send_and_wait e m)"
  by (auto simp: keeps_def send_and_wait_def on_db_def split: prod.splits reply.splits)

lemma on_db_primitives [keep_intros]:
  "keeps (on_db J) utcnow" "keeps (on_db J) next_draw" "keeps (on_db J) (generate_uuidv7 e)"
  "keeps (on_db J) (read_cache key)" "keeps (on_db J) (write_cache key v)"
  "keeps (on_db J) (update_cache f)" "keeps (on_db J) (emit_metric m)" "keeps (on_db J) flush"
  by (auto simp: keeps_def on_db_def flush_def prog_simps)

lemma on_db_except_redis [keep_intros]:
  "keeps (on_db J) m \<Longrightarrow> keeps (on_db J) h \<Longrightarrow> keeps (on_db J) (except_redis m h)"
  unfolding except_redis_def by (intro keep_intros)

lemma keeps_read_after_rollback [keep_intros]: "keeps I (read_after_rollback attached)"
  by (simp add: keeps_def read_after_rollback_apply)

lemma on_db_one_or_none [keep_intros]: "keeps (on_db J) (one_or_none rows)"
  by (auto simp: one_or_none_def intro: keep_intros split: list.splits)

lemma on_db_metric [keep_intros]:
  "keeps (on_db J) (record_delivery_metric n a v)" "keeps (on_db J) (set_gauge_metric n v a)"
  unfolding record_delivery_metric_def set_gauge_metric_def by (intro keep_intros)+

lemma on_db_update [keep_intros]:
  "(\<And>c d. J c d \<Longrightarrow> J c (f d)) \<Longrightarrow> keeps (on_db J) (update_db f)"
  by (simp add: keeps_def on_db_def prog_simps)

lemma on_db_commit [keep_intros]:
  "(\<And>c d. J c d \<Longrightarrow> constraints_ok d \<Longrightarrow> J d d) \<Longrightarrow> keeps (on_db J) commit"
  by (auto simp: keeps_def on_db_def commit_def flush_def prog_simps seqE_def bindE_def modify_def)

lemma on_db_rollback [keep_intros]: "(\<And>c d. J c d \<Longrightarrow> J c c) \<Longrightarrow> keeps (on_db J) rollback"
  by (auto simp: keeps_def on_db_def prog_simps)

lemma with_session_run:
  "with_session m w = (fst (m (w\<lparr>w_db := w_committed w\<rparr>)),
     (snd (m (w\<lparr>w_db := w_committed w\<rparr>)))\<lparr>w_db := w_committed (snd (m (w\<lparr>w_db := w_committed w\<rparr>)))\<rparr>)"
  by (simp add: with_session_def split: prod.splits)

text \<open>A program that keeps every such predicate leaves both states alone.\<close>

lemma neutral_fields:
  assumes "\<And>J. keeps (on_db J) k"
  shows "w_committed (snd (k w)) = w_committed w \<and> w_db (snd (k w)) = w_db w"
  using keepsD [OF assms [of "\<lambda>c d. c = w_committed w \<and> d = w_db w"], of w] by (simp add: on_db_def)

lemma neutral_run:
  assumes "\<And>J. keeps (on_db J) m" "m w = (r, w')"
  shows "w_db w' = w_db w" "w_committed w' = w_committed w"
  using neutral_fields [OF assms(1), where w = w] assms(2) by simp_all

text \<open>The committed database satisfies its constraints whatever a session does.\<close>

definition committed_ok :: "database \<Rightarrow> database \<Rightarrow> bool" where
  "committed_ok c d \<longleftrightarrow> constraints_ok c"

lemma committed_ok_commit [keep_intros]: "keeps (on_db committed_ok) commit"
  by (rule on_db_commit) (simp add: committed_ok_def)

lemma committed_ok_update [keep_intros]: "keeps (on_db committed_ok) (update_db f)"
  by (rule on_db_update) (simp add: committed_ok_def)

lemma keeps_with_session [keep_intros]:
  fixes m :: "('r, 'k, 'a) hub"
  assumes "keeps (on_db J) m" and "\<And>c d. J c d \<Longrightarrow> J c c"
  shows "keeps (on_db J) (with_session m)"
proof (rule keepsI)
  fix w :: "('r, 'k) world" assume "on_db J w"
  with assms(2) have "on_db J (w\<lparr>w_db := w_committed w\<rparr>)" by (simp add: on_db_def)
  with assms(1) have "on_db J (snd (m (w\<lparr>w_db := w_committed w\<rparr>)))" by (rule keepsD)
  with assms(2) show "on_db J (snd (with_session m w))"
    by (auto simp: with_session_def on_db_def split: prod.splits)
qed

section \<open>A concrete environment\<close>

text \<open>
  In-memory services, partners that answer 200 after a millisecond, and transparent cryptography:
  the instance on which the witnesses run the hub.
\<close>

definition mem_env :: "(mem_redis, message list) env" where
  "mem_env = \<lparr>redis = Some mem_redis_ops, producer = mem_kafka_ops,
     http_post = (\<lambda>_ _. (HttpResponse 200 [] ''ok'', 1000)),
     uuid7 = (\<lambda>n. 2 * word_of_nat n + 1), uuid4 = (\<lambda>n. 2 * word_of_nat n + 1),
     token_urlsafe = (\<lambda>n k. ''token''), fernet_key_ok = (\<lambda>_. True),
     fernet_encrypt = (\<lambda>_ _ p. p), fernet_decrypt = (\<lambda>_ c. Some c),
     argon2_hash = (\<lambda>_ p. p), argon2_verify = (\<lambda>h p. h = p),
     json_loads = (\<lambda>_. Parsed (JObj [(''event_type'', JStr ''order.created''), (''payload'', JObj [])])),
     jsonschema_valid = (\<lambda>_ _. True), jsonschema_check = (\<lambda>_. True),
     jwt_decode = (\<lambda>_ _ _. None), trace_headers = []\<rparr>"

lemma mem_env_simps [simp]:
  "redis mem_env = Some mem_redis_ops" "producer mem_env = mem_kafka_ops"
  "http_post mem_env hist q = (HttpResponse 200 [] ''ok'', 1000)"
  "uuid7 mem_env n = 2 * word_of_nat n + 1"
  "fernet_key_ok mem_env key" "fernet_encrypt mem_env key n p = p" "fernet_decrypt mem_env key p = Some p"
  "argon2_verify mem_env h x \<longleftrightarrow> h = x" "jsonschema_valid mem_env j1 j2" "trace_headers mem_env = []"
  "jsonschema_check mem_env j1" "jwt_decode mem_env a b t = None" "token_urlsafe mem_env n i = ''token''"
  "json_loads mem_env body = Parsed (JObj [(''event_type'', JStr ''order.created''), (''payload'', JObj [])])"
  by (simp_all add: mem_env_def)

lemma mem_env_uuid_nonnil: "uuid7 mem_env n \<noteq> 0"
proof
  assume "uuid7 mem_env n = 0"
  then have "even (2 * word_of_nat n + 1 :: uuid)" by simp
  then show False by simp
qed

text \<open>One active partner with an outbound endpoint and a signing secret.\<close>

definition sample_partner :: partner where
  "sample_partner = \<lparr>p_id = 1, p_public_id = 1, p_slug = ''acme'', p_name = ''Acme'',
     p_status = PartnerStatus.ACTIVE, p_sla_seconds = 60, p_auto_replay_enabled = False,
     p_circuit_breaker_config = JObj [], p_rate_limit_rps = 100, p_signing_secret_encrypted = None,
     p_created_at = Some 0, p_updated_at = Some 0\<rparr>"

definition sample_endpoint :: partner_endpoint where
  "sample_endpoint = \<lparr>ep_id = 2, ep_partner_id = 1, ep_direction = EndpointDirection.OUTBOUND,
     ep_url = ''https://acme.example/hook'', ep_event_types = [''order.created''],
     ep_status = EndpointStatus.ACTIVE, ep_sla_seconds = None, ep_max_attempts = 2,
     ep_backoff_policy = JObj [], ep_retry_on_status_codes = [], ep_timeout_connect_ms = 3000,
     ep_timeout_read_ms = 10000, ep_created_at = Some 0, ep_updated_at = Some 0\<rparr>"

definition sample_secret :: partner_signing_secret where
  "sample_secret = \<lparr>ss_id = 4, ss_partner_id = 1, ss_secret_encrypted = ''old'', ss_version = 1,
     ss_status = PRIMARY, ss_valid_from = 0, ss_valid_until = None, ss_created_at = 0\<rparr>"

definition sample_db :: database where
  "sample_db = empty_database\<lparr>db_partners := [sample_partner], db_endpoints := [sample_endpoint],
     db_signing_secrets := [sample_secret]\<rparr>"

definition sample_world :: "(mem_redis, message list) world" where
  "sample_world = (initial_world (\<lambda>_. None) [])\<lparr>w_committed := sample_db, w_db := sample_db,
     w_seq_partners := 1\<rparr>"

lemmas sample_defs = sample_world_def sample_db_def sample_secret_def sample_endpoint_def
  sample_partner_def initial_world_def empty_database_def

lemma sample_constraints: "constraints_ok sample_db"
  by (simp add: constraints_ok_def table_ok_defs sample_defs references_def unique_on_def)

end
