(* ===== verification/Signing.thy ===== *)
theory Signing
  imports World Sha256
begin

text \<open>
  Signatures and secrets: HMAC signing and verification (\<open>hmac_service.py\<close>), the Fernet wrapper
  (\<open>secrets.py\<close>), API keys (\<open>api_keys.py\<close>) and the rotation of signing secrets with its overlap
  window (\<open>signing_secrets.py\<close>). The lemmas show that a header is accepted exactly when it is the
  signature under one of the secrets inside the time tolerance, and that a rotation keeps one
  primary and at most one previous secret per partner.
\<close>

section \<open>HMAC signatures\<close>

definition SIGNATURE_PREFIX :: string where
  "SIGNATURE_PREFIX = ''sha256=''"

definition signed_payload :: "string \<Rightarrow> bytes \<Rightarrow> bytes" where
  "signed_payload timestamp body = utf8_encode (timestamp @ ''.'') @ body"

definition compute_hex :: "bytes \<Rightarrow> bytes \<Rightarrow> string" where
  "compute_hex secret payload = hmac_hexdigest secret payload"

definition sign :: "bytes \<Rightarrow> string \<Rightarrow> bytes \<Rightarrow> string" where
  "sign secret timestamp body = SIGNATURE_PREFIX @ compute_hex secret (signed_payload timestamp body)"

definition header_hex :: "string \<Rightarrow> string option" where
  "header_hex header =
     (if \<not> py_startswith header SIGNATURE_PREFIX then None
      else Some (drop (length SIGNATURE_PREFIX) header))"

text \<open>\<open>hmac.compare_digest\<close> on texts: a \<open>TypeError\<close> unless both are ASCII.\<close>

definition compare_digest :: "string \<Rightarrow> string \<Rightarrow> exn + bool" where
  "compare_digest a b = (if is_ascii a \<and> is_ascii b then Inr (a = b) else Inl TypeError)"

definition matches_secret :: "bytes \<Rightarrow> bytes \<Rightarrow> string \<Rightarrow> exn + bool" where
  "matches_secret secret payload hex = compare_digest (compute_hex secret payload) hex"

definition verify ::
  "bytes \<Rightarrow> string \<Rightarrow> bytes \<Rightarrow> string \<Rightarrow> int \<Rightarrow> int \<Rightarrow> bytes option \<Rightarrow> exn + bool" where
  "verify secret timestamp body header now tolerance previous_secret =
     (case py_int 10 timestamp of
        None \<Rightarrow> Inl (ValueError ''int'')
      | Some ts \<Rightarrow>
          if \<bar>now - ts\<bar> > tolerance then Inr False
          else (case header_hex header of
                  None \<Rightarrow> Inr False
                | Some hex \<Rightarrow>
                    let payload = signed_payload timestamp body
                    in (case matches_secret secret payload hex of
                          Inl x \<Rightarrow> Inl x
                        | Inr True \<Rightarrow> Inr True
                        | Inr False \<Rightarrow>
                            (case previous_secret of
                               None \<Rightarrow> Inr False
                             | Some prev \<Rightarrow> matches_secret prev payload hex))))"

section \<open>Fernet and API keys\<close>

definition encrypt_signing_secret :: "('r, 'k) env \<Rightarrow> bytes \<Rightarrow> string \<Rightarrow> ('r, 'k, bytes) hub" where
  "encrypt_signing_secret e plaintext key =
     (if \<not> is_ascii key \<or> \<not> fernet_key_ok e key then throw (ValueError ''Fernet key'')
      else bindE next_draw (\<lambda>n. ret (fernet_encrypt e key n plaintext)))"

definition decrypt_signing_secret :: "('r, 'k) env \<Rightarrow> bytes \<Rightarrow> string \<Rightarrow> exn + bytes" where
  "decrypt_signing_secret e encrypted key =
     (if \<not> is_ascii key \<or> \<not> fernet_key_ok e key then Inl (ValueError ''Fernet key'')
      else (case fernet_decrypt e key encrypted of
              None \<Rightarrow> Inl SecretDecryptionError
            | Some p \<Rightarrow> Inr p))"

definition generate_api_key :: "('r, 'k) env \<Rightarrow> ('r, 'k, string \<times> string \<times> string) hub" where
  "generate_api_key e =
     bindE next_draw (\<lambda>n. bindE next_draw (\<lambda>salt.
     let full_key = ''pk_live_'' @ token_urlsafe e n 24;
         prefix = take 16 full_key;
         key_hash = argon2_hash e salt full_key
     in ret (full_key, prefix, key_hash)))"

definition generate_signing_secret :: "('r, 'k) env \<Rightarrow> ('r, 'k, string) hub" where
  "generate_signing_secret e = bindE next_draw (\<lambda>n. ret (''whsec_'' @ token_urlsafe e n 32))"

definition extract_prefix :: "string \<Rightarrow> string" where
  "extract_prefix full_key = take 16 full_key"

definition verify_api_key :: "('r, 'k) env \<Rightarrow> string \<Rightarrow> string \<Rightarrow> bool" where
  "verify_api_key e full_key key_hash = argon2_verify e key_hash full_key"

section \<open>Signing secrets\<close>

definition previous_is_valid :: "partner_signing_secret \<Rightarrow> time \<Rightarrow> bool" where
  "previous_is_valid row now =
     (if ss_status row \<noteq> PREVIOUS then False
      else (case ss_valid_until row of None \<Rightarrow> True | Some u \<Rightarrow> u > now))"

definition insert_primary_signing_secret ::
  "('r, 'k) env \<Rightarrow> int \<Rightarrow> bytes \<Rightarrow> int \<Rightarrow> time \<Rightarrow> ('r, 'k, partner_signing_secret) hub" where
  "insert_primary_signing_secret e partner_id secret_encrypted version current_time =
     bindE (generate_uuidv7 e) (\<lambda>u. bindE utcnow (\<lambda>stamp.
     let row = \<lparr>ss_id = u, ss_partner_id = partner_id, ss_secret_encrypted = secret_encrypted,
                ss_version = version, ss_status = PRIMARY, ss_valid_from = current_time,
                ss_valid_until = None, ss_created_at = stamp\<rparr>
     in seqE (update_db (\<lambda>db. db\<lparr>db_signing_secrets := db_signing_secrets db @ [row]\<rparr>)) (ret row)))"

definition primary_rows :: "int \<Rightarrow> database \<Rightarrow> partner_signing_secret list" where
  "primary_rows partner_id db =
     filter (\<lambda>r. ss_partner_id r = partner_id \<and> ss_status r = PRIMARY) (db_signing_secrets db)"

definition fetch_primary_row :: "int \<Rightarrow> ('r, 'k, partner_signing_secret option) hub" where
  "fetch_primary_row partner_id =
     bindE (gets (\<lambda>w. primary_rows partner_id (w_db w))) one_or_none"

definition previous_rows :: "int \<Rightarrow> database \<Rightarrow> partner_signing_secret list" where
  "previous_rows partner_id db =
     filter (\<lambda>r. ss_partner_id r = partner_id \<and> ss_status r = PREVIOUS) (db_signing_secrets db)"

definition fetch_previous_rows :: "int \<Rightarrow> ('r, 'k, partner_signing_secret list) hub" where
  "fetch_previous_rows partner_id = gets (\<lambda>w. previous_rows partner_id (w_db w))"

text \<open>The loop over the previous rows: the first valid one that decrypts.\<close>

fun first_previous :: "('r, 'k) env \<Rightarrow> string \<Rightarrow> time \<Rightarrow> partner_signing_secret list \<Rightarrow> bytes option" where
  "first_previous e key now [] = None"
| "first_previous e key now (row # rows) =
     (if previous_is_valid row now then
        (case decrypt_signing_secret e (ss_secret_encrypted row) key of
           Inl _ \<Rightarrow> first_previous e key now rows
         | Inr p \<Rightarrow> Some p)
      else first_previous e key now rows)"

text \<open>The Stage 1 column of the partner: unset or empty means no secret.\<close>

definition column_secret :: "('r, 'k) env \<Rightarrow> partner \<Rightarrow> settings \<Rightarrow> bytes option" where
  "column_secret e p stg =
     (case p_signing_secret_encrypted p of
        None \<Rightarrow> None
      | Some c \<Rightarrow> if c = [] then None
                  else (case decrypt_signing_secret e c (fernet_key stg) of
                          Inl _ \<Rightarrow> None
                        | Inr s \<Rightarrow> Some s))"

definition load_inbound_signing_secrets ::
  "('r, 'k) env \<Rightarrow> partner \<Rightarrow> settings \<Rightarrow> time option \<Rightarrow> ('r, 'k, bytes option \<times> bytes option) hub" where
  "load_inbound_signing_secrets e p stg now =
     bindE (case now of Some t \<Rightarrow> ret t | None \<Rightarrow> utcnow) (\<lambda>current_time.
     bindE (fetch_primary_row (p_id p)) (\<lambda>primary_row.
     case primary_row of
       None \<Rightarrow> ret (column_secret e p stg, None)
     | Some row \<Rightarrow>
         (case decrypt_signing_secret e (ss_secret_encrypted row) (fernet_key stg) of
            Inl _ \<Rightarrow> ret (None, None)
          | Inr primary \<Rightarrow>
              bindE (fetch_previous_rows (p_id p)) (\<lambda>rows.
              ret (Some primary, first_previous e (fernet_key stg) current_time rows)))))"

definition load_outbound_primary_secret ::
  "('r, 'k) env \<Rightarrow> partner \<Rightarrow> settings \<Rightarrow> ('r, 'k, bytes option) hub" where
  "load_outbound_primary_secret e p stg =
     bindE (fetch_primary_row (p_id p)) (\<lambda>primary_row.
     case primary_row of
       Some row \<Rightarrow>
         (case decrypt_signing_secret e (ss_secret_encrypted row) (fernet_key stg) of
            Inl _ \<Rightarrow> ret None
          | Inr s \<Rightarrow> ret (Some s))
     | None \<Rightarrow> ret (column_secret e p stg))"

text \<open>
  The rotation. The rows read after the primary was demoted include it (the pending update is
  flushed first), so it is excluded by its key.
\<close>

definition demote :: "partner_signing_secret \<Rightarrow> time \<Rightarrow> partner_signing_secret" where
  "demote row valid_until = row\<lparr>ss_status := PREVIOUS, ss_valid_until := Some valid_until\<rparr>"

definition retire_rows :: "int \<Rightarrow> partner_signing_secret \<Rightarrow> time \<Rightarrow> database \<Rightarrow> database" where
  "retire_rows partner_id current_primary valid_until db =
     (let db1 = db\<lparr>db_signing_secrets :=
                  put_row ss_id (demote current_primary valid_until) (db_signing_secrets db)\<rparr>
      in foldl (\<lambda>d row. if ss_id row \<noteq> ss_id current_primary
                        then d\<lparr>db_signing_secrets :=
                               put_row ss_id (row\<lparr>ss_status := REVOKED\<rparr>) (db_signing_secrets d)\<rparr>
                        else d)
               db1 (previous_rows partner_id db1))"

definition rotate_partner_signing_secret ::
  "('r, 'k) env \<Rightarrow> partner \<Rightarrow> settings \<Rightarrow> string \<Rightarrow> time option \<Rightarrow> ('r, 'k, string) hub" where
  "rotate_partner_signing_secret e p stg actor_id now =
     bindE (case now of Some t \<Rightarrow> ret t | None \<Rightarrow> utcnow) (\<lambda>current_time.
     let overlap = hub_secret_rotation_overlap_hours stg * 3600 * us_per_second in
     bindE (generate_signing_secret e) (\<lambda>plaintext.
     bindE (encrypt_signing_secret e (utf8_encode plaintext) (fernet_key stg)) (\<lambda>encrypted.
     bindE (fetch_primary_row (p_id p)) (\<lambda>current_primary.
     let next_version = (case current_primary of None \<Rightarrow> 1 | Some row \<Rightarrow> ss_version row + 1) in
     seqE (case current_primary of
             None \<Rightarrow> ret ()
           | Some row \<Rightarrow> update_db (retire_rows (p_id p) row (current_time + overlap)))
     (seqE (insert_primary_signing_secret e (p_id p) encrypted next_version current_time)
     (bindE utcnow (\<lambda>stamp.
      seqE (update_db (\<lambda>db. db\<lparr>db_partners :=
             map (\<lambda>q. if p_id q = p_id p
                      then q\<lparr>p_signing_secret_encrypted := Some encrypted, p_updated_at := Some stamp\<rparr>
                      else q) (db_partners db)\<rparr>))
     (seqE (add_audit_log e actor_id ''signing_secret.rotate'' ''partner'' (p_public_id p)
             [(''version'', JInt next_version)])
     (seqE commit
     (ret plaintext))))))))))"

section \<open>Lemmas\<close>

lemma header_hex_iff: "header_hex h = Some x \<longleftrightarrow> h = SIGNATURE_PREFIX @ x"
  by (auto simp: header_hex_def startswith_iff)

lemma header_hex_prefix [simp]: "header_hex (SIGNATURE_PREFIX @ x) = Some x"
  by (simp add: header_hex_iff)

lemma compute_hex_ascii [simp]: "is_ascii (compute_hex s p)"
  by (simp add: compute_hex_def hmac_hexdigest_ascii)

lemma matches_secret_iff: "matches_secret s p hex = Inr True \<longleftrightarrow> hex = compute_hex s p"
  by (auto simp: matches_secret_def compare_digest_def)

lemma retire_rows_table:
  assumes "unique_on ss_id (db_signing_secrets db)" and "r \<in> set (db_signing_secrets db)"
  shows "retire_rows pid r vu db = db\<lparr>db_signing_secrets :=
     map (\<lambda>x. if x = r then demote r vu
              else if ss_partner_id x = pid \<and> ss_status x = PREVIOUS then x\<lparr>ss_status := REVOKED\<rparr>
              else x) (db_signing_secrets db)\<rparr>"
proof -
  define tbl where "tbl = put_row ss_id (demote r vu) (db_signing_secrets db)"
  have u: "unique_on ss_id tbl"
    unfolding tbl_def using assms(1) by (subst unique_on_put_row) auto
  have fold: "foldl (\<lambda>d row. if ss_id row \<noteq> ss_id r
                        then d\<lparr>db_signing_secrets :=
                               put_row ss_id (row\<lparr>ss_status := REVOKED\<rparr>) (db_signing_secrets d)\<rparr>
                        else d) d rows =
      d\<lparr>db_signing_secrets := foldl (\<lambda>t row. if ss_id row \<noteq> ss_id r
                        then put_row ss_id (row\<lparr>ss_status := REVOKED\<rparr>) t else t)
            (db_signing_secrets d) rows\<rparr>" for d rows
    by (induction rows arbitrary: d) auto
  have id: "ss_id x = ss_id r \<longleftrightarrow> x = r" if "x \<in> set (db_signing_secrets db)" for x
    using unique_onD [OF assms(1) that assms(2)] by auto
  show ?thesis
    unfolding retire_rows_def Let_def fold previous_rows_def
    using foldl_put_rows [of ss_id "\<lambda>row. row\<lparr>ss_status := REVOKED\<rparr>" tbl "\<lambda>row. ss_id row \<noteq> ss_id r"
        "\<lambda>row. ss_partner_id row = pid \<and> ss_status row = PREVIOUS"] u
    by (auto simp: tbl_def put_row_def demote_def id)
qed

text \<open>What a successful rotation leaves in the table of secrets.\<close>

lemma rotate_result:
  assumes "primary_rows (p_id p) (w_db w) = [r]" and "unique_on ss_id (db_signing_secrets (w_db w))"
    and "is_ascii (fernet_key stg)" "fernet_key_ok e (fernet_key stg)"
    and "rotate_partner_signing_secret e p stg actor (Some t) w = (Inr plain, w')"
  shows "\<exists>n new. ss_partner_id new = p_id p \<and> ss_status new = PRIMARY \<and>
     ss_version new = ss_version r + 1 \<and>
     ss_secret_encrypted new = fernet_encrypt e (fernet_key stg) n (utf8_encode plain) \<and>
     db_signing_secrets (w_db w') = map (\<lambda>x. if x = r
         then demote r (t + hub_secret_rotation_overlap_hours stg * 3600 * us_per_second)
         else if ss_partner_id x = p_id p \<and> ss_status x = PREVIOUS then x\<lparr>ss_status := REVOKED\<rparr>
         else x) (db_signing_secrets (w_db w)) @ [new] \<and>
     w_committed w' = w_db w'"
proof -
  have r: "r \<in> set (db_signing_secrets (w_db w))" using assms(1)
    by (metis filter_eq_Cons_iff in_set_conv_decomp primary_rows_def)
  show ?thesis
    using assms r
    by (auto simp: rotate_partner_signing_secret_def run_simps Let_def generate_signing_secret_def
        encrypt_signing_secret_def fetch_primary_row_def insert_primary_signing_secret_def
        add_audit_log_def retire_rows_table commit_def flush_def split: if_splits)
qed

lemma retired_rows_views:
  fixes tbl :: "partner_signing_secret list" and vu :: time
  assumes "filter (\<lambda>x. ss_partner_id x = pid \<and> ss_status x = PRIMARY) tbl = [r]"
  defines "retire \<equiv> \<lambda>x. if x = r then demote r vu
      else if ss_partner_id x = pid \<and> ss_status x = PREVIOUS then x\<lparr>ss_status := REVOKED\<rparr> else x"
  shows "filter (\<lambda>x. ss_partner_id x = pid \<and> ss_status x = PRIMARY) (map retire tbl) = []"
    and "filter (\<lambda>x. ss_partner_id x = pid \<and> ss_status x = PREVIOUS) (map retire tbl) = [demote r vu]"
proof -
  have r: "r \<in> set tbl" "ss_partner_id r = pid" "ss_status r = PRIMARY"
    using assms(1) by (auto simp: filter_eq_Cons_iff)
  have prim: "x = r" if "x \<in> set tbl" "ss_partner_id x = pid" "ss_status x = PRIMARY" for x
  proof -
    have "x \<in> set (filter (\<lambda>x. ss_partner_id x = pid \<and> ss_status x = PRIMARY) tbl)" using that by simp
    then show ?thesis unfolding assms(1) by simp
  qed
  show "filter (\<lambda>x. ss_partner_id x = pid \<and> ss_status x = PRIMARY) (map retire tbl) = []"
    unfolding filter_map comp_def
    by (auto simp: filter_empty_conv retire_def demote_def dest: prim split: if_splits)
  have "filter (\<lambda>x. ss_partner_id x = pid \<and> ss_status x = PREVIOUS) (map retire tbl) =
      map retire (filter (\<lambda>x. ss_partner_id x = pid \<and> ss_status x = PRIMARY) tbl)"
    unfolding filter_map comp_def
    by (rule arg_cong [of _ _ "map retire"], rule filter_cong) (auto simp: retire_def demote_def r dest: prim)
  then show "filter (\<lambda>x. ss_partner_id x = pid \<and> ss_status x = PREVIOUS) (map retire tbl) = [demote r vu]"
    by (simp add: assms(1)) (simp add: retire_def)
qed

section \<open>Properties\<close>

lemma verify_true_iff:
  "verify secret timestamp body header now tolerance previous = Inr True \<longleftrightarrow>
     (\<exists>ts. py_int 10 timestamp = Some ts \<and> \<bar>now - ts\<bar> \<le> tolerance \<and>
        (header = sign secret timestamp body \<or>
         (\<exists>prev. previous = Some prev \<and> header = sign prev timestamp body)))"
proof (cases "header_hex header")
  case None
  then have "header \<noteq> sign s timestamp body" for s
    by (metis header_hex_prefix option.distinct(1) sign_def)
  with None show ?thesis
    by (auto simp: verify_def split: option.splits)
next
  case (Some hex)
  have m: "matches_secret s p h = Inr (h = compute_hex s p) \<or> (matches_secret s p h = Inl TypeError \<and> h \<noteq> compute_hex s p)" for s p h
    by (auto simp: matches_secret_def compare_digest_def)
  have fail: "matches_secret s p h = Inl x \<Longrightarrow> \<not> is_ascii h" for s p h x
    by (auto simp: matches_secret_def compare_digest_def split: if_splits)
  from Some have h: "header = SIGNATURE_PREFIX @ hex" by (simp add: header_hex_iff)
  from h m [of secret "signed_payload timestamp body" hex] fail [of secret "signed_payload timestamp body" hex]
  show ?thesis
    by (auto simp: verify_def sign_def Let_def matches_secret_iff
        split: option.splits sum.splits bool.splits)
qed

text \<open>
  C27. A signature header is accepted exactly when the timestamp is an integer within the
  tolerance of the clock and the header is the signature of this timestamp and body under the
  current secret or, while one is valid, the previous secret. In particular what \<open>sign\<close> produces
  verifies, and no other header does.
\<close>

theorem verify_accepts_iff:
  "verify secret timestamp body header now tolerance previous = Inr True \<longleftrightarrow>
     (\<exists>ts. py_int 10 timestamp = Some ts \<and> \<bar>now - ts\<bar> \<le> tolerance \<and>
        (header = sign secret timestamp body \<or>
         (\<exists>prev. previous = Some prev \<and> header = sign prev timestamp body)))"
  by (rule verify_true_iff)

text \<open>
  A signature header with a character outside ASCII is not rejected but raises: inside the
  tolerance, \<open>verify\<close> ends in the \<open>TypeError\<close> of \<open>hmac.compare_digest\<close> instead of returning false.
\<close>

lemma verify_non_ascii_raises:
  assumes "py_int 10 timestamp = Some ts" and "\<bar>now - ts\<bar> \<le> tolerance" and "\<not> is_ascii hex"
  shows "verify secret timestamp body (SIGNATURE_PREFIX @ hex) now tolerance previous = Inl TypeError"
  using assms by (simp add: verify_def Let_def matches_secret_def compare_digest_def)

lemma verify_non_ascii_raises_witness:
  "verify ''k'' ''10'' ''{}'' (SIGNATURE_PREFIX @ [CHR 0xE9]) 12 300 None = Inl TypeError"
  by (rule verify_non_ascii_raises [of _ 10]) (simp_all add: is_ascii_def, code_simp)

text \<open>
  C28. Rotating a signing secret keeps verification working through the overlap: after a
  successful rotation at \<open>t\<close> of a partner with one primary secret, the outbound secret and the
  inbound primary are the new plaintext, the inbound previous secret is the old one until the
  overlap has passed and none afterwards, and the partner has one primary and one previous row.
\<close>

theorem rotation_overlap:
  assumes "primary_rows (p_id p) (w_db w) = [r]" and "unique_on ss_id (db_signing_secrets (w_db w))"
    and "is_ascii (fernet_key stg)" and "fernet_key_ok e (fernet_key stg)"
    and "\<And>n x. fernet_decrypt e (fernet_key stg) (fernet_encrypt e (fernet_key stg) n x) = Some x"
    and "decrypt_signing_secret e (ss_secret_encrypted r) (fernet_key stg) = Inr old"
    and "rotate_partner_signing_secret e p stg actor (Some t) w = (Inr plain, w')"
  shows "fst (load_outbound_primary_secret e p stg w') = Inr (Some (utf8_encode plain)) \<and>
     fst (load_inbound_signing_secrets e p stg (Some t') w') =
       Inr (Some (utf8_encode plain),
            if t' < t + hub_secret_rotation_overlap_hours stg * 3600 * us_per_second then Some old else None) \<and>
     length (primary_rows (p_id p) (w_db w')) = 1 \<and> length (previous_rows (p_id p) (w_db w')) = 1 \<and>
     w_committed w' = w_db w'"
proof -
  obtain n new where new: "ss_partner_id new = p_id p" "ss_status new = PRIMARY"
      "ss_secret_encrypted new = fernet_encrypt e (fernet_key stg) n (utf8_encode plain)"
    and tbl: "db_signing_secrets (w_db w') = map (\<lambda>x. if x = r
         then demote r (t + hub_secret_rotation_overlap_hours stg * 3600 * us_per_second)
         else if ss_partner_id x = p_id p \<and> ss_status x = PREVIOUS then x\<lparr>ss_status := REVOKED\<rparr>
         else x) (db_signing_secrets (w_db w)) @ [new]"
    and c: "w_committed w' = w_db w'"
    using rotate_result [OF assms(1-4,7)] by blast
  have prim: "primary_rows (p_id p) (w_db w') = [new]"
    and prev: "previous_rows (p_id p) (w_db w') =
      [demote r (t + hub_secret_rotation_overlap_hours stg * 3600 * us_per_second)]"
    using retired_rows_views [OF assms(1) [unfolded primary_rows_def]] new tbl
    by (simp_all add: primary_rows_def previous_rows_def)
  have dec: "decrypt_signing_secret e (ss_secret_encrypted new) (fernet_key stg) = Inr (utf8_encode plain)"
    using new(3) assms(3,4,5) by (simp add: decrypt_signing_secret_def)
  show ?thesis
    using prim prev dec c assms(6)
    by (simp add: load_outbound_primary_secret_def load_inbound_signing_secrets_def
        fetch_primary_row_def fetch_previous_rows_def run_simps previous_is_valid_def demote_def)
qed

theorem rotation_overlap_witness:
  "\<exists>w'. rotate_partner_signing_secret mem_env sample_partner default_settings ''ops'' (Some 0) sample_world =
        (Inr ''whsec_token'', w') \<and>
     fst (load_inbound_signing_secrets mem_env sample_partner default_settings (Some 5) w') =
        Inr (Some (utf8_encode ''whsec_token''), Some ''old'')"
proof -
  obtain w' where r: "rotate_partner_signing_secret mem_env sample_partner default_settings ''ops'' (Some 0) sample_world =
      (Inr ''whsec_token'', w')"
    by (simp add: rotate_partner_signing_secret_def run_simps Let_def generate_signing_secret_def
        encrypt_signing_secret_def fetch_primary_row_def insert_primary_signing_secret_def
        add_audit_log_def commit_def flush_def primary_rows_def retire_rows_def previous_rows_def
        demote_def put_row_def default_settings_def is_ascii_def
        constraints_ok_def table_ok_defs references_def unique_on_def sample_defs)
  have "fst (load_inbound_signing_secrets mem_env sample_partner default_settings (Some 5) w') =
      Inr (Some (utf8_encode ''whsec_token''),
        if 5 < 0 + hub_secret_rotation_overlap_hours default_settings * 3600 * us_per_second
        then Some ''old'' else None)"
    using rotation_overlap [OF _ _ _ _ _ _ r, of sample_secret "''old''" 5]
    by (simp add: primary_rows_def decrypt_signing_secret_def default_settings_def is_ascii_def
        unique_on_def sample_defs)
  with r show ?thesis by (simp add: default_settings_def us_per_second_def)
qed

end
