(* ===== verification/Outbox.thy ===== *)
theory Outbox
  imports KafkaProducer Sha256
begin

text \<open>
  Creating deliveries (\<open>app/domain/services/delivery_service.py\<close>) and the transactional outbox
  (\<open>app/domain/services/outbox.py\<close>): one statement inserts the deliveries and, for each of them,
  an outbox row that carries the envelope the relay will publish.
\<close>

section \<open>Deliveries\<close>

definition derived_idempotency_key :: "string \<Rightarrow> uuid \<Rightarrow> string" where
  "derived_idempotency_key client_key endpoint_public_id =
     client_key @ ''::'' @ str_uuid endpoint_public_id"

definition canonical_payload_hash :: "json \<Rightarrow> string" where
  "canonical_payload_hash payload = sha256_hexdigest (utf8_encode (dumps payload))"

definition compute_sla_deadline :: "time \<Rightarrow> partner \<Rightarrow> partner_endpoint \<Rightarrow> time" where
  "compute_sla_deadline now p ep =
     (let secs = (case ep_sla_seconds ep of Some s \<Rightarrow> s | None \<Rightarrow> p_sla_seconds p)
      in now + secs * us_per_second)"

definition fetch_partner_by_public_id :: "uuid \<Rightarrow> ('r, 'k, partner option) hub" where
  "fetch_partner_by_public_id partner_public_id =
     bindE (gets (\<lambda>w. filter (\<lambda>p. p_public_id p = partner_public_id) (db_partners (w_db w)))) one_or_none"

text \<open>The query has no order; its rows come in the order of their insertion.\<close>

definition active_outbound_endpoints :: "int \<Rightarrow> string \<Rightarrow> database \<Rightarrow> partner_endpoint list" where
  "active_outbound_endpoints partner_id event_type db =
     filter (\<lambda>ep. ep_partner_id ep = partner_id \<and> ep_direction ep = EndpointDirection.OUTBOUND \<and>
                  ep_status ep = EndpointStatus.ACTIVE \<and> event_type \<in> set (ep_event_types ep))
            (db_endpoints db)"

definition fetch_active_outbound_endpoints :: "int \<Rightarrow> string \<Rightarrow> ('r, 'k, partner_endpoint list) hub" where
  "fetch_active_outbound_endpoints partner_id event_type =
     gets (\<lambda>w. active_outbound_endpoints partner_id event_type (w_db w))"

definition fetch_deliveries_by_source_event_id :: "int \<Rightarrow> string \<Rightarrow> ('r, 'k, delivery list) hub" where
  "fetch_deliveries_by_source_event_id partner_id source_event_id =
     gets (\<lambda>w. filter (\<lambda>d. d_partner_id d = partner_id \<and> d_source_event_id d = Some source_event_id)
                       (db_deliveries (w_db w)))"

definition fetch_delivery_by_idempotency :: "int \<Rightarrow> string \<Rightarrow> ('r, 'k, delivery option) hub" where
  "fetch_delivery_by_idempotency partner_id idempotency_key =
     bindE (gets (\<lambda>w. filter (\<lambda>d. d_partner_id d = partner_id \<and> d_idempotency_key d = idempotency_key)
                              (db_deliveries (w_db w)))) one_or_none"

text \<open>
  A delivery that is not stored yet: the identity column is 0 and the public id nil until they are
  assigned (no stored row has either value: identities start at 1 and \<open>uuid7\<close> is never nil).
\<close>

definition build_pending_delivery ::
  "partner \<Rightarrow> partner_endpoint \<Rightarrow> string \<Rightarrow> json \<Rightarrow> string \<Rightarrow> string \<Rightarrow> string \<Rightarrow> time \<Rightarrow> delivery" where
  "build_pending_delivery p ep event_type payload idempotency_key source_event_id correlation_id now =
     \<lparr>d_id = 0, d_public_id = 0, d_partner_id = p_id p, d_endpoint_id = ep_id ep,
      d_direction = DeliveryDirection.OUTBOUND, d_event_type = event_type,
      d_idempotency_key = idempotency_key, d_payload = payload,
      d_payload_hash = canonical_payload_hash payload, d_status = DeliveryStatus.PENDING,
      d_attempt_count = 0, d_max_attempts = ep_max_attempts ep, d_next_retry_at = None,
      d_first_success_at = None, d_sla_deadline_at = compute_sla_deadline now p ep,
      d_sla_breached = False, d_last_error_code = None, d_last_error_message = None,
      d_correlation_id = correlation_id, d_source_event_id = Some source_event_id,
      d_created_at = None, d_updated_at = None\<rparr>"

definition utc_now_from_timestamp :: "int \<Rightarrow> time" where
  "utc_now_from_timestamp now_ts = now_ts * us_per_second"

section \<open>The outbox\<close>

definition ensure_public_id :: "('r, 'k) env \<Rightarrow> delivery \<Rightarrow> ('r, 'k, delivery) hub" where
  "ensure_public_id e d =
     (if d_public_id d = 0 then bindE (generate_uuidv7 e) (\<lambda>u. ret (d\<lparr>d_public_id := u\<rparr>)) else ret d)"

text \<open>INSERT ... RETURNING: the identity column counts on, the server stamps the row.\<close>

primrec assign_ids :: "int \<Rightarrow> time \<Rightarrow> delivery list \<Rightarrow> delivery list" where
  "assign_ids n stamp [] = []"
| "assign_ids n stamp (d # ds) =
     d\<lparr>d_id := n + 1, d_created_at := Some stamp, d_updated_at := Some stamp\<rparr>
       # assign_ids (n + 1) stamp ds"

definition outbox_row :: "int \<Rightarrow> time \<Rightarrow> string \<Rightarrow> int \<Rightarrow> string \<Rightarrow> string \<Rightarrow> json \<Rightarrow> outbox_event" where
  "outbox_row n stamp aggregate_type aggregate_id topic message_key payload =
     \<lparr>ob_id = n, ob_aggregate_type = aggregate_type, ob_aggregate_id = aggregate_id, ob_topic = topic,
      ob_message_key = message_key, ob_payload = payload, ob_created_at = stamp,
      ob_published_at = None, ob_publish_attempts = 0\<rparr>"

text \<open>The join of the inserted rows with the envelopes on the public id.\<close>

definition join_envelopes :: "delivery list \<Rightarrow> (uuid \<times> json) list \<Rightarrow> (int \<times> json) list" where
  "join_envelopes inserted rows =
     concat (map (\<lambda>d. map (\<lambda>r. (d_id d, snd r)) (filter (\<lambda>r. fst r = d_public_id d) rows)) inserted)"

primrec outbox_rows :: "int \<Rightarrow> time \<Rightarrow> string \<Rightarrow> string \<Rightarrow> (int \<times> json) list \<Rightarrow> outbox_event list" where
  "outbox_rows n stamp topic message_key [] = []"
| "outbox_rows n stamp topic message_key (r # rs) =
     outbox_row (n + 1) stamp ''delivery'' (fst r) topic message_key (snd r)
       # outbox_rows (n + 1) stamp topic message_key rs"

text \<open>The statement: it either inserts all rows of both tables or raises.\<close>

definition execute_persist_stmt ::
  "delivery list \<Rightarrow> json list \<Rightarrow> string \<Rightarrow> string \<Rightarrow> ('r, 'k, unit) hub" where
  "execute_persist_stmt rows envelopes message_key topic =
     bindE utcnow (\<lambda>stamp.
     bindE (gets (\<lambda>w. (w_seq_deliveries w, w_seq_outbox w))) (\<lambda>(dn, on).
     let inserted = assign_ids dn stamp rows;
         joined = join_envelopes inserted (zip (map d_public_id rows) envelopes);
         events = outbox_rows on stamp topic message_key joined
     in seqE (modify (\<lambda>w. w\<lparr>w_seq_deliveries := dn + int (length inserted),
                            w_seq_outbox := on + int (length events)\<rparr>))
        (seqE (update_db (\<lambda>db. db\<lparr>db_deliveries := db_deliveries db @ inserted,
                                  db_outbox := db_outbox db @ events\<rparr>))
        flush)))"

definition persist_deliveries_and_outbox ::
  "('r, 'k) env \<Rightarrow> delivery list \<Rightarrow> json list \<Rightarrow> string \<Rightarrow> string \<Rightarrow> ('r, 'k, unit) hub" where
  "persist_deliveries_and_outbox e deliveries envelopes message_key topic =
     (if length deliveries \<noteq> length envelopes
      then throw (ValueError ''envelopes count must match deliveries'')
      else if deliveries = [] then throw (ValueError ''deliveries must not be empty'')
      else bindE (mapE (ensure_public_id e) deliveries) (\<lambda>rows.
           execute_persist_stmt rows envelopes message_key topic))"

definition enqueue_outbox ::
  "string \<Rightarrow> int \<Rightarrow> string \<Rightarrow> json \<Rightarrow> string \<Rightarrow> ('r, 'k, outbox_event) hub" where
  "enqueue_outbox aggregate_type aggregate_id topic payload key =
     bindE utcnow (\<lambda>stamp.
     bindE (gets w_seq_outbox) (\<lambda>n.
     let event = outbox_row (n + 1) stamp aggregate_type aggregate_id topic key payload
     in seqE (modify (\<lambda>w. w\<lparr>w_seq_outbox := n + 1\<rparr>))
        (seqE (update_db (\<lambda>db. db\<lparr>db_outbox := db_outbox db @ [event]\<rparr>))
        (ret event))))"

section \<open>Lemmas\<close>

lemma derived_key_inj [simp]:
  "derived_idempotency_key c a = derived_idempotency_key c b \<longleftrightarrow> a = b"
  by (simp add: derived_idempotency_key_def)

text \<open>The client key can be read off a derived key, since a UUID has a fixed length.\<close>

lemma derived_key_inj2:
  "derived_idempotency_key c a = derived_idempotency_key c' b \<longleftrightarrow> c = c' \<and> a = b"
proof
  assume eq: "derived_idempotency_key c a = derived_idempotency_key c' b"
  have "c @ ''::'' @ str_uuid a = c' @ ''::'' @ str_uuid b" using eq by (simp add: derived_idempotency_key_def)
  moreover have "length (''::'' @ str_uuid a) = length (''::'' @ str_uuid b)" by (simp add: length_str_uuid)
  ultimately have "c = c' \<and> ''::'' @ str_uuid a = ''::'' @ str_uuid b"
    by (metis append_eq_append_conv)
  then show "c = c' \<and> a = b" by simp
qed simp

lemma length_assign_ids [simp]: "length (assign_ids n stamp ds) = length ds"
  by (induction ds arbitrary: n) auto

lemma assign_ids_column:
  assumes "\<And>d i s. f (d\<lparr>d_id := i, d_created_at := Some s, d_updated_at := Some s\<rparr>) = f d"
  shows "map f (assign_ids n stamp ds) = map f ds"
  by (induction ds arbitrary: n) (auto simp: assms)

lemma list_all_assign_ids:
  assumes "\<And>d i s. P (d\<lparr>d_id := i, d_created_at := Some s, d_updated_at := Some s\<rparr>) = P d"
  shows "list_all P (assign_ids n stamp ds) = list_all P ds"
  by (induction ds arbitrary: n) (auto simp: assms)

lemma assign_ids_range: "map d_id (assign_ids n stamp ds) = map (\<lambda>i. n + 1 + int i) [0..<length ds]"
proof (induction ds arbitrary: n)
  case (Cons d ds)
  then show ?case by (simp add: upt_conv_Cons map_Suc_upt [symmetric] del: upt_Suc)
qed simp

lemma outbox_rows_range: "map ob_id (outbox_rows n stamp topic key rs) = map (\<lambda>i. n + 1 + int i) [0..<length rs]"
proof (induction rs arbitrary: n)
  case (Cons r rs)
  then show ?case by (simp add: outbox_row_def upt_conv_Cons map_Suc_upt [symmetric] del: upt_Suc)
qed simp

lemma length_outbox_rows [simp]: "length (outbox_rows n stamp topic key rs) = length rs"
  by (induction rs arbitrary: n) auto

text \<open>With distinct public ids the join pairs every inserted row with its own envelope.\<close>

lemma join_envelopes_zip:
  assumes "unique_on d_public_id ds" "length envs = length ds"
  shows "join_envelopes (assign_ids n stamp ds) (zip (map d_public_id ds) envs) =
     zip (map d_id (assign_ids n stamp ds)) envs"
proof -
  let ?ins = "assign_ids n stamp ds" and ?Z = "zip (map d_public_id ds) envs"
  have pid: "map d_public_id ?ins = map d_public_id ds"
    by (rule assign_ids_column) simp
  have uniq: "unique_on fst ?Z"
    using assms by (simp add: unique_on_def map_fst_zip_take)
  have one: "filter (\<lambda>r. fst r = d_public_id (?ins ! i)) ?Z = [(d_public_id (ds ! i), envs ! i)]"
    if "i < length ds" for i
  proof -
    have "d_public_id (?ins ! i) = d_public_id (ds ! i)"
      using that arg_cong [OF pid, of "\<lambda>l. l ! i"] by simp
    moreover have "(d_public_id (ds ! i), envs ! i) \<in> set ?Z"
      using that assms(2) by (force simp: set_zip)
    ultimately show ?thesis using filter_unique_on [OF uniq] by fastforce
  qed
  have "map (\<lambda>d. map (\<lambda>r. (d_id d, snd r)) (filter (\<lambda>r. fst r = d_public_id d) ?Z)) ?ins =
      map (\<lambda>x. [x]) (zip (map d_id ?ins) envs)"
    by (rule nth_equalityI) (simp_all add: assms(2) one)
  then show ?thesis by (simp add: join_envelopes_def)
qed

text \<open>The world after the statement inserted its rows.\<close>

definition persisted :: "delivery list \<Rightarrow> json list \<Rightarrow> string \<Rightarrow> string \<Rightarrow> ('r, 'k) world \<Rightarrow> ('r, 'k) world" where
  "persisted ds envs key topic w =
     (let inserted = assign_ids (w_seq_deliveries w) (w_clock w) ds;
          events = outbox_rows (w_seq_outbox w) (w_clock w) topic key
                     (join_envelopes inserted (zip (map d_public_id ds) envs))
      in w\<lparr>w_seq_deliveries := w_seq_deliveries w + int (length inserted),
           w_seq_outbox := w_seq_outbox w + int (length events),
           w_db := (w_db w)\<lparr>db_deliveries := db_deliveries (w_db w) @ inserted,
                             db_outbox := db_outbox (w_db w) @ events\<rparr>\<rparr>)"

lemma ensure_public_ids:
  "\<forall>d \<in> set ds. d_public_id d \<noteq> 0 \<Longrightarrow> mapE (ensure_public_id e) ds w = (Inr ds, w)"
  by (induction ds arbitrary: w) (auto simp: run_simps ensure_public_id_def)

lemma persist_run:
  assumes "\<forall>d \<in> set ds. d_public_id d \<noteq> 0" "length ds = length envs" "ds \<noteq> []"
  shows "persist_deliveries_and_outbox e ds envs key topic w =
     (if constraints_ok (w_db (persisted ds envs key topic w)) then Inr () else Inl IntegrityError,
      persisted ds envs key topic w)"
  using assms
  by (simp add: persist_deliveries_and_outbox_def bindE_run ensure_public_ids)
     (simp add: execute_persist_stmt_def run_simps Let_def flush_def persisted_def)

lemma persisted_frame [simp]:
  "w_committed (persisted ds envs key topic w) = w_committed w"
  "w_cache (persisted ds envs key topic w) = w_cache w"
  "w_draws (persisted ds envs key topic w) = w_draws w"
  by (simp_all add: persisted_def Let_def)

text \<open>When the constraints hold, each stored delivery has its own outbox row.\<close>

lemma persisted_pairs:
  assumes "constraints_ok (w_db (persisted ds envs key topic w))" "length envs = length ds"
  defines "ins \<equiv> assign_ids (w_seq_deliveries w) (w_clock w) ds"
  defines "evs \<equiv> outbox_rows (w_seq_outbox w) (w_clock w) topic key (zip (map d_id ins) envs)"
  shows "w_db (persisted ds envs key topic w) =
     (w_db w)\<lparr>db_deliveries := db_deliveries (w_db w) @ ins, db_outbox := db_outbox (w_db w) @ evs\<rparr>"
proof -
  have "unique_on d_public_id (db_deliveries (w_db w) @ ins)"
    using assms(1) by (simp add: constraints_ok_def deliveries_ok_def persisted_def Let_def ins_def)
  then have "unique_on d_public_id ins" by (simp add: unique_on_append)
  moreover have "map d_public_id ins = map d_public_id ds"
    unfolding ins_def by (rule assign_ids_column) simp
  ultimately have "unique_on d_public_id ds" by (simp add: unique_on_def)
  from join_envelopes_zip [OF this assms(2)] show ?thesis
    by (simp add: persisted_def Let_def ins_def evs_def)
qed

lemma outbox_rows_nth:
  "i < length rs \<Longrightarrow> outbox_rows n stamp topic key rs ! i =
     outbox_row (n + 1 + int i) stamp ''delivery'' (fst (rs ! i)) topic key (snd (rs ! i))"
proof (induction rs arbitrary: n i)
  case (Cons r rs)
  then show ?case by (cases i) (auto simp: algebra_simps)
qed simp

text \<open>A stored delivery of the sample partner, in a given status and after a number of attempts.\<close>

definition sample_delivery :: "DeliveryStatus \<Rightarrow> int \<Rightarrow> delivery" where
  "sample_delivery st n =
     (build_pending_delivery sample_partner sample_endpoint ''order.created'' (JObj [])
        (derived_idempotency_key ''k1'' 2) ''k1'' ''c1'' 0)
     \<lparr>d_id := 1, d_public_id := 6, d_status := st, d_attempt_count := n, d_created_at := Some 0,
      d_updated_at := Some 0\<rparr>"

definition with_delivery :: "delivery \<Rightarrow> (mem_redis, message list) world" where
  "with_delivery d = sample_world\<lparr>w_committed := sample_db\<lparr>db_deliveries := [d]\<rparr>,
     w_db := sample_db\<lparr>db_deliveries := [d]\<rparr>, w_seq_deliveries := 1\<rparr>"

lemma sample_delivery_simps [simp]:
  "d_id (sample_delivery st n) = 1" "d_public_id (sample_delivery st n) = 6"
  "d_partner_id (sample_delivery st n) = 1" "d_endpoint_id (sample_delivery st n) = 2"
  "d_status (sample_delivery st n) = st" "d_attempt_count (sample_delivery st n) = n"
  "d_source_event_id (sample_delivery st n) = Some ''k1''"
  "d_idempotency_key (sample_delivery st n) = derived_idempotency_key ''k1'' 2"
  "d_max_attempts (sample_delivery st n) = 2" "d_payload (sample_delivery st n) = JObj []"
  "d_event_type (sample_delivery st n) = ''order.created''" "d_correlation_id (sample_delivery st n) = ''c1''"
  "d_first_success_at (sample_delivery st n) = None" "d_sla_breached (sample_delivery st n) = False"
  "d_sla_deadline_at (sample_delivery st n) = 60000000"
  by (simp_all add: sample_delivery_def build_pending_delivery_def sample_partner_def sample_endpoint_def
      compute_sla_deadline_def us_per_second_def)

section \<open>The statement against inserting row by row\<close>

text \<open>The reference: each delivery is inserted on its own, followed by \<open>enqueue_outbox\<close> for its envelope.\<close>

definition insert_with_outbox :: "string \<Rightarrow> string \<Rightarrow> delivery \<times> json \<Rightarrow> ('r, 'k, outbox_event) hub" where
  "insert_with_outbox key topic row =
     bindE utcnow (\<lambda>stamp.
     bindE (gets w_seq_deliveries) (\<lambda>n.
     let d = (fst row)\<lparr>d_id := n + 1, d_created_at := Some stamp, d_updated_at := Some stamp\<rparr> in
     seqE (modify (\<lambda>w. w\<lparr>w_seq_deliveries := n + 1\<rparr>))
     (seqE (update_db (\<lambda>db. db\<lparr>db_deliveries := db_deliveries db @ [d]\<rparr>))
     (enqueue_outbox ''delivery'' (d_id d) topic (snd row) key))))"

lemma insert_each_run:
  fixes w :: "('r, 'k) world"
  assumes "length envs = length ds"
  shows "\<exists>evs. mapE (insert_with_outbox key topic) (zip ds envs) w =
     (Inr evs, w\<lparr>w_seq_deliveries := w_seq_deliveries w + int (length ds), w_seq_outbox := w_seq_outbox w + int (length ds),
        w_db := (w_db w)\<lparr>db_deliveries := db_deliveries (w_db w) @ assign_ids (w_seq_deliveries w) (w_clock w) ds,
           db_outbox := db_outbox (w_db w) @ outbox_rows (w_seq_outbox w) (w_clock w) topic key
             (zip (map d_id (assign_ids (w_seq_deliveries w) (w_clock w) ds)) envs)\<rparr>\<rparr>)"
  using assms
proof (induction ds arbitrary: envs w)
  case Nil
  then show ?case by (simp add: run_simps)
next
  case (Cons d ds)
  then obtain env es where envs: "envs = env # es" "length es = length ds" by (cases envs) auto
  obtain w1 ev where one: "insert_with_outbox key topic (d, env) w = (Inr ev, w1)"
    and w1: "w1 = w\<lparr>w_seq_deliveries := w_seq_deliveries w + 1, w_seq_outbox := w_seq_outbox w + 1,
      w_db := (w_db w)\<lparr>db_deliveries := db_deliveries (w_db w) @
          [d\<lparr>d_id := w_seq_deliveries w + 1, d_created_at := Some (w_clock w), d_updated_at := Some (w_clock w)\<rparr>],
        db_outbox := db_outbox (w_db w) @ [outbox_row (w_seq_outbox w + 1) (w_clock w) ''delivery'' (w_seq_deliveries w + 1) topic key env]\<rparr>\<rparr>"
    by (simp add: insert_with_outbox_def enqueue_outbox_def run_simps Let_def)
  from Cons.IH [OF envs(2), of w1] obtain evs where "mapE (insert_with_outbox key topic) (zip ds es) w1 =
     (Inr evs, w1\<lparr>w_seq_deliveries := w_seq_deliveries w1 + int (length ds), w_seq_outbox := w_seq_outbox w1 + int (length ds),
        w_db := (w_db w1)\<lparr>db_deliveries := db_deliveries (w_db w1) @ assign_ids (w_seq_deliveries w1) (w_clock w1) ds,
           db_outbox := db_outbox (w_db w1) @ outbox_rows (w_seq_outbox w1) (w_clock w1) topic key
             (zip (map d_id (assign_ids (w_seq_deliveries w1) (w_clock w1) ds)) es)\<rparr>\<rparr>)" by blast
  then show ?case by (simp add: envs(1) bindE_run one ret_apply) (simp add: w1 add.assoc)
qed

text \<open>
  C9. The single statement is equivalent to the loop it replaces: for new deliveries with distinct
  public ids, \<open>persist_deliveries_and_outbox\<close> leaves the same rows with the same identifiers in both
  tables, the same sequence counters and the same answer as inserting the deliveries one by one, each
  followed by \<open>enqueue_outbox\<close> for its envelope, and flushing at the end.
\<close>

theorem persist_statement_equivalent:
  fixes w :: "('r, 'k) world"
  assumes "unique_on d_public_id ds" and "\<forall>d \<in> set ds. d_public_id d \<noteq> 0" and "length ds = length envs" and "ds \<noteq> []"
  shows "persist_deliveries_and_outbox e ds envs key topic w =
    seqE (mapE (insert_with_outbox key topic) (zip ds envs)) flush w"
proof -
  have len: "length envs = length ds" using assms(3) by simp
  obtain evs where "mapE (insert_with_outbox key topic) (zip ds envs) w = (Inr evs, persisted ds envs key topic w)"
    using insert_each_run [OF len, of key topic w] assms(3)
    by (auto simp: persisted_def Let_def join_envelopes_zip [OF assms(1) len])
  then show ?thesis using persist_run [OF assms(2-4), of e key topic w] by (simp add: seqE_run flush_def)
qed

theorem persist_statement_equivalent_witness:
  "persist_deliveries_and_outbox mem_env [sample_delivery DeliveryStatus.PENDING 0, (sample_delivery DeliveryStatus.PENDING 0)\<lparr>d_public_id := 7\<rparr>]
      [JObj [], JNull] ''k'' ''t'' sample_world =
   seqE (mapE (insert_with_outbox ''k'' ''t'')
      (zip [sample_delivery DeliveryStatus.PENDING 0, (sample_delivery DeliveryStatus.PENDING 0)\<lparr>d_public_id := 7\<rparr>] [JObj [], JNull])) flush sample_world"
  by (rule persist_statement_equivalent) (simp_all add: unique_on_def)

end
