(* ===== verification/HttpClient.thy ===== *)
theory HttpClient
  imports Signing Outbox
begin

text \<open>
  The outbound HTTP client (\<open>app/integrations/http_client.py\<close>): the canonical body, the signed
  headers and the POST with its three handled exception classes.
\<close>

record OutboundPostResult =
  pr_http_status_code :: "int option"
  pr_response_headers :: "(string \<times> string) list"
  pr_response_body :: string
  pr_duration_ms :: int
  pr_error_type :: "string option"

definition serialize_payload :: "json \<Rightarrow> bytes" where
  "serialize_payload payload = utf8_encode (dumps payload)"

definition build_outbound_headers ::
  "string \<Rightarrow> string \<Rightarrow> string \<Rightarrow> bytes \<Rightarrow> bytes \<Rightarrow> string \<Rightarrow> string \<Rightarrow> (string \<times> string) list" where
  "build_outbound_headers delivery_public_id event_type timestamp body_bytes signing_secret
     idempotency_key correlation_id =
     [(''Content-Type'', ''application/json''),
      (''X-Hub-Delivery-Id'', delivery_public_id),
      (''X-Hub-Event-Type'', event_type),
      (''X-Hub-Timestamp'', timestamp),
      (''X-Hub-Signature-256'', sign signing_secret timestamp body_bytes),
      (''Idempotency-Key'', idempotency_key),
      (''X-Correlation-Id'', correlation_id)]"

text \<open>\<open>int(time.monotonic() * 1000)\<close>.\<close>

definition now_ms :: "('r, 'k, int) hub" where
  "now_ms = gets (\<lambda>w. w_monotonic w div 1000)"

text \<open>The call itself: the request reaches the partner and time passes until the outcome.\<close>

definition perform_post :: "('r, 'k) env \<Rightarrow> http_request \<Rightarrow> ('r, 'k, http_outcome) hub" where
  "perform_post e rq = (\<lambda>w. case http_post e (w_http w) rq of
     (outcome, took) \<Rightarrow> (Inr outcome, w\<lparr>w_http := w_http w @ [rq], w_clock := w_clock w + took,
                                         w_monotonic := w_monotonic w + took\<rparr>))"

definition post_outbound ::
  "('r, 'k) env \<Rightarrow> string \<Rightarrow> bytes \<Rightarrow> (string \<times> string) list \<Rightarrow> int \<Rightarrow> int \<Rightarrow> ('r, 'k, OutboundPostResult) hub" where
  "post_outbound e url body_bytes headers timeout_connect_ms timeout_read_ms =
     bindE now_ms (\<lambda>requested_at_ms.
     bindE (perform_post e \<lparr>rq_url = url, rq_body = body_bytes, rq_headers = headers,
              rq_timeout_connect_ms = timeout_connect_ms, rq_timeout_read_ms = timeout_read_ms\<rparr>) (\<lambda>outcome.
     bindE now_ms (\<lambda>responded_at_ms.
     let duration_ms = responded_at_ms - requested_at_ms;
         failure = (\<lambda>error_type. \<lparr>pr_http_status_code = None, pr_response_headers = [],
            pr_response_body = [], pr_duration_ms = duration_ms, pr_error_type = Some error_type\<rparr>)
     in case outcome of
          HttpResponse status_code response_headers response_text \<Rightarrow>
            ret \<lparr>pr_http_status_code = Some status_code, pr_response_headers = response_headers,
                 pr_response_body = response_text, pr_duration_ms = duration_ms, pr_error_type = None\<rparr>
        | HttpRaises TimeoutException name \<Rightarrow> ret (failure ''timeout'')
        | HttpRaises ConnectError name \<Rightarrow> ret (failure ''connect_error'')
        | HttpRaises NetworkError name \<Rightarrow> ret (failure name)
        | HttpRaises OtherHttpxError name \<Rightarrow> throw (HttpxError name))))"

lemma perform_post_run [run_simps]:
  "perform_post e rq w = (Inr (fst (http_post e (w_http w) rq)),
     w\<lparr>w_http := w_http w @ [rq], w_clock := w_clock w + snd (http_post e (w_http w) rq),
       w_monotonic := w_monotonic w + snd (http_post e (w_http w) rq)\<rparr>)"
  by (simp add: perform_post_def split: prod.splits)

lemma on_db_post [keep_intros]: "keeps (on_db J) (post_outbound e url body hs tc tr)"
proof -
  have "keeps (on_db J) (perform_post e rq)" for rq
    by (auto simp: keeps_def on_db_def perform_post_run)
  then show ?thesis
    unfolding post_outbound_def now_ms_def Let_def
    by (intro keep_intros) (auto intro: keep_intros split: http_outcome.splits httpx_error.splits)
qed

end
