(* ===== verification/StatusMachine.thy ===== *)
theory StatusMachine
  imports Domain
begin

text \<open>
  The delivery status machine of \<open>app/domain/services/status_machine.py\<close>: the table of valid
  transitions, the test and the guarded transition, which runs its callback and raises on an
  invalid pair. The lemmas describe the graph the table spans: which states are final, what can be
  reached, and that every state but \<open>DELIVERED\<close> still has a way to \<open>DELIVERED\<close>.
\<close>

definition valid_transitions :: "(DeliveryStatus \<times> DeliveryStatus) list" where
  "valid_transitions =
     [(DeliveryStatus.PENDING, DELIVERING),
      (DELIVERING, DELIVERED),
      (DELIVERING, RETRYING),
      (DELIVERING, FAILED),
      (RETRYING, DELIVERING),
      (FAILED, REPLAYING),
      (REPLAYING, DELIVERING),
      (REPLAYING, DELIVERED),
      (REPLAYING, FAILED)]"

definition can_transition :: "DeliveryStatus \<Rightarrow> DeliveryStatus \<Rightarrow> bool" where
  "can_transition src dst \<longleftrightarrow> (src, dst) \<in> set valid_transitions"

definition transition ::
  "(DeliveryStatus \<Rightarrow> DeliveryStatus \<Rightarrow> ('s, exn, unit) prog) option \<Rightarrow>
   DeliveryStatus \<Rightarrow> DeliveryStatus \<Rightarrow> ('s, exn, DeliveryStatus) prog" where
  "transition on_invalid src dst =
     (if \<not> can_transition src dst then
        seqE (case on_invalid of None \<Rightarrow> ret () | Some f \<Rightarrow> f src dst)
             (throw (ValueError (''invalid transition: '' @ delivery_status_value src @ '' -> '' @
                                 delivery_status_value dst)))
      else ret dst)"

lemma can_transition_simps [simp]:
  "can_transition DeliveryStatus.PENDING s \<longleftrightarrow> s = DELIVERING"
  "can_transition DELIVERING s \<longleftrightarrow> s = DELIVERED \<or> s = RETRYING \<or> s = FAILED"
  "can_transition DELIVERED s \<longleftrightarrow> False"
  "can_transition RETRYING s \<longleftrightarrow> s = DELIVERING"
  "can_transition FAILED s \<longleftrightarrow> s = REPLAYING"
  "can_transition REPLAYING s \<longleftrightarrow> s = DELIVERING \<or> s = DELIVERED \<or> s = FAILED"
  by (auto simp: can_transition_def valid_transitions_def)

lemma transition_ok [prog_simps]: "can_transition src dst \<Longrightarrow> transition h src dst = ret dst"
  by (simp add: transition_def)

section \<open>The graph\<close>

abbreviation reaches :: "DeliveryStatus \<Rightarrow> DeliveryStatus \<Rightarrow> bool" where
  "reaches \<equiv> can_transition\<^sup>*\<^sup>*"

lemma reaches_delivered: "reaches s DELIVERED"
proof -
  have d: "reaches DELIVERING DELIVERED" by (rule r_into_rtranclp) simp
  have via: "can_transition t DELIVERING \<Longrightarrow> reaches t DELIVERED" for t
    using d by (blast intro: converse_rtranclp_into_rtranclp)
  have "reaches REPLAYING DELIVERED" by (rule r_into_rtranclp) simp
  then have "reaches FAILED DELIVERED" by (rule converse_rtranclp_into_rtranclp [rotated]) simp
  with d via show ?thesis by (cases s) auto
qed

lemma delivered_final: "reaches DELIVERED s \<Longrightarrow> s = DELIVERED"
  by (erule converse_rtranclpE) auto

lemma never_back_to_pending: "reaches s DeliveryStatus.PENDING \<Longrightarrow> s = DeliveryStatus.PENDING"
proof (erule rtranclp.cases)
  fix a b c assume "can_transition b c" and "DeliveryStatus.PENDING = c"
  then show ?thesis by (cases b) auto
qed auto

text \<open>
  The life cycle of a delivery: from every status the transitions still lead to \<open>DELIVERED\<close>, which
  is final; no status leads back to \<open>PENDING\<close>; a failed delivery moves again only through
  \<open>REPLAYING\<close>; and the guarded transition runs its callback and raises exactly off the table.
\<close>

lemma delivery_life_cycle:
  "reaches s DELIVERED \<and> (reaches DELIVERED t \<longleftrightarrow> t = DELIVERED) \<and>
   (reaches t DeliveryStatus.PENDING \<longleftrightarrow> t = DeliveryStatus.PENDING) \<and>
   (can_transition FAILED t \<longleftrightarrow> t = REPLAYING) \<and>
   (fst (transition (Some f) s t z) = Inr t \<and> snd (transition (Some f) s t z) = z \<longleftrightarrow> can_transition s t) \<and>
   (can_transition s t \<or> transition (Some f) s t z =
      (case f s t z of (Inl x, z') \<Rightarrow> (Inl x, z')
       | (Inr _, z') \<Rightarrow> (Inl (ValueError (''invalid transition: '' @ delivery_status_value s @ '' -> '' @
            delivery_status_value t)), z')))"
  using reaches_delivered [of s] delivered_final [of t] never_back_to_pending [of t]
  by (auto simp: transition_def run_simps split: prod.splits sum.splits)

end
