(* ===== verification/CircuitBreaker.thy ===== *)
theory CircuitBreaker
  imports World
begin

text \<open>
  The per-partner circuit breaker of \<open>app/domain/services/circuit_breaker.py\<close>, kept in four Redis
  keys per partner slug. The operations are translated with every Redis command in its order and
  with the fail-open handler around them. The lemmas are proved for any Redis that is up
  (\<open>redis_up\<close>) and describe the breaker as an automaton: closed until the threshold of failures in
  the window, open for the configured time, then half-open with a single probe.
\<close>

datatype CircuitState = CLOSED | OPEN | HALF_OPEN

datatype AnalyticsCircuitState = ACLOSED | AOPEN | AHALF_OPEN | UNKNOWN

fun circuit_value :: "CircuitState \<Rightarrow> string" where
  "circuit_value CLOSED = ''closed''"
| "circuit_value OPEN = ''open''"
| "circuit_value HALF_OPEN = ''half_open''"

fun state_gauge_value :: "CircuitState \<Rightarrow> int" where
  "state_gauge_value CLOSED = 0"
| "state_gauge_value HALF_OPEN = 1"
| "state_gauge_value OPEN = 2"

fun analytics_of :: "CircuitState \<Rightarrow> AnalyticsCircuitState" where
  "analytics_of CLOSED = ACLOSED"
| "analytics_of OPEN = AOPEN"
| "analytics_of HALF_OPEN = AHALF_OPEN"

definition failures_key :: "string \<Rightarrow> string" where
  "failures_key partner_slug = ''cb:'' @ partner_slug @ '':failures''"
definition state_key :: "string \<Rightarrow> string" where
  "state_key partner_slug = ''cb:'' @ partner_slug @ '':state''"
definition opened_at_key :: "string \<Rightarrow> string" where
  "opened_at_key partner_slug = ''cb:'' @ partner_slug @ '':opened_at''"
definition probe_key :: "string \<Rightarrow> string" where
  "probe_key partner_slug = ''cb:'' @ partner_slug @ '':probe''"

text \<open>\<open>CircuitState(_decode(raw) or "closed")\<close>; another text is a \<open>ValueError\<close>.\<close>

definition circuit_state_of :: "rval option \<Rightarrow> exn + CircuitState" where
  "circuit_state_of raw =
     (case raw of
        None \<Rightarrow> Inr CLOSED
      | Some (RNum _) \<Rightarrow> Inl (ValueError ''CircuitState'')
      | Some (RText s) \<Rightarrow>
          if s = [] then Inr CLOSED
          else (case find (\<lambda>c. circuit_value c = s) [CLOSED, OPEN, HALF_OPEN] of
                  None \<Rightarrow> Inl (ValueError ''CircuitState'')
                | Some c \<Rightarrow> Inr c))"

text \<open>
  \<open>(_utcnow() - datetime.fromisoformat(raw)).total_seconds()\<close> in microseconds: a malformed text is
  a \<open>ValueError\<close>, a text without offset is naive and cannot be subtracted from an aware time.
\<close>

definition elapsed_since :: "rval \<Rightarrow> time \<Rightarrow> exn + time" where
  "elapsed_since raw now =
     (case raw of
        RNum _ \<Rightarrow> Inl (ValueError ''fromisoformat'')
      | RText s \<Rightarrow>
          (case fromisoformat s of
             None \<Rightarrow> Inl (ValueError ''fromisoformat'')
           | Some (t, None) \<Rightarrow> Inl TypeError
           | Some (t, Some off) \<Rightarrow> Inr (now - instant_of (t, Some off))))"

definition set_state_metric :: "string \<Rightarrow> CircuitState \<Rightarrow> ('r, 'k, unit) hub" where
  "set_state_metric partner_slug st =
     set_gauge_metric ''hub_circuit_breaker_state'' (state_gauge_value st)
       [(''partner_slug'', partner_slug), (''state'', circuit_value st)]"

definition get_circuit_state :: "('r, 'k) env \<Rightarrow> string \<Rightarrow> settings \<Rightarrow> ('r, 'k, CircuitState) hub" where
  "get_circuit_state e partner_slug stg =
     (case redis e of
        None \<Rightarrow> ret CLOSED
      | Some ops \<Rightarrow>
          except_redis
            (bindE (call_redis (\<lambda>t. redis_get ops t (state_key partner_slug))) (\<lambda>state_raw.
             if state_raw = None then ret CLOSED
             else bindE (liftE (circuit_state_of state_raw)) (\<lambda>st.
             if st \<noteq> OPEN then ret st
             else bindE (call_redis (\<lambda>t. redis_get ops t (opened_at_key partner_slug))) (\<lambda>opened_at_raw.
             case opened_at_raw of
               None \<Rightarrow> ret OPEN
             | Some raw \<Rightarrow>
                 bindE utcnow (\<lambda>now.
                 bindE (liftE (elapsed_since raw now)) (\<lambda>elapsed.
                 if elapsed \<ge> hub_circuit_open_seconds stg * us_per_second then ret HALF_OPEN
                 else ret OPEN))))))
            (ret CLOSED))"

definition get_analytics_circuit_state ::
  "('r, 'k) env \<Rightarrow> string \<Rightarrow> settings \<Rightarrow> ('r, 'k, AnalyticsCircuitState) hub" where
  "get_analytics_circuit_state e partner_slug stg =
     (case redis e of
        None \<Rightarrow> ret UNKNOWN
      | Some ops \<Rightarrow>
          except_redis
            (bindE (call_redis (\<lambda>t. redis_get ops t (state_key partner_slug))) (\<lambda>state_raw.
             if state_raw = None then ret ACLOSED
             else bindE (liftE (circuit_state_of state_raw)) (\<lambda>st.
             if st \<noteq> OPEN then ret (analytics_of st)
             else bindE (call_redis (\<lambda>t. redis_get ops t (opened_at_key partner_slug))) (\<lambda>opened_at_raw.
             case opened_at_raw of
               None \<Rightarrow> ret AOPEN
             | Some raw \<Rightarrow>
                 bindE utcnow (\<lambda>now.
                 bindE (liftE (elapsed_since raw now)) (\<lambda>elapsed.
                 if elapsed \<ge> hub_circuit_open_seconds stg * us_per_second then ret AHALF_OPEN
                 else ret AOPEN))))))
            (ret UNKNOWN))"

definition allow_outbound :: "('r, 'k) env \<Rightarrow> string \<Rightarrow> settings \<Rightarrow> ('r, 'k, bool) hub" where
  "allow_outbound e partner_slug stg =
     (case redis e of
        None \<Rightarrow> ret True
      | Some ops \<Rightarrow>
          except_redis
            (bindE (get_circuit_state e partner_slug stg) (\<lambda>st.
             if st = CLOSED then ret True
             else if st = OPEN then ret False
             else
               bindE (call_redis (\<lambda>t. redis_get ops t (state_key partner_slug))) (\<lambda>stored_raw.
               bindE (liftE (circuit_state_of stored_raw)) (\<lambda>stored.
               seqE (if stored = OPEN then
                       seqE (call_redis (\<lambda>t. redis_set ops t (state_key partner_slug)
                               (RText (circuit_value HALF_OPEN)) False None))
                            (set_state_metric partner_slug HALF_OPEN)
                     else ret ())
                    (call_redis (\<lambda>t. redis_set ops t (probe_key partner_slug) (RText ''1'') True
                       (Some (hub_circuit_open_seconds stg))))))))
            (ret True))"

definition record_failure :: "('r, 'k) env \<Rightarrow> string \<Rightarrow> settings \<Rightarrow> ('r, 'k, CircuitState) hub" where
  "record_failure e partner_slug stg =
     (case redis e of
        None \<Rightarrow> ret CLOSED
      | Some ops \<Rightarrow>
          except_redis
            (bindE (get_circuit_state e partner_slug stg) (\<lambda>st.
             if st = HALF_OPEN then
               bindE utcnow (\<lambda>now.
               seqE (call_redis (\<lambda>t. redis_set ops t (state_key partner_slug)
                       (RText (circuit_value OPEN)) False None))
               (seqE (call_redis (\<lambda>t. redis_set ops t (opened_at_key partner_slug)
                       (RText (isoformat now)) False None))
               (seqE (call_redis (\<lambda>t. redis_delete ops t [probe_key partner_slug]))
               (seqE (set_state_metric partner_slug OPEN)
               (ret OPEN)))))
             else
               bindE (call_redis (\<lambda>t. redis_incr ops t (failures_key partner_slug))) (\<lambda>count.
               seqE (if count = 1 then
                       call_redis (\<lambda>t. redis_expire ops t (failures_key partner_slug)
                         (hub_circuit_window_seconds stg))
                     else ret ())
               (if count \<ge> hub_circuit_failure_threshold stg then
                  bindE utcnow (\<lambda>now.
                  seqE (call_redis (\<lambda>t. redis_set ops t (state_key partner_slug)
                          (RText (circuit_value OPEN)) False None))
                  (seqE (call_redis (\<lambda>t. redis_set ops t (opened_at_key partner_slug)
                          (RText (isoformat now)) False None))
                  (seqE (set_state_metric partner_slug OPEN)
                  (ret OPEN))))
                else ret CLOSED))))
            (ret CLOSED))"

definition record_success :: "('r, 'k) env \<Rightarrow> string \<Rightarrow> settings \<Rightarrow> ('r, 'k, CircuitState) hub" where
  "record_success e partner_slug stg =
     (case redis e of
        None \<Rightarrow> ret CLOSED
      | Some ops \<Rightarrow>
          except_redis
            (seqE (call_redis (\<lambda>t. redis_delete ops t
                     [failures_key partner_slug, probe_key partner_slug, opened_at_key partner_slug]))
            (seqE (call_redis (\<lambda>t. redis_set ops t (state_key partner_slug)
                     (RText (circuit_value CLOSED)) False None))
            (seqE (set_state_metric partner_slug CLOSED)
            (ret CLOSED))))
            (ret CLOSED))"

definition is_open :: "('r, 'k) env \<Rightarrow> string \<Rightarrow> settings \<Rightarrow> ('r, 'k, bool) hub" where
  "is_open e partner_slug stg =
     bindE (get_circuit_state e partner_slug stg) (\<lambda>st. ret (st = OPEN))"

section \<open>What the operations do on a Redis that is up\<close>

lemma circuit_keys_differ [simp]:
  "failures_key a \<noteq> state_key a" "failures_key a \<noteq> opened_at_key a" "failures_key a \<noteq> probe_key a"
  "state_key a \<noteq> failures_key a" "state_key a \<noteq> opened_at_key a" "state_key a \<noteq> probe_key a"
  "opened_at_key a \<noteq> failures_key a" "opened_at_key a \<noteq> state_key a" "opened_at_key a \<noteq> probe_key a"
  "probe_key a \<noteq> failures_key a" "probe_key a \<noteq> state_key a" "probe_key a \<noteq> opened_at_key a"
  by (simp_all add: failures_key_def state_key_def opened_at_key_def probe_key_def)

lemma circuit_state_of_value [simp]:
  "circuit_state_of None = Inr CLOSED"
  "circuit_state_of (Some (RText ''closed'')) = Inr CLOSED"
  "circuit_state_of (Some (RText ''open'')) = Inr OPEN"
  "circuit_state_of (Some (RText ''half_open'')) = Inr HALF_OPEN"
  by (simp_all add: circuit_state_of_def)

lemma set_state_metric_apply [prog_simps, run_simps]:
  "set_state_metric slug st w = (Inr (), w\<lparr>w_metrics := w_metrics w @
     [Gauge ''hub_circuit_breaker_state'' (state_gauge_value st)
        [(''partner_slug'', slug), (''state'', circuit_value st)]]\<rparr>)"
  by (simp add: set_state_metric_def prog_simps)

text \<open>The state the keys stand for at a given time, as a function of what Redis shows.\<close>

definition circuit_at :: "(string \<Rightarrow> rval option) \<Rightarrow> time \<Rightarrow> settings \<Rightarrow> string \<Rightarrow> exn + CircuitState" where
  "circuit_at v now stg slug =
     (case circuit_state_of (v (state_key slug)) of
        Inl x \<Rightarrow> Inl x
      | Inr OPEN \<Rightarrow>
          (case v (opened_at_key slug) of
             None \<Rightarrow> Inr OPEN
           | Some raw \<Rightarrow>
               (case elapsed_since raw now of
                  Inl x \<Rightarrow> Inl x
                | Inr d \<Rightarrow> Inr (if d \<ge> hub_circuit_open_seconds stg * us_per_second
                               then HALF_OPEN else OPEN)))
      | Inr st \<Rightarrow> Inr st)"

lemma elapsed_since_isoformat [simp]:
  "time_ok t \<Longrightarrow> elapsed_since (RText (isoformat t)) now = Inr (now - t)"
  by (simp add: elapsed_since_def isoformat_roundtrip instant_of_def)

lemma circuit_at_opened:
  assumes "v (state_key slug) = Some (RText (circuit_value OPEN))"
    and "v (opened_at_key slug) = Some (RText (isoformat t))" and "time_ok t"
  shows "circuit_at v now stg slug =
     Inr (if now - t \<ge> hub_circuit_open_seconds stg * us_per_second then HALF_OPEN else OPEN)"
  using assms by (simp add: circuit_at_def)

section \<open>The failure window\<close>

text \<open>
  What the failure counter is meant to be: a window opens with a failure, counts those that follow before it
  is over, and the first failure after it opens the next one. The state is the start of the window
  and the failures counted in it.
\<close>

definition window_step :: "time \<Rightarrow> (time \<times> int) option \<Rightarrow> time \<Rightarrow> time \<times> int" where
  "window_step width b t =
     (case b of
        None \<Rightarrow> (t, 1)
      | Some (t0, n) \<Rightarrow> if t < t0 + width then (t0, n + 1) else (t, 1))"

primrec window_counts :: "time \<Rightarrow> (time \<times> int) option \<Rightarrow> time list \<Rightarrow> int list" where
  "window_counts width b [] = []"
| "window_counts width b (t # ts) =
     snd (window_step width b t) # window_counts width (Some (window_step width b t)) ts"

definition window_after :: "time \<Rightarrow> (time \<times> int) option \<Rightarrow> time list \<Rightarrow> (time \<times> int) option" where
  "window_after width b ts = foldl (\<lambda>b t. Some (window_step width b t)) b ts"

lemma window_after_Cons [simp]:
  "window_after width b (t # ts) = window_after width (Some (window_step width b t)) ts"
  by (simp add: window_after_def)

lemma window_counts_snoc:
  "window_counts width b (ts @ [t]) = window_counts width b ts @ [snd (window_step width (window_after width b ts) t)]"
  by (induction ts arbitrary: b) (simp_all add: window_after_def)

context redis_up
begin

lemma get_circuit_state_eval:
  assumes "redis e = Some ops"
    and not_fault: "circuit_at (seen w) (w_clock w) stg slug \<noteq> Inl RedisError"
  shows "\<exists>r. get_circuit_state e slug stg w = (circuit_at (seen w) (w_clock w) stg slug, w\<lparr>w_redis := r\<rparr>)
             \<and> view r = view (w_redis w)"
proof (cases "seen w (state_key slug)")
  case None
  with assms show ?thesis
    by (simp add: get_circuit_state_def circuit_at_def circuit_state_of_def run_simps call_get)
next
  case (Some raw)
  show ?thesis
  proof (cases "circuit_state_of (Some raw)")
    case (Inl x)
    with Some assms show ?thesis
      by (simp add: get_circuit_state_def circuit_at_def run_simps call_get)
  next
    case (Inr st)
    show ?thesis
    proof (cases "st = OPEN")
      case False
      with Some Inr assms show ?thesis
        by (cases st) (simp_all add: get_circuit_state_def circuit_at_def run_simps call_get)
    next
      case True
      note tripped = Some Inr True
      show ?thesis
      proof (cases "seen w (opened_at_key slug)")
        case None
        with tripped assms show ?thesis
          by (simp add: get_circuit_state_def circuit_at_def run_simps call_get seen_def)
      next
        case (Some opened)
        with tripped assms show ?thesis
          by (cases "elapsed_since opened (w_clock w)")
             (simp_all add: get_circuit_state_def circuit_at_def run_simps call_get seen_def)
      qed
    qed
  qed
qed

lemma seen_same_view: "view r = view (w_redis w) \<Longrightarrow> seen (w\<lparr>w_redis := r\<rparr>) = seen w"
  by (rule ext) (simp add: seen_def)

lemma allow_closed:
  assumes "redis e = Some ops" and "circuit_at (seen w) (w_clock w) stg slug = Inr CLOSED"
  shows "\<exists>r. allow_outbound e slug stg w = (Inr True, w\<lparr>w_redis := r\<rparr>) \<and> view r = view (w_redis w)"
  using get_circuit_state_eval [OF assms(1), of w stg slug] assms
  by (auto simp: allow_outbound_def run_simps)

lemma allow_open:
  assumes "redis e = Some ops" and "circuit_at (seen w) (w_clock w) stg slug = Inr OPEN"
  shows "\<exists>r. allow_outbound e slug stg w = (Inr False, w\<lparr>w_redis := r\<rparr>) \<and> view r = view (w_redis w)"
  using get_circuit_state_eval [OF assms(1), of w stg slug] assms
  by (auto simp: allow_outbound_def run_simps)

text \<open>Half-open: the caller is let through exactly when nobody holds the probe, and takes it.\<close>

lemma allow_half_open:
  assumes "redis e = Some ops" and "circuit_at (seen w) (w_clock w) stg slug = Inr HALF_OPEN"
  shows "\<exists>w'. allow_outbound e slug stg w = (Inr (seen w (probe_key slug) = None), w')
    \<and> w_clock w' = w_clock w
    \<and> (\<forall>t \<ge> w_clock w. view (w_redis w') t (state_key slug) = Some (RText (circuit_value HALF_OPEN)) \<or>
          view (w_redis w') t (state_key slug) = view (w_redis w) t (state_key slug)
            \<and> seen w (state_key slug) = Some (RText (circuit_value HALF_OPEN)))
    \<and> (\<forall>t \<ge> w_clock w. view (w_redis w') t (probe_key slug) =
          (if seen w (probe_key slug) = None
           then if live (w_clock w) (Some (hub_circuit_open_seconds stg)) t then Some (RText ''1'') else None
           else view (w_redis w) t (probe_key slug)))"
proof -
  obtain r where g: "get_circuit_state e slug stg w = (Inr HALF_OPEN, w\<lparr>w_redis := r\<rparr>)"
      and v: "view r = view (w_redis w)"
    using get_circuit_state_eval [OF assms(1), of w stg slug] assms by auto
  from assms(2) obtain st where st: "circuit_state_of (seen w (state_key slug)) = Inr st"
      "st = OPEN \<or> st = HALF_OPEN"
    by (auto simp: circuit_at_def split: sum.splits CircuitState.splits)
  have half: "st = HALF_OPEN \<Longrightarrow> seen w (state_key slug) = Some (RText ''half_open'')"
    using st(1) by (auto simp: circuit_state_of_def split: option.splits rval.splits if_splits)
  show ?thesis using st g v assms(1) half
    by (auto simp: allow_outbound_def run_simps call_get call_set redis_view seen_def live_def)
qed

text \<open>A failure below the threshold is counted; the window starts with the first one.\<close>

lemma failure_counted:
  assumes "redis e = Some ops" and "circuit_at (seen w) (w_clock w) stg slug = Inr CLOSED"
    and count: "seen w (failures_key slug) = None \<and> n = 1 \<or>
                1 < n \<and> seen w (failures_key slug) = Some (RNum (of_int (n - 1)))"
    and below: "n < hub_circuit_failure_threshold stg"
  shows "\<exists>r. record_failure e slug stg w = (Inr CLOSED, w\<lparr>w_redis := r\<rparr>)
    \<and> (\<forall>t \<ge> w_clock w. \<forall>k. k \<noteq> failures_key slug \<longrightarrow> view r t k = view (w_redis w) t k)
    \<and> (\<forall>t \<ge> w_clock w. view r t (failures_key slug) =
         (if (if n = 1 then live (w_clock w) (Some (hub_circuit_window_seconds stg)) t
              else view (w_redis w) t (failures_key slug) \<noteq> None)
          then Some (RNum (of_int n)) else None))"
proof -
  obtain r0 where g: "get_circuit_state e slug stg w = (Inr CLOSED, w\<lparr>w_redis := r0\<rparr>)"
      and v: "view r0 = view (w_redis w)"
    using get_circuit_state_eval [OF assms(1), of w stg slug] assms by auto
  define w0 where "w0 = w\<lparr>w_redis := r0\<rparr>"
  have c: "seen w0 (failures_key slug) = None \<and> n = 1 \<or> seen w0 (failures_key slug) = Some (RNum (of_int (n - 1)))"
    using count v by (auto simp: w0_def seen_def)
  note inc = call_incr [OF c]
  show ?thesis
    using g inc v count below assms(1)
    by (auto simp: record_failure_def run_simps w0_def [symmetric] call_expire redis_view)
       (auto simp: w0_def seen_def redis_view)
qed

lemma failure_trips:
  assumes "redis e = Some ops" and "circuit_at (seen w) (w_clock w) stg slug = Inr CLOSED"
    and count: "seen w (failures_key slug) = None \<and> n = 1 \<or>
                1 < n \<and> seen w (failures_key slug) = Some (RNum (of_int (n - 1)))"
    and reached: "hub_circuit_failure_threshold stg \<le> n"
  shows "\<exists>w'. record_failure e slug stg w = (Inr OPEN, w') \<and> w_clock w' = w_clock w
    \<and> (\<forall>t \<ge> w_clock w. view (w_redis w') t (state_key slug) = Some (RText (circuit_value OPEN)))
    \<and> (\<forall>t \<ge> w_clock w. view (w_redis w') t (opened_at_key slug) = Some (RText (isoformat (w_clock w))))"
proof -
  obtain r0 where g: "get_circuit_state e slug stg w = (Inr CLOSED, w\<lparr>w_redis := r0\<rparr>)"
      and v: "view r0 = view (w_redis w)"
    using get_circuit_state_eval [OF assms(1), of w stg slug] assms by auto
  define w0 where "w0 = w\<lparr>w_redis := r0\<rparr>"
  have c: "seen w0 (failures_key slug) = None \<and> n = 1 \<or> seen w0 (failures_key slug) = Some (RNum (of_int (n - 1)))"
    using count v by (auto simp: w0_def seen_def)
  show ?thesis
    using g call_incr [OF c] v reached assms(1)
    by (auto simp: record_failure_def run_simps w0_def [symmetric] call_expire call_set redis_view live_def)
       (auto simp: w0_def redis_view live_def)
qed

text \<open>A failed probe opens the circuit again and gives the probe back.\<close>

lemma failed_probe:
  assumes "redis e = Some ops" and "circuit_at (seen w) (w_clock w) stg slug = Inr HALF_OPEN"
  shows "\<exists>w'. record_failure e slug stg w = (Inr OPEN, w') \<and> w_clock w' = w_clock w
    \<and> (\<forall>t \<ge> w_clock w. view (w_redis w') t (state_key slug) = Some (RText (circuit_value OPEN))
        \<and> view (w_redis w') t (opened_at_key slug) = Some (RText (isoformat (w_clock w)))
        \<and> view (w_redis w') t (probe_key slug) = None)"
  using get_circuit_state_eval [OF assms(1), of w stg slug] assms
  by (auto simp: record_failure_def run_simps call_set call_delete redis_view live_def)

lemma success_closes:
  assumes "redis e = Some ops"
  shows "\<exists>w'. record_success e slug stg w = (Inr CLOSED, w') \<and> w_clock w' = w_clock w
    \<and> (\<forall>t \<ge> w_clock w. view (w_redis w') t (state_key slug) = Some (RText (circuit_value CLOSED))
        \<and> view (w_redis w') t (opened_at_key slug) = None
        \<and> view (w_redis w') t (probe_key slug) = None
        \<and> view (w_redis w') t (failures_key slug) = None)"
  using assms
  by (auto simp: record_success_def run_simps call_set call_delete redis_view live_def)

text \<open>From \<open>t\<close> on the circuit is closed and the failures key shows the window \<open>b\<close> until it is over.\<close>

definition counting :: "string \<Rightarrow> settings \<Rightarrow> (time \<times> int) option \<Rightarrow> time \<Rightarrow> ('r, 'k) world \<Rightarrow> bool" where
  "counting slug stg b t w \<longleftrightarrow>
     (\<forall>t' \<ge> t. circuit_state_of (view (w_redis w) t' (state_key slug)) = Inr CLOSED) \<and>
     (\<forall>t' \<ge> t. view (w_redis w) t' (failures_key slug) =
        (case b of
           None \<Rightarrow> None
         | Some (t0, n) \<Rightarrow> if t' < t0 + hub_circuit_window_seconds stg * us_per_second
                           then Some (RNum (of_int n)) else None)) \<and>
     (case b of None \<Rightarrow> True | Some (t0, n) \<Rightarrow> 1 \<le> n)"

lemma counting_later: "counting slug stg b t w \<Longrightarrow> t \<le> t1 \<Longrightarrow> counting slug stg b t1 (w\<lparr>w_clock := t1\<rparr>)"
  by (auto simp: counting_def)

lemma counting_seen:
  assumes "counting slug stg b t w" and "t \<le> w_clock w"
    and "window_step (hub_circuit_window_seconds stg * us_per_second) b (w_clock w) = (t0, n)"
  shows "circuit_at (seen w) (w_clock w) stg slug = Inr CLOSED"
    and "seen w (failures_key slug) = None \<and> n = 1 \<or> 1 < n \<and> seen w (failures_key slug) = Some (RNum (of_int (n - 1)))"
    and "1 \<le> n"
  using assms by (auto simp: counting_def circuit_at_def seen_def window_step_def split: option.splits if_splits)

lemma counting_step:
  assumes "redis e = Some ops" and I: "counting slug stg b t w" and "t \<le> t1"
    and step: "window_step (hub_circuit_window_seconds stg * us_per_second) b t1 = (t0, n)"
    and below: "n < hub_circuit_failure_threshold stg"
  shows "\<exists>w'. at_time t1 (record_failure e slug stg) w = (Inr CLOSED, w') \<and> counting slug stg (Some (t0, n)) t1 w'"
proof -
  let ?w = "w\<lparr>w_clock := t1\<rparr>"
  have I1: "counting slug stg b t1 ?w" by (rule counting_later [OF I assms(3)])
  note c = counting_seen [OF I1, simplified, OF step]
  obtain r where r: "record_failure e slug stg ?w = (Inr CLOSED, ?w\<lparr>w_redis := r\<rparr>)"
    "\<forall>t \<ge> t1. \<forall>k. k \<noteq> failures_key slug \<longrightarrow> view r t k = view (w_redis w) t k"
    "\<forall>t \<ge> t1. view r t (failures_key slug) =
       (if (if n = 1 then live t1 (Some (hub_circuit_window_seconds stg)) t
            else view (w_redis w) t (failures_key slug) \<noteq> None) then Some (RNum (of_int n)) else None)"
    using failure_counted [OF assms(1), of ?w stg slug n] c(1,2) below by auto
  then have "counting slug stg (Some (t0, n)) t1 (?w\<lparr>w_redis := r\<rparr>)"
    using I1 c(3) step
    by (auto simp: counting_def live_def window_step_def split: option.splits if_splits)
  with r(1) show ?thesis by (auto simp: at_time_def)
qed

lemma counting_run:
  fixes stg :: settings
  assumes "redis e = Some ops"
  defines "width \<equiv> hub_circuit_window_seconds stg * us_per_second"
  shows "counting slug stg b t w \<Longrightarrow> sorted (t # ts) \<Longrightarrow>
     (\<forall>n \<in> set (window_counts width b ts). n < hub_circuit_failure_threshold stg) \<Longrightarrow>
     \<exists>w'. mapE (\<lambda>x. at_time x (record_failure e slug stg)) ts w = (Inr (replicate (length ts) CLOSED), w')
        \<and> counting slug stg (window_after width b ts) (last (t # ts)) w'"
proof (induction ts arbitrary: b t w)
  case Nil
  then show ?case by (simp add: run_simps window_after_def)
next
  case (Cons x ts)
  let ?b = "window_step width b x"
  obtain w1 where w1: "at_time x (record_failure e slug stg) w = (Inr CLOSED, w1)" "counting slug stg (Some ?b) x w1"
    using counting_step [OF assms(1) Cons.prems(1), of x "fst ?b" "snd ?b"] Cons.prems(2,3) by (auto simp: width_def)
  obtain w2 where "mapE (\<lambda>x. at_time x (record_failure e slug stg)) ts w1 = (Inr (replicate (length ts) CLOSED), w2)"
      "counting slug stg (window_after width (Some ?b) ts) (last (x # ts)) w2"
    using Cons.IH [OF w1(2)] Cons.prems(2,3) by auto
  with w1(1) show ?case by (simp add: run_simps)
qed

lemma tripping_step:
  assumes "redis e = Some ops" and I: "counting slug stg b t w" and "t \<le> t1"
    and step: "window_step (hub_circuit_window_seconds stg * us_per_second) b t1 = (t0, n)"
    and reached: "hub_circuit_failure_threshold stg \<le> n"
  shows "\<exists>w'. at_time t1 (record_failure e slug stg) w = (Inr OPEN, w') \<and>
     (\<forall>t \<ge> t1. view (w_redis w') t (state_key slug) = Some (RText (circuit_value OPEN))
         \<and> view (w_redis w') t (opened_at_key slug) = Some (RText (isoformat t1)))"
proof -
  let ?w = "w\<lparr>w_clock := t1\<rparr>"
  note c = counting_seen [OF counting_later [OF I assms(3)], simplified, OF step]
  from failure_trips [OF assms(1), of ?w stg slug n] c(1,2) reached show ?thesis
    by (auto simp: at_time_def)
qed

text \<open>Once opened at \<open>t1\<close>, calls are refused until the open time is over, then a probe is allowed.\<close>

lemma opened_blocks:
  assumes "redis e = Some ops" and "time_ok t1"
    and "\<forall>t \<ge> t1. view (w_redis w) t (state_key slug) = Some (RText (circuit_value OPEN))
         \<and> view (w_redis w) t (opened_at_key slug) = Some (RText (isoformat t1))"
    and "t1 \<le> t"
  shows "t < t1 + hub_circuit_open_seconds stg * us_per_second \<Longrightarrow>
           fst (at_time t (allow_outbound e slug stg) w) = Inr False"
    and "t1 + hub_circuit_open_seconds stg * us_per_second \<le> t \<Longrightarrow>
           fst (at_time t (allow_outbound e slug stg) w) = Inr (view (w_redis w) t (probe_key slug) = None)"
proof -
  have st: "circuit_at (seen (w\<lparr>w_clock := t\<rparr>)) t stg slug =
      Inr (if t - t1 \<ge> hub_circuit_open_seconds stg * us_per_second then HALF_OPEN else OPEN)"
    using assms by (intro circuit_at_opened) (auto simp: seen_def)
  show "fst (at_time t (allow_outbound e slug stg) w) = Inr False"
    if "t < t1 + hub_circuit_open_seconds stg * us_per_second"
    using allow_open [OF assms(1), of "w\<lparr>w_clock := t\<rparr>" stg slug] st that by (auto simp: at_time_def)
  show "fst (at_time t (allow_outbound e slug stg) w) = Inr (view (w_redis w) t (probe_key slug) = None)"
    if "t1 + hub_circuit_open_seconds stg * us_per_second \<le> t"
    using allow_half_open [OF assms(1), of "w\<lparr>w_clock := t\<rparr>" stg slug] st that
    by (auto simp: at_time_def seen_def)
qed

text \<open>The probe of \<open>t\<close> is out, as seen from \<open>x\<close> on.\<close>

definition probing :: "string \<Rightarrow> settings \<Rightarrow> time \<Rightarrow> time \<Rightarrow> ('r, 'k) world \<Rightarrow> bool" where
  "probing slug stg t x w \<longleftrightarrow> (\<forall>t' \<ge> x.
     view (w_redis w) t' (state_key slug) = Some (RText (circuit_value HALF_OPEN)) \<and>
     view (w_redis w) t' (probe_key slug) =
       (if live t (Some (hub_circuit_open_seconds stg)) t' then Some (RText ''1'') else None))"

lemma probe_taken:
  assumes "redis e = Some ops" and "time_ok t1"
    and "\<forall>t' \<ge> t1. view (w_redis w) t' (state_key slug) = Some (RText (circuit_value OPEN))
         \<and> view (w_redis w) t' (opened_at_key slug) = Some (RText (isoformat t1))"
    and "t1 \<le> t" "t1 + hub_circuit_open_seconds stg * us_per_second \<le> t" "view (w_redis w) t (probe_key slug) = None"
  shows "\<exists>w'. at_time t (allow_outbound e slug stg) w = (Inr True, w') \<and> probing slug stg t t w'"
proof -
  let ?w = "w\<lparr>w_clock := t\<rparr>"
  have "circuit_at (seen ?w) (w_clock ?w) stg slug = Inr HALF_OPEN"
    using circuit_at_opened [of "seen ?w" slug t1 t stg] assms(2-5) by (simp add: seen_def)
  from allow_half_open [OF assms(1) this] assms(3,4,6) show ?thesis
    by (fastforce simp: at_time_def probing_def seen_def)
qed

lemma probe_step:
  assumes "redis e = Some ops" and "probing slug stg t x w" and "x \<le> y"
  shows "\<exists>w'. at_time y (allow_outbound e slug stg) w = (Inr (\<not> live t (Some (hub_circuit_open_seconds stg)) y), w') \<and>
    (live t (Some (hub_circuit_open_seconds stg)) y \<longrightarrow> probing slug stg t y w')"
proof -
  let ?w = "w\<lparr>w_clock := y\<rparr>"
  have "circuit_at (seen ?w) (w_clock ?w) stg slug = Inr HALF_OPEN"
    using assms(2,3) by (simp add: circuit_at_def seen_def probing_def)
  from allow_half_open [OF assms(1) this] assms(2,3) show ?thesis
    by (auto simp: at_time_def probing_def seen_def)
qed

lemma probe_run:
  assumes "redis e = Some ops"
  shows "probing slug stg t x w \<Longrightarrow> sorted (x # ts) \<Longrightarrow>
     (\<forall>y \<in> set ts. live t (Some (hub_circuit_open_seconds stg)) y) \<Longrightarrow>
     \<exists>w'. mapE (\<lambda>y. at_time y (allow_outbound e slug stg)) ts w = (Inr (replicate (length ts) False), w')
        \<and> probing slug stg t (last (x # ts)) w'"
proof (induction ts arbitrary: x w)
  case Nil
  then show ?case by (simp add: run_simps)
next
  case (Cons y ts)
  obtain w1 where "at_time y (allow_outbound e slug stg) w = (Inr False, w1)" "probing slug stg t y w1"
    using probe_step [OF assms Cons.prems(1), of y] Cons.prems(2,3) by auto
  with Cons.IH [of y w1] Cons.prems(2,3) show ?case by (auto simp: run_simps)
qed

end

section \<open>Properties\<close>

text \<open>
  C24. On a Redis that is up, a closed circuit with no failures counted opens exactly when the failures of
  the current window reach the threshold: for failures at any times in order, none of which but the last is the
  threshold's of its window, all but the last leave the circuit closed, and the last opens it iff its
  count, in a window of \<open>hub_circuit_window_seconds\<close> that starts with a failure, is at least
  \<open>hub_circuit_failure_threshold\<close>. A circuit left closed lets calls through; an opened one refuses every
  call until the open time has passed, and then lets one through iff no probe is out.
\<close>

theorem circuit_opens_at_threshold:
  fixes stg :: settings
  assumes "redis_up ops view" and "redis e = Some ops" and "sorted (ts @ [t1])" and "time_ok t1"
    and "\<forall>t. view (w_redis w) t (state_key slug) \<in> {None, Some (RText (circuit_value CLOSED))} \<and>
             view (w_redis w) t (failures_key slug) = None"
  defines "width \<equiv> hub_circuit_window_seconds stg * us_per_second"
  assumes "\<forall>n \<in> set (window_counts width None ts). n < hub_circuit_failure_threshold stg"
  defines "tripped \<equiv> last (window_counts width None (ts @ [t1])) \<ge> hub_circuit_failure_threshold stg"
  shows "\<exists>w'. mapE (\<lambda>t. at_time t (record_failure e slug stg)) (ts @ [t1]) w =
             (Inr (replicate (length ts) CLOSED @ [if tripped then OPEN else CLOSED]), w') \<and>
     (\<forall>t \<ge> t1. fst (at_time t (allow_outbound e slug stg) w') = Inr (tripped \<longrightarrow>
        t1 + hub_circuit_open_seconds stg * us_per_second \<le> t \<and> view (w_redis w') t (probe_key slug) = None))"
proof -
  note up = assms(1)
  define first where "first = hd (ts @ [t1])"
  have s: "sorted (first # ts)" "last (first # ts) \<le> t1"
    using assms(3) by (cases ts; auto simp: first_def sorted_append)+
  have closed_states: "circuit_state_of v = Inr CLOSED" if "v \<in> {None, Some (RText (circuit_value CLOSED))}" for v
    using that by (auto simp: circuit_state_of_def)
  have start: "redis_up.counting view slug stg None first w"
    using assms(5) closed_states unfolding redis_up.counting_def [OF up] by (metis option.case(1))
  obtain w1 where w1: "mapE (\<lambda>x. at_time x (record_failure e slug stg)) ts w = (Inr (replicate (length ts) CLOSED), w1)"
      "redis_up.counting view slug stg (window_after width None ts) (last (first # ts)) w1"
    using redis_up.counting_run [OF up assms(2) start s(1)] assms(7) unfolding width_def by blast
  obtain t0 n where st: "window_step width (window_after width None ts) t1 = (t0, n)" by force
  then have n: "tripped \<longleftrightarrow> hub_circuit_failure_threshold stg \<le> n" by (simp add: tripped_def window_counts_snoc)
  show ?thesis
  proof (cases tripped)
    case True
    then obtain w2 where w2: "at_time t1 (record_failure e slug stg) w1 = (Inr OPEN, w2)"
      "\<forall>t \<ge> t1. view (w_redis w2) t (state_key slug) = Some (RText (circuit_value OPEN))
         \<and> view (w_redis w2) t (opened_at_key slug) = Some (RText (isoformat t1))"
      using redis_up.tripping_step [OF up assms(2) w1(2) [unfolded width_def] s(2) st [unfolded width_def]] n by blast
    have "fst (at_time t (allow_outbound e slug stg) w2) =
        Inr (t1 + hub_circuit_open_seconds stg * us_per_second \<le> t \<and> view (w_redis w2) t (probe_key slug) = None)"
      if "t1 \<le> t" for t
      using redis_up.opened_blocks [OF up assms(2,4) w2(2) that, where stg = stg]
      by (cases "t < t1 + hub_circuit_open_seconds stg * us_per_second") simp_all
    with True mapE_snoc [OF w1(1) w2(1)] show ?thesis by (intro exI [of _ w2]) simp
  next
    case False
    then obtain w2 where w2: "at_time t1 (record_failure e slug stg) w1 = (Inr CLOSED, w2)"
      "redis_up.counting view slug stg (Some (t0, n)) t1 w2"
      using redis_up.counting_step [OF up assms(2) w1(2) [unfolded width_def] s(2) st [unfolded width_def]] n by fastforce
    have "fst (at_time t (allow_outbound e slug stg) w2) = Inr True" if "t1 \<le> t" for t
      using redis_up.allow_closed [OF up assms(2) redis_up.counting_seen(1) [OF up redis_up.counting_later [OF up w2(2) that]]]
      by (fastforce simp: at_time_def)
    with False mapE_snoc [OF w1(1) w2(1)] show ?thesis by (intro exI [of _ w2]) simp
  qed
qed

text \<open>
  Three failures within the minute open the circuit; when the third comes after the minute, it is the
  first of the next window.
\<close>

theorem circuit_opens_at_threshold_witness:
  "(\<exists>w'. mapE (\<lambda>t. at_time t (record_failure mem_env ''acme'' (default_settings\<lparr>hub_circuit_failure_threshold := 3\<rparr>)))
            ([0, 10] @ [20]) (initial_world (\<lambda>_. None) []) = (Inr [CLOSED, CLOSED, OPEN], w') \<and>
     fst (at_time 30 (allow_outbound mem_env ''acme'' (default_settings\<lparr>hub_circuit_failure_threshold := 3\<rparr>)) w') = Inr False) \<and>
   (\<exists>w'. mapE (\<lambda>t. at_time t (record_failure mem_env ''acme'' (default_settings\<lparr>hub_circuit_failure_threshold := 3\<rparr>)))
            ([0, 10] @ [60000000]) (initial_world (\<lambda>_. None) []) = (Inr [CLOSED, CLOSED, CLOSED], w') \<and>
     fst (at_time 60000000 (allow_outbound mem_env ''acme'' (default_settings\<lparr>hub_circuit_failure_threshold := 3\<rparr>)) w') = Inr True)"
proof -
  let ?s = "default_settings\<lparr>hub_circuit_failure_threshold := 3\<rparr>"
  let ?w = "initial_world (\<lambda>_. None) [] :: (mem_redis, message list) world"
  have stg: "hub_circuit_window_seconds ?s * us_per_second = 60000000" "hub_circuit_failure_threshold ?s = 3"
      "hub_circuit_open_seconds ?s * us_per_second = 300000000"
    by (simp_all add: default_settings_def us_per_second_def)
  have empty: "\<forall>t. mem_view (w_redis ?w) t (state_key ''acme'') \<in> {None, Some (RText (circuit_value CLOSED))} \<and>
      mem_view (w_redis ?w) t (failures_key ''acme'') = None"
    by (simp add: initial_world_def mem_view_def)
  have "time_ok 20" "time_ok 60000000" by (simp_all add: time_ok_def us_per_day_def us_per_second_def)
  then show ?thesis
    using circuit_opens_at_threshold [OF memup.redis_up_axioms, of mem_env "[0, 10]" 20 ?w "''acme''" ?s]
      circuit_opens_at_threshold [OF memup.redis_up_axioms, of mem_env "[0, 10]" 60000000 ?w "''acme''" ?s] empty
    unfolding stg by (auto simp: window_step_def numeral_2_eq_2)
qed

text \<open>
  C25. An opened circuit lets one probe through at a time: of any calls that come after the open period,
  while no outcome is recorded, the first is admitted, every call within the open time after it is refused, and
  the first call after that is admitted again.
\<close>

theorem circuit_single_probe:
  assumes "redis_up ops view" and "redis e = Some ops" and "time_ok t1"
    and "\<forall>t' \<ge> t1. view (w_redis w) t' (state_key slug) = Some (RText (circuit_value OPEN))
         \<and> view (w_redis w) t' (opened_at_key slug) = Some (RText (isoformat t1))"
    and "view (w_redis w) t (probe_key slug) = None"
    and "0 < hub_circuit_open_seconds stg" and "t1 + hub_circuit_open_seconds stg * us_per_second \<le> t"
    and "sorted (t # ts)" and "\<forall>x \<in> set ts. x < t + hub_circuit_open_seconds stg * us_per_second"
    and "t + hub_circuit_open_seconds stg * us_per_second \<le> t2"
  shows "\<exists>w'. mapE (\<lambda>x. at_time x (allow_outbound e slug stg)) (t # ts @ [t2]) w =
           (Inr (True # replicate (length ts) False @ [True]), w')"
proof -
  note up = assms(1)
  have pos: "0 < hub_circuit_open_seconds stg * us_per_second" using assms(6) by (simp add: us_per_second_def)
  have "\<forall>x \<in> set (t # ts). x \<le> t2" using pos assms(9,10) by fastforce
  then have le: "t1 \<le> t" "last (t # ts) \<le> t2" using pos assms(7) last_in_set [of "t # ts"] by (linarith, blast)
  obtain w1 where w1: "at_time t (allow_outbound e slug stg) w = (Inr True, w1)" "redis_up.probing view slug stg t t w1"
    using redis_up.probe_taken [OF up assms(2-4) le(1) assms(7,5)] by blast
  obtain w2 where w2: "mapE (\<lambda>x. at_time x (allow_outbound e slug stg)) ts w1 = (Inr (replicate (length ts) False), w2)"
      "redis_up.probing view slug stg t (last (t # ts)) w2"
    using redis_up.probe_run [OF up assms(2) w1(2) assms(8)] assms(9) by (auto simp: live_def)
  obtain w3 where w3: "at_time t2 (allow_outbound e slug stg) w2 = (Inr True, w3)"
    using redis_up.probe_step [OF up assms(2) w2(2) le(2)] assms(10) by (auto simp: live_def)
  from w1(1) mapE_snoc [OF w2(1) w3] show ?thesis by (simp add: run_simps)
qed

text \<open>Opened at time 0 for five minutes: the first call after them is the probe, the next ones wait for another five.\<close>

theorem circuit_single_probe_witness:
  "\<exists>w'. mapE (\<lambda>x. at_time x (allow_outbound mem_env ''acme'' default_settings)) [300000000, 300000001, 599999999, 600000000]
     (initial_world ((\<lambda>_. None)(state_key ''acme'' := Some (RText ''open'', None),
        opened_at_key ''acme'' := Some (RText (isoformat 0), None))) []) = (Inr [True, False, False, True], w')"
proof -
  let ?w = "initial_world ((\<lambda>_. None)(state_key ''acme'' := Some (RText ''open'', None),
        opened_at_key ''acme'' := Some (RText (isoformat 0), None))) [] :: (mem_redis, message list) world"
  have k: "probe_key ''acme'' \<noteq> state_key ''acme''" "probe_key ''acme'' \<noteq> opened_at_key ''acme''"
    "state_key ''acme'' \<noteq> opened_at_key ''acme''"
    by (simp_all add: probe_key_def state_key_def opened_at_key_def)
  show ?thesis
    using circuit_single_probe [OF memup.redis_up_axioms, of mem_env 0 ?w "''acme''" 300000000 default_settings
        "[300000001, 599999999]" 600000000] k
    by (simp add: initial_world_def mem_view_def default_settings_def us_per_second_def us_per_day_def time_ok_def
        numeral_2_eq_2)
qed

text \<open>
  The breaker fails open: whatever Redis does, no operation of the breaker raises a
  \<open>RedisError\<close>, and a call whose first command fails is let through.
\<close>

lemma circuit_fails_open:
  "fst (allow_outbound e slug stg w) \<noteq> Inl RedisError \<and>
   fst (record_failure e slug stg w) \<noteq> Inl RedisError \<and>
   fst (record_success e slug stg w) \<noteq> Inl RedisError \<and>
   (redis e = None \<or> (\<exists>ops r. redis e = Some ops \<and>
      redis_get ops (w_clock w) (state_key slug) (w_redis w) = (Fault, r)) \<longrightarrow>
     fst (allow_outbound e slug stg w) = Inr True)"
proof (intro conjI impI)
  show "fst (allow_outbound e slug stg w) \<noteq> Inl RedisError"
    by (simp add: allow_outbound_def ret_apply split: option.split)
  show "fst (record_failure e slug stg w) \<noteq> Inl RedisError"
    by (simp add: record_failure_def ret_apply split: option.split)
  show "fst (record_success e slug stg w) \<noteq> Inl RedisError"
    by (simp add: record_success_def ret_apply split: option.split)
  show "fst (allow_outbound e slug stg w) = Inr True"
    if "redis e = None \<or> (\<exists>ops r. redis e = Some ops \<and>
      redis_get ops (w_clock w) (state_key slug) (w_redis w) = (Fault, r))"
    using that by (auto simp: allow_outbound_def get_circuit_state_def run_simps call_redis_def)
qed

lemma circuit_fails_open_witness:
  "fst (allow_outbound (mem_env\<lparr>redis := Some down_redis_ops\<rparr>) ''acme'' default_settings
     (initial_world (\<lambda>_. None) [])) = Inr True"
  using circuit_fails_open [of "mem_env\<lparr>redis := Some down_redis_ops\<rparr>" "''acme''" default_settings
      "initial_world (\<lambda>_. None) []"]
  by (simp add: down_redis_ops_def)

end
