(* ===== verification/OutboundProcessor.thy ===== *)
theory OutboundProcessor
  imports HttpClient StatusMachine CircuitBreaker
begin

text \<open>
  The worker's handling of one outbound message (\<open>app/workers/outbound_processor.py\<close>): load the
  delivery, move it to \<open>DELIVERING\<close>, sign and POST it unless the circuit is open, and commit the
  outcome: delivered, a retry with backoff, or a dead letter. Each branch of
  \<open>process_outbound_message\<close> is a definition of its own; the delivery object is passed along and
  written back before the commit that flushes it.
\<close>

datatype ProcessOutcome = SKIPPED | DELIVERED | RETRY_SCHEDULED | DLQ

definition DELIVERING_SOURCES :: "DeliveryStatus list" where
  "DELIVERING_SOURCES = [DeliveryStatus.PENDING, RETRYING, REPLAYING]"

definition fetch_delivery_context ::
  "uuid \<Rightarrow> ('r, 'k, (delivery \<times> partner \<times> partner_endpoint) option) hub" where
  "fetch_delivery_context delivery_public_id =
     bindE (gets (\<lambda>w. concat (map (\<lambda>d. concat (map (\<lambda>p. map (\<lambda>ep. (d, p, ep))
              (filter (\<lambda>ep. d_endpoint_id d = ep_id ep) (db_endpoints (w_db w))))
              (filter (\<lambda>p. d_partner_id d = p_id p) (db_partners (w_db w)))))
              (filter (\<lambda>d. d_public_id d = delivery_public_id) (db_deliveries (w_db w)))))) one_or_none"

definition record_invalid_transition :: "string \<Rightarrow> ('r, 'k, unit) hub" where
  "record_invalid_transition partner_slug =
     record_delivery_metric ''hub_invalid_transition_total'' [(''partner_slug'', partner_slug)] 1"

definition network_error_from_result :: "string option \<Rightarrow> httpx_error option" where
  "network_error_from_result error_type =
     (case error_type of
        None \<Rightarrow> None
      | Some t \<Rightarrow> if t = ''timeout'' then Some TimeoutException
                  else if t = ''connect_error'' then Some ConnectError
                  else Some NetworkError)"

text \<open>The flush of the mutated delivery; \<open>updated_at\<close> has an \<open>onupdate\<close>.\<close>

definition save_delivery :: "delivery \<Rightarrow> ('r, 'k, unit) hub" where
  "save_delivery d =
     bindE utcnow (\<lambda>stamp. update_db (\<lambda>db. db\<lparr>db_deliveries :=
       put_row d_id (d\<lparr>d_updated_at := Some stamp\<rparr>) (db_deliveries db)\<rparr>))"

definition add_dead_letter ::
  "('r, 'k) env \<Rightarrow> int \<Rightarrow> int \<Rightarrow> DeadLetterReason \<Rightarrow> int option \<Rightarrow> string \<Rightarrow> ('r, 'k, unit) hub" where
  "add_dead_letter e delivery_id partner_id reason last_http_status last_error_message =
     bindE (generate_uuidv7 e) (\<lambda>u. bindE utcnow (\<lambda>stamp.
     update_db (\<lambda>db. db\<lparr>db_dead_letters := db_dead_letters db @
       [\<lparr>dl_id = u, dl_delivery_id = delivery_id, dl_partner_id = partner_id, dl_reason = reason,
         dl_last_http_status = last_http_status, dl_last_error_message = last_error_message,
         dl_kafka_offset = None, dl_acknowledged_at = None, dl_acknowledged_by = None,
         dl_created_at = stamp\<rparr>]\<rparr>)))"

definition add_attempt ::
  "('r, 'k) env \<Rightarrow> int \<Rightarrow> int \<Rightarrow> time \<Rightarrow> OutboundPostResult \<Rightarrow> ('r, 'k, unit) hub" where
  "add_attempt e delivery_id attempt_number requested_at post_result =
     bindE utcnow (\<lambda>responded_at.
     bindE (generate_uuidv7 e) (\<lambda>u.
     update_db (\<lambda>db. db\<lparr>db_attempts := db_attempts db @
       [\<lparr>at_id = u, at_delivery_id = delivery_id, at_attempt_number = attempt_number,
         at_requested_at = requested_at, at_responded_at = Some responded_at,
         at_http_status_code = pr_http_status_code post_result,
         at_response_headers = pr_response_headers post_result,
         at_response_body = truncate_response_body (pr_response_body post_result),
         at_error_type = pr_error_type post_result,
         at_duration_ms = Some (pr_duration_ms post_result),
         at_created_at = Some responded_at\<rparr>]\<rparr>)))"

definition mark_failed_dlq ::
  "('r, 'k) env \<Rightarrow> delivery \<Rightarrow> partner \<Rightarrow> partner_endpoint \<Rightarrow> DeadLetterReason \<Rightarrow> int option \<Rightarrow> string \<Rightarrow>
   ('r, 'k, unit) hub" where
  "mark_failed_dlq e d p ep reason last_http_status last_error_message =
     bindE (transition None DELIVERING FAILED) (\<lambda>st.
     let d1 = d\<lparr>d_status := st, d_last_error_message := Some (truncate_response_body last_error_message)\<rparr> in
     seqE (save_delivery d1)
     (seqE (add_dead_letter e (d_id d1) (p_id p) reason last_http_status
              (truncate_response_body last_error_message))
     (seqE commit
     (seqE (record_delivery_metric ''hub_dlq_messages_total'' [(''partner_slug'', p_slug p)] 1)
     (publish_outbound_dlq e (d_public_id d1) (p_public_id p) (ep_id ep) (d_event_type d1)
        (dead_letter_reason_value reason) (d_correlation_id d1) (d_attempt_count d1 + 1))))))"

text \<open>The retry both branches schedule: next time and status committed, then the message.\<close>

definition schedule_retry :: "('r, 'k) env \<Rightarrow> delivery \<Rightarrow> partner \<Rightarrow> time \<Rightarrow> rat \<Rightarrow> ('r, 'k, ProcessOutcome) hub" where
  "schedule_retry e d p current_time delay_seconds =
     (let next_attempt = d_attempt_count d + 1;
          retry_topic = retry_topic_for next_attempt delay_seconds;
          next_retry_at = current_time + timedelta_seconds delay_seconds in
      bindE (transition None DELIVERING RETRYING) (\<lambda>st.
      let d1 = d\<lparr>d_next_retry_at := Some next_retry_at, d_status := st\<rparr> in
      seqE (save_delivery d1)
      (seqE commit
      (seqE (publish_outbound_retry e retry_topic (d_public_id d1) (p_public_id p) (d_endpoint_id d1)
               (d_event_type d1) (d_payload d1) (d_idempotency_key d1) (d_correlation_id d1)
               next_retry_at (d_sla_deadline_at d1) next_attempt)
      (ret RETRY_SCHEDULED)))))"

definition worker_delay :: "settings \<Rightarrow> int \<Rightarrow> exn + rat" where
  "worker_delay stg attempt_count =
     compute_delay_seconds attempt_count (hub_backoff_base_seconds stg) (hub_backoff_multiplier stg)
       (hub_backoff_max_seconds stg) default_jitter_pct 0"

definition circuit_open_branch ::
  "('r, 'k) env \<Rightarrow> delivery \<Rightarrow> partner \<Rightarrow> settings \<Rightarrow> time \<Rightarrow> ('r, 'k, ProcessOutcome) hub" where
  "circuit_open_branch e d p stg current_time =
     bindE (if d_attempt_count d < 1 then ret (of_int (hub_backoff_base_seconds stg))
            else liftE (worker_delay stg (d_attempt_count d))) (\<lambda>delay_seconds.
     schedule_retry e d p current_time delay_seconds)"

definition success_branch ::
  "('r, 'k) env \<Rightarrow> delivery \<Rightarrow> partner \<Rightarrow> settings \<Rightarrow> time \<Rightarrow> ('r, 'k, ProcessOutcome) hub" where
  "success_branch e d p stg current_time =
     seqE (record_success e (p_slug p) stg)
     (bindE (transition None DELIVERING DeliveryStatus.DELIVERED) (\<lambda>st.
      let prior_sla_breached = d_sla_breached d;
          (first_success_at, sla_breached) = apply_first_success current_time (d_sla_deadline_at d)
             (d_first_success_at d) (d_sla_breached d);
          d1 = d\<lparr>d_status := st, d_first_success_at := Some first_success_at,
                 d_sla_breached := sla_breached, d_last_error_code := None,
                 d_last_error_message := None\<rparr> in
      seqE (save_delivery d1)
      (seqE commit
      (seqE (if sla_breached \<and> \<not> prior_sla_breached then
               seqE (record_delivery_metric ''hub_sla_breaches_total'' [(''partner_slug'', p_slug p)] 1)
                    (publish_sla_breached e (d_public_id d1) (p_public_id p) (d_event_type d1)
                       (d_correlation_id d1) (d_sla_deadline_at d1))
             else ret ())
      (ret DELIVERED)))))"

text \<open>Python's \<open>or\<close> on an optional code and on texts.\<close>

definition code_or :: "int option \<Rightarrow> string \<Rightarrow> string" where
  "code_or code other = (case code of None \<Rightarrow> other | Some c \<Rightarrow> if c = 0 then other else str_int c)"

definition text_or :: "string \<Rightarrow> string option \<Rightarrow> string \<Rightarrow> string" where
  "text_or body error_type other =
     (if body \<noteq> [] then body
      else case error_type of None \<Rightarrow> other | Some t \<Rightarrow> if t = [] then other else t)"

definition poison_branch ::
  "('r, 'k) env \<Rightarrow> delivery \<Rightarrow> partner \<Rightarrow> partner_endpoint \<Rightarrow> OutboundPostResult \<Rightarrow>
   ('r, 'k, ProcessOutcome) hub" where
  "poison_branch e d p ep post_result =
     (let error_message = text_or (pr_response_body post_result) (pr_error_type post_result) ''non-retryable'';
          msg = truncate_response_body error_message;
          d1 = d\<lparr>d_last_error_code := Some (code_or (pr_http_status_code post_result) ''poison''),
                 d_last_error_message := Some msg\<rparr> in
      seqE (mark_failed_dlq e d1 p ep NON_RETRYABLE_ERROR (pr_http_status_code post_result) msg)
      (ret DLQ))"

definition retryable_branch ::
  "('r, 'k) env \<Rightarrow> delivery \<Rightarrow> partner \<Rightarrow> partner_endpoint \<Rightarrow> settings \<Rightarrow> time \<Rightarrow> OutboundPostResult \<Rightarrow>
   ('r, 'k, ProcessOutcome) hub" where
  "retryable_branch e d p ep stg current_time post_result =
     seqE (record_failure e (p_slug p) stg)
     (let msg = truncate_response_body
                  (text_or (pr_response_body post_result) (pr_error_type post_result) ''retryable failure'');
          d1 = d\<lparr>d_attempt_count := d_attempt_count d + 1,
                 d_last_error_code := Some (code_or (pr_http_status_code post_result)
                    (text_or [] (pr_error_type post_result) ''retry'')),
                 d_last_error_message := Some msg\<rparr> in
      if d_attempt_count d1 < d_max_attempts d1 then
        bindE (liftE (worker_delay stg (d_attempt_count d1))) (\<lambda>delay_seconds.
        schedule_retry e d1 p current_time delay_seconds)
      else
        seqE (mark_failed_dlq e d1 p ep MAX_ATTEMPTS_EXCEEDED (pr_http_status_code post_result)
                (if msg \<noteq> [] then msg else ''max attempts exceeded''))
        (ret DLQ))"

text \<open>\<open>str(int(t.timestamp()))\<close>: truncated towards zero.\<close>

definition int_timestamp :: "time \<Rightarrow> int" where
  "int_timestamp t = (if t \<ge> 0 then t div us_per_second else - ((- t) div us_per_second))"

definition attempt_delivery ::
  "('r, 'k) env \<Rightarrow> delivery \<Rightarrow> partner \<Rightarrow> partner_endpoint \<Rightarrow> settings \<Rightarrow> time \<Rightarrow> bytes \<Rightarrow>
   (string \<times> string) list \<Rightarrow> ('r, 'k, ProcessOutcome) hub" where
  "attempt_delivery e d p ep stg current_time body_bytes headers =
     bindE (post_outbound e (ep_url ep) body_bytes headers (ep_timeout_connect_ms ep)
              (ep_timeout_read_ms ep)) (\<lambda>post_result.
     seqE (add_attempt e (d_id d) (d_attempt_count d + 1) current_time post_result)
     (let classification = classify_http_outcome (pr_http_status_code post_result)
            (ep_retry_on_status_codes ep) (network_error_from_result (pr_error_type post_result))
      in if classification = SUCCESS then success_branch e d p stg current_time
         else if classification = POISON then poison_branch e d p ep post_result
         else retryable_branch e d p ep stg current_time post_result))"

text \<open>The delivery is in \<open>DELIVERING\<close>: sign it, ask the circuit breaker, and POST.\<close>

definition send_delivery ::
  "('r, 'k) env \<Rightarrow> delivery \<Rightarrow> partner \<Rightarrow> partner_endpoint \<Rightarrow> settings \<Rightarrow> time \<Rightarrow> ('r, 'k, ProcessOutcome) hub" where
  "send_delivery e d p ep stg current_time =
     bindE (load_outbound_primary_secret e p stg) (\<lambda>signing_secret.
     case signing_secret of
       None \<Rightarrow>
         seqE (mark_failed_dlq e d p ep NON_RETRYABLE_ERROR None ''missing signing secret'') (ret DLQ)
     | Some secret \<Rightarrow>
         let body_bytes = serialize_payload (d_payload d);
             timestamp = str_int (int_timestamp current_time);
             headers = build_outbound_headers (str_uuid (d_public_id d)) (d_event_type d) timestamp
               body_bytes secret (d_idempotency_key d) (d_correlation_id d) in
         bindE (allow_outbound e (p_slug p) stg) (\<lambda>allowed.
         if \<not> allowed then circuit_open_branch e d p stg current_time
         else attempt_delivery e d p ep stg current_time body_bytes headers))"

definition process_outbound_message ::
  "('r, 'k) env \<Rightarrow> json \<Rightarrow> settings \<Rightarrow> time option \<Rightarrow> ('r, 'k, ProcessOutcome) hub" where
  "process_outbound_message e envelope stg now =
     bindE (case now of Some t \<Rightarrow> ret t | None \<Rightarrow> utcnow) (\<lambda>current_time.
     bindE (liftE (item envelope ''delivery_id'')) (\<lambda>raw.
     bindE (liftE (uuid_of raw)) (\<lambda>delivery_public_id.
     bindE (fetch_delivery_context delivery_public_id) (\<lambda>context.
     case context of
       None \<Rightarrow> ret SKIPPED
     | Some (d, p, ep) \<Rightarrow>
         if d_status d \<in> set [DeliveryStatus.DELIVERED, FAILED] then ret SKIPPED
         else if d_status d \<notin> set DELIVERING_SOURCES then
           seqE (record_invalid_transition (p_slug p)) (ret SKIPPED)
         else
           bindE (transition (Some (\<lambda>_ _. record_invalid_transition (p_slug p))) (d_status d) DELIVERING) (\<lambda>st.
           send_delivery e (d\<lparr>d_status := st\<rparr>) p ep stg current_time)))))"

section \<open>What a message can change\<close>

text \<open>
  The change one message may make to its delivery: along the status machine through
  \<open>DELIVERING\<close>, with at most one more counted attempt, the first success only ever set once and
  only on delivery, and every other column as it was.
\<close>

definition delivery_step :: "delivery \<Rightarrow> delivery \<Rightarrow> bool" where
  "delivery_step d r \<longleftrightarrow>
     r = d\<lparr>d_status := d_status r, d_attempt_count := d_attempt_count r,
           d_next_retry_at := d_next_retry_at r, d_first_success_at := d_first_success_at r,
           d_sla_breached := d_sla_breached r, d_last_error_code := d_last_error_code r,
           d_last_error_message := d_last_error_message r, d_updated_at := d_updated_at r\<rparr> \<and>
     can_transition (d_status d) DELIVERING \<and> can_transition DELIVERING (d_status r) \<and>
     (d_attempt_count r = d_attempt_count d \<or>
      d_attempt_count r = d_attempt_count d + 1 \<and> d_status r \<noteq> DeliveryStatus.DELIVERED) \<and>
     (d_status r = RETRYING \<longrightarrow> d_next_retry_at r \<noteq> None \<and>
        (d_attempt_count r = d_attempt_count d \<or> d_attempt_count r < d_max_attempts d)) \<and>
     (d_status r = DeliveryStatus.DELIVERED \<longrightarrow> d_first_success_at r \<noteq> None \<and>
        (d_first_success_at d \<noteq> None \<longrightarrow> d_first_success_at r = d_first_success_at d)) \<and>
     (d_status r \<noteq> DeliveryStatus.DELIVERED \<longrightarrow> d_first_success_at r = d_first_success_at d \<and>
        d_sla_breached r = d_sla_breached d)"

text \<open>
  The database after a message that committed: the delivery took a step, at most one attempt was
  logged, and a dead letter was written exactly when the delivery failed.
\<close>

definition advances :: "delivery \<Rightarrow> database \<Rightarrow> database \<Rightarrow> bool" where
  "advances d c c' \<longleftrightarrow> (\<exists>r ats dls.
     c' = c\<lparr>db_deliveries := put_row d_id r (db_deliveries c), db_attempts := db_attempts c @ ats,
            db_dead_letters := db_dead_letters c @ dls\<rparr> \<and>
     delivery_step d r \<and> length ats \<le> 1 \<and>
     list_all (\<lambda>a. at_delivery_id a = d_id d \<and> at_attempt_number a = d_attempt_count d + 1) ats \<and>
     length dls = (if d_status r = FAILED then 1 else 0) \<and>
     list_all (\<lambda>l. dl_delivery_id l = d_id d) dls)"

lemma tail_neutral:
  assumes "\<And>J. keeps (on_db J) k"
  shows "w_committed (snd (k w)) = w_committed w"
  using keepsD [OF assms [of "\<lambda>c d. c = w_committed w"], of w] by (simp add: on_db_def)

text \<open>A block that updates the session, commits, and then leaves the database alone.\<close>

lemma commit_block:
  assumes "\<And>J. keeps (on_db J) k"
  shows "w_committed (snd (seqE commit k w)) = (if constraints_ok (w_db w) then w_db w else w_committed w)"
  using tail_neutral [OF assms, of "w\<lparr>w_committed := w_db w\<rparr>"]
  by (simp add: seqE_run commit_def flush_def modify_apply split: prod.splits sum.splits)

lemma publish_neutral [keep_intros]:
  "keeps (on_db J) (publish_outbound_dlq e a b c d' f g h)"
  "keeps (on_db J) (publish_outbound_retry e t a b c d' pl f g s1 s2 n)"
  "keeps (on_db J) (publish_sla_breached e a b x y t2)"
  unfolding publish_outbound_dlq_def publish_outbound_retry_def publish_sla_breached_def
  by (intro keep_intros)+

lemma circuit_neutral [keep_intros]:
  "keeps (on_db J) (allow_outbound e slug stg)" "keeps (on_db J) (record_failure e slug stg)"
  "keeps (on_db J) (record_success e slug stg)" "keeps (on_db J) (get_circuit_state e slug stg)"
proof -
  show g: "keeps (on_db J) (get_circuit_state e slug stg)"
    unfolding get_circuit_state_def by (intro keep_intros)
  show "keeps (on_db J) (allow_outbound e slug stg)" "keeps (on_db J) (record_failure e slug stg)"
    "keeps (on_db J) (record_success e slug stg)"
    unfolding allow_outbound_def record_failure_def record_success_def set_state_metric_def
    by (intro keep_intros g)+
qed

lemma secret_neutral [keep_intros]: "keeps (on_db J) (load_outbound_primary_secret e p stg)"
  unfolding load_outbound_primary_secret_def fetch_primary_row_def
  by (intro keep_intros) (auto intro: keep_intros split: sum.splits)

lemma mark_failed_committed:
  "w_committed (snd (mark_failed_dlq e d p ep reason st msg w)) =
     (let db' = (w_db w)\<lparr>db_deliveries := put_row d_id (d\<lparr>d_status := FAILED,
                    d_last_error_message := Some (truncate_response_body msg), d_updated_at := Some (w_clock w)\<rparr>)
                    (db_deliveries (w_db w)),
                db_dead_letters := db_dead_letters (w_db w) @
                  [\<lparr>dl_id = uuid7 e (w_draws w), dl_delivery_id = d_id d, dl_partner_id = p_id p,
                    dl_reason = reason, dl_last_http_status = st,
                    dl_last_error_message = truncate_response_body msg, dl_kafka_offset = None,
                    dl_acknowledged_at = None, dl_acknowledged_by = None, dl_created_at = w_clock w\<rparr>]\<rparr>
      in if constraints_ok db' then db' else w_committed w)"
proof -
  have t: "transition None DELIVERING FAILED = ret FAILED" by (simp add: transition_ok)
  define k :: "('a, 'b, unit) hub" where
    "k = seqE (record_delivery_metric ''hub_dlq_messages_total'' [(''partner_slug'', p_slug p)] 1)
       (publish_outbound_dlq e (d_public_id d) (p_public_id p) (ep_id ep) (d_event_type d)
          (dead_letter_reason_value reason) (d_correlation_id d) (d_attempt_count d + 1))"
  have k: "keeps (on_db J) k" for J unfolding k_def by (intro keep_intros)
  show ?thesis
    by (simp add: mark_failed_dlq_def t bindE_simps Let_def save_delivery_def add_dead_letter_def
        seqE_run [of "bindE utcnow _"] seqE_run [of "bindE (generate_uuidv7 e) _"] bindE_run
        utcnow_apply update_db_apply generate_uuidv7_apply k_def [symmetric] commit_block [OF k])
qed

lemma schedule_retry_committed:
  "w_committed (snd (schedule_retry e d p t delay w)) =
     (let db' = (w_db w)\<lparr>db_deliveries := put_row d_id (d\<lparr>d_next_retry_at := Some (t + timedelta_seconds delay),
                    d_status := RETRYING, d_updated_at := Some (w_clock w)\<rparr>) (db_deliveries (w_db w))\<rparr>
      in if constraints_ok db' then db' else w_committed w)"
proof -
  have t: "transition None DELIVERING RETRYING = ret RETRYING" by (simp add: transition_ok)
  define k :: "('a, 'b, ProcessOutcome) hub" where
    "k = seqE (publish_outbound_retry e (retry_topic_for (d_attempt_count d + 1) delay) (d_public_id d)
       (p_public_id p) (d_endpoint_id d) (d_event_type d) (d_payload d) (d_idempotency_key d)
       (d_correlation_id d) (t + timedelta_seconds delay) (d_sla_deadline_at d) (d_attempt_count d + 1))
       (ret RETRY_SCHEDULED)"
  have k: "keeps (on_db J) k" for J unfolding k_def by (intro keep_intros)
  show ?thesis
    by (simp add: schedule_retry_def t bindE_simps Let_def save_delivery_def
        seqE_run [of "bindE utcnow _"] bindE_run utcnow_apply update_db_apply
        k_def [symmetric] commit_block [OF k])
qed

lemma delivery_step_fixed:
  assumes "delivery_step d r"
  shows "d_id r = d_id d" "d_public_id r = d_public_id d" "d_partner_id r = d_partner_id d"
    "d_endpoint_id r = d_endpoint_id d" "d_idempotency_key r = d_idempotency_key d"
    "d_payload r = d_payload d" "d_payload_hash r = d_payload_hash d" "d_max_attempts r = d_max_attempts d"
    "d_sla_deadline_at r = d_sla_deadline_at d" "d_source_event_id r = d_source_event_id d"
    "d_event_type r = d_event_type d" "d_correlation_id r = d_correlation_id d"
proof -
  have e: "r = d\<lparr>d_status := d_status r, d_attempt_count := d_attempt_count r,
           d_next_retry_at := d_next_retry_at r, d_first_success_at := d_first_success_at r,
           d_sla_breached := d_sla_breached r, d_last_error_code := d_last_error_code r,
           d_last_error_message := d_last_error_message r, d_updated_at := d_updated_at r\<rparr>"
    using assms unfolding delivery_step_def by (rule conjunct1)
  show "d_id r = d_id d" "d_public_id r = d_public_id d" "d_partner_id r = d_partner_id d"
    "d_endpoint_id r = d_endpoint_id d" "d_idempotency_key r = d_idempotency_key d"
    "d_payload r = d_payload d" "d_payload_hash r = d_payload_hash d" "d_max_attempts r = d_max_attempts d"
    "d_sla_deadline_at r = d_sla_deadline_at d" "d_source_event_id r = d_source_event_id d"
    "d_event_type r = d_event_type d" "d_correlation_id r = d_correlation_id d"
    by (subst e, simp)+
qed

definition delivered_row :: "delivery \<Rightarrow> time \<Rightarrow> time \<Rightarrow> delivery" where
  "delivered_row d now stamp = d\<lparr>d_status := DeliveryStatus.DELIVERED,
     d_first_success_at := Some (fst (apply_first_success now (d_sla_deadline_at d) (d_first_success_at d) (d_sla_breached d))),
     d_sla_breached := snd (apply_first_success now (d_sla_deadline_at d) (d_first_success_at d) (d_sla_breached d)),
     d_last_error_code := None, d_last_error_message := None, d_updated_at := Some stamp\<rparr>"

lemma success_committed:
  assumes "record_success e (p_slug p) stg w = (Inr st, w1)"
  shows "w_committed (snd (success_branch e d p stg now w)) =
     (let db' = (w_db w1)\<lparr>db_deliveries := put_row d_id (delivered_row d now (w_clock w1)) (db_deliveries (w_db w1))\<rparr>
      in if constraints_ok db' then db' else w_committed w1)"
proof -
  have t: "transition None DELIVERING DeliveryStatus.DELIVERED = ret DeliveryStatus.DELIVERED"
    by (simp add: transition_ok)
  obtain fs br where f: "apply_first_success now (d_sla_deadline_at d) (d_first_success_at d) (d_sla_breached d) = (fs, br)"
    by force
  define k :: "('a, 'b, ProcessOutcome) hub" where
    "k = seqE (if br \<and> \<not> d_sla_breached d then
               seqE (record_delivery_metric ''hub_sla_breaches_total'' [(''partner_slug'', p_slug p)] 1)
                    (publish_sla_breached e (d_public_id d) (p_public_id p) (d_event_type d)
                       (d_correlation_id d) (d_sla_deadline_at d))
             else ret ())
      (ret DELIVERED)"
  have k: "keeps (on_db J) k" for J unfolding k_def by (intro keep_intros)
  have "success_branch e d p stg now w = seqE commit k (w1\<lparr>w_db := (w_db w1)\<lparr>db_deliveries :=
      put_row d_id (delivered_row d now (w_clock w1)) (db_deliveries (w_db w1))\<rparr>\<rparr>)"
    by (simp add: success_branch_def seqE_run [of "record_success e (p_slug p) stg"] assms t f bindE_simps Let_def
        save_delivery_def seqE_run [of "bindE utcnow _"] bindE_run utcnow_apply update_db_apply
        k_def delivered_row_def)
  then show ?thesis by (simp add: commit_block [OF k] Let_def)
qed

text \<open>The session of a message before its commit: nothing stored but a logged attempt.\<close>

definition ready :: "delivery \<Rightarrow> database \<Rightarrow> ('r, 'k) world \<Rightarrow> bool" where
  "ready d c w \<longleftrightarrow> w_committed w = c \<and> (\<exists>ats. w_db w = c\<lparr>db_attempts := db_attempts c @ ats\<rparr> \<and> length ats \<le> 1 \<and>
     list_all (\<lambda>a. at_delivery_id a = d_id d \<and> at_attempt_number a = d_attempt_count d + 1) ats)"

definition settled :: "delivery \<Rightarrow> database \<Rightarrow> ('r, 'k) world \<Rightarrow> bool" where
  "settled d c w \<longleftrightarrow> w_committed w = c \<or> (advances d c (w_committed w) \<and> constraints_ok (w_committed w))"

lemma ready_on_db: "ready d c = on_db (\<lambda>c' db. c' = c \<and> (\<exists>ats. db = c\<lparr>db_attempts := db_attempts c @ ats\<rparr> \<and> length ats \<le> 1 \<and>
     list_all (\<lambda>a. at_delivery_id a = d_id d \<and> at_attempt_number a = d_attempt_count d + 1) ats))"
  by (rule ext) (simp add: ready_def on_db_def)

lemma keeps_ready [intro]: "(\<And>J. keeps (on_db J) m) \<Longrightarrow> keeps (ready d c) m"
  by (simp add: ready_on_db)

lemma ready_settled: "ready d c w \<Longrightarrow> settled d c w"
  by (simp add: ready_def settled_def)

lemma settled_step:
  assumes "ready d c w" and "delivery_step d r" "d_status r \<noteq> FAILED"
    and "w_committed w' = (let db' = (w_db w)\<lparr>db_deliveries := put_row d_id r (db_deliveries (w_db w))\<rparr>
        in if constraints_ok db' then db' else w_committed w)"
  shows "settled d c w'"
proof -
  obtain ats where a: "w_db w = c\<lparr>db_attempts := db_attempts c @ ats\<rparr>" "length ats \<le> 1"
      "list_all (\<lambda>a. at_delivery_id a = d_id d \<and> at_attempt_number a = d_attempt_count d + 1) ats"
    and c: "w_committed w = c"
    using assms(1) unfolding ready_def by blast
  have "advances d c ((w_db w)\<lparr>db_deliveries := put_row d_id r (db_deliveries (w_db w))\<rparr>)"
    unfolding advances_def using a assms(2,3)
    by (intro exI [of _ r] exI [of _ ats] exI [of _ "[]"]) simp
  with assms(4) c show ?thesis unfolding settled_def Let_def by (metis (full_types))
qed

lemma settled_failed:
  assumes "ready d c w" and "delivery_step d (d1\<lparr>d_status := FAILED,
       d_last_error_message := Some (truncate_response_body msg), d_updated_at := Some (w_clock w)\<rparr>)"
  shows "settled d c (snd (mark_failed_dlq e d1 p ep reason st msg w))"
proof -
  define r where "r = d1\<lparr>d_status := FAILED,
       d_last_error_message := Some (truncate_response_body msg), d_updated_at := Some (w_clock w)\<rparr>"
  define dl where "dl = \<lparr>dl_id = uuid7 e (w_draws w), dl_delivery_id = d_id d1, dl_partner_id = p_id p,
                    dl_reason = reason, dl_last_http_status = st,
                    dl_last_error_message = truncate_response_body msg, dl_kafka_offset = None,
                    dl_acknowledged_at = None, dl_acknowledged_by = None, dl_created_at = w_clock w\<rparr>"
  define db' where "db' = (w_db w)\<lparr>db_deliveries := put_row d_id r (db_deliveries (w_db w)),
                db_dead_letters := db_dead_letters (w_db w) @ [dl]\<rparr>"
  obtain ats where a: "w_db w = c\<lparr>db_attempts := db_attempts c @ ats\<rparr>" "length ats \<le> 1"
      "list_all (\<lambda>a. at_delivery_id a = d_id d \<and> at_attempt_number a = d_attempt_count d + 1) ats"
    and c: "w_committed w = c"
    using assms(1) unfolding ready_def by blast
  have id: "d_id d1 = d_id d" using delivery_step_fixed(1) [OF assms(2)] by simp
  have "advances d c db'"
    unfolding advances_def using a assms(2) id
    by (intro exI [of _ r] exI [of _ ats] exI [of _ "[dl]"]) (simp add: db'_def r_def dl_def)
  moreover have "w_committed (snd (mark_failed_dlq e d1 p ep reason st msg w)) = (if constraints_ok db' then db' else c)"
    unfolding mark_failed_committed Let_def db'_def r_def dl_def c by (rule refl)
  ultimately show ?thesis unfolding settled_def by (metis (full_types))
qed

text \<open>Each branch settles its delivery.\<close>

lemma settled_retry:
  assumes "ready d c w" and "delivery_step d (d1\<lparr>d_next_retry_at := Some (t + timedelta_seconds delay),
      d_status := RETRYING, d_updated_at := Some (w_clock w)\<rparr>)"
  shows "settled d c (snd (schedule_retry e d1 p t delay w))"
  by (rule settled_step [OF assms(1,2)]) (simp_all add: schedule_retry_committed)

lemma ready_fields: "ready d c w \<Longrightarrow> w_committed w = c"
  by (simp add: ready_def)

lemma settled_circuit_open:
  assumes "ready d c w" "can_transition (d_status d) DELIVERING"
  shows "settled d c (snd (circuit_open_branch e (d\<lparr>d_status := DELIVERING\<rparr>) p stg t w))"
proof -
  have "settled d c (snd (schedule_retry e (d\<lparr>d_status := DELIVERING\<rparr>) p t delay w))" for delay
    using assms by (intro settled_retry) (simp_all add: delivery_step_def)
  moreover have "settled d c w" using assms(1) by (rule ready_settled)
  ultimately show ?thesis
    by (auto simp: circuit_open_branch_def bindE_run ret_apply liftE_apply split: sum.splits)
qed

lemma settled_success:
  assumes "ready d c w" "can_transition (d_status d) DELIVERING"
  shows "settled d c (snd (success_branch e (d\<lparr>d_status := DELIVERING\<rparr>) p stg t w))"
proof (cases "record_success e (p_slug p) stg w")
  case (Pair r w1)
  have r1: "ready d c w1"
    using keepsD [OF keeps_ready [OF circuit_neutral(3)] assms(1), of e "p_slug p" stg] Pair by simp
  show ?thesis
  proof (cases r)
    case (Inl x)
    with Pair r1 show ?thesis by (simp add: success_branch_def seqE_run ready_settled)
  next
    case (Inr st)
    let ?r = "delivered_row (d\<lparr>d_status := DELIVERING\<rparr>) t (w_clock w1)"
    have "delivery_step d ?r"
      using assms(2) by (auto simp: delivery_step_def delivered_row_def apply_first_success_def split: option.splits)
    then show ?thesis
      using success_committed [of e p stg w st w1 "d\<lparr>d_status := DELIVERING\<rparr>" t] Pair Inr
      by (intro settled_step [OF r1]) (simp_all add: delivered_row_def)
  qed
qed

lemma settled_poison:
  assumes "ready d c w" "can_transition (d_status d) DELIVERING"
  shows "settled d c (snd (poison_branch e (d\<lparr>d_status := DELIVERING\<rparr>) p ep pr w))"
proof -
  have "settled d c (snd (mark_failed_dlq e (d\<lparr>d_status := DELIVERING, d_last_error_code := a,
      d_last_error_message := b\<rparr>) p ep reason st msg w))" for a b reason st msg
    using assms by (intro settled_failed) (simp_all add: delivery_step_def)
  then show ?thesis
    by (simp add: poison_branch_def Let_def)
qed

lemma settled_retryable:
  assumes "ready d c w" "can_transition (d_status d) DELIVERING"
  shows "settled d c (snd (retryable_branch e (d\<lparr>d_status := DELIVERING\<rparr>) p ep stg t pr w))"
proof (cases "record_failure e (p_slug p) stg w")
  case (Pair r w1)
  have r1: "ready d c w1"
    using keepsD [OF keeps_ready [OF circuit_neutral(2)] assms(1), of e "p_slug p" stg] Pair by simp
  let ?d = "\<lambda>a b. d\<lparr>d_status := DELIVERING, d_attempt_count := d_attempt_count d + 1,
      d_last_error_code := a, d_last_error_message := b\<rparr>"
  have f: "settled d c (snd (mark_failed_dlq e (?d a b) p ep reason st msg w1))" for a b reason st msg
    using r1 assms(2) by (intro settled_failed) (simp_all add: delivery_step_def)
  have s: "settled d c (snd (schedule_retry e (?d a b) p t delay w1))"
    if "d_attempt_count d + 1 < d_max_attempts d" for a b delay
    using r1 assms(2) that by (intro settled_retry) (simp_all add: delivery_step_def)
  show ?thesis
  proof (cases r)
    case (Inl x)
    with Pair r1 show ?thesis by (simp add: retryable_branch_def seqE_run ready_settled)
  next
    case (Inr st)
    with Pair f s ready_settled [OF r1] show ?thesis
      by (simp add: retryable_branch_def Let_def seqE_run [of "record_failure e (p_slug p) stg"]
          bindE_run liftE_apply split: sum.split)
  qed
qed

lemma settled_attempt:
  assumes "w_committed w = c" "w_db w = c" "can_transition (d_status d) DELIVERING"
  shows "settled d c (snd (attempt_delivery e (d\<lparr>d_status := DELIVERING\<rparr>) p ep stg t body hs w))"
proof (cases "post_outbound e (ep_url ep) body hs (ep_timeout_connect_ms ep) (ep_timeout_read_ms ep) w")
  case (Pair r w1)
  have same: "w_committed w1 = c \<and> w_db w1 = c"
    using neutral_fields [OF on_db_post, where w = w] Pair assms(1,2) by (metis snd_conv)
  show ?thesis
  proof (cases r)
    case (Inl x)
    with Pair same show ?thesis by (simp add: attempt_delivery_def bindE_run settled_def)
  next
    case (Inr pr)
    define w2 where "w2 = snd (add_attempt e (d_id d) (d_attempt_count d + 1) t pr w1)"
    have a: "add_attempt e (d_id d) (d_attempt_count d + 1) t pr w1 = (Inr (), w2)"
      by (simp add: w2_def add_attempt_def run_simps)
    have rd: "ready d c w2"
      using same by (auto simp: w2_def add_attempt_def run_simps ready_def intro!: exI [of _ "[a]" for a])
    show ?thesis
      using Pair Inr a settled_success [OF rd assms(3)] settled_poison [OF rd assms(3)]
        settled_retryable [OF rd assms(3)]
      by (simp add: attempt_delivery_def bindE_run seqE_run Let_def)
  qed
qed

lemma fetch_context_Some:
  assumes "fetch_delivery_context u w = (Inr (Some (d, p, ep)), w')"
  shows "w' = w" "d \<in> set (db_deliveries (w_db w))" "d_public_id d = u" "p \<in> set (db_partners (w_db w))"
    "d_partner_id d = p_id p" "ep \<in> set (db_endpoints (w_db w))" "d_endpoint_id d = ep_id ep"
proof -
  define rows where "rows = concat (map (\<lambda>d. concat (map (\<lambda>p. map (\<lambda>ep. (d, p, ep))
              (filter (\<lambda>ep. d_endpoint_id d = ep_id ep) (db_endpoints (w_db w))))
              (filter (\<lambda>p. d_partner_id d = p_id p) (db_partners (w_db w)))))
              (filter (\<lambda>d. d_public_id d = u) (db_deliveries (w_db w))))"
  have "one_or_none rows w = (Inr (Some (d, p, ep)), w')"
    using assms by (simp add: fetch_delivery_context_def bindE_simps rows_def)
  then have "rows = [(d, p, ep)]" and w: "w' = w"
    by (auto simp: one_or_none_def ret_apply throw_apply split: list.splits)
  then have "(d, p, ep) \<in> set rows" by simp
  with w show "w' = w" and "d \<in> set (db_deliveries (w_db w))" "d_public_id d = u" "p \<in> set (db_partners (w_db w))"
    "d_partner_id d = p_id p" "ep \<in> set (db_endpoints (w_db w))" "d_endpoint_id d = ep_id ep"
    by (auto simp: rows_def)
qed

lemma fetch_context_state: "snd (fetch_delivery_context u w) = w"
  by (simp add: fetch_delivery_context_def bindE_simps one_or_none_def ret_apply throw_apply split: list.splits)

text \<open>The whole message, up to the send, as a function of the state.\<close>

lemma process_run:
  "process_outbound_message e envl stg now w =
     (case item envl ''delivery_id'' of Inl x \<Rightarrow> (Inl x, w) | Inr raw \<Rightarrow>
      (case uuid_of raw of Inl x \<Rightarrow> (Inl x, w) | Inr u \<Rightarrow>
       (case fst (fetch_delivery_context u w) of Inl x \<Rightarrow> (Inl x, w) | Inr None \<Rightarrow> (Inr SKIPPED, w)
        | Inr (Some (d, p, ep)) \<Rightarrow>
           if d_status d \<in> set [DeliveryStatus.DELIVERED, FAILED] then (Inr SKIPPED, w)
           else if d_status d \<notin> set DELIVERING_SOURCES then
             (Inr SKIPPED, w\<lparr>w_metrics := w_metrics w @
                [Counter ''hub_invalid_transition_total'' 1 [(''partner_slug'', p_slug p)]]\<rparr>)
           else send_delivery e (d\<lparr>d_status := DELIVERING\<rparr>) p ep stg
                  (case now of Some t \<Rightarrow> t | None \<Rightarrow> w_clock w) w)))"
proof -
  have f: "fetch_delivery_context u w = (fst (fetch_delivery_context u w), w)" for u
    using fetch_context_state [of u w] by (metis prod.collapse)
  have tr: "d_status d \<in> set DELIVERING_SOURCES \<Longrightarrow> transition h (d_status d) DELIVERING = ret DELIVERING" for d h
    by (auto simp: DELIVERING_SOURCES_def transition_ok)
  have n: "bindE (case now of Some t \<Rightarrow> ret t | None \<Rightarrow> utcnow) k w =
      k (case now of Some t \<Rightarrow> t | None \<Rightarrow> w_clock w) w" for k :: "time \<Rightarrow> ('a, 'b, ProcessOutcome) hub"
    by (cases now) (simp_all add: bindE_simps bindE_run utcnow_apply)
  have m: "record_invalid_transition slug w = (Inr (), w\<lparr>w_metrics := w_metrics w @
                [Counter ''hub_invalid_transition_total'' 1 [(''partner_slug'', slug)]]\<rparr>)" for slug
    by (simp add: record_invalid_transition_def run_simps)
  show ?thesis
  proof (cases "item envl ''delivery_id''")
    case raw: (Inr raw)
    show ?thesis
    proof (cases "uuid_of raw")
      case u: (Inr u)
      show ?thesis
        unfolding process_outbound_message_def n raw u bindE_simps bindE_run [of "fetch_delivery_context u"]
        by (subst f) (auto simp: raw u seqE_run m tr bindE_simps ret_apply split: sum.split option.split)
    qed (simp add: process_outbound_message_def n raw bindE_simps throw_apply)
  qed (simp add: process_outbound_message_def n bindE_simps throw_apply)
qed

lemma fetch_context_eq:
  "fst (fetch_delivery_context u w) = r \<Longrightarrow> fetch_delivery_context u w = (r, w)"
  using fetch_context_state [of u w] by (metis prod.collapse)

lemma send_settles:
  assumes "w_db w = w_committed w" "d_status d \<in> set DELIVERING_SOURCES"
  shows "settled d (w_committed w) (snd (send_delivery e (d\<lparr>d_status := DELIVERING\<rparr>) p ep stg t w))"
proof -
  have tr: "can_transition (d_status d) DELIVERING"
    using assms(2) by (auto simp: DELIVERING_SOURCES_def)
  let ?c = "w_committed w" and ?d = "d\<lparr>d_status := DELIVERING\<rparr>"
  have fresh: "ready d ?c v" if "w_committed v = ?c" "w_db v = ?c" for v :: "('a, 'b) world"
    using that by (auto simp: ready_def intro!: exI [of _ "[]"])
  obtain rs w1 where l: "load_outbound_primary_secret e p stg w = (rs, w1)" by force
  have w1: "w_committed w1 = ?c" "w_db w1 = ?c"
    using neutral_fields [OF secret_neutral, where w = w] l assms(1) by (metis snd_conv)+
  have f: "settled d ?c (snd (mark_failed_dlq e ?d p ep NON_RETRYABLE_ERROR None msg w1))" for msg
    using fresh [OF w1] tr by (intro settled_failed) (simp_all add: delivery_step_def)
  show ?thesis
  proof (cases rs)
    case (Inl x)
    with l w1 show ?thesis by (simp add: send_delivery_def bindE_run settled_def)
  next
    case rs: (Inr so)
    show ?thesis
    proof (cases so)
      case None
      with rs l f show ?thesis by (simp add: send_delivery_def bindE_run)
    next
      case (Some secret)
      obtain ra w2 where a: "allow_outbound e (p_slug p) stg w1 = (ra, w2)" by force
      have w2: "w_committed w2 = ?c" "w_db w2 = ?c"
        using neutral_fields [OF circuit_neutral(1), where w = w1] a w1 by (metis snd_conv)+
      have "settled d ?c w2" using w2 by (simp add: settled_def)
      then show ?thesis
        using settled_circuit_open [OF fresh [OF w2] tr] settled_attempt [OF w2 tr] a l rs Some
        by (cases ra) (simp_all add: send_delivery_def Let_def bindE_run)
    qed
  qed
qed

section \<open>Outcomes\<close>

lemma seqE_ret_result: "seqE m (ret x) w = (Inr y, w') \<Longrightarrow> y = x"
  by (auto simp: seqE_run ret_apply split: prod.splits sum.splits)

lemma retry_outcome: "schedule_retry e d p t delay w = (Inr y, w') \<Longrightarrow> y = RETRY_SCHEDULED"
  unfolding schedule_retry_def Let_def transition_ok
  by (auto simp: bindE_run seqE_run ret_apply split: prod.splits sum.splits)

lemma circuit_open_outcome: "circuit_open_branch e d p stg t w = (Inr y, w') \<Longrightarrow> y = RETRY_SCHEDULED"
  by (auto simp: circuit_open_branch_def bindE_run dest: retry_outcome split: prod.splits sum.splits)

lemma poison_outcome: "poison_branch e d p ep pr w = (Inr y, w') \<Longrightarrow> y = DLQ"
  by (auto simp: poison_branch_def Let_def dest: seqE_ret_result)

lemma retryable_outcome:
  "retryable_branch e d p ep stg t pr w = (Inr y, w') \<Longrightarrow> y \<noteq> DELIVERED"
  by (auto simp: retryable_branch_def Let_def seqE_run [of "record_failure e (p_slug p) stg"] bindE_run
      liftE_apply dest: seqE_ret_result retry_outcome split: prod.splits sum.splits if_splits)

lemma success_outcome: "success_branch e d p stg t w = (Inr y, w') \<Longrightarrow> y = DELIVERED"
  by (auto simp: success_branch_def Let_def seqE_run bindE_run transition_ok ret_apply
      split: prod.splits sum.splits)

text \<open>Only the POST adds to the requests the partners saw.\<close>

definition on_http :: "(http_request list \<Rightarrow> bool) \<Rightarrow> ('r, 'k) world \<Rightarrow> bool" where
  "on_http P w \<longleftrightarrow> P (w_http w)"

lemma on_http_prims [keep_intros]:
  "keeps (on_http P) (call_redis f)" "keeps (on_http P) (send_and_wait e m)" "keeps (on_http P) utcnow"
  "keeps (on_http P) next_draw" "keeps (on_http P) (generate_uuidv7 e)" "keeps (on_http P) (update_db g)"
  "keeps (on_http P) commit" "keeps (on_http P) (one_or_none rows)" "keeps (on_http P) (emit_metric m')"
  by (auto simp: keeps_def on_http_def call_redis_def send_and_wait_def commit_def flush_def run_simps
      one_or_none_def split: prod.splits reply.splits list.splits)

lemma on_http_except [keep_intros]:
  "keeps (on_http P) m \<Longrightarrow> keeps (on_http P) h \<Longrightarrow> keeps (on_http P) (except_redis m h)"
  unfolding except_redis_def by (intro keep_intros)

lemma on_http_metric [keep_intros]:
  "keeps (on_http P) (record_delivery_metric n a v)" "keeps (on_http P) (set_gauge_metric n v a)"
  unfolding record_delivery_metric_def set_gauge_metric_def by (intro keep_intros)+

lemma on_http_circuit [keep_intros]:
  "keeps (on_http P) (get_circuit_state e slug stg)" "keeps (on_http P) (allow_outbound e slug stg)"
  "keeps (on_http P) (record_success e slug stg)"
proof -
  show g: "keeps (on_http P) (get_circuit_state e slug stg)"
    unfolding get_circuit_state_def by (intro keep_intros)
  show "keeps (on_http P) (allow_outbound e slug stg)" "keeps (on_http P) (record_success e slug stg)"
    unfolding allow_outbound_def record_success_def set_state_metric_def by (intro keep_intros g)+
qed

lemma on_http_secret [keep_intros]: "keeps (on_http P) (load_outbound_primary_secret e p stg)"
  unfolding load_outbound_primary_secret_def fetch_primary_row_def
  by (intro keep_intros) (auto intro: keep_intros split: sum.splits)

lemma on_http_success [keep_intros]: "keeps (on_http P) (success_branch e d p stg t)"
  unfolding success_branch_def save_delivery_def publish_sla_breached_def Let_def
  by (intro keep_intros) (auto simp: transition_ok intro: keep_intros)

lemma http_same: "(\<And>P. keeps (on_http P) m) \<Longrightarrow> m w = (r, w') \<Longrightarrow> w_http w' = w_http w"
  using keepsD [of "on_http (\<lambda>h. h = w_http w)" m w] by (simp add: on_http_def)

lemma success_Inr:
  assumes "success_branch e d p stg now w = (Inr y, w')"
  shows "\<exists>stamp. w_committed w' = (w_db w)\<lparr>db_deliveries :=
           put_row d_id (delivered_row d now stamp) (db_deliveries (w_db w))\<rparr>"
proof -
  obtain r w1 where rs: "record_success e (p_slug p) stg w = (r, w1)" by force
  with assms obtain st where r: "r = Inr st"
    by (cases r) (auto simp: success_branch_def seqE_run)
  have t: "transition None DELIVERING DeliveryStatus.DELIVERED = ret DeliveryStatus.DELIVERED"
    by (simp add: transition_ok)
  let ?db = "(w_db w1)\<lparr>db_deliveries := put_row d_id (delivered_row d now (w_clock w1)) (db_deliveries (w_db w1))\<rparr>"
  have "constraints_ok ?db"
  proof (rule ccontr)
    assume "\<not> constraints_ok ?db"
    with assms rs r show False
      by (simp add: success_branch_def seqE_run [of "record_success e (p_slug p) stg"] t bindE_simps Let_def
          save_delivery_def seqE_run [of "bindE utcnow _"] bindE_run utcnow_apply update_db_apply
          seqE_run [of commit] commit_violation delivered_row_def split: prod.splits)
  qed
  moreover have "w_db w1 = w_db w" using neutral_fields [OF circuit_neutral(3), where w = w] rs by (metis snd_conv)
  moreover have "w_committed (snd (success_branch e d p stg now w)) =
      (if constraints_ok ?db then ?db else w_committed w1)"
    using success_committed [of e p stg w st w1 d now] rs r by (simp add: Let_def)
  ultimately show ?thesis using assms by auto
qed

lemma post_run:
  assumes "post_outbound e url body hs tc tr w = (Inr pr, w')"
  defines "rq \<equiv> \<lparr>rq_url = url, rq_body = body, rq_headers = hs, rq_timeout_connect_ms = tc, rq_timeout_read_ms = tr\<rparr>"
  shows "w_http w' = w_http w @ [rq]"
    and "pr_error_type pr = None \<Longrightarrow> pr_http_status_code pr = Some code \<Longrightarrow>
           \<exists>rhs rtext took. http_post e (w_http w) rq = (HttpResponse code rhs rtext, took)"
proof -
  obtain oc took where o: "http_post e (w_http w) rq = (oc, took)" by force
  have c: "w_http w' = w_http w @ [rq] \<and> (pr_error_type pr = None \<longrightarrow> (\<forall>code. pr_http_status_code pr = Some code \<longrightarrow>
      (\<exists>rhs rtext. oc = HttpResponse code rhs rtext)))"
    using assms(1) o [unfolded rq_def]
    by (cases oc) (auto simp: post_outbound_def run_simps now_ms_def Let_def rq_def
        split: httpx_error.splits)
  then show "w_http w' = w_http w @ [rq]" by simp
  show "\<exists>rhs rtext took. http_post e (w_http w) rq = (HttpResponse code rhs rtext, took)"
    if "pr_error_type pr = None" "pr_http_status_code pr = Some code"
    using c that o by auto
qed

text \<open>The request a delivery is sent with.\<close>

definition request_for :: "delivery \<Rightarrow> partner_endpoint \<Rightarrow> bytes \<Rightarrow> time \<Rightarrow> http_request" where
  "request_for d ep secret t = \<lparr>rq_url = ep_url ep, rq_body = serialize_payload (d_payload d),
     rq_headers = build_outbound_headers (str_uuid (d_public_id d)) (d_event_type d)
       (str_int (int_timestamp t)) (serialize_payload (d_payload d)) secret (d_idempotency_key d)
       (d_correlation_id d),
     rq_timeout_connect_ms = ep_timeout_connect_ms ep, rq_timeout_read_ms = ep_timeout_read_ms ep\<rparr>"

lemma attempt_delivered:
  assumes "attempt_delivery e d p ep stg t (serialize_payload (d_payload d))
      (build_outbound_headers (str_uuid (d_public_id d)) (d_event_type d) (str_int (int_timestamp t))
        (serialize_payload (d_payload d)) secret (d_idempotency_key d) (d_correlation_id d)) w = (Inr DELIVERED, w')"
  shows "w_http w' = w_http w @ [request_for d ep secret t] \<and>
     (\<exists>code hs rtext took. http_post e (w_http w) (request_for d ep secret t) = (HttpResponse code hs rtext, took) \<and>
        200 \<le> code \<and> code < 300) \<and>
     (\<exists>stamp. db_deliveries (w_committed w') = put_row d_id (delivered_row d t stamp) (db_deliveries (w_db w)))"
proof -
  let ?post = "post_outbound e (ep_url ep) (serialize_payload (d_payload d))
      (build_outbound_headers (str_uuid (d_public_id d)) (d_event_type d) (str_int (int_timestamp t))
        (serialize_payload (d_payload d)) secret (d_idempotency_key d) (d_correlation_id d))
      (ep_timeout_connect_ms ep) (ep_timeout_read_ms ep)"
  obtain pr w1 where p: "?post w = (Inr pr, w1)"
    using assms by (auto simp: attempt_delivery_def bindE_run split: prod.splits sum.splits)
  obtain w2 where a: "add_attempt e (d_id d) (d_attempt_count d + 1) t pr w1 = (Inr (), w2)"
      and w2: "w_http w2 = w_http w1" "db_deliveries (w_db w2) = db_deliveries (w_db w1)"
    by (simp add: add_attempt_def run_simps)
  have b: "w_db w1 = w_db w" using neutral_fields [OF on_db_post, where w = w] p by (metis snd_conv)
  let ?cl = "classify_http_outcome (pr_http_status_code pr) (ep_retry_on_status_codes ep)
      (network_error_from_result (pr_error_type pr))"
  have s: "?cl = SUCCESS" and sb: "success_branch e d p stg t w2 = (Inr DELIVERED, w')"
    using assms p a by (auto simp: attempt_delivery_def bindE_run seqE_run Let_def
        dest: poison_outcome retryable_outcome split: if_splits)
  from s obtain code where "network_error_from_result (pr_error_type pr) = None"
      and code: "pr_http_status_code pr = Some code" "200 \<le> code" "code < 300"
    by (auto simp: classify_success)
  then have "pr_error_type pr = None"
    by (auto simp: network_error_from_result_def split: option.splits if_splits)
  then obtain hs rtext took where "http_post e (w_http w) (request_for d ep secret t) = (HttpResponse code hs rtext, took)"
    using post_run(2) [OF p, of code] code by (auto simp: request_for_def)
  moreover have "w_http w' = w_http w @ [request_for d ep secret t]"
    using http_same [OF on_http_success sb] w2 post_run(1) [OF p] by (simp add: request_for_def)
  ultimately show ?thesis using success_Inr [OF sb] code w2 b by fastforce
qed

lemma send_delivered:
  assumes "send_delivery e d p ep stg t w = (Inr DELIVERED, w')"
  shows "\<exists>secret. w_http w' = w_http w @ [request_for d ep secret t] \<and>
     fst (load_outbound_primary_secret e p stg w) = Inr (Some secret) \<and>
     (\<exists>code hs rtext took. http_post e (w_http w) (request_for d ep secret t) = (HttpResponse code hs rtext, took) \<and>
        200 \<le> code \<and> code < 300) \<and>
     (\<exists>stamp. db_deliveries (w_committed w') = put_row d_id (delivered_row d t stamp) (db_deliveries (w_db w)))"
proof -
  obtain so w1 where l: "load_outbound_primary_secret e p stg w = (Inr so, w1)"
    using assms by (auto simp: send_delivery_def bindE_run split: prod.splits sum.splits)
  with assms obtain secret where so: "so = Some secret"
    by (cases so) (auto simp: send_delivery_def bindE_run dest: seqE_ret_result)
  obtain al w2 where a: "allow_outbound e (p_slug p) stg w1 = (Inr al, w2)"
    using assms l so by (auto simp: send_delivery_def bindE_run Let_def split: prod.splits sum.splits)
  have w2: "w_http w2 = w_http w" "w_db w2 = w_db w"
    using http_same [OF on_http_secret l] http_same [OF on_http_circuit(2) a]
      neutral_fields [OF secret_neutral, where w = w] neutral_fields [OF circuit_neutral(1), where w = w1] l a
    by (metis snd_conv)+
  have "attempt_delivery e d p ep stg t (serialize_payload (d_payload d))
      (build_outbound_headers (str_uuid (d_public_id d)) (d_event_type d) (str_int (int_timestamp t))
        (serialize_payload (d_payload d)) secret (d_idempotency_key d) (d_correlation_id d)) w2 = (Inr DELIVERED, w')"
    using assms l so a
    by (cases al) (auto simp: send_delivery_def bindE_run Let_def dest: circuit_open_outcome)
  from attempt_delivered [OF this] w2 l so show ?thesis by auto
qed

text \<open>What a message leaves in the database.\<close>

lemma process_settles:
  assumes "w_db w = w_committed w" and "process_outbound_message e envl stg now w = (r, w')"
  shows "w_committed w' = w_committed w \<or>
     (\<exists>d raw. d \<in> set (db_deliveries (w_committed w)) \<and> item envl ''delivery_id'' = Inr raw \<and>
        uuid_of raw = Inr (d_public_id d) \<and> d_status d \<in> set DELIVERING_SOURCES \<and>
        advances d (w_committed w) (w_committed w') \<and> constraints_ok (w_committed w'))"
proof (cases "\<exists>raw u d p ep. item envl ''delivery_id'' = Inr raw \<and> uuid_of raw = Inr u \<and>
      fst (fetch_delivery_context u w) = Inr (Some (d, p, ep)) \<and> d_status d \<in> set DELIVERING_SOURCES")
  case True
  then obtain raw u d p ep where c: "item envl ''delivery_id'' = Inr raw" "uuid_of raw = Inr u"
      "fst (fetch_delivery_context u w) = Inr (Some (d, p, ep))" and st: "d_status d \<in> set DELIVERING_SOURCES"
    by blast
  then have "d_status d \<notin> set [DeliveryStatus.DELIVERED, FAILED]" by (auto simp: DELIVERING_SOURCES_def)
  with c st assms(2) have "send_delivery e (d\<lparr>d_status := DELIVERING\<rparr>) p ep stg
      (case now of Some t \<Rightarrow> t | None \<Rightarrow> w_clock w) w = (r, w')"
    by (simp add: process_run)
  with send_settles [OF assms(1) st] have "settled d (w_committed w) w'" by (metis snd_conv)
  moreover have "d \<in> set (db_deliveries (w_committed w))" "d_public_id d = u"
    using fetch_context_Some [OF fetch_context_eq [OF c(3)]] assms(1) by simp_all
  ultimately show ?thesis using c st unfolding settled_def by blast
next
  case False
  then have "w_committed w' = w_committed w"
    using assms(2) by (auto simp: process_run split: sum.splits option.splits if_splits)
  then show ?thesis by simp
qed

section \<open>Properties\<close>

text \<open>
  C4. A message never moves a delivery outside its life cycle. Whatever the partner, Redis and
  Kafka do, processing a message in a fresh session either leaves the committed database as it was
  or advances exactly the delivery the envelope names, from a status the worker accepts: through
  \<open>DELIVERING\<close> to delivered, retrying or failed, with payload, keys, partner, endpoint and deadline
  untouched, at most one attempt logged under the next number, a dead letter exactly on failure,
  and all database constraints satisfied.
\<close>

theorem process_outbound_safe:
  assumes "w_db w = w_committed w" and "process_outbound_message e envl stg now w = (r, w')"
  shows "w_committed w' = w_committed w \<or>
     (\<exists>d raw. d \<in> set (db_deliveries (w_committed w)) \<and> item envl ''delivery_id'' = Inr raw \<and>
        uuid_of raw = Inr (d_public_id d) \<and> d_status d \<in> set DELIVERING_SOURCES \<and>
        advances d (w_committed w) (w_committed w') \<and> constraints_ok (w_committed w'))"
  by (rule process_settles [OF assms])

text \<open>The sample delivery is delivered by a partner that answers 200.\<close>

definition sample_envelope :: json where
  "sample_envelope = build_outbound_pending_envelope 6 1 2 ''order.created'' (JObj []) ''k1'' ''c1'' 0 60000000 1"

lemma sample_context:
  "fst (fetch_delivery_context 6 (with_delivery (sample_delivery st n))) =
     Inr (Some (sample_delivery st n, sample_partner, sample_endpoint))"
  by (simp add: fetch_delivery_context_def run_simps with_delivery_def sample_defs)

lemma sample_delivers:
  "\<exists>w'. process_outbound_message mem_env sample_envelope default_settings (Some 5)
      (with_delivery (sample_delivery DeliveryStatus.PENDING 0)) = (Inr DELIVERED, w')"
proof -
  let ?w = "with_delivery (sample_delivery DeliveryStatus.PENDING 0)"
  let ?d = "(sample_delivery DeliveryStatus.PENDING 0)\<lparr>d_status := DELIVERING\<rparr>"
  have l: "load_outbound_primary_secret mem_env sample_partner default_settings ?w = (Inr (Some ''old''), ?w)"
    by (simp add: load_outbound_primary_secret_def fetch_primary_row_def primary_rows_def run_simps
        decrypt_signing_secret_def default_settings_def is_ascii_def with_delivery_def sample_defs)
  have a: "allow_outbound mem_env (p_slug sample_partner) default_settings ?w = (Inr True, ?w)"
    by (simp add: allow_outbound_def get_circuit_state_def run_simps call_redis_def mem_redis_ops_def mem_view_def
        with_delivery_def sample_defs)
  show ?thesis
    by (simp add: process_run sample_envelope_def sample_context DELIVERING_SOURCES_def send_delivery_def
        bindE_run l a Let_def)
       (simp add: attempt_delivery_def post_outbound_def now_ms_def run_simps add_attempt_def Let_def
         classify_http_outcome_def network_error_from_result_def success_branch_def record_success_def
         call_redis_def mem_redis_ops_def transition_ok apply_first_success_def save_delivery_def
         commit_def flush_def
         with_delivery_def sample_defs constraints_ok_def table_ok_defs references_def unique_on_def put_row_def)
qed

theorem process_outbound_safe_witness:
  "\<exists>w'. process_outbound_message mem_env sample_envelope default_settings (Some 5)
      (with_delivery (sample_delivery DeliveryStatus.PENDING 0)) = (Inr DELIVERED, w') \<and>
     (w_committed w' = sample_db\<lparr>db_deliveries := [sample_delivery DeliveryStatus.PENDING 0]\<rparr> \<or>
      (\<exists>d. advances d (sample_db\<lparr>db_deliveries := [sample_delivery DeliveryStatus.PENDING 0]\<rparr>) (w_committed w')))"
proof -
  obtain w' where r: "process_outbound_message mem_env sample_envelope default_settings (Some 5)
      (with_delivery (sample_delivery DeliveryStatus.PENDING 0)) = (Inr DELIVERED, w')"
    using sample_delivers by blast
  have f: "w_db (with_delivery (sample_delivery DeliveryStatus.PENDING 0)) =
      w_committed (with_delivery (sample_delivery DeliveryStatus.PENDING 0))"
    by (simp add: with_delivery_def)
  from process_outbound_safe [OF f r] r show ?thesis by (auto simp: with_delivery_def)
qed

text \<open>
  C5. Delivered means acknowledged. If processing a message reports \<open>DELIVERED\<close>, then exactly one
  request was sent, for the delivery the envelope names, to its endpoint's URL, with the canonical
  body signed under the partner's outbound secret, the partner answered that request with a 2xx
  status, and the committed delivery is delivered with its first success recorded.
\<close>

theorem delivered_means_acknowledged:
  assumes "w_db w = w_committed w" and "process_outbound_message e envl stg (Some t) w = (Inr DELIVERED, w')"
  shows "\<exists>d p ep secret code hs rtext took. d \<in> set (db_deliveries (w_committed w)) \<and>
     p \<in> set (db_partners (w_committed w)) \<and> d_partner_id d = p_id p \<and>
     ep \<in> set (db_endpoints (w_committed w)) \<and> d_endpoint_id d = ep_id ep \<and>
     fst (load_outbound_primary_secret e p stg w) = Inr (Some secret) \<and>
     w_http w' = w_http w @ [request_for d ep secret t] \<and>
     http_post e (w_http w) (request_for d ep secret t) = (HttpResponse code hs rtext, took) \<and>
     200 \<le> code \<and> code < 300 \<and>
     (\<exists>r \<in> set (db_deliveries (w_committed w')). d_id r = d_id d \<and>
        d_status r = DeliveryStatus.DELIVERED \<and> d_first_success_at r \<noteq> None)"
proof -
  from assms(2) obtain raw u d p ep where c: "item envl ''delivery_id'' = Inr raw" "uuid_of raw = Inr u"
      "fst (fetch_delivery_context u w) = Inr (Some (d, p, ep))"
      and s: "send_delivery e (d\<lparr>d_status := DELIVERING\<rparr>) p ep stg t w = (Inr DELIVERED, w')"
    by (auto simp: process_run split: sum.splits option.splits if_splits)
  have q: "request_for (d\<lparr>d_status := DELIVERING\<rparr>) ep secret t = request_for d ep secret t" for secret
    by (simp add: request_for_def)
  note ctx = fetch_context_Some [OF fetch_context_eq [OF c(3)], unfolded assms(1)]
  obtain secret code hs rtext took stamp where
    "fst (load_outbound_primary_secret e p stg w) = Inr (Some secret)"
    "w_http w' = w_http w @ [request_for d ep secret t]"
    "http_post e (w_http w) (request_for d ep secret t) = (HttpResponse code hs rtext, took)"
    "200 \<le> code" "code < 300" and
    row: "db_deliveries (w_committed w') =
        put_row d_id (delivered_row (d\<lparr>d_status := DELIVERING\<rparr>) t stamp) (db_deliveries (w_committed w))"
    using send_delivered [OF s] assms(1) unfolding q by auto
  moreover have "delivered_row (d\<lparr>d_status := DELIVERING\<rparr>) t stamp \<in> set (db_deliveries (w_committed w'))"
    unfolding row by (rule in_put_row [OF ctx(2)]) (simp add: delivered_row_def)
  moreover have "d_id (delivered_row (d\<lparr>d_status := DELIVERING\<rparr>) t stamp) = d_id d"
    "d_status (delivered_row (d\<lparr>d_status := DELIVERING\<rparr>) t stamp) = DeliveryStatus.DELIVERED"
    "d_first_success_at (delivered_row (d\<lparr>d_status := DELIVERING\<rparr>) t stamp) \<noteq> None"
    by (simp_all add: delivered_row_def)
  ultimately show ?thesis using ctx by blast
qed

theorem delivered_means_acknowledged_witness:
  "\<exists>w' rq. process_outbound_message mem_env sample_envelope default_settings (Some 5)
      (with_delivery (sample_delivery DeliveryStatus.PENDING 0)) = (Inr DELIVERED, w') \<and> w_http w' = [rq]"
proof -
  obtain w' where r: "process_outbound_message mem_env sample_envelope default_settings (Some 5)
      (with_delivery (sample_delivery DeliveryStatus.PENDING 0)) = (Inr DELIVERED, w')"
    using sample_delivers by blast
  have f: "w_db (with_delivery (sample_delivery DeliveryStatus.PENDING 0)) =
      w_committed (with_delivery (sample_delivery DeliveryStatus.PENDING 0))"
    and h: "w_http (with_delivery (sample_delivery DeliveryStatus.PENDING 0)) = []"
    by (simp_all add: with_delivery_def sample_defs)
  from delivered_means_acknowledged [OF f r] r h show ?thesis by auto
qed

end
