(* ===== verification/OutboundFindings.thy ===== *)
theory OutboundFindings
  imports OutboundProcessor
begin

text \<open>
  Redelivered and replayed messages. A message for a finished delivery changes nothing. Two
  constraints make replays fail: \<open>dead_letters.delivery_id\<close> is unique although every failure inserts
  a dead letter, and \<open>(delivery_id, attempt_number)\<close> is unique although a poisoned attempt does not
  advance the attempt counter and a replay may reset it.
\<close>

section \<open>Sessions that cannot commit\<close>

definition attempt_key :: "delivery_attempt \<Rightarrow> int \<times> int" where
  "attempt_key a = (at_delivery_id a, at_attempt_number a)"

definition doomed :: "('r, 'k) world \<Rightarrow> bool" where
  "doomed w \<longleftrightarrow> \<not> unique_on attempt_key (db_attempts (w_db w))"

lemma doomed_violates:
  "\<not> unique_on attempt_key (db_attempts db) \<Longrightarrow> \<not> constraints_ok db"
proof -
  have "attempt_key = (\<lambda>a. (at_delivery_id a, at_attempt_number a))"
    by (rule ext) (simp add: attempt_key_def)
  then show "\<not> unique_on attempt_key (db_attempts db) \<Longrightarrow> \<not> constraints_ok db"
    by (simp add: constraints_ok_def attempts_ok_def)
qed

lemma doomed_mark_failed:
  assumes "doomed w"
  shows "\<exists>w'. mark_failed_dlq e d p ep reason st msg w = (Inl IntegrityError, w') \<and> w_committed w' = w_committed w"
  using assms doomed_violates
  by (simp add: doomed_def mark_failed_dlq_def transition_ok bindE_simps Let_def save_delivery_def
      add_dead_letter_def seqE_run bindE_run utcnow_apply update_db_apply generate_uuidv7_apply commit_violation)

lemma doomed_schedule_retry:
  assumes "doomed w"
  shows "\<exists>w'. schedule_retry e d p t delay w = (Inl IntegrityError, w') \<and> w_committed w' = w_committed w"
  using assms doomed_violates
  by (simp add: doomed_def schedule_retry_def transition_ok bindE_simps Let_def save_delivery_def
      seqE_run bindE_run utcnow_apply update_db_apply commit_violation)

lemma neutral_doomed:
  assumes "\<And>J. keeps (on_db J) k" "k w = (r, w')"
  shows "doomed w' = doomed w" "w_committed w' = w_committed w"
  using neutral_fields [OF assms(1), where w = w] assms(2) by (simp_all add: doomed_def)

lemma doomed_success:
  assumes "doomed w"
  shows "\<exists>x w'. success_branch e d p stg t w = (Inl x, w') \<and> w_committed w' = w_committed w"
proof (cases "record_success e (p_slug p) stg w")
  case (Pair r w1)
  note n = neutral_doomed [OF circuit_neutral(3) Pair]
  show ?thesis
  proof (cases r)
    case (Inr st)
    with Pair n assms doomed_violates show ?thesis
      by (simp add: doomed_def success_branch_def seqE_run [of "record_success e (p_slug p) stg"] transition_ok
          bindE_simps Let_def save_delivery_def seqE_run bindE_run utcnow_apply update_db_apply
          commit_violation split: prod.split)
  qed (use Pair n in \<open>simp add: success_branch_def seqE_run\<close>)
qed

lemma doomed_retryable:
  assumes "doomed w"
  shows "\<exists>x w'. retryable_branch e d p ep stg t pr w = (Inl x, w') \<and> w_committed w' = w_committed w"
proof (cases "record_failure e (p_slug p) stg w")
  case (Pair r w1)
  note n = neutral_doomed [OF circuit_neutral(2) Pair]
  have w1: "doomed w1" using n assms by simp
  show ?thesis
  proof (cases r)
    case (Inr st)
    have f: "\<exists>x w'. seqE (mark_failed_dlq e d' p ep reason s msg) (ret DLQ) w1 = (Inl x, w') \<and> w_committed w' = w_committed w"
      for d' reason s msg
      using doomed_mark_failed [OF w1, of e d' p ep reason s msg] n by (auto simp: seqE_run)
    have g: "\<exists>x w'. bindE (liftE delay) (schedule_retry e d' p t) w1 = (Inl x, w') \<and> w_committed w' = w_committed w"
      for d' delay
    proof (cases delay)
      case (Inr q)
      then show ?thesis using doomed_schedule_retry [OF w1, of e d' p t q] n by (auto simp: bindE_simps)
    qed (use n in \<open>simp add: bindE_simps throw_apply\<close>)
    show ?thesis
      using Pair Inr f g by (simp add: retryable_branch_def Let_def seqE_run [of "record_failure e (p_slug p) stg"])
  qed (use Pair n in \<open>simp add: retryable_branch_def seqE_run\<close>)
qed

lemma doomed_poison:
  assumes "doomed w"
  shows "\<exists>x w'. poison_branch e d p ep pr w = (Inl x, w') \<and> w_committed w' = w_committed w"
proof -
  have "\<exists>x w'. seqE (mark_failed_dlq e d' p ep reason s msg) (ret DLQ) w = (Inl x, w') \<and> w_committed w' = w_committed w"
    for d' reason s msg
    using doomed_mark_failed [OF assms, of e d' p ep reason s msg] by (auto simp: seqE_run)
  then show ?thesis by (simp add: poison_branch_def Let_def)
qed

lemma doomed_attempt:
  assumes "a \<in> set (db_attempts (w_db w))" "attempt_key a = (d_id d, d_attempt_count d + 1)"
  shows "\<exists>x w'. attempt_delivery e d p ep stg t body hs w = (Inl x, w') \<and> w_committed w' = w_committed w"
proof (cases "post_outbound e (ep_url ep) body hs (ep_timeout_connect_ms ep) (ep_timeout_read_ms ep) w")
  case (Pair r w1)
  have n: "w_committed w1 = w_committed w" "w_db w1 = w_db w"
    using neutral_fields [OF on_db_post, where w = w] Pair by (metis snd_conv)+
  show ?thesis
  proof (cases r)
    case (Inr pr)
    obtain w2 where add: "add_attempt e (d_id d) (d_attempt_count d + 1) t pr w1 = (Inr (), w2)"
        and w2: "w_committed w2 = w_committed w" "doomed w2"
      using assms n
      by (auto simp: add_attempt_def run_simps doomed_def unique_on_snoc attempt_key_def rev_image_eqI)
    show ?thesis
      using Pair Inr add doomed_success [OF w2(2), of e d p stg t] doomed_poison [OF w2(2), of e d p ep pr]
        doomed_retryable [OF w2(2), of e d p ep stg t pr] w2(1)
      by (simp add: attempt_delivery_def bindE_run seqE_run Let_def)
  qed (use Pair n in \<open>simp add: attempt_delivery_def bindE_run\<close>)
qed

lemma on_http_mark_failed [keep_intros]: "keeps (on_http P) (mark_failed_dlq e d p ep reason st msg)"
  unfolding mark_failed_dlq_def save_delivery_def add_dead_letter_def publish_outbound_dlq_def Let_def
  by (intro keep_intros) (simp add: transition_ok keeps_ret)

lemma on_http_circuit_open [keep_intros]: "keeps (on_http P) (circuit_open_branch e d p stg t)"
  unfolding circuit_open_branch_def schedule_retry_def save_delivery_def publish_outbound_retry_def Let_def
  by (intro keep_intros) (simp add: transition_ok keeps_ret)

section \<open>Dead letters are written once\<close>

lemma second_dead_letter:
  assumes "l \<in> set (db_dead_letters (w_db w))" "dl_delivery_id l = d_id d"
  shows "\<exists>w'. mark_failed_dlq e d p ep reason st msg w = (Inl IntegrityError, w') \<and> w_committed w' = w_committed w"
proof -
  have "\<not> constraints_ok (db\<lparr>db_dead_letters := db_dead_letters (w_db w) @ [x]\<rparr>)"
    if "dl_delivery_id x = d_id d" for db :: database and x
    using assms that by (auto simp: constraints_ok_def dead_letters_ok_def unique_on_snoc rev_image_eqI)
  then show ?thesis
    by (simp add: mark_failed_dlq_def transition_ok bindE_simps Let_def save_delivery_def
      add_dead_letter_def seqE_run bindE_run utcnow_apply update_db_apply generate_uuidv7_apply commit_violation)
qed

lemma second_failure_retryable:
  assumes "l \<in> set (db_dead_letters (w_db w))" "dl_delivery_id l = d_id d"
    "retryable_branch e d p ep stg t pr w = (r, w')"
  shows "r \<noteq> Inr DLQ"
proof (cases "record_failure e (p_slug p) stg w")
  case (Pair r1 w1)
  have n: "w_db w1 = w_db w" using neutral_fields [OF circuit_neutral(2), where w = w] Pair by (metis snd_conv)
  have f: "r \<noteq> Inr DLQ" if "seqE (mark_failed_dlq e d' p ep reason s msg) (ret DLQ) w1 = (r, w')" "d_id d' = d_id d"
    for d' reason s msg
    using second_dead_letter [of l w1 d' e p ep reason s msg] assms(1,2) n that by (auto simp: seqE_run)
  show ?thesis
    using assms(3) Pair f
    by (cases r1) (auto simp: retryable_branch_def Let_def seqE_run [of "record_failure e (p_slug p) stg"] bindE_run
        liftE_apply dest: retry_outcome split: if_splits sum.splits)
qed

lemma second_failure_send:
  assumes "l \<in> set (db_dead_letters (w_db w))" "dl_delivery_id l = d_id d"
    "send_delivery e d p ep stg t w = (r, w')"
  shows "r \<noteq> Inr DLQ"
proof (cases "load_outbound_primary_secret e p stg w")
  case l: (Pair rs w1)
  have w1: "w_db w1 = w_db w" using neutral_fields [OF secret_neutral, where w = w] l by (metis snd_conv)
  have f: "rr \<noteq> Inr DLQ" if "seqE (mark_failed_dlq e d' p ep reason s msg) (ret DLQ) v = (rr, v')" "d_id d' = d_id d"
    "w_db v = (w_db w)\<lparr>db_attempts := ats\<rparr>" for d' reason s msg v v' rr ats
    using second_dead_letter [of l v d' e p ep reason s msg] assms(1,2) that by (auto simp: seqE_run)
  obtain ra w2 where a: "allow_outbound e (p_slug p) stg w1 = (ra, w2)" by force
  have w2: "w_db w2 = w_db w" using neutral_fields [OF circuit_neutral(1), where w = w1] a w1 by (metis snd_conv)
  have att: "rr \<noteq> Inr DLQ" if att: "attempt_delivery e d p ep stg t body hs w2 = (rr, v')" for body hs rr v'
  proof (cases "post_outbound e (ep_url ep) body hs (ep_timeout_connect_ms ep) (ep_timeout_read_ms ep) w2")
    case (Pair rp w3)
    have w3: "w_db w3 = w_db w" using neutral_fields [OF on_db_post, where w = w2] Pair w2 by (metis snd_conv)
    show ?thesis
    proof (cases rp)
      case (Inr pr)
      obtain w4 ats where add: "add_attempt e (d_id d) (d_attempt_count d + 1) t pr w3 = (Inr (), w4)"
          and w4: "w_db w4 = (w_db w)\<lparr>db_attempts := ats\<rparr>"
        using w3 by (simp add: add_attempt_def run_simps)
      have "rr \<noteq> Inr DLQ" if "poison_branch e d p ep pr w4 = (rr, v')"
        using f [OF _ _ w4] that by (simp add: poison_branch_def Let_def)
      moreover have "rr \<noteq> Inr DLQ" if "retryable_branch e d p ep stg t pr w4 = (rr, v')"
        using second_failure_retryable [OF _ assms(2) that] assms(1) w4 by simp
      moreover have "rr \<noteq> Inr DLQ" if "success_branch e d p stg t w4 = (rr, v')"
        using that success_outcome by blast
      ultimately show ?thesis
        using att Pair Inr add by (auto simp: attempt_delivery_def bindE_run seqE_run Let_def split: if_splits)
    qed (use att Pair in \<open>auto simp: attempt_delivery_def bindE_run\<close>)
  qed
  show ?thesis
  proof (cases rs)
    case rs: (Inr so)
    have "w_db w1 = (w_db w)\<lparr>db_attempts := db_attempts (w_db w)\<rparr>" using w1 by simp
    note f1 = f [OF _ _ this]
    show ?thesis
      using assms(3) l rs a f1 att
      by (cases so; cases ra) (auto simp: send_delivery_def bindE_run Let_def dest: circuit_open_outcome split: if_splits)
  qed (use assms(3) l in \<open>auto simp: send_delivery_def bindE_run\<close>)
qed

section \<open>Properties\<close>

text \<open>
  Kafka may deliver a message again: a message for a delivery that is already delivered or
  failed is skipped, with no request, no message, no database change and no metric.
\<close>

lemma finished_delivery_ignored:
  assumes "fst (fetch_delivery_context u w) = Inr (Some (d, p, ep))"
    and "d_status d = DeliveryStatus.DELIVERED \<or> d_status d = FAILED"
  shows "process_outbound_message e
      (build_outbound_pending_envelope u pid epid ty payload ik ci sch sla n) stg now w = (Inr SKIPPED, w)"
  using assms by (auto simp: process_run)

lemma finished_delivery_ignored_witness:
  "process_outbound_message mem_env sample_envelope default_settings None
     (with_delivery (sample_delivery FAILED 2)) = (Inr SKIPPED, with_delivery (sample_delivery FAILED 2))"
  unfolding sample_envelope_def by (rule finished_delivery_ignored [OF sample_context]) simp

text \<open>
  C35. A delivery that was dead-lettered once and then replayed cannot be dead-lettered again: with
  a dead letter already stored for it, no outcome of processing is \<open>DLQ\<close> and no commit marks it
  failed. The second dead letter violates the unique \<open>delivery_id\<close>, the worker ends in an
  \<open>IntegrityError\<close>, and the delivery stays in \<open>REPLAYING\<close>.
\<close>

theorem replayed_delivery_cannot_fail:
  assumes "w_db w = w_committed w" and "item envl ''delivery_id'' = Inr raw" and "uuid_of raw = Inr u"
    and "fst (fetch_delivery_context u w) = Inr (Some (d, p, ep))" and "d_status d = REPLAYING"
    and "l \<in> set (db_dead_letters (w_committed w))" and "dl_delivery_id l = d_id d"
    and "process_outbound_message e envl stg now w = (r, w')"
  shows "r \<noteq> Inr DLQ \<and> (w_committed w' = w_committed w \<or>
     (\<exists>row. db_deliveries (w_committed w') = put_row d_id row (db_deliveries (w_committed w)) \<and>
        d_id row = d_id d \<and> d_status row \<noteq> FAILED))"
proof
  have st: "d_status d \<in> set DELIVERING_SOURCES" using assms(5) by (simp add: DELIVERING_SOURCES_def)
  have s: "send_delivery e (d\<lparr>d_status := DELIVERING\<rparr>) p ep stg (case now of Some t \<Rightarrow> t | None \<Rightarrow> w_clock w) w = (r, w')"
    using assms(2-5,8) st by (simp add: process_run)
  show "r \<noteq> Inr DLQ" using second_failure_send [OF _ _ s] assms(1,6,7) by simp
  have "settled d (w_committed w) w'" using send_settles [OF assms(1) st] s by (metis snd_conv)
  then consider "w_committed w' = w_committed w"
    | "advances d (w_committed w) (w_committed w')" "constraints_ok (w_committed w')"
    unfolding settled_def by blast
  then show "w_committed w' = w_committed w \<or>
     (\<exists>row. db_deliveries (w_committed w') = put_row d_id row (db_deliveries (w_committed w)) \<and>
        d_id row = d_id d \<and> d_status row \<noteq> FAILED)"
  proof cases
    case 2
    then obtain row ats dls where c: "w_committed w' = (w_committed w)\<lparr>db_deliveries := put_row d_id row (db_deliveries (w_committed w)),
        db_attempts := db_attempts (w_committed w) @ ats, db_dead_letters := db_dead_letters (w_committed w) @ dls\<rparr>"
        "delivery_step d row" "length dls = (if d_status row = FAILED then 1 else 0)"
        "list_all (\<lambda>l. dl_delivery_id l = d_id d) dls"
      unfolding advances_def by blast
    have "dls = []"
    proof (rule ccontr)
      assume "dls \<noteq> []"
      then obtain x xs where "dls = x # xs" by (cases dls) auto
      with 2(2) c assms(6,7) show False
        by (auto simp: constraints_ok_def dead_letters_ok_def unique_on_append rev_image_eqI)
    qed
    with c delivery_step_fixed(1) [OF c(2)] show ?thesis by (auto split: if_splits)
  qed simp
qed

text \<open>
  C36. An attempt number that is already logged makes every further attempt fail after the fact: if
  the attempts of a delivery already include the next number (after a poisoned attempt, which is
  not counted, or a replay that reset the counter), then whenever the worker sends a request, it
  ends in an exception and commits nothing, even when the partner answered 2xx.
\<close>

theorem reused_attempt_number_crashes:
  assumes "w_db w = w_committed w" and "item envl ''delivery_id'' = Inr raw" and "uuid_of raw = Inr u"
    and "fst (fetch_delivery_context u w) = Inr (Some (d, p, ep))" and "d_status d = REPLAYING"
    and "a \<in> set (db_attempts (w_committed w))" and "at_delivery_id a = d_id d"
    and "at_attempt_number a = d_attempt_count d + 1"
    and "process_outbound_message e envl stg now w = (r, w')" and "w_http w' \<noteq> w_http w"
  shows "(\<exists>x. r = Inl x) \<and> w_committed w' = w_committed w"
proof -
  let ?d = "d\<lparr>d_status := DELIVERING\<rparr>" and ?t = "case now of Some t \<Rightarrow> t | None \<Rightarrow> w_clock w"
  have st: "d_status d \<in> set DELIVERING_SOURCES" using assms(5) by (simp add: DELIVERING_SOURCES_def)
  have s: "send_delivery e ?d p ep stg ?t w = (r, w')" using assms(2-5,9) st by (simp add: process_run)
  obtain rs w1 where l: "load_outbound_primary_secret e p stg w = (rs, w1)" by force
  obtain ra w2 where al: "allow_outbound e (p_slug p) stg w1 = (ra, w2)" by force
  have same: "w_http w1 = w_http w" "w_http w2 = w_http w" "w_db w2 = w_committed w" "w_committed w2 = w_committed w"
    using http_same [OF on_http_secret l] http_same [OF on_http_circuit(2) al] assms(1)
      neutral_fields [OF secret_neutral, where w = w] neutral_fields [OF circuit_neutral(1), where w = w1] l al
    by (metis snd_conv)+
  have m: "w_http v' = w_http v" if "mark_failed_dlq e d' p ep reason x msg v = (rr, v')" for d' reason x msg v v' rr
    using that by (rule http_same [OF on_http_mark_failed])
  have c: "w_http v' = w_http v" if "circuit_open_branch e d' p stg ?t v = (rr, v')" for d' v v' rr
    using that by (rule http_same [OF on_http_circuit_open])
  obtain secret where "rs = Inr (Some secret)" "ra = Inr True"
    using s l al same assms(10) m c
    by (cases rs; cases ra)
       (auto simp: send_delivery_def bindE_run seqE_run ret_apply Let_def split: option.splits if_splits prod.splits sum.splits)
  with s l al have att: "\<exists>body hs. attempt_delivery e ?d p ep stg ?t body hs w2 = (r, w')"
    by (auto simp: send_delivery_def bindE_run Let_def)
  have "a \<in> set (db_attempts (w_db w2))" "attempt_key a = (d_id ?d, d_attempt_count ?d + 1)"
    using assms(6-8) same by (simp_all add: attempt_key_def)
  from doomed_attempt [OF this] att same show ?thesis by (metis prod.inject)
qed

section \<open>A poisoned delivery that is replayed\<close>

text \<open>The sample delivery after a poisoned first attempt and a replay request.\<close>

definition replay_world :: "(mem_redis, message list) world" where
  "replay_world =
     (let db = sample_db\<lparr>db_deliveries := [sample_delivery REPLAYING 0],
            db_attempts := [\<lparr>at_id = 10, at_delivery_id = 1, at_attempt_number = 1, at_requested_at = 0,
               at_responded_at = Some 0, at_http_status_code = Some 400, at_response_headers = [],
               at_response_body = [], at_error_type = None, at_duration_ms = Some 0, at_created_at = Some 0\<rparr>],
            db_dead_letters := [\<lparr>dl_id = 12, dl_delivery_id = 1, dl_partner_id = 1,
               dl_reason = NON_RETRYABLE_ERROR, dl_last_http_status = Some 400,
               dl_last_error_message = ''non-retryable'', dl_kafka_offset = None,
               dl_acknowledged_at = None, dl_acknowledged_by = None, dl_created_at = 0\<rparr>]\<rparr>
      in sample_world\<lparr>w_committed := db, w_db := db, w_seq_deliveries := 1\<rparr>)"

lemma replay_world_context:
  "fst (fetch_delivery_context 6 replay_world) =
     Inr (Some (sample_delivery REPLAYING 0, sample_partner, sample_endpoint))"
  by (simp add: fetch_delivery_context_def run_simps replay_world_def Let_def sample_defs)

lemma replay_world_constraints: "constraints_ok (w_committed replay_world)"
  by (simp add: replay_world_def Let_def sample_defs constraints_ok_def table_ok_defs references_def unique_on_def)

lemma replay_world_posts:
  "length (w_http (snd (process_outbound_message mem_env sample_envelope default_settings (Some 5) replay_world))) = 1"
proof -
  have l: "load_outbound_primary_secret mem_env sample_partner default_settings replay_world =
      (Inr (Some ''old''), replay_world)"
    by (simp add: load_outbound_primary_secret_def fetch_primary_row_def primary_rows_def run_simps
        decrypt_signing_secret_def default_settings_def is_ascii_def replay_world_def Let_def sample_defs)
  have a: "allow_outbound mem_env (p_slug sample_partner) default_settings replay_world = (Inr True, replay_world)"
    by (simp add: allow_outbound_def get_circuit_state_def run_simps call_redis_def mem_redis_ops_def mem_view_def
        replay_world_def Let_def sample_defs)
  show ?thesis
    by (simp add: process_run sample_envelope_def replay_world_context DELIVERING_SOURCES_def send_delivery_def
        bindE_run l a Let_def)
       (simp add: attempt_delivery_def post_outbound_def now_ms_def run_simps add_attempt_def Let_def
         classify_http_outcome_def network_error_from_result_def success_branch_def record_success_def
         call_redis_def mem_redis_ops_def transition_ok apply_first_success_def save_delivery_def
         commit_def flush_def
         replay_world_def sample_defs constraints_ok_def table_ok_defs references_def unique_on_def put_row_def)
qed

theorem reused_attempt_number_crashes_witness:
  "\<exists>x w'. process_outbound_message mem_env sample_envelope default_settings (Some 5) replay_world = (Inl x, w') \<and>
     w_committed w' = w_committed replay_world \<and> length (w_http w') = 1"
proof -
  obtain r w' where p: "process_outbound_message mem_env sample_envelope default_settings (Some 5) replay_world = (r, w')"
    by force
  then have h: "length (w_http w') = 1" using replay_world_posts by simp
  then have n: "w_http w' \<noteq> w_http replay_world"
    by (auto simp: replay_world_def Let_def sample_world_def initial_world_def)
  have e: "item sample_envelope ''delivery_id'' = Inr (JStr (str_uuid 6))" by (simp add: sample_envelope_def)
  have a: "hd (db_attempts (w_committed replay_world)) \<in> set (db_attempts (w_committed replay_world))"
    by (simp add: replay_world_def Let_def)
  have "(\<exists>x. r = Inl x) \<and> w_committed w' = w_committed replay_world"
    by (rule reused_attempt_number_crashes [OF _ e uuid_of_str replay_world_context _ a _ _ p n])
       (simp_all add: replay_world_def Let_def)
  with p h show ?thesis by blast
qed

theorem replayed_delivery_cannot_fail_witness:
  "fst (process_outbound_message (mem_env\<lparr>http_post := \<lambda>_ _. (HttpResponse 400 [] ''bad'', 1000)\<rparr>) sample_envelope
     default_settings (Some 5) replay_world) \<noteq> Inr DLQ"
proof -
  obtain r w' where p: "process_outbound_message (mem_env\<lparr>http_post := \<lambda>_ _. (HttpResponse 400 [] ''bad'', 1000)\<rparr>)
      sample_envelope default_settings (Some 5) replay_world = (r, w')"
    by force
  have e: "item sample_envelope ''delivery_id'' = Inr (JStr (str_uuid 6))" by (simp add: sample_envelope_def)
  have l: "hd (db_dead_letters (w_committed replay_world)) \<in> set (db_dead_letters (w_committed replay_world))"
    by (simp add: replay_world_def Let_def)
  have "r \<noteq> Inr DLQ"
    using replayed_delivery_cannot_fail [OF _ e uuid_of_str replay_world_context _ l _ p]
    by (simp add: replay_world_def Let_def)
  with p show ?thesis by simp
qed

end
