(* ===== verification/OutboundConsumer.thy ===== *)
theory OutboundConsumer
  imports OutboundProcessor
begin

text \<open>
  The Kafka consumer of the outbound worker (\<open>app/workers/outbound_consumer.py\<close>): a message from a
  retry topic is held back until its schedule, processed in a session of its own, and its offset is
  committed afterwards. The lemmas show that the wait ends, neither early nor more than a chunk
  after a shutdown, and that the offsets of a batch are those of its processed prefix.
\<close>

definition CONSUME_TOPICS :: "string list" where
  "CONSUME_TOPICS = OUTBOUND_PENDING_TOPIC # OUTBOUND_RETRY_TOPICS"

section \<open>State and environment\<close>

type_synonym offsets = "string \<times> int \<Rightarrow> int option"

text \<open>\<open>ConsumerRecord\<close>, its value already parsed by the deserializer.\<close>

record consumer_record =
  cr_topic :: string
  cr_partition :: int
  cr_offset :: int
  cr_value :: json

record ('r, 'k) consumer =
  cs_world :: "('r, 'k) world"
  cs_offsets :: offsets

text \<open>
  What the event loop and the broker decide: when the termination signal arrives, how late a sleep
  that starts at some time returns, and whether the group coordinator takes an offset.
\<close>

record consumer_env =
  shutdown_at :: "time option"
  sleep_late :: "time \<Rightarrow> time"
  offset_taken :: "string \<times> int \<Rightarrow> int \<Rightarrow> bool"

type_synonym ('r, 'k, 'a) consuming = "(('r, 'k) consumer, exn, 'a) prog"

definition in_world :: "('r, 'k, 'a) hub \<Rightarrow> ('r, 'k, 'a) consuming" where
  "in_world m = (\<lambda>s. case m (cs_world s) of (r, w) \<Rightarrow> (r, s\<lparr>cs_world := w\<rparr>))"

text \<open>\<open>self._shutdown.is_set()\<close>\<close>

definition shutdown_set :: "consumer_env \<Rightarrow> time \<Rightarrow> bool" where
  "shutdown_set c t = (case shutdown_at c of None \<Rightarrow> False | Some s \<Rightarrow> s \<le> t)"

section \<open>Waiting for the schedule\<close>

definition SCHEDULED_SLEEP_CHUNK :: time where
  "SCHEDULED_SLEEP_CHUNK = 5 * us_per_second"

text \<open>The loop of \<open>wait_until_scheduled\<close>: the time at which it returns.\<close>

function wait_loop :: "consumer_env \<Rightarrow> time \<Rightarrow> time \<Rightarrow> time" where
  "wait_loop c scheduled_at now =
     (if shutdown_set c now then now
      else if scheduled_at - now \<le> 0 then now
      else wait_loop c scheduled_at
             (now + min (scheduled_at - now) SCHEDULED_SLEEP_CHUNK + max 0 (sleep_late c now)))"
  by pat_completeness auto

termination
  by (relation "measure (\<lambda>(c, scheduled_at, now). nat (scheduled_at - now))")
    (auto simp: SCHEDULED_SLEEP_CHUNK_def us_per_second_def)

declare wait_loop.simps [simp del]

text \<open>The schedule named by an envelope; a naive time is read as UTC.\<close>

definition schedule_of :: "json \<Rightarrow> exn + time" where
  "schedule_of raw = (case raw of
     JStr s \<Rightarrow> (case fromisoformat s of
                  None \<Rightarrow> Inl (ValueError ''fromisoformat'') | Some t \<Rightarrow> Inr (instant_of t))
   | _ \<Rightarrow> Inl TypeError)"

definition wait_until_scheduled :: "consumer_env \<Rightarrow> json \<Rightarrow> ('r, 'k, unit) hub" where
  "wait_until_scheduled c scheduled_at_iso =
     bindE (liftE (schedule_of scheduled_at_iso)) (\<lambda>scheduled_at.
     modify (\<lambda>w. w\<lparr>w_clock := wait_loop c scheduled_at (w_clock w)\<rparr>))"

section \<open>One message, one batch\<close>

definition commit_offset :: "consumer_env \<Rightarrow> consumer_record \<Rightarrow> ('r, 'k, unit) consuming" where
  "commit_offset c m = (\<lambda>s.
     if offset_taken c (cr_topic m, cr_partition m) (cr_offset m + 1)
     then (Inr (), s\<lparr>cs_offsets := (cs_offsets s)((cr_topic m, cr_partition m) \<mapsto> cr_offset m + 1)\<rparr>)
     else (Inl KafkaError, s))"

definition is_shutdown :: "consumer_env \<Rightarrow> ('r, 'k, bool) consuming" where
  "is_shutdown c = gets (\<lambda>s. shutdown_set c (w_clock (cs_world s)))"

definition handle_message ::
  "('r, 'k) env \<Rightarrow> settings \<Rightarrow> consumer_env \<Rightarrow> consumer_record \<Rightarrow> ('r, 'k, unit) consuming" where
  "handle_message e stg c m =
     bindE (if cr_topic m \<noteq> OUTBOUND_PENDING_TOPIC
            then bindE (liftE (item (cr_value m) ''scheduled_at'')) (\<lambda>raw.
                 seqE (in_world (wait_until_scheduled c raw)) (is_shutdown c))
            else ret False) (\<lambda>stop.
     if stop then ret ()
     else seqE (in_world (with_session (process_outbound_message e (cr_value m) stg None)))
          (commit_offset c m))"

primrec consume_messages ::
  "('r, 'k) env \<Rightarrow> settings \<Rightarrow> consumer_env \<Rightarrow> consumer_record list \<Rightarrow> ('r, 'k, unit) consuming" where
  "consume_messages e stg c [] = ret ()"
| "consume_messages e stg c (m # ms) =
     bindE (is_shutdown c) (\<lambda>stop.
     if stop then ret () else seqE (handle_message e stg c m) (consume_messages e stg c ms))"

text \<open>\<open>for _tp, messages in batch.items()\<close>: the \<open>break\<close> only leaves the inner loop.\<close>

primrec consume_batch ::
  "('r, 'k) env \<Rightarrow> settings \<Rightarrow> consumer_env \<Rightarrow> consumer_record list list \<Rightarrow> ('r, 'k, unit) consuming" where
  "consume_batch e stg c [] = ret ()"
| "consume_batch e stg c (messages # batch) =
     seqE (consume_messages e stg c messages) (consume_batch e stg c batch)"

text \<open>
  The loop of \<open>run\<close> over the successive answers of \<open>getmany\<close>, each with the time it took; an empty
  answer or a timeout is an empty batch.
\<close>

primrec consumer_run ::
  "('r, 'k) env \<Rightarrow> settings \<Rightarrow> consumer_env \<Rightarrow> (time \<times> consumer_record list list) list \<Rightarrow>
   ('r, 'k, unit) consuming" where
  "consumer_run e stg c [] = ret ()"
| "consumer_run e stg c (poll # polls) =
     bindE (is_shutdown c) (\<lambda>stop.
     if stop then ret ()
     else seqE (in_world (modify (\<lambda>w. w\<lparr>w_clock := w_clock w + max 0 (fst poll)\<rparr>)))
          (seqE (consume_batch e stg c (snd poll)) (consumer_run e stg c polls)))"

section \<open>The wait\<close>

lemma wait_loop_ge: "now \<le> wait_loop c t now"
proof (induction c t now rule: wait_loop.induct)
  case (1 c t now)
  let ?n = "now + min (t - now) SCHEDULED_SLEEP_CHUNK + max 0 (sleep_late c now)"
  have "now \<le> ?n" if "0 < t - now" using that by (simp add: SCHEDULED_SLEEP_CHUNK_def us_per_second_def)
  with 1 show ?case by (subst wait_loop.simps) (auto simp del: max_def min_def)
qed

lemma wait_loop_done: "shutdown_set c (wait_loop c t now) \<or> t \<le> wait_loop c t now"
proof (induction c t now rule: wait_loop.induct)
  case (1 c t now)
  then show ?case by (subst (1 2) wait_loop.simps) (auto simp: not_le)
qed

lemma wait_loop_bound:
  assumes "\<And>x. sleep_late c x \<le> b" "0 \<le> b"
  shows "wait_loop c t now \<le> max now (t + b)"
    and "shutdown_at c = Some s \<Longrightarrow> wait_loop c t now \<le> max now (s + SCHEDULED_SLEEP_CHUNK + b)"
proof -
  show "wait_loop c t now \<le> max now (t + b)"
    using assms(1)
  proof (induction c t now rule: wait_loop.induct)
    case (1 c t now)
    have l: "max 0 (sleep_late c now) \<le> b" using 1(2) assms(2) by simp
    show ?case
    proof (cases "shutdown_set c now \<or> t - now \<le> 0")
      case False
      then have "wait_loop c t now = wait_loop c t (now + min (t - now) SCHEDULED_SLEEP_CHUNK + max 0 (sleep_late c now))"
        by (subst wait_loop.simps) simp
      with 1 False l show ?thesis by fastforce
    qed (subst wait_loop.simps, auto)
  qed
  show "wait_loop c t now \<le> max now (s + SCHEDULED_SLEEP_CHUNK + b)" if "shutdown_at c = Some s"
    using assms(1) that
  proof (induction c t now rule: wait_loop.induct)
    case (1 c t now)
    have l: "max 0 (sleep_late c now) \<le> b" using 1(2) assms(2) by simp
    show ?case
    proof (cases "shutdown_set c now \<or> t - now \<le> 0")
      case False
      then have "wait_loop c t now = wait_loop c t (now + min (t - now) SCHEDULED_SLEEP_CHUNK + max 0 (sleep_late c now))"
        by (subst wait_loop.simps) simp
      moreover have "now < s" using False 1(3) by (simp add: shutdown_set_def)
      ultimately show ?thesis using 1 False l by fastforce
    qed (subst wait_loop.simps, auto)
  qed
qed

text \<open>
  C20. The hold-back of a retry message always returns and changes nothing but the clock. It returns
  when the schedule is reached, or earlier because of a shutdown; if no sleep is more than \<open>b\<close> late, it
  returns at most \<open>b\<close> after the schedule, and at most one chunk of five seconds and \<open>b\<close> after a shutdown.
\<close>

theorem wait_until_scheduled_bounds:
  assumes "schedule_of raw = Inr t" and "\<forall>x. sleep_late c x \<le> b" and "0 \<le> b"
  shows "\<exists>w'. wait_until_scheduled c raw w = (Inr (), w') \<and> w' = w\<lparr>w_clock := w_clock w'\<rparr> \<and>
     w_clock w \<le> w_clock w' \<and> (shutdown_set c (w_clock w') \<or> t \<le> w_clock w') \<and>
     w_clock w' \<le> max (w_clock w) (t + b) \<and>
     (\<forall>s. shutdown_at c = Some s \<longrightarrow> w_clock w' \<le> max (w_clock w) (s + SCHEDULED_SLEEP_CHUNK + b))"
  using assms wait_loop_ge wait_loop_done wait_loop_bound [of c b]
  by (intro exI [of _ "w\<lparr>w_clock := wait_loop c t (w_clock w)\<rparr>"]) (simp add: wait_until_scheduled_def run_simps)

theorem wait_until_scheduled_bounds_witness:
  "\<exists>w'. wait_until_scheduled \<lparr>shutdown_at = Some 1, sleep_late = (\<lambda>_. 0), offset_taken = (\<lambda>_ _. True)\<rparr>
       (JStr (isoformat 60000000)) sample_world = (Inr (), w') \<and> w_clock w' \<le> 5000001"
proof -
  have "schedule_of (JStr (isoformat 60000000)) = Inr 60000000"
    using instant_of_isoformat [of 60000000]
    by (auto simp: schedule_of_def time_ok_def us_per_day_def us_per_second_def split: option.splits)
  from wait_until_scheduled_bounds [OF this, of
      "\<lparr>shutdown_at = Some 1, sleep_late = (\<lambda>_. 0), offset_taken = (\<lambda>_ _. True)\<rparr>" 0 sample_world]
  show ?thesis by (auto simp: sample_defs SCHEDULED_SLEEP_CHUNK_def us_per_second_def)
qed

section \<open>The retry ladder\<close>

definition retry_tier :: "int \<Rightarrow> rat \<Rightarrow> nat" where
  "retry_tier n d = (if n \<le> 2 then 0 else if n = 3 \<and> 45 < d \<and> d \<le> 90 then 1 else if n \<le> 4 then 2
     else if n \<le> 6 then 3 else 4)"

lemma retry_topic_tier:
  "retry_topic_for n d = OUTBOUND_RETRY_TOPICS ! retry_tier n d" "retry_tier n d < length OUTBOUND_RETRY_TOPICS"
  by (auto simp: retry_topic_for_def retry_tier_def OUTBOUND_RETRY_TOPICS_def)

lemma retry_tier_mono: "retry_tier n d \<le> retry_tier (n + 1) d'"
  by (auto simp: retry_tier_def)

text \<open>
  C34. The retry ladder: after the \<open>n\<close>-th failed attempt the worker waits nine tenths of the nominal
  exponential delay, never more than the cap, to a topic this consumer subscribes to and holds back;
  a later attempt never waits less, and its topic is never an earlier tier.
\<close>

theorem worker_retry_ladder:
  assumes "1 \<le> n" and "0 \<le> hub_backoff_base_seconds stg" and "1 \<le> hub_backoff_multiplier stg"
    and "0 \<le> hub_backoff_max_seconds stg"
  shows "\<exists>d d'. worker_delay stg n = Inr d \<and> worker_delay stg (n + 1) = Inr d' \<and>
     d = 9 / 10 * of_int (nominal_delay n (hub_backoff_base_seconds stg) (hub_backoff_multiplier stg)
           (hub_backoff_max_seconds stg)) \<and>
     0 \<le> d \<and> d \<le> d' \<and> d' \<le> of_int (hub_backoff_max_seconds stg) \<and>
     retry_topic_for (n + 1) d \<in> set CONSUME_TOPICS \<and> retry_topic_for (n + 1) d \<noteq> OUTBOUND_PENDING_TOPIC \<and>
     (\<exists>i j. i \<le> j \<and> j < length OUTBOUND_RETRY_TOPICS \<and> retry_topic_for (n + 1) d = OUTBOUND_RETRY_TOPICS ! i \<and>
        retry_topic_for (n + 2) d' = OUTBOUND_RETRY_TOPICS ! j)"
proof -
  let ?nom = "\<lambda>k. nominal_delay k (hub_backoff_base_seconds stg) (hub_backoff_multiplier stg) (hub_backoff_max_seconds stg)"
  have w: "worker_delay stg k = Inr (9 / 10 * of_int (?nom k))" if "1 \<le> k" for k
    using compute_delay_ok [of k] that by (simp add: worker_delay_def default_jitter_pct_def)
  have pos: "0 \<le> ?nom n" "0 \<le> ?nom (n + 1)" using assms by (auto intro: nominal_delay_nonneg)
  have mono: "?nom n \<le> ?nom (n + 1)" using assms by (intro nominal_delay_mono) auto
  have cap: "?nom (n + 1) \<le> hub_backoff_max_seconds stg" by (simp add: nominal_delay_def)
  have le: "9 / 10 * (of_int (?nom n) :: rat) \<le> 9 / 10 * of_int (?nom (n + 1))" using mono by simp
  have "9 / 10 * (of_int (?nom (n + 1)) :: rat) \<le> of_int (?nom (n + 1))" using pos by simp
  also have "\<dots> \<le> of_int (hub_backoff_max_seconds stg)" using cap by (simp only: of_int_le_iff)
  finally have capr: "9 / 10 * (of_int (?nom (n + 1)) :: rat) \<le> of_int (hub_backoff_max_seconds stg)" .
  have np: "t \<noteq> OUTBOUND_PENDING_TOPIC" if "t \<in> set OUTBOUND_RETRY_TOPICS" for t
    using that by (auto simp: OUTBOUND_RETRY_TOPICS_def OUTBOUND_PENDING_TOPIC_def retry_topic_defs)
  have tiers: "\<exists>i j. i \<le> j \<and> j < length OUTBOUND_RETRY_TOPICS \<and> retry_topic_for (n + 1) x = OUTBOUND_RETRY_TOPICS ! i \<and>
      retry_topic_for (n + 2) y = OUTBOUND_RETRY_TOPICS ! j" for x y
    using retry_tier_mono [of "n + 1" x y] retry_topic_tier by (simp add: add.assoc) blast
  show ?thesis
    using w [of n] w [of "n + 1"] assms(1) pos(1) le capr np [OF retry_topic_in] tiers
    by (intro exI [of _ "9 / 10 * of_int (?nom n)"] exI [of _ "9 / 10 * of_int (?nom (n + 1))"])
      (simp add: CONSUME_TOPICS_def retry_topic_in)
qed

theorem worker_retry_ladder_witness:
  "\<exists>d d'. worker_delay default_settings 2 = Inr d \<and> worker_delay default_settings 3 = Inr d' \<and> d = 54 \<and> d \<le> d'"
  using worker_retry_ladder [of 2 default_settings] by (auto simp: default_settings_def nominal_delay_def)

section \<open>Offsets follow processing\<close>

lemma in_world_run [run_simps]: "in_world m s = (case m (cs_world s) of (r, w) \<Rightarrow> (r, s\<lparr>cs_world := w\<rparr>))"
  by (simp add: in_world_def)

lemma is_shutdown_run [run_simps]: "is_shutdown c s = (Inr (shutdown_set c (w_clock (cs_world s))), s)"
  by (simp add: is_shutdown_def run_simps)

text \<open>The world in which a message may be processed: at once, or once its schedule is reached.\<close>

definition due :: "consumer_record \<Rightarrow> ('r, 'k) world \<Rightarrow> ('r, 'k) world \<Rightarrow> bool" where
  "due m w w1 \<longleftrightarrow>
     (if cr_topic m = OUTBOUND_PENDING_TOPIC then w1 = w
      else w1 = w\<lparr>w_clock := w_clock w1\<rparr> \<and> w_clock w \<le> w_clock w1 \<and>
        (\<exists>raw t. item (cr_value m) ''scheduled_at'' = Inr raw \<and> schedule_of raw = Inr t \<and> t \<le> w_clock w1))"

text \<open>
  The messages were processed one after the other, each when it was due, each to a normal return and
  a committed offset.
\<close>

inductive processed ::
  "('r, 'k) env \<Rightarrow> settings \<Rightarrow> consumer_record list \<Rightarrow> ('r, 'k) consumer \<Rightarrow> ('r, 'k) consumer \<Rightarrow> bool"
  for e stg where
  processed_Nil: "processed e stg [] s s"
| processed_Cons: "due m (cs_world s) w1 \<Longrightarrow>
    with_session (process_outbound_message e (cr_value m) stg None) w1 = (Inr outcome, w2) \<Longrightarrow>
    processed e stg ms
      \<lparr>cs_world = w2, cs_offsets = (cs_offsets s)((cr_topic m, cr_partition m) \<mapsto> cr_offset m + 1)\<rparr> s' \<Longrightarrow>
    processed e stg (m # ms) s s'"

inductive_cases processed_ConsE: "processed e stg (m # ms) s s'"

lemma consumer_update_both: "s\<lparr>cs_world := w, cs_offsets := ofs\<rparr> = \<lparr>cs_world = w, cs_offsets = ofs\<rparr>"
  by (cases s) simp

lemma handle_message_cases:
  assumes "handle_message e stg c m s = (r, s')"
  shows "(cs_offsets s' = cs_offsets s \<and> (r = Inr () \<longrightarrow> shutdown_set c (w_clock (cs_world s')))) \<or>
    (r = Inr () \<and> processed e stg [m] s s')"
proof -
  let ?stop = "if cr_topic m \<noteq> OUTBOUND_PENDING_TOPIC
      then bindE (liftE (item (cr_value m) ''scheduled_at'')) (\<lambda>raw.
           seqE (in_world (wait_until_scheduled c raw)) (is_shutdown c))
      else ret False"
  obtain r1 s1 where st: "?stop s = (r1, s1)" by force
  have o1: "cs_offsets s1 = cs_offsets s"
    using st by (auto simp: run_simps split: if_splits prod.splits sum.splits)
  have d: "due m (cs_world s) (cs_world s1)" if go: "r1 = Inr False"
  proof (cases "cr_topic m = OUTBOUND_PENDING_TOPIC")
    case False
    then obtain raw t where rt: "item (cr_value m) ''scheduled_at'' = Inr raw" "schedule_of raw = Inr t"
        "cs_world s1 = (cs_world s)\<lparr>w_clock := wait_loop c t (w_clock (cs_world s))\<rparr>" "\<not> shutdown_set c (w_clock (cs_world s1))"
      using st go by (auto simp: run_simps wait_until_scheduled_def split: prod.splits sum.splits)
    with False show ?thesis
      using wait_loop_ge wait_loop_done [of c t] by (auto simp: due_def)
  qed (use st go in \<open>auto simp: run_simps due_def\<close>)
  have sd: "shutdown_set c (w_clock (cs_world s1))" if "r1 = Inr True"
    using st that by (auto simp: run_simps split: if_splits prod.splits sum.splits)
  obtain r2 w2 where p: "with_session (process_outbound_message e (cr_value m) stg None) (cs_world s1) = (r2, w2)"
    by force
  show ?thesis
    using assms st o1 d sd p
    by (auto simp: handle_message_def bindE_run [of ?stop] run_simps commit_offset_def consumer_update_both
        intro!: processed_Cons processed_Nil split: sum.splits if_splits)
qed

lemma processed_append:
  "processed e stg ms s s1 \<Longrightarrow> processed e stg ns s1 s2 \<Longrightarrow> processed e stg (ms @ ns) s s2"
  by (induction rule: processed.induct) (auto intro: processed.intros)

text \<open>What a stretch of the loop leaves behind.\<close>

definition prefix_processed ::
  "('r, 'k) env \<Rightarrow> settings \<Rightarrow> consumer_env \<Rightarrow> consumer_record list \<Rightarrow> exn + unit \<Rightarrow>
   ('r, 'k) consumer \<Rightarrow> ('r, 'k) consumer \<Rightarrow> bool" where
  "prefix_processed e stg c ms r s s' \<longleftrightarrow>
     (\<exists>done rest s1. ms = done @ rest \<and> processed e stg done s s1 \<and> cs_offsets s' = cs_offsets s1 \<and>
        (r = Inr () \<longrightarrow> rest = [] \<and> s' = s1 \<or> shutdown_set c (w_clock (cs_world s'))))"

lemma prefix_processed_stop:
  "cs_offsets s' = cs_offsets s \<Longrightarrow> r = Inr () \<longrightarrow> shutdown_set c (w_clock (cs_world s')) \<Longrightarrow>
   prefix_processed e stg c ms r s s'"
  unfolding prefix_processed_def by (intro exI [of _ "[]"] exI [of _ ms] exI [of _ s]) (auto intro: processed_Nil)

lemma prefix_processed_step:
  assumes "processed e stg done s s1" and "prefix_processed e stg c ms r s1 s'"
  shows "prefix_processed e stg c (done @ ms) r s s'"
proof -
  obtain d2 rest s2 where "ms = d2 @ rest" "processed e stg d2 s1 s2" "cs_offsets s' = cs_offsets s2"
      "r = Inr () \<longrightarrow> rest = [] \<and> s' = s2 \<or> shutdown_set c (w_clock (cs_world s'))"
    using assms(2) unfolding prefix_processed_def by blast
  then show ?thesis
    unfolding prefix_processed_def using processed_append [OF assms(1)]
    by (intro exI [of _ "done @ d2"] exI [of _ rest] exI [of _ s2]) simp
qed

lemma consume_messages_prefix:
  "consume_messages e stg c ms s = (r, s') \<Longrightarrow> prefix_processed e stg c ms r s s'"
proof (induction ms arbitrary: s)
  case Nil
  then show ?case
    by (auto simp: run_simps prefix_processed_def intro: processed_Nil)
next
  case (Cons m ms)
  show ?case
  proof (cases "shutdown_set c (w_clock (cs_world s))")
    case True
    with Cons.prems show ?thesis by (intro prefix_processed_stop) (auto simp: run_simps)
  next
    case False
    obtain r1 s1 where h: "handle_message e stg c m s = (r1, s1)" by force
    note cases = handle_message_cases [OF h]
    show ?thesis
    proof (cases "cs_offsets s1 = cs_offsets s \<and> (r1 = Inr () \<longrightarrow> shutdown_set c (w_clock (cs_world s1)))")
      case True
      then have "s' = s1 \<and> (r = Inr () \<longrightarrow> r1 = Inr ())"
        using Cons.prems False h by (cases ms) (auto simp: run_simps split: sum.splits)
      with True show ?thesis by (intro prefix_processed_stop) auto
    next
      case False
      then have "r1 = Inr ()" "processed e stg [m] s s1" using cases by blast+
      with Cons.prems \<open>\<not> shutdown_set c (w_clock (cs_world s))\<close> h Cons.IH [of s1]
      show ?thesis using prefix_processed_step [of e stg "[m]" s s1 c ms r s'] by (simp add: run_simps)
    qed
  qed
qed

lemma consume_batch_flat:
  "consume_batch e stg c batch s = consume_messages e stg c (concat batch) s"
proof -
  have stop: "consume_messages e stg c ms s = (Inr (), s)" if "shutdown_set c (w_clock (cs_world s))" for ms s
    using that by (cases ms) (auto simp: run_simps)
  have "seqE (consume_messages e stg c ms) (consume_messages e stg c ns) s = consume_messages e stg c (ms @ ns) s" for ms ns s
  proof (induction ms arbitrary: s)
    case (Cons m ms)
    show ?case
      by (cases "shutdown_set c (w_clock (cs_world s))")
        (simp_all add: run_simps stop Cons.IH [symmetric] split: prod.splits sum.splits)
  qed (simp add: run_simps)
  then have app: "seqE (consume_messages e stg c ms) (consume_messages e stg c ns) = consume_messages e stg c (ms @ ns)" for ms ns
    by (intro ext)
  have "consume_batch e stg c batch = consume_messages e stg c (concat batch)"
    by (induction batch) (simp_all add: app)
  then show ?thesis by simp
qed

text \<open>
  C13. At-least-once consumption: whatever happens during a batch (an exception, a shutdown), the
  offsets it leaves are those of a prefix of its messages, every one of which was due, was processed
  to a normal return and was committed in order; if the batch ends normally and no shutdown was
  requested, the prefix is the whole batch.
\<close>

theorem consumer_commits_processed_prefix:
  assumes "consume_batch e stg c batch s = (r, s')"
  shows "\<exists>done rest s1. concat batch = done @ rest \<and> processed e stg done s s1 \<and>
     cs_offsets s' = cs_offsets s1 \<and>
     (r = Inr () \<longrightarrow> rest = [] \<and> s' = s1 \<or> shutdown_set c (w_clock (cs_world s')))"
  using consume_messages_prefix assms unfolding consume_batch_flat prefix_processed_def .

definition sample_record :: consumer_record where
  "sample_record = \<lparr>cr_topic = OUTBOUND_PENDING_TOPIC, cr_partition = 0, cr_offset = 7, cr_value = sample_envelope\<rparr>"

definition sample_consumer_env :: consumer_env where
  "sample_consumer_env = \<lparr>shutdown_at = None, sleep_late = (\<lambda>_. 0), offset_taken = (\<lambda>_ _. True)\<rparr>"

theorem consumer_commits_processed_prefix_witness:
  "\<exists>s'. consume_batch mem_env default_settings sample_consumer_env [[sample_record]]
       \<lparr>cs_world = with_delivery (sample_delivery FAILED 2), cs_offsets = (\<lambda>_. None)\<rparr> = (Inr (), s') \<and>
     cs_offsets s' (OUTBOUND_PENDING_TOPIC, 0) = Some 8"
proof -
  let ?s = "\<lparr>cs_world = with_delivery (sample_delivery FAILED 2), cs_offsets = (\<lambda>_. None)\<rparr>"
  have "process_outbound_message mem_env sample_envelope default_settings None
     (with_delivery (sample_delivery FAILED 2)) = (Inr SKIPPED, with_delivery (sample_delivery FAILED 2))"
    unfolding sample_envelope_def using sample_context [of FAILED 2] by (auto simp: process_run)
  moreover have "(with_delivery d)\<lparr>w_db := w_committed (with_delivery d)\<rparr> = with_delivery d" for d
    by (simp add: with_delivery_def)
  ultimately have "with_session (process_outbound_message mem_env sample_envelope default_settings None)
     (with_delivery (sample_delivery FAILED 2)) = (Inr SKIPPED, with_delivery (sample_delivery FAILED 2))"
    by (simp add: with_session_def)
  then have "consume_batch mem_env default_settings sample_consumer_env [[sample_record]] ?s =
      (Inr (), ?s\<lparr>cs_offsets := (\<lambda>_. None)((OUTBOUND_PENDING_TOPIC, 0) \<mapsto> 8)\<rparr>)" (is "_ = (_, ?s')")
    by (simp add: run_simps sample_consumer_env_def sample_record_def shutdown_set_def handle_message_def
        commit_offset_def)
  note run = this
  from consumer_commits_processed_prefix [OF this] obtain "done" rest s1 where
    "[sample_record] = done @ rest" "processed mem_env default_settings done ?s s1"
    "rest = []" "?s' = s1"
    by (auto simp: sample_consumer_env_def shutdown_set_def)
  then have "processed mem_env default_settings [sample_record] ?s ?s'" by simp
  then have "cs_offsets ?s' (OUTBOUND_PENDING_TOPIC, 0) = Some 8"
    by (auto elim!: processed_ConsE elim: processed.cases simp: sample_record_def)
  with run show ?thesis by blast
qed

end
