(* ===== verification/OutboxRelay.thy ===== *)
theory OutboxRelay
  imports Outbox
begin

text \<open>
  The outbox relay (\<open>app/workers/outbox_relay.py\<close>): one iteration selects the oldest unpublished
  rows, sends each, stamps those that were accepted, counts the attempts of the others, and commits.
  The lemmas show that a row is only ever stamped after its message is in the log, and that a
  broker that is up drains the table.
\<close>

definition unpublished :: "outbox_event \<Rightarrow> bool" where
  "unpublished ev \<longleftrightarrow> ob_published_at ev = None"

text \<open>The rows are locked with \<open>SKIP LOCKED\<close>; no other relay holds any here.\<close>

definition unpublished_outbox_select :: "nat \<Rightarrow> database \<Rightarrow> outbox_event list" where
  "unpublished_outbox_select limit db =
     take limit (sort_key ob_created_at (filter unpublished (db_outbox db)))"

text \<open>
  \<open>str(value)\<close> of a header field. The envelopes hold texts there; for a list or dict the canonical
  text stands in for Python's \<open>repr\<close>.
\<close>

definition header_text :: "json \<Rightarrow> string" where
  "header_text v = (case v of
     JStr s \<Rightarrow> s | JInt i \<Rightarrow> str_int i | JFloat s \<Rightarrow> s
   | JBool b \<Rightarrow> if b then ''True'' else ''False''
   | JNull \<Rightarrow> ''None'' | _ \<Rightarrow> dumps v)"

definition header_field :: "string \<Rightarrow> json \<Rightarrow> (string \<times> bytes) list" where
  "header_field key payload =
     (case jget payload key of
        None \<Rightarrow> [] | Some JNull \<Rightarrow> [] | Some v \<Rightarrow> [(key, utf8_encode (header_text v))])"

definition headers_from_payload :: "('r, 'k) env \<Rightarrow> json \<Rightarrow> (string \<times> bytes) list" where
  "headers_from_payload e payload =
     (let headers = header_field ''correlation_id'' payload @ header_field ''event_type'' payload @
                    header_field ''delivery_id'' payload
      in headers @ (if headers \<noteq> [] then [(''content-type'', ''application/json'')] else []) @
         kafka_trace_headers e)"

definition count_unpublished :: "('r, 'k, int) hub" where
  "count_unpublished = gets (\<lambda>w. int (length (filter unpublished (db_outbox (w_db w)))))"

definition mark_inbound_published :: "json \<Rightarrow> time \<Rightarrow> ('r, 'k, unit) hub" where
  "mark_inbound_published payload published_at =
     bindE (liftE (item payload ''event_id'')) (\<lambda>raw.
     bindE (liftE (uuid_of (JStr (header_text raw)))) (\<lambda>event_id.
     update_db (\<lambda>db. db\<lparr>db_inbound_events :=
       map (\<lambda>ie. if ie_id ie = event_id then ie\<lparr>ie_published_at := Some published_at\<rparr> else ie)
           (db_inbound_events db)\<rparr>)))"

definition save_outbox :: "outbox_event \<Rightarrow> ('r, 'k, unit) hub" where
  "save_outbox ev = update_db (\<lambda>db. db\<lparr>db_outbox := put_row ob_id ev (db_outbox db)\<rparr>)"

definition outbox_message :: "('r, 'k) env \<Rightarrow> outbox_event \<Rightarrow> message" where
  "outbox_message e ev = \<lparr>m_topic = ob_topic ev, m_key = ob_message_key ev, m_value = ob_payload ev,
     m_headers = headers_from_payload e (ob_payload ev)\<rparr>"

text \<open>One turn of the loop: whether the event was published.\<close>

definition relay_event :: "('r, 'k) env \<Rightarrow> outbox_event \<Rightarrow> ('r, 'k, bool) hub" where
  "relay_event e ev =
     bindE (catchE (seqE (send_and_wait e (outbox_message e ev)) (ret True))
              (\<lambda>_. seqE (save_outbox (ev\<lparr>ob_publish_attempts := ob_publish_attempts ev + 1\<rparr>)) (ret False)))
       (\<lambda>sent.
     if \<not> sent then ret False
     else bindE utcnow (\<lambda>published_at.
          seqE (save_outbox (ev\<lparr>ob_published_at := Some published_at\<rparr>))
          (seqE (if ob_aggregate_type ev = ''inbound_event''
                 then mark_inbound_published (ob_payload ev) published_at else ret ())
          (ret True))))"

definition publish_unpublished_batch :: "('r, 'k) env \<Rightarrow> nat \<Rightarrow> ('r, 'k, nat) hub" where
  "publish_unpublished_batch e limit =
     bindE (gets (\<lambda>w. unpublished_outbox_select limit (w_db w))) (\<lambda>events.
     bindE (mapE (relay_event e) events) (\<lambda>published.
     bindE count_unpublished (\<lambda>unpublished_count.
     seqE (set_gauge_metric ''hub_outbox_unpublished'' unpublished_count [])
     (ret (length (filter (\<lambda>b. b) published))))))"

text \<open>One pass of \<open>OutboxRelay.run\<close>.\<close>

definition relay_iteration :: "('r, 'k) env \<Rightarrow> ('r, 'k, nat) hub" where
  "relay_iteration e =
     with_session (bindE (publish_unpublished_batch e 100) (\<lambda>published. seqE commit (ret published)))"

section \<open>Published means sent\<close>

text \<open>Every published row was published in \<open>c\<close>, or its message is in the log.\<close>

definition backed :: "('r, 'k) env \<Rightarrow> ('k \<Rightarrow> message list) \<Rightarrow> database \<Rightarrow> ('r, 'k) world \<Rightarrow> bool" where
  "backed e klog c w \<longleftrightarrow> (\<forall>ev \<in> set (db_outbox (w_db w)). \<not> unpublished ev \<longrightarrow>
     (\<exists>old \<in> set (db_outbox c). ob_id old = ob_id ev \<and> \<not> unpublished old) \<or>
     outbox_message e ev \<in> set (klog (w_kafka w)))"

lemma backed_other [keep_intros]:
  "keeps (backed e klog c) utcnow" "keeps (backed e klog c) count_unpublished"
  "keeps (backed e klog c) (set_gauge_metric n v a)" "keeps (backed e klog c) (mark_inbound_published pl t)"
proof -
  show "keeps (backed e klog c) utcnow" "keeps (backed e klog c) count_unpublished"
    by (auto simp: keeps_def backed_def run_simps count_unpublished_def)
  have "keeps (backed e klog c) (emit_metric m)" for m
    by (auto simp: keeps_def backed_def run_simps)
  then show "keeps (backed e klog c) (set_gauge_metric n v a)"
    unfolding set_gauge_metric_def by (intro keep_intros)
  have "keeps (backed e klog c) (update_db (\<lambda>db. db\<lparr>db_inbound_events := f db\<rparr>))" for f
    by (auto simp: keeps_def backed_def run_simps)
  then show "keeps (backed e klog c) (mark_inbound_published pl t)"
    unfolding mark_inbound_published_def by (intro keep_intros)
qed

context kafka_service
begin

lemma send_log:
  assumes "producer e = kops" "send_and_wait e m w = (r, w')"
  shows "set (klog (w_kafka w)) \<subseteq> set (klog (w_kafka w'))"
    "r = Inr () \<Longrightarrow> m \<in> set (klog (w_kafka w'))" "w_db w' = w_db w" "w_committed w' = w_committed w" "w_clock w' = w_clock w"
  using assms send_ok [of m "w_kafka w"] send_fault [of m "w_kafka w"]
  by (auto simp: send_and_wait_def split: prod.splits reply.splits)

lemma backed_save_unpublished:
  assumes "unpublished ev" "backed e klog c w"
  shows "backed e klog c (snd (save_outbox ev w))"
  using assms by (auto simp: save_outbox_def run_simps backed_def dest!: set_put_rowD)

lemma backed_relay_event:
  assumes "producer e = kops" "unpublished ev"
  shows "keeps (backed e klog c) (relay_event e ev)"
proof (rule keepsI)
  fix w assume I: "backed e klog c w"
  obtain r w1 where s: "send_and_wait e (outbox_message e ev) w = (r, w1)" by force
  note log = send_log [OF assms(1) s]
  have I1: "backed e klog c w1" using I log(1,3) by (fastforce simp: backed_def)
  have tail: "keeps (backed e klog c) (seqE (if ob_aggregate_type ev = ''inbound_event''
      then mark_inbound_published (ob_payload ev) t else ret ()) (ret True))" for t
    by (intro keep_intros)
  show "backed e klog c (snd (relay_event e ev w))"
  proof (cases r)
    case (Inl x)
    have "backed e klog c (snd (save_outbox (ev\<lparr>ob_publish_attempts := ob_publish_attempts ev + 1\<rparr>) w1))"
      using assms(2) I1 by (intro backed_save_unpublished) (simp_all add: unpublished_def)
    with Inl s show ?thesis
      by (simp add: relay_event_def run_simps save_outbox_def)
  next
    case (Inr u)
    let ?ev = "ev\<lparr>ob_published_at := Some (w_clock w1)\<rparr>"
    have m: "outbox_message e ?ev = outbox_message e ev" by (simp add: outbox_message_def)
    have "backed e klog c (snd (save_outbox ?ev w1))"
      using I1 log(2) Inr m
      by (auto simp: save_outbox_def run_simps backed_def dest!: set_put_rowD)
    from keepsD [OF tail this] Inr s show ?thesis
      by (simp add: relay_event_def bindE_run catchE_run seqE_run ret_apply utcnow_apply save_outbox_def update_db_apply)
  qed
qed

lemma backed_batch:
  assumes "producer e = kops" and "backed e klog c w" and "w_db w = d"
  shows "backed e klog c (snd (publish_unpublished_batch e n w))"
proof -
  have "\<forall>ev \<in> set (unpublished_outbox_select n d). unpublished ev"
    by (auto simp: unpublished_outbox_select_def dest!: in_set_takeD)
  then have "keeps (backed e klog c) (mapE (relay_event e) (unpublished_outbox_select n d))"
    using backed_relay_event [OF assms(1)] by (intro keeps_mapE_in) blast
  then have k: "keeps (backed e klog c) (bindE (mapE (relay_event e) (unpublished_outbox_select n d)) (\<lambda>published.
     bindE count_unpublished (\<lambda>unpublished_count.
     seqE (set_gauge_metric ''hub_outbox_unpublished'' unpublished_count [])
     (ret (length (filter (\<lambda>b. b) published))))))"
    by (rule keeps_bindE) (intro keep_intros)
  from keepsD [OF k assms(2)] assms(3) show ?thesis
    by (simp add: publish_unpublished_batch_def bindE_simps)
qed

end

section \<open>A broker that is up drains the outbox\<close>

text \<open>A row whose bookkeeping cannot fail: an inbound row names its event.\<close>

definition relayable :: "outbox_event \<Rightarrow> bool" where
  "relayable ev \<longleftrightarrow> (ob_aggregate_type ev = ''inbound_event'' \<longrightarrow>
     (\<exists>raw u. item (ob_payload ev) ''event_id'' = Inr raw \<and> uuid_of (JStr (header_text raw)) = Inr u))"

locale kafka_up = kafka_service kops klog
  for kops :: "'k kafka_ops" and klog :: "'k \<Rightarrow> message list" +
  assumes send_up: "fst (kafka_send kops m k) \<noteq> Fault"
begin

lemma send_eq:
  assumes "producer e = kops"
  shows "\<exists>k. send_and_wait e m w = (Inr (), w\<lparr>w_kafka := k\<rparr>) \<and> klog k = klog (w_kafka w) @ [m]"
proof -
  obtain r k where s: "kafka_send kops m (w_kafka w) = (r, k)" by force
  with send_up [of m "w_kafka w"] obtain u where "r = Reply u" by (cases r) auto
  with s send_ok [of m "w_kafka w" u k] assms show ?thesis
    by (intro exI [of _ k]) (simp add: send_and_wait_def)
qed

lemma relay_event_up:
  assumes "producer e = kops" "relayable ev"
  shows "\<exists>w'. relay_event e ev w = (Inr True, w') \<and> klog (w_kafka w') = klog (w_kafka w) @ [outbox_message e ev] \<and>
     db_outbox (w_db w') = put_row ob_id (ev\<lparr>ob_published_at := Some (w_clock w)\<rparr>) (db_outbox (w_db w)) \<and>
     w_clock w' = w_clock w \<and> w_committed w' = w_committed w"
proof -
  obtain k where "send_and_wait e (outbox_message e ev) w = (Inr (), w\<lparr>w_kafka := k\<rparr>)"
      "klog k = klog (w_kafka w) @ [outbox_message e ev]"
    using send_eq [OF assms(1)] by blast
  with assms(2) show ?thesis
    by (auto simp: relay_event_def run_simps save_outbox_def mark_inbound_published_def relayable_def bindE_simps)
qed

lemma relay_events_up:
  assumes "producer e = kops"
  shows "list_all relayable evs \<Longrightarrow> \<exists>w'. mapE (relay_event e) evs w = (Inr (replicate (length evs) True), w') \<and>
     klog (w_kafka w') = klog (w_kafka w) @ map (outbox_message e) evs \<and>
     db_outbox (w_db w') = foldl (\<lambda>t ev. put_row ob_id (ev\<lparr>ob_published_at := Some (w_clock w)\<rparr>) t)
        (db_outbox (w_db w)) evs \<and> w_clock w' = w_clock w \<and> w_committed w' = w_committed w"
proof (induction evs arbitrary: w)
  case (Cons ev evs)
  obtain w1 where w1: "relay_event e ev w = (Inr True, w1)"
      "klog (w_kafka w1) = klog (w_kafka w) @ [outbox_message e ev]"
      "db_outbox (w_db w1) = put_row ob_id (ev\<lparr>ob_published_at := Some (w_clock w)\<rparr>) (db_outbox (w_db w))"
      "w_clock w1 = w_clock w" "w_committed w1 = w_committed w"
    using relay_event_up [OF assms, of ev w] Cons.prems by auto
  with Cons.IH [of w1] Cons.prems show ?case by (auto simp: run_simps)
qed (simp add: run_simps)

end

interpretation memkup: kafka_up mem_kafka_ops "\<lambda>log. log"
  by unfold_locales (simp add: mem_kafka_ops_def)

text \<open>The rows left unpublished once a batch was stamped are those outside the batch.\<close>

lemma stamped_rows:
  assumes "unique_on ob_id tbl" "unique_on ob_id batch" "set batch \<subseteq> set tbl"
  shows "foldl (\<lambda>t ev. put_row ob_id (ev\<lparr>ob_published_at := Some stamp\<rparr>) t) tbl batch =
     map (\<lambda>x. if x \<in> set batch then x\<lparr>ob_published_at := Some stamp\<rparr> else x) tbl"
proof -
  have f: "find (\<lambda>r. True \<and> ob_id r = ob_id x) batch = (if x \<in> set batch then Some x else None)" if "x \<in> set tbl" for x
  proof (cases "x \<in> set batch")
    case True
    then show ?thesis using find_unique_on [OF assms(2)] by simp
  next
    case False
    with that assms show ?thesis by (auto simp: find_None_iff dest: unique_onD [OF assms(1)])
  qed
  have "foldl (\<lambda>t ev. put_row ob_id (ev\<lparr>ob_published_at := Some stamp\<rparr>) t) tbl batch =
      foldl (\<lambda>t ev. if True then put_row ob_id (ev\<lparr>ob_published_at := Some stamp\<rparr>) t else t) tbl batch"
    by simp
  also have "\<dots> = map (\<lambda>x. case find (\<lambda>r. True \<and> ob_id r = ob_id x) batch of
      None \<Rightarrow> x | Some r \<Rightarrow> r\<lparr>ob_published_at := Some stamp\<rparr>) tbl"
    unfolding foldl_put_row_pointwise
    by (rule map_cong [OF refl], rule foldl_row_find) (simp_all add: assms(2))
  finally show ?thesis using f by (auto split: if_splits)
qed

lemma unpublished_left:
  assumes "unique_on ob_id tbl" "set batch \<subseteq> set (filter unpublished tbl)" "distinct batch"
  shows "length (filter unpublished (map (\<lambda>x. if x \<in> set batch then x\<lparr>ob_published_at := Some stamp\<rparr> else x) tbl)) =
     length (filter unpublished tbl) - length batch"
proof -
  let ?U = "filter unpublished tbl"
  have d: "distinct tbl" using assms(1) by (simp add: unique_on_def distinct_map)
  have "filter unpublished (map (\<lambda>x. if x \<in> set batch then x\<lparr>ob_published_at := Some stamp\<rparr> else x) tbl) =
      map (\<lambda>x. if x \<in> set batch then x\<lparr>ob_published_at := Some stamp\<rparr> else x) (filter (\<lambda>x. unpublished x \<and> x \<notin> set batch) tbl)"
    unfolding filter_map comp_def
    by (rule arg_cong [of _ _ "map _"], rule filter_cong) (auto simp: unpublished_def)
  then have "length (filter unpublished (map (\<lambda>x. if x \<in> set batch then x\<lparr>ob_published_at := Some stamp\<rparr> else x) tbl)) =
      length (filter (\<lambda>x. unpublished x \<and> x \<notin> set batch) tbl)" by simp
  also have "\<dots> = card (set (filter (\<lambda>x. unpublished x \<and> x \<notin> set batch) tbl))"
    by (rule distinct_card [symmetric], rule distinct_filter [OF d])
  also have "\<dots> = card (set ?U - set batch)" by (rule arg_cong [of _ _ card]) auto
  also have "\<dots> = card (set ?U) - card (set batch)" using assms(2) by (intro card_Diff_subset) auto
  also have "\<dots> = length ?U - length batch"
    by (simp only: distinct_card [OF distinct_filter [OF d]] distinct_card [OF assms(3)])
  finally show ?thesis .
qed

text \<open>The relay never breaks a constraint, so its commit goes through.\<close>

definition database_ok :: "database \<Rightarrow> database \<Rightarrow> bool" where
  "database_ok c d \<longleftrightarrow> constraints_ok d"

lemma database_ok_save [keep_intros]: "keeps (on_db database_ok) (save_outbox ev)"
  unfolding save_outbox_def
  by (rule on_db_update) (simp add: database_ok_def constraints_ok_def table_ok_defs unique_on_put_row)

lemma database_ok_mark [keep_intros]: "keeps (on_db database_ok) (mark_inbound_published pl t)"
proof -
  have "map f (map (\<lambda>ie. if ie_id ie = i then ie\<lparr>ie_published_at := Some t\<rparr> else ie) l) = map f l"
    if "\<And>ie. f (ie\<lparr>ie_published_at := Some t\<rparr>) = f ie" for i l and f :: "inbound_event \<Rightarrow> 'a"
    using that by simp
  then have "database_ok c d \<Longrightarrow> database_ok c (d\<lparr>db_inbound_events :=
      map (\<lambda>ie. if ie_id ie = i then ie\<lparr>ie_published_at := Some t\<rparr> else ie) (db_inbound_events d)\<rparr>)" for c d i
    by (auto simp: database_ok_def constraints_ok_def table_ok_defs unique_on_def references_def list_all_iff
          comp_def if_distrib [of ie_id] if_distrib [of ie_partner_id] if_distrib [of ie_idempotency_key] cong: if_cong)
  then show ?thesis unfolding mark_inbound_published_def by (intro keep_intros)
qed

lemma database_ok_relay_event: "keeps (on_db database_ok) (relay_event e ev)"
  unfolding relay_event_def by (intro keep_intros)

section \<open>The properties of one iteration\<close>

lemma batch_keeps_committed: "w_committed (snd (publish_unpublished_batch e n w)) = w_committed w"
proof -
  have "keeps (on_db (\<lambda>c d. c = w_committed w)) (relay_event e ev)" for ev
    unfolding relay_event_def save_outbox_def mark_inbound_published_def
    by (intro keep_intros) (simp_all add: on_db_update)
  then have "keeps (on_db (\<lambda>c d. c = w_committed w)) (publish_unpublished_batch e n)"
    unfolding publish_unpublished_batch_def count_unpublished_def by (intro keep_intros)
  from keepsD [OF this, of w] show ?thesis by (simp add: on_db_def)
qed

text \<open>A world whose outbox holds one unpublished row.\<close>

definition sample_outbox :: outbox_event where
  "sample_outbox = \<lparr>ob_id = 1, ob_aggregate_type = ''delivery'', ob_aggregate_id = 1,
     ob_topic = ''outbound.pending'', ob_message_key = ''k'', ob_payload = JObj [], ob_created_at = 0,
     ob_published_at = None, ob_publish_attempts = 0\<rparr>"

definition outbox_world :: "(mem_redis, message list) world" where
  "outbox_world = sample_world\<lparr>w_committed := sample_db\<lparr>db_outbox := [sample_outbox]\<rparr>\<rparr>"

lemma outbox_world_simps [simp]:
  "db_outbox (w_committed outbox_world) = [sample_outbox]" "constraints_ok (w_committed outbox_world)"
  "w_kafka outbox_world = []" "w_clock outbox_world = 0" "unpublished sample_outbox" "relayable sample_outbox"
  "unpublished_outbox_select n (w_committed outbox_world) = take n [sample_outbox]"
  by (simp_all add: outbox_world_def sample_outbox_def sample_defs unpublished_def relayable_def
      unpublished_outbox_select_def constraints_ok_def table_ok_defs references_def unique_on_def)

text \<open>
  C11. At-least-once relay: a committed outbox row is stamped as published only after the broker has
  acknowledged its message. Every row that an iteration leaves published was either published
  before it or has its message, with its topic, key, payload and headers, in the broker's log.
\<close>

theorem relay_published_rows_were_sent:
  assumes "kafka_service (producer e) klog"
    and "relay_iteration e w = (r, w')"
    and "ev \<in> set (db_outbox (w_committed w'))" and "\<not> unpublished ev"
  shows "(\<exists>old \<in> set (db_outbox (w_committed w)). ob_id old = ob_id ev \<and> \<not> unpublished old) \<or>
     outbox_message e ev \<in> set (klog (w_kafka w'))"
proof -
  let ?w0 = "w\<lparr>w_db := w_committed w\<rparr>"
  obtain r1 w1 where b: "publish_unpublished_batch e 100 ?w0 = (r1, w1)" by force
  have "backed e klog (w_committed w) ?w0" by (auto simp: backed_def)
  from kafka_service.backed_batch [OF assms(1) refl this refl, of 100] b
  have bk: "backed e klog (w_committed w) w1" by simp
  have c: "w_committed w1 = w_committed w" using batch_keeps_committed [of e 100 ?w0] b by simp
  have "w_committed w' = w_committed w \<or> w_committed w' = w_db w1 \<and> w_kafka w' = w_kafka w1"
    using assms(2) b c
    by (auto simp: relay_iteration_def with_session_run run_simps commit_def flush_def modify_def split: if_splits sum.splits)
  then show ?thesis using assms(3,4) bk by (auto simp: backed_def)
qed

theorem relay_published_rows_were_sent_witness:
  "\<exists>r w'. relay_iteration mem_env outbox_world = (r, w') \<and>
     outbox_message mem_env (sample_outbox\<lparr>ob_published_at := Some 0\<rparr>) \<in> set (w_kafka w')"
proof -
  let ?ev = "sample_outbox\<lparr>ob_published_at := Some 0\<rparr>"
  let ?c = "(w_committed outbox_world)\<lparr>db_outbox := [?ev]\<rparr>"
  have ok: "constraints_ok ?c"
    by (simp add: outbox_world_def sample_outbox_def sample_defs constraints_ok_def table_ok_defs references_def unique_on_def)
  obtain r w' where r: "relay_iteration mem_env outbox_world = (r, w')" by force
  then have "w_committed w' = ?c"
    using ok by (auto simp: relay_iteration_def with_session_run publish_unpublished_batch_def count_unpublished_def run_simps
        set_gauge_metric_def commit_def flush_def relay_event_def send_and_wait_def mem_kafka_ops_def
        save_outbox_def put_row_def sample_outbox_def)
  then have "?ev \<in> set (db_outbox (w_committed w'))" "\<not> unpublished ?ev" by (simp_all add: unpublished_def)
  with relay_published_rows_were_sent [OF memk.kafka_service_axioms [folded mem_env_simps(2)] r]
  show ?thesis using r by (intro exI [of _ r] exI [of _ w']) simp
qed

lemma relay_pass:
  assumes "kafka_up (producer e) klog" and "constraints_ok (w_committed w)"
    and "list_all relayable (db_outbox (w_committed w))"
  shows "\<exists>w'. relay_iteration e w =
       (Inr (min 100 (length (filter unpublished (db_outbox (w_committed w))))), w') \<and>
     klog (w_kafka w') = klog (w_kafka w) @ map (outbox_message e) (unpublished_outbox_select 100 (w_committed w)) \<and>
     length (filter unpublished (db_outbox (w_committed w'))) =
       length (filter unpublished (db_outbox (w_committed w))) - 100 \<and>
     w_clock w' = w_clock w \<and> constraints_ok (w_committed w') \<and> list_all relayable (db_outbox (w_committed w'))"
proof -
  let ?w0 = "w\<lparr>w_db := w_committed w\<rparr>"
  let ?tbl = "db_outbox (w_committed w)"
  let ?b = "unpublished_outbox_select 100 (w_committed w)"
  have u: "unique_on ob_id ?tbl" using assms(2) by (simp add: constraints_ok_def outbox_ok_def)
  then have d: "distinct ?tbl" by (simp add: unique_on_def distinct_map)
  have sub: "set ?b \<subseteq> set (filter unpublished ?tbl)"
    by (auto simp: unpublished_outbox_select_def dest!: in_set_takeD)
  have db: "distinct ?b" using d by (simp add: unpublished_outbox_select_def)
  have ub: "unique_on ob_id ?b"
    using u sub db by (auto simp: unique_on_def distinct_map inj_on_def)
  have len: "length ?b = min 100 (length (filter unpublished ?tbl))"
    by (simp add: unpublished_outbox_select_def min.commute)
  have "list_all relayable ?b" using assms(3) sub by (auto simp: list_all_iff)
  from kafka_up.relay_events_up [OF assms(1) refl this, of ?w0]
  obtain w1 where w1: "mapE (relay_event e) ?b ?w0 = (Inr (replicate (length ?b) True), w1)"
      "klog (w_kafka w1) = klog (w_kafka w) @ map (outbox_message e) ?b"
      "w_clock w1 = w_clock w"
      "db_outbox (w_db w1) = foldl (\<lambda>t ev. put_row ob_id (ev\<lparr>ob_published_at := Some (w_clock w)\<rparr>) t) ?tbl ?b"
    by auto
  have "keeps (on_db database_ok) (mapE (relay_event e) ?b)"
    using database_ok_relay_event by (intro keep_intros)
  from keepsD [OF this, of ?w0] w1(1) assms(2) have ok: "constraints_ok (w_db w1)"
    by (simp add: on_db_def database_ok_def)
  have rows: "db_outbox (w_db w1) = map (\<lambda>x. if x \<in> set ?b then x\<lparr>ob_published_at := Some (w_clock w)\<rparr> else x) ?tbl"
    unfolding w1(4) using u ub sub by (intro stamped_rows) auto
  have rel: "list_all relayable (db_outbox (w_db w1))"
    unfolding rows using assms(3) by (auto simp: list_all_iff relayable_def)
  have left: "length (filter unpublished (db_outbox (w_db w1))) = length (filter unpublished ?tbl) - length ?b"
    unfolding rows using unpublished_left [OF u sub db] by simp
  show ?thesis
    using w1(1,2,3) ok left len rel
    by (simp add: relay_iteration_def with_session_run publish_unpublished_batch_def count_unpublished_def
        run_simps set_gauge_metric_def commit_def flush_def)
qed

text \<open>
  The relay drains the outbox: when the broker accepts messages, one iteration publishes the
  oldest unpublished rows, a hundred at most, in the order they were created, stamps exactly those,
  and commits.
\<close>

lemma relay_drains:
  assumes "kafka_up (producer e) klog" and "constraints_ok (w_committed w)"
    and "list_all relayable (db_outbox (w_committed w))"
  shows "\<exists>w'. relay_iteration e w =
       (Inr (min 100 (length (filter unpublished (db_outbox (w_committed w))))), w') \<and>
     klog (w_kafka w') = klog (w_kafka w) @ map (outbox_message e) (unpublished_outbox_select 100 (w_committed w)) \<and>
     length (filter unpublished (db_outbox (w_committed w'))) =
       length (filter unpublished (db_outbox (w_committed w))) - 100"
  using relay_pass [OF assms] by blast

lemma relay_drains_witness:
  "\<exists>w'. relay_iteration mem_env outbox_world = (Inr 1, w') \<and>
     w_kafka w' = [outbox_message mem_env sample_outbox] \<and>
     length (filter unpublished (db_outbox (w_committed w'))) = 0"
  using relay_drains [OF memkup.kafka_up_axioms [folded mem_env_simps(2)], of outbox_world] by simp

end
