(* ===== verification/Enqueue.thy ===== *)
theory Enqueue
  imports Outbox
begin

text \<open>
  Accepting an outbound event: the schema registry (\<open>schema_registry.py\<close>) and
  \<open>enqueue_outbound_for_event\<close> (\<open>outbound_enqueue.py\<close>), which resolves partner, schema and
  endpoints through the accept-path cache, fans the event out to the endpoints, and persists the
  deliveries with their outbox rows in one commit, or reports a duplicate.
\<close>

section \<open>Schema registry\<close>

text \<open>The compiled validators are memoised by schema id and version.\<close>

definition validator_for :: "payload_schema \<Rightarrow> ('r, 'k, json) hub" where
  "validator_for row =
     bindE (gets (\<lambda>w. w_validators w (ps_id row, ps_version row))) (\<lambda>v.
     case v of
       Some s \<Rightarrow> ret s
     | None \<Rightarrow> seqE (modify (\<lambda>w. w\<lparr>w_validators := (w_validators w)
                       ((ps_id row, ps_version row) \<mapsto> ps_json_schema row)\<rparr>))
                    (ret (ps_json_schema row)))"

definition validate_payload ::
  "('r, 'k) env \<Rightarrow> string \<Rightarrow> json \<Rightarrow> payload_schema option \<Rightarrow> ('r, 'k, unit) hub" where
  "validate_payload e event_type payload schema_row =
     (case schema_row of
        None \<Rightarrow> ret ()
      | Some row \<Rightarrow>
          if ps_status row \<noteq> PayloadSchemaStatus.ACTIVE then ret ()
          else if ps_event_type row \<noteq> event_type then ret ()
          else bindE (validator_for row) (\<lambda>schema.
               if jsonschema_valid e schema payload then ret () else throw SchemaValidationError))"

text \<open>\<open>ORDER BY version DESC LIMIT 1\<close>: the first row of greatest version.\<close>

definition active_schemas :: "string \<Rightarrow> database \<Rightarrow> payload_schema list" where
  "active_schemas event_type db =
     filter (\<lambda>s. ps_event_type s = event_type \<and> ps_status s = PayloadSchemaStatus.ACTIVE)
            (db_payload_schemas db)"

definition latest_active_schema :: "string \<Rightarrow> database \<Rightarrow> payload_schema option" where
  "latest_active_schema event_type db =
     (case active_schemas event_type db of
        [] \<Rightarrow> None
      | s # ss \<Rightarrow> Some (foldl (\<lambda>best x. if ps_version x > ps_version best then x else best) s ss))"

definition fetch_latest_active_schema :: "string \<Rightarrow> ('r, 'k, payload_schema option) hub" where
  "fetch_latest_active_schema event_type = gets (\<lambda>w. latest_active_schema event_type (w_db w))"

section \<open>Enqueue\<close>

datatype enqueue_response =
    OutboundEventAcceptedResponse uuid "uuid list"
  | OutboundEventDuplicateResponse uuid "uuid list"

definition duplicate_response :: "delivery list \<Rightarrow> exn + enqueue_response" where
  "duplicate_response deliveries =
     (case map d_public_id deliveries of
        [] \<Rightarrow> Inl IndexError
      | u # us \<Rightarrow> Inr (OutboundEventDuplicateResponse u (u # us)))"

text \<open>The partner, from the cache or the database (a copy is cached).\<close>

definition resolve_partner :: "uuid \<Rightarrow> ('r, 'k, partner) hub" where
  "resolve_partner partner_id =
     (let partner_key = partner_cache_key partner_id in
      bindE (read_cache partner_key) (\<lambda>cached_partner.
      bindE (case cached_partner of
               None \<Rightarrow>
                 bindE (fetch_partner_by_public_id partner_id) (\<lambda>p.
                 case p of
                   None \<Rightarrow> ret None
                 | Some row \<Rightarrow> seqE (write_cache partner_key (CachedPartner (copy_partner row))) (ret (Some row)))
             | Some (CachedPartner p) \<Rightarrow> ret (Some p)
             | Some _ \<Rightarrow> throw TypeError) (\<lambda>partner.
      case partner of
        None \<Rightarrow> throw (HubExn PartnerNotFoundError)
      | Some p \<Rightarrow> if p_status p \<noteq> PartnerStatus.ACTIVE then throw (HubExn PartnerInactiveError) else ret p)))"

definition check_schema :: "('r, 'k) env \<Rightarrow> string \<Rightarrow> json \<Rightarrow> ('r, 'k, unit) hub" where
  "check_schema e event_type payload =
     (let schema_key = schema_cache_key event_type in
      bindE (read_cache schema_key) (\<lambda>cached_schema.
      bindE (case cached_schema of
               None \<Rightarrow>
                 bindE (fetch_latest_active_schema event_type) (\<lambda>row.
                 seqE (write_cache schema_key (cache_schema_value row)) (ret row))
             | Some cached \<Rightarrow> ret (schema_from_cache cached)) (\<lambda>schema_row.
      catchE (validate_payload e event_type payload schema_row)
             (\<lambda>x. if x = SchemaValidationError then throw (HubExn SchemaValidationFailedError) else throw x))))"

definition resolve_endpoints :: "int \<Rightarrow> string \<Rightarrow> ('r, 'k, partner_endpoint list) hub" where
  "resolve_endpoints partner_id event_type =
     (let endpoints_key = endpoints_cache_key partner_id event_type in
      bindE (read_cache endpoints_key) (\<lambda>cached_endpoints.
      bindE (case cached_endpoints of
               None \<Rightarrow>
                 bindE (fetch_active_outbound_endpoints partner_id event_type) (\<lambda>eps.
                 seqE (write_cache endpoints_key (CachedEndpoints (map copy_endpoint eps))) (ret eps))
             | Some (CachedEndpoints eps) \<Rightarrow> ret eps
             | Some _ \<Rightarrow> throw TypeError) (\<lambda>endpoints.
      if endpoints = [] then throw (HubExn (NoActiveEndpointError event_type)) else ret endpoints)))"

definition create_delivery ::
  "('r, 'k) env \<Rightarrow> partner \<Rightarrow> string \<Rightarrow> json \<Rightarrow> string \<Rightarrow> string \<Rightarrow> time \<Rightarrow> partner_endpoint \<Rightarrow>
   ('r, 'k, delivery) hub" where
  "create_delivery e p event_type payload client_key correlation_id now ep =
     ensure_public_id e (build_pending_delivery p ep event_type payload
       (derived_idempotency_key client_key (ep_id ep)) client_key correlation_id now)"

definition pending_envelope ::
  "partner \<Rightarrow> string \<Rightarrow> json \<Rightarrow> string \<Rightarrow> string \<Rightarrow> time \<Rightarrow> delivery \<Rightarrow> partner_endpoint \<Rightarrow> json" where
  "pending_envelope p event_type payload client_key correlation_id now d ep =
     build_outbound_pending_envelope (d_public_id d) (p_public_id p) (ep_id ep) event_type payload
       client_key correlation_id now (d_sla_deadline_at d) 1"

text \<open>
  A lookup the cache does not answer returns rows of the database, which are attached to the session;
  the copies of the cache are not.
\<close>

definition uncached :: "string \<Rightarrow> ('r, 'k) world \<Rightarrow> bool" where
  "uncached key w \<longleftrightarrow> fst (cache_get (w_monotonic w) key (w_cache w)) = None"

text \<open>
  The handler of the \<open>IntegrityError\<close>: the event was stored before, or the key is taken. It reads
  \<open>partner.id\<close> and \<open>endpoints[0].public_id\<close> after the rollback.
\<close>

definition duplicate_or_conflict ::
  "bool \<Rightarrow> bool \<Rightarrow> int \<Rightarrow> string \<Rightarrow> partner_endpoint list \<Rightarrow> ('r, 'k, enqueue_response) hub" where
  "duplicate_or_conflict partner_attached endpoints_attached partner_id client_key endpoints =
     seqE rollback
     (seqE (read_after_rollback partner_attached)
     (bindE (fetch_deliveries_by_source_event_id partner_id client_key) (\<lambda>raced.
      if raced \<noteq> [] then liftE (duplicate_response raced)
      else seqE (read_after_rollback endpoints_attached)
          (bindE (fetch_delivery_by_idempotency partner_id
                    (derived_idempotency_key client_key (ep_id (hd endpoints)))) (\<lambda>conflicting.
      case conflicting of
        None \<Rightarrow> throw (HubExn IdempotencyConflictError)
      | Some d \<Rightarrow> ret (OutboundEventDuplicateResponse (d_public_id d) [d_public_id d]))))))"

definition enqueue_outbound_for_event ::
  "('r, 'k) env \<Rightarrow> uuid \<Rightarrow> string \<Rightarrow> json \<Rightarrow> string \<Rightarrow> string \<Rightarrow> time \<Rightarrow> ('r, 'k, enqueue_response) hub" where
  "enqueue_outbound_for_event e partner_id event_type payload idempotency_key correlation_id now =
     bindE (gets (uncached (partner_cache_key partner_id))) (\<lambda>partner_attached.
     bindE (resolve_partner partner_id) (\<lambda>p.
     seqE (check_schema e event_type payload)
     (bindE (gets (uncached (endpoints_cache_key (p_id p) event_type))) (\<lambda>endpoints_attached.
      bindE (resolve_endpoints (p_id p) event_type) (\<lambda>endpoints.
      let client_key = idempotency_key in
      bindE (mapE (create_delivery e p event_type payload client_key correlation_id now) endpoints) (\<lambda>created.
      let envelopes = map2 (pending_envelope p event_type payload client_key correlation_id now) created endpoints in
      bindE (catchE (seqE (persist_deliveries_and_outbox e created envelopes (str_uuid (p_public_id p))
                             OUTBOUND_PENDING_TOPIC)
                          (ret None))
                    (\<lambda>x. if x = IntegrityError
                         then bindE (duplicate_or_conflict partner_attached endpoints_attached (p_id p) client_key endpoints)
                                (\<lambda>r. ret (Some r))
                         else throw x)) (\<lambda>early.
      case early of
        Some r \<Rightarrow> ret r
      | None \<Rightarrow>
          seqE commit
          (case map d_public_id created of
             [] \<Rightarrow> throw IndexError
           | u # us \<Rightarrow> ret (OutboundEventAcceptedResponse u (u # us))))))))))"

section \<open>Lemmas\<close>

text \<open>The lookups change nothing but the cache and the memo of validators.\<close>

definition only_cache :: "('r, 'k) world \<Rightarrow> ('r, 'k) world \<Rightarrow> bool" where
  "only_cache w w' \<longleftrightarrow> w' = w\<lparr>w_cache := w_cache w', w_validators := w_validators w'\<rparr>"

definition cache_only :: "('r, 'k, 'a) hub \<Rightarrow> bool" where
  "cache_only m \<longleftrightarrow> (\<forall>w. only_cache w (snd (m w)))"

lemma only_cache_refl [simp]: "only_cache w w"
  by (simp add: only_cache_def)

lemma only_cache_trans: "only_cache a b \<Longrightarrow> only_cache b c \<Longrightarrow> only_cache a c"
  unfolding only_cache_def by (cases a; cases b; cases c) simp

lemma only_cache_fields:
  assumes "only_cache w w'"
  shows "w_db w' = w_db w" "w_committed w' = w_committed w" "w_draws w' = w_draws w"
    "w_seq_deliveries w' = w_seq_deliveries w" "w_seq_outbox w' = w_seq_outbox w"
    "w_clock w' = w_clock w" "w_monotonic w' = w_monotonic w"
  using assms unfolding only_cache_def by (cases w; cases w'; simp)+

lemma cache_only_bindE: "cache_only m \<Longrightarrow> (\<And>x. cache_only (k x)) \<Longrightarrow> cache_only (bindE m k)"
  unfolding cache_only_def bindE_run
  by (auto split: prod.splits sum.splits) (metis only_cache_trans snd_conv)+

lemma cache_only_seqE: "cache_only m \<Longrightarrow> cache_only k \<Longrightarrow> cache_only (seqE m k)"
  unfolding seqE_def by (rule cache_only_bindE)

lemma cache_only_catchE: "cache_only m \<Longrightarrow> (\<And>x. cache_only (k x)) \<Longrightarrow> cache_only (catchE m k)"
  unfolding cache_only_def catchE_run
  by (auto split: prod.splits sum.splits) (metis only_cache_trans snd_conv)+

lemma cache_only_prims:
  "cache_only (ret x)" "cache_only (throw x')" "cache_only (gets f)" "cache_only (read_cache key)"
  "cache_only (write_cache key v)" "cache_only (liftE r)" "cache_only (one_or_none rows)"
  by (auto simp: cache_only_def only_cache_def run_simps one_or_none_def split: list.splits)

lemma cache_only_validator: "cache_only (validator_for row)"
  by (auto simp: cache_only_def only_cache_def run_simps validator_for_def split: option.splits)

lemmas cache_only_intros = cache_only_bindE cache_only_seqE cache_only_catchE cache_only_prims
  cache_only_validator

lemma cache_only_resolve_partner: "cache_only (resolve_partner pid)"
  unfolding resolve_partner_def Let_def fetch_partner_by_public_id_def
  by (auto intro!: cache_only_intros split: option.split cache_value.split)

lemma cache_only_check_schema: "cache_only (check_schema e ty payload)"
  unfolding check_schema_def Let_def fetch_latest_active_schema_def validate_payload_def
  by (auto intro!: cache_only_intros split: option.split)

lemma cache_only_resolve_endpoints: "cache_only (resolve_endpoints pid ty)"
  unfolding resolve_endpoints_def Let_def fetch_active_outbound_endpoints_def
  by (auto intro!: cache_only_intros split: option.split cache_value.split)

lemma lookups_only_cache:
  assumes "resolve_partner pid w = (r1, w1)" "check_schema e ty payload w1 = (r2, w2)"
    "resolve_endpoints i ty' w2 = (r3, w3)"
  shows "only_cache w w3"
proof -
  have "only_cache w w1" using cache_only_resolve_partner [of pid] assms(1)
    unfolding cache_only_def by (metis snd_conv)
  moreover have "only_cache w1 w2" using cache_only_check_schema [of e ty payload] assms(2)
    unfolding cache_only_def by (metis snd_conv)
  moreover have "only_cache w2 w3" using cache_only_resolve_endpoints [of i ty'] assms(3)
    unfolding cache_only_def by (metis snd_conv)
  ultimately show ?thesis using only_cache_trans by blast
qed

lemma resolve_endpoints_nonempty: "resolve_endpoints pid ty w = (Inr eps, w') \<Longrightarrow> eps \<noteq> []"
  unfolding resolve_endpoints_def Let_def
  by (auto simp: bindE_Inr ret_apply throw_apply split: if_splits)

text \<open>The deliveries created for a list of endpoints, with the drawn public ids.\<close>

primrec fan_out ::
  "('r, 'k) env \<Rightarrow> partner \<Rightarrow> string \<Rightarrow> json \<Rightarrow> string \<Rightarrow> string \<Rightarrow> time \<Rightarrow> nat \<Rightarrow> partner_endpoint list \<Rightarrow>
   delivery list" where
  "fan_out e p ty payload ck ci now n [] = []"
| "fan_out e p ty payload ck ci now n (ep # eps) =
     (build_pending_delivery p ep ty payload (derived_idempotency_key ck (ep_id ep)) ck ci now)
       \<lparr>d_public_id := uuid7 e n\<rparr> # fan_out e p ty payload ck ci now (Suc n) eps"

lemma create_deliveries_run:
  "mapE (create_delivery e p ty payload ck ci now) eps w =
     (Inr (fan_out e p ty payload ck ci now (w_draws w) eps), w\<lparr>w_draws := w_draws w + length eps\<rparr>)"
proof (induction eps arbitrary: w)
  case (Cons ep eps)
  then show ?case
    by (simp add: run_simps create_delivery_def ensure_public_id_def build_pending_delivery_def)
qed (simp add: run_simps)

lemma length_fan_out [simp]: "length (fan_out e p ty payload ck ci now n eps) = length eps"
  by (induction eps arbitrary: n) auto

lemma fan_out_Nil [simp]: "fan_out e p ty payload ck ci now n eps = [] \<longleftrightarrow> eps = []"
  by (cases eps) auto

lemma fan_out_rows:
  "d \<in> set (fan_out e p ty payload ck ci now n eps) \<Longrightarrow>
     d_status d = DeliveryStatus.PENDING \<and> d_attempt_count d = 0 \<and> d_payload d = payload \<and>
     d_payload_hash d = canonical_payload_hash payload \<and> d_source_event_id d = Some ck \<and>
     d_partner_id d = p_id p \<and> d_event_type d = ty \<and> d_correlation_id d = ci \<and>
     (\<exists>k. d_public_id d = uuid7 e k)"
  by (induction eps arbitrary: n) (auto simp: build_pending_delivery_def)

lemma fan_out_columns:
  "map d_endpoint_id (fan_out e p ty payload ck ci now n eps) = map ep_id eps"
  "map d_idempotency_key (fan_out e p ty payload ck ci now n eps) =
     map (\<lambda>ep. derived_idempotency_key ck (ep_id ep)) eps"
  "map d_max_attempts (fan_out e p ty payload ck ci now n eps) = map ep_max_attempts eps"
  by (induction eps arbitrary: n) (auto simp: build_pending_delivery_def)

lemma enqueue_run:
  fixes ck ci :: string and now :: time
  assumes "resolve_partner pid w = (Inr p, w1)" "check_schema e ty payload w1 = (Inr (), w2)"
    "resolve_endpoints (p_id p) ty w2 = (Inr eps, w3)" and nonnil: "\<And>n. uuid7 e n \<noteq> 0"
  defines "ds \<equiv> fan_out e p ty payload ck ci now (w_draws w3) eps"
  defines "w5 \<equiv> persisted ds (map2 (pending_envelope p ty payload ck ci now) ds eps)
                   (str_uuid (p_public_id p)) OUTBOUND_PENDING_TOPIC
                   (w3\<lparr>w_draws := w_draws w3 + length eps\<rparr>)"
  shows "enqueue_outbound_for_event e pid ty payload ck ci now w =
    (if constraints_ok (w_db w5)
     then (Inr (OutboundEventAcceptedResponse (hd (map d_public_id ds)) (map d_public_id ds)),
           w5\<lparr>w_committed := w_db w5\<rparr>)
     else duplicate_or_conflict (uncached (partner_cache_key pid) w)
            (uncached (endpoints_cache_key (p_id p) ty) w2) (p_id p) ck eps w5)"
proof -
  have ne: "eps \<noteq> []" using assms(3) by (rule resolve_endpoints_nonempty)
  then obtain u us where ids: "map d_public_id ds = u # us"
    unfolding ds_def by (metis length_0_conv length_fan_out length_map neq_Nil_conv)
  have persist: "persist_deliveries_and_outbox e ds (map2 (pending_envelope p ty payload ck ci now) ds eps)
      (str_uuid (p_public_id p)) OUTBOUND_PENDING_TOPIC (w3\<lparr>w_draws := w_draws w3 + length eps\<rparr>) =
      (if constraints_ok (w_db w5) then Inr () else Inl IntegrityError, w5)"
    unfolding w5_def
  proof (rule persist_run)
    show "\<forall>d \<in> set ds. d_public_id d \<noteq> 0" unfolding ds_def using fan_out_rows nonnil by metis
  qed (use ne in \<open>auto simp: ds_def\<close>)
  show ?thesis
    using persist ids
    by (auto simp: enqueue_outbound_for_event_def bindE_run seqE_run catchE_run assms(1-3)
        create_deliveries_run ds_def [symmetric] Let_def ret_apply throw_apply gets_apply commit_ok
        split: sum.splits prod.splits)
qed

lemma enqueue_early:
  assumes "enqueue_outbound_for_event e pid ty payload ck ci now w = (r, w')"
  obtains (error) "\<exists>x. r = Inl x" "only_cache w w'"
    | (stored) p w1 w2 eps w3 where "resolve_partner pid w = (Inr p, w1)"
        "check_schema e ty payload w1 = (Inr (), w2)" "resolve_endpoints (p_id p) ty w2 = (Inr eps, w3)"
        "only_cache w w3"
proof -
  obtain rp w1 where p: "resolve_partner pid w = (rp, w1)" by force
  have o1: "only_cache w w1" using cache_only_resolve_partner p by (metis cache_only_def snd_conv)
  show ?thesis
  proof (cases rp)
    case (Inl x)
    with assms p o1 show ?thesis by (intro error) (auto simp: enqueue_outbound_for_event_def bindE_run gets_apply)
  next
    case (Inr q)
    obtain rs w2 where s: "check_schema e ty payload w1 = (rs, w2)" by force
    have o2: "only_cache w w2" using cache_only_check_schema s o1
      by (metis cache_only_def only_cache_trans snd_conv)
    show ?thesis
    proof (cases rs)
      case (Inl x)
      with assms p s o2 Inr show ?thesis
        by (intro error) (auto simp: enqueue_outbound_for_event_def bindE_run seqE_run gets_apply)
    next
      case (Inr u)
      obtain re w3 where n: "resolve_endpoints (p_id q) ty w2 = (re, w3)" by force
      have o3: "only_cache w w3" using cache_only_resolve_endpoints n o2
        by (metis cache_only_def only_cache_trans snd_conv)
      show ?thesis
      proof (cases re)
        case Inl': (Inl x)
        with assms p s n o3 \<open>rp = Inr q\<close> Inr show ?thesis
          by (intro error) (auto simp: enqueue_outbound_for_event_def bindE_run seqE_run gets_apply)
      next
        case Inr': (Inr eps)
        with p s n o3 \<open>rp = Inr q\<close> Inr show ?thesis by (intro stored) auto
      qed
    qed
  qed
qed

text \<open>The duplicate branch reads the committed state and leaves it as it is.\<close>

lemma duplicate_or_conflict_frame:
  assumes "duplicate_or_conflict pa ea i ck eps w = (r, w')"
  shows "w_committed w' = w_committed w" "w_db w' = w_committed w"
    "\<And>u us. r \<noteq> Inr (OutboundEventAcceptedResponse u us)"
proof -
  have k: "keeps (on_db (\<lambda>c d. c = w_committed w \<and> d = w_committed w))
      (duplicate_or_conflict pa ea i ck eps)"
    unfolding duplicate_or_conflict_def fetch_deliveries_by_source_event_id_def fetch_delivery_by_idempotency_def
    by (intro keep_intros) simp
  from keepsD [OF k, of "w\<lparr>w_db := w_committed w\<rparr>"] assms
  show "w_committed w' = w_committed w" "w_db w' = w_committed w"
    by (auto simp: duplicate_or_conflict_def seqE_run rollback_apply on_db_def)
  show "r \<noteq> Inr (OutboundEventAcceptedResponse u us)" for u us
    using assms
    by (auto simp: duplicate_or_conflict_def run_simps fetch_deliveries_by_source_event_id_def
        fetch_delivery_by_idempotency_def one_or_none_def duplicate_response_def
        split: if_splits list.splits)
qed

lemma duplicate_found:
  assumes "filter (\<lambda>d. d_partner_id d = i \<and> d_source_event_id d = Some ck) (db_deliveries (w_committed w)) = ds"
    "ds \<noteq> []"
  shows "duplicate_or_conflict pa ea i ck eps w =
    (if pa then Inl MissingGreenlet
     else Inr (OutboundEventDuplicateResponse (hd (map d_public_id ds)) (map d_public_id ds)),
     w\<lparr>w_db := w_committed w\<rparr>)"
  using assms
  by (cases ds)
     (simp_all add: duplicate_or_conflict_def run_simps fetch_deliveries_by_source_event_id_def
       duplicate_response_def)

text \<open>A key that is taken makes the statement fail.\<close>

lemma taken_key_violates:
  assumes "d \<in> set (db_deliveries (w_db w))" "d_partner_id d = p_id p"
    "d_idempotency_key d = derived_idempotency_key ck (ep_id ep)" "ep \<in> set eps"
  shows "\<not> constraints_ok (w_db (persisted (fan_out e p ty payload ck ci now n eps) envs key topic w))"
proof
  let ?ds = "fan_out e p ty payload ck ci now n eps"
  let ?ins = "assign_ids (w_seq_deliveries w) (w_clock w) ?ds"
  let ?key = "\<lambda>d. (d_partner_id d, d_idempotency_key d)"
  assume "constraints_ok (w_db (persisted ?ds envs key topic w))"
  then have u: "unique_on ?key (db_deliveries (w_db w) @ ?ins)"
    by (simp add: constraints_ok_def deliveries_ok_def persisted_def Let_def)
  have "map ?key ?ins = map ?key ?ds" by (rule assign_ids_column) simp
  moreover have "map ?key ?ds = map (\<lambda>ep. (p_id p, derived_idempotency_key ck (ep_id ep))) eps"
    by (induction eps arbitrary: n) (auto simp: build_pending_delivery_def)
  ultimately have "?key d \<in> ?key ` set ?ins"
    using assms(2-4) by (metis (no_types, lifting) image_eqI image_set)
  with u assms(1) show False by (auto simp: unique_on_append)
qed

text \<open>The call, once its lookups succeeded: what it stored, or that it stored nothing.\<close>

lemma enqueue_rows:
  fixes w :: "('r, 'k) world"
  assumes "resolve_partner pid w = (Inr p, w1)" "check_schema e ty payload w1 = (Inr (), w2)"
    "resolve_endpoints (p_id p) ty w2 = (Inr eps, w3)" "w_db w = w_committed w" "\<And>n. uuid7 e n \<noteq> 0"
    and run: "enqueue_outbound_for_event e pid ty payload ck ci now w = (r, w')"
  obtains (accepted) ds obs where "r = Inr (OutboundEventAcceptedResponse (hd (map d_public_id ds)) (map d_public_id ds))" "ds \<noteq> []"
      "w_committed w' = (w_committed w)\<lparr>db_deliveries := db_deliveries (w_committed w) @ ds,
         db_outbox := db_outbox (w_committed w) @ obs\<rparr>" "constraints_ok (w_committed w')"
      "\<And>d. d \<in> set ds \<Longrightarrow> d_status d = DeliveryStatus.PENDING \<and> d_attempt_count d = 0 \<and> d_partner_id d = p_id p \<and>
         d_payload d = payload \<and> d_payload_hash d = canonical_payload_hash payload \<and>
         d_source_event_id d = Some ck \<and> d_event_type d = ty"
      "map d_endpoint_id ds = map ep_id eps"
      "list_all2 (\<lambda>d ob. ob_aggregate_type ob = ''delivery'' \<and> ob_aggregate_id ob = d_id d \<and> ob_topic ob = OUTBOUND_PENDING_TOPIC \<and>
         ob_created_at ob = w_clock w \<and> ob_published_at ob = None \<and>
         item (ob_payload ob) ''delivery_id'' = Inr (JStr (str_uuid (d_public_id d)))) ds obs"
      "w' = w3\<lparr>w_draws := w_draws w + length ds, w_seq_deliveries := w_seq_deliveries w', w_seq_outbox := w_seq_outbox w',
         w_db := w_committed w', w_committed := w_committed w'\<rparr>"
    | (refused) "\<And>u us. r \<noteq> Inr (OutboundEventAcceptedResponse u us)" "w_committed w' = w_committed w"
proof -
  define ds0 where "ds0 = fan_out e p ty payload ck ci now (w_draws w3) eps"
  define envs where "envs = map2 (pending_envelope p ty payload ck ci now) ds0 eps"
  define w4 where "w4 = w3\<lparr>w_draws := w_draws w3 + length eps\<rparr>"
  define w5 where "w5 = persisted ds0 envs (str_uuid (p_public_id p)) OUTBOUND_PENDING_TOPIC w4"
  note eq = enqueue_run [OF assms(1-3,5), where ck = ck and ci = ci and now = now,
      folded ds0_def, folded envs_def w4_def, folded w5_def]
  note oc = only_cache_fields [OF lookups_only_cache [OF assms(1-3)]]
  have same: "w_committed w5 = w_committed w" "w_db w4 = w_committed w" "w_clock w4 = w_clock w"
    using oc assms(4) by (simp_all add: w5_def w4_def)
  have len: "length envs = length ds0" "length ds0 = length eps" by (simp_all add: envs_def ds0_def)
  show thesis
  proof (cases "constraints_ok (w_db w5)")
    case False
    with eq run obtain pa ea where "duplicate_or_conflict pa ea (p_id p) ck eps w5 = (r, w')" by simp
    from duplicate_or_conflict_frame [OF this] same show thesis by (intro refused) auto
  next
    case True
    define ds where "ds = assign_ids (w_seq_deliveries w4) (w_clock w4) ds0"
    define obs where "obs = outbox_rows (w_seq_outbox w4) (w_clock w4) OUTBOUND_PENDING_TOPIC
        (str_uuid (p_public_id p)) (zip (map d_id ds) envs)"
    have db: "w_db w5 = (w_committed w)\<lparr>db_deliveries := db_deliveries (w_committed w) @ ds,
        db_outbox := db_outbox (w_committed w) @ obs\<rparr>"
      using persisted_pairs [of ds0 envs, OF True [unfolded w5_def] len(1)] same
      by (simp add: w5_def ds_def obs_def)
    have col: "map d_public_id ds = map d_public_id ds0" "map d_endpoint_id ds = map ep_id eps"
      using fan_out_columns(1) [of e p ty payload ck ci now "w_draws w3" eps]
      unfolding ds_def ds0_def by (subst assign_ids_column; simp)+
    have rows: "list_all (\<lambda>d. d_status d = DeliveryStatus.PENDING \<and> d_attempt_count d = 0 \<and> d_partner_id d = p_id p \<and>
         d_payload d = payload \<and> d_payload_hash d = canonical_payload_hash payload \<and>
         d_source_event_id d = Some ck \<and> d_event_type d = ty) ds"
      unfolding ds_def ds0_def by (subst list_all_assign_ids) (auto simp: list_all_iff dest: fan_out_rows)
    have pairs: "list_all2 (\<lambda>d ob. ob_aggregate_type ob = ''delivery'' \<and> ob_aggregate_id ob = d_id d \<and> ob_topic ob = OUTBOUND_PENDING_TOPIC \<and>
         ob_created_at ob = w_clock w \<and> ob_published_at ob = None \<and>
         item (ob_payload ob) ''delivery_id'' = Inr (JStr (str_uuid (d_public_id d)))) ds obs"
    proof (rule list_all2_all_nthI)
      show "length ds = length obs" by (simp add: obs_def ds_def len)
      fix i assume i: "i < length ds"
      then have "d_public_id (ds ! i) = d_public_id (ds0 ! i)" using col(1) by (metis length_map nth_map)
      with i show "ob_aggregate_type (obs ! i) = ''delivery'' \<and> ob_aggregate_id (obs ! i) = d_id (ds ! i) \<and>
         ob_topic (obs ! i) = OUTBOUND_PENDING_TOPIC \<and> ob_created_at (obs ! i) = w_clock w \<and> ob_published_at (obs ! i) = None \<and>
         item (ob_payload (obs ! i)) ''delivery_id'' = Inr (JStr (str_uuid (d_public_id (ds ! i))))"
        by (simp add: obs_def outbox_rows_nth outbox_row_def len ds_def envs_def pending_envelope_def same)
    qed
    have l: "length ds = length eps" using len by (simp add: ds_def)
    then have ne: "ds \<noteq> []" using resolve_endpoints_nonempty [OF assms(3)] by auto
    have "(r, w') = (Inr (OutboundEventAcceptedResponse (hd (map d_public_id ds)) (map d_public_id ds)),
        w5\<lparr>w_committed := w_db w5\<rparr>)"
      unfolding run [symmetric] eq col using True by (simp only: if_True)
    then have r: "r = Inr (OutboundEventAcceptedResponse (hd (map d_public_id ds)) (map d_public_id ds))"
      and w': "w' = w5\<lparr>w_committed := w_db w5\<rparr>" by simp_all
    show thesis
    proof (rule accepted [OF r ne])
      show "w' = w3\<lparr>w_draws := w_draws w + length ds, w_seq_deliveries := w_seq_deliveries w', w_seq_outbox := w_seq_outbox w',
         w_db := w_committed w', w_committed := w_committed w'\<rparr>"
        unfolding w' using l oc by (simp add: w5_def w4_def persisted_def Let_def)
    qed (use w' db True rows pairs col in \<open>simp_all add: list_all_iff\<close>)
  qed
qed

section \<open>Properties\<close>

text \<open>The sample partner's event is accepted.\<close>

lemma sample_lookups:
  "w_cache u (partner_cache_key 1) = None \<Longrightarrow> db_partners (w_db u) = [sample_partner] \<Longrightarrow>
     resolve_partner 1 u = (Inr sample_partner, u\<lparr>w_cache := cache_set (w_monotonic u) (partner_cache_key 1)
        (CachedPartner (copy_partner sample_partner)) (w_cache u)\<rparr>)"
  "w_cache u (schema_cache_key ty) = None \<Longrightarrow> db_payload_schemas (w_db u) = [] \<Longrightarrow>
     check_schema e ty payload u =
     (Inr (), u\<lparr>w_cache := cache_set (w_monotonic u) (schema_cache_key ty) SchemaAbsent (w_cache u)\<rparr>)"
  "w_cache u (endpoints_cache_key 1 ''order.created'') = None \<Longrightarrow> db_endpoints (w_db u) = [sample_endpoint] \<Longrightarrow>
     resolve_endpoints 1 ''order.created'' u = (Inr [sample_endpoint],
       u\<lparr>w_cache := cache_set (w_monotonic u) (endpoints_cache_key 1 ''order.created'')
          (CachedEndpoints [copy_endpoint sample_endpoint]) (w_cache u)\<rparr>)"
  by (simp_all add: resolve_partner_def check_schema_def resolve_endpoints_def run_simps Let_def
      cache_get_def fetch_partner_by_public_id_def fetch_latest_active_schema_def
      latest_active_schema_def active_schemas_def validate_payload_def cache_schema_value_def
      fetch_active_outbound_endpoints_def active_outbound_endpoints_def sample_partner_def sample_endpoint_def)

text \<open>With an empty cache and the sample rows in place, the three lookups succeed.\<close>

lemma sample_steps:
  assumes "w_cache w = Map.empty" "db_partners (w_db w) = [sample_partner]"
    "db_payload_schemas (w_db w) = []" "db_endpoints (w_db w) = [sample_endpoint]"
  obtains w1 w2 w3 where "resolve_partner 1 w = (Inr sample_partner, w1)"
    "check_schema e ''order.created'' payload w1 = (Inr (), w2)"
    "resolve_endpoints (p_id sample_partner) ''order.created'' w2 = (Inr [sample_endpoint], w3)"
    "only_cache w w3"
proof -
  have id: "p_id sample_partner = 1" by (simp add: sample_partner_def)
  obtain w1 where 1: "resolve_partner 1 w = (Inr sample_partner, w1)" "w_db w1 = w_db w"
      "w_cache w1 (schema_cache_key ''order.created'') = None"
      "w_cache w1 (endpoints_cache_key 1 ''order.created'') = None"
    using sample_lookups(1) [of w] assms by (simp add: cache_set_def)
  obtain w2 where 2: "check_schema e ''order.created'' payload w1 = (Inr (), w2)" "w_db w2 = w_db w"
      "w_cache w2 (endpoints_cache_key 1 ''order.created'') = None"
    using sample_lookups(2) [of w1 "''order.created''" e payload] 1 assms by (simp add: cache_set_def)
  obtain w3 where 3: "resolve_endpoints (p_id sample_partner) ''order.created'' w2 = (Inr [sample_endpoint], w3)"
    using sample_lookups(3) [of w2] 2 assms id by simp
  have "only_cache w w3" by (rule lookups_only_cache [OF 1(1) 2(1) 3])
  then show ?thesis by (rule that [OF 1(1) 2(1) 3])
qed

lemma sample_accepted:
  "\<exists>w'. enqueue_outbound_for_event mem_env 1 ''order.created'' payload ck ci now sample_world =
     (Inr (OutboundEventAcceptedResponse 1 [1]), w')"
proof -
  obtain w1 w2 w3 where steps: "resolve_partner 1 sample_world = (Inr sample_partner, w1)"
      "check_schema mem_env ''order.created'' payload w1 = (Inr (), w2)"
      "resolve_endpoints (p_id sample_partner) ''order.created'' w2 = (Inr [sample_endpoint], w3)"
      and o: "only_cache sample_world w3"
    by (rule sample_steps [of sample_world mem_env payload]) (simp_all add: sample_defs)
  have w3: "w_db w3 = sample_db" "w_draws w3 = 0" "w_seq_deliveries w3 = 0" "w_seq_outbox w3 = 0"
    using only_cache_fields [OF o] by (simp_all add: sample_world_def initial_world_def)
  show ?thesis
    by (subst enqueue_run [OF steps mem_env_uuid_nonnil])
       (simp add: w3 persisted_def Let_def build_pending_delivery_def constraints_ok_def table_ok_defs
         references_def unique_on_def sample_defs join_envelopes_def outbox_row_def)
qed

text \<open>The same lookups with the partner in the cache, as an earlier request of the process left it.\<close>

definition warm_cache :: cache where
  "warm_cache = cache_set 0 (partner_cache_key 1) (CachedPartner (copy_partner sample_partner)) Map.empty"

lemma warm_steps:
  assumes "w_cache w = warm_cache" "w_monotonic w = 0" "db_payload_schemas (w_db w) = []"
    "db_endpoints (w_db w) = [sample_endpoint]"
  obtains w1 w2 w3 where "resolve_partner 1 w = (Inr (copy_partner sample_partner), w1)"
    "check_schema e ''order.created'' payload w1 = (Inr (), w2)"
    "resolve_endpoints (p_id (copy_partner sample_partner)) ''order.created'' w2 = (Inr [sample_endpoint], w3)"
proof -
  have id: "p_id (copy_partner sample_partner) = 1" by (simp add: sample_partner_def copy_partner_def)
  have 1: "resolve_partner 1 w = (Inr (copy_partner sample_partner), w)"
    using assms(1,2) by (simp add: resolve_partner_def Let_def bindE_run ret_apply read_cache_apply cache_get_def
      warm_cache_def cache_set_def DEFAULT_TTL_def us_per_second_def)
       (simp add: copy_partner_def sample_partner_def ret_apply)
  obtain w2 where 2: "check_schema e ''order.created'' payload w = (Inr (), w2)" "w_db w2 = w_db w"
      "w_cache w2 (endpoints_cache_key 1 ''order.created'') = None"
    using sample_lookups(2) [of w "''order.created''" e payload] assms by (simp add: cache_set_def warm_cache_def)
  have "\<exists>w3. resolve_endpoints (p_id (copy_partner sample_partner)) ''order.created'' w2 = (Inr [sample_endpoint], w3)"
    using sample_lookups(3) [of w2] 2 assms id by simp
  with that 1 2(1) show ?thesis by blast
qed

text \<open>
  C8. Repeating a request stores nothing. If one of the endpoints the event resolves to already has
  a delivery of this partner under the client's key, the call leaves the committed database as it is;
  when the partner came from the accept cache, the answer is "duplicate" with the public ids of all
  deliveries of that client key. When the partner was read from the database, the handler reads its
  identifier after the rollback that expired it, and the call ends with \<open>MissingGreenlet\<close>.
\<close>

theorem enqueue_idempotent:
  assumes "w_db w = w_committed w" and "\<And>n. uuid7 e n \<noteq> 0"
    and "resolve_partner pid w = (Inr p, w1)" and "check_schema e ty payload w1 = (Inr (), w2)"
    and "resolve_endpoints (p_id p) ty w2 = (Inr eps, w3)"
    and "d \<in> set (db_deliveries (w_committed w))" and "d_partner_id d = p_id p"
    and "d_source_event_id d = Some ck"
    and "d_idempotency_key d = derived_idempotency_key ck (ep_id ep)" and "ep \<in> set eps"
  defines "known \<equiv> map d_public_id (filter (\<lambda>d. d_partner_id d = p_id p \<and> d_source_event_id d = Some ck)
                     (db_deliveries (w_committed w)))"
  shows "\<exists>w'. enqueue_outbound_for_event e pid ty payload ck ci now w =
           (if uncached (partner_cache_key pid) w then Inl MissingGreenlet
            else Inr (OutboundEventDuplicateResponse (hd known) known), w') \<and>
         w_committed w' = w_committed w \<and> w_db w' = w_committed w"
proof -
  have o: "only_cache w w3" by (rule lookups_only_cache [OF assms(3-5)])
  define ds where "ds = filter (\<lambda>d. d_partner_id d = p_id p \<and> d_source_event_id d = Some ck)
                     (db_deliveries (w_committed w))"
  define w5 where "w5 = persisted (fan_out e p ty payload ck ci now (w_draws w3) eps)
      (map2 (pending_envelope p ty payload ck ci now) (fan_out e p ty payload ck ci now (w_draws w3) eps) eps)
      (str_uuid (p_public_id p)) OUTBOUND_PENDING_TOPIC (w3\<lparr>w_draws := w_draws w3 + length eps\<rparr>)"
  have bad: "\<not> constraints_ok (w_db w5)"
    unfolding w5_def using assms(1,6-10) o by (intro taken_key_violates [of d]) (auto simp: only_cache_fields)
  have "ds \<noteq> []" using assms(6-8) unfolding ds_def by (metis (mono_tags, lifting) filter_empty_conv)
  moreover have "w_committed w5 = w_committed w" using o by (simp add: w5_def only_cache_fields)
  ultimately have "duplicate_or_conflict pa ea (p_id p) ck eps w5 =
      (if pa then Inl MissingGreenlet else Inr (OutboundEventDuplicateResponse (hd known) known),
       w5\<lparr>w_db := w_committed w\<rparr>)" for pa ea
    using duplicate_found [of "p_id p" ck w5 ds pa ea eps] by (simp add: ds_def known_def)
  with enqueue_run [OF assms(3-5,2), where ck = ck and ci = ci and now = now, folded w5_def] bad \<open>w_committed w5 = w_committed w\<close> show ?thesis by simp
qed

theorem enqueue_idempotent_witness:
  "(\<exists>w'. enqueue_outbound_for_event mem_env 1 ''order.created'' (JObj []) ''k1'' ''c2'' 7
       ((with_delivery (sample_delivery DELIVERED 0))\<lparr>w_cache := warm_cache\<rparr>) =
       (Inr (OutboundEventDuplicateResponse 6 [6]), w') \<and>
     w_committed w' = sample_db\<lparr>db_deliveries := [sample_delivery DELIVERED 0]\<rparr>) \<and>
   (\<exists>w'. enqueue_outbound_for_event mem_env 1 ''order.created'' (JObj []) ''k1'' ''c2'' 7
       (with_delivery (sample_delivery DELIVERED 0)) = (Inl MissingGreenlet, w') \<and>
     w_committed w' = sample_db\<lparr>db_deliveries := [sample_delivery DELIVERED 0]\<rparr>)"
proof (rule conjI)
  let ?w = "with_delivery (sample_delivery DELIVERED 0)"
  let ?v = "?w\<lparr>w_cache := warm_cache\<rparr>"
  have same: "w_db ?w = w_committed ?w" "w_db ?v = w_committed ?v" by (simp_all add: with_delivery_def)
  obtain w1 w2 w3 where steps: "resolve_partner 1 ?v = (Inr (copy_partner sample_partner), w1)"
      "check_schema mem_env ''order.created'' (JObj []) w1 = (Inr (), w2)"
      "resolve_endpoints (p_id (copy_partner sample_partner)) ''order.created'' w2 = (Inr [sample_endpoint], w3)"
    by (rule warm_steps [of ?v mem_env "JObj []"]) (simp_all add: with_delivery_def sample_defs)
  have "\<not> uncached (partner_cache_key 1) ?v"
    by (simp add: uncached_def cache_get_def warm_cache_def cache_set_def DEFAULT_TTL_def us_per_second_def
      with_delivery_def sample_defs)
  then show "\<exists>w'. enqueue_outbound_for_event mem_env 1 ''order.created'' (JObj []) ''k1'' ''c2'' 7 ?v =
       (Inr (OutboundEventDuplicateResponse 6 [6]), w') \<and>
     w_committed w' = sample_db\<lparr>db_deliveries := [sample_delivery DELIVERED 0]\<rparr>"
    using enqueue_idempotent [OF same(2) mem_env_uuid_nonnil steps, of "sample_delivery DELIVERED 0" "''k1''"
        sample_endpoint "''c2''" 7]
    by (auto simp: with_delivery_def sample_partner_def sample_endpoint_def copy_partner_def)
  obtain v1 v2 v3 where steps: "resolve_partner 1 ?w = (Inr sample_partner, v1)"
      "check_schema mem_env ''order.created'' (JObj []) v1 = (Inr (), v2)"
      "resolve_endpoints (p_id sample_partner) ''order.created'' v2 = (Inr [sample_endpoint], v3)"
    by (rule sample_steps [of ?w mem_env "JObj []"]) (simp_all add: with_delivery_def sample_defs)
  have "uncached (partner_cache_key 1) ?w"
    by (simp add: uncached_def cache_get_def with_delivery_def sample_defs)
  then show "\<exists>w'. enqueue_outbound_for_event mem_env 1 ''order.created'' (JObj []) ''k1'' ''c2'' 7 ?w =
       (Inl MissingGreenlet, w') \<and>
     w_committed w' = sample_db\<lparr>db_deliveries := [sample_delivery DELIVERED 0]\<rparr>"
    using enqueue_idempotent [OF same(1) mem_env_uuid_nonnil steps, of "sample_delivery DELIVERED 0" "''k1''"
        sample_endpoint "''c2''" 7]
    by (auto simp: with_delivery_def sample_partner_def sample_endpoint_def)
qed

end
