(* ===== verification/RateLimit.thy ===== *)
theory RateLimit
  imports World
begin

text \<open>
  The per-partner token bucket of \<open>app/domain/services/rate_limit.py\<close>. \<open>allow_request\<close> is the code
  with its Redis commands; \<open>bucket_step\<close> is the abstract token bucket it implements, on exact
  seconds. The refinement lemma relates the two on a Redis that is up; the bound on what a bucket
  admits over a run is proved on the abstract side and carried over.
\<close>

definition tokens_key :: "string \<Rightarrow> string" where
  "tokens_key partner_slug = ''rl:'' @ partner_slug @ '':tokens''"
definition ts_key :: "string \<Rightarrow> string" where
  "ts_key partner_slug = ''rl:'' @ partner_slug @ '':ts''"

text \<open>\<open>float(raw)\<close> of a stored value, and \<open>time.time()\<close>.\<close>

definition float_of :: "rval \<Rightarrow> exn + rat" where
  "float_of raw = (case raw of RNum q \<Rightarrow> Inr q | RText _ \<Rightarrow> Inl (ValueError ''float''))"

definition unix_seconds :: "time \<Rightarrow> rat" where
  "unix_seconds t = of_int t / 1000000"

definition allow_request :: "('r, 'k) env \<Rightarrow> string \<Rightarrow> int \<Rightarrow> ('r, 'k, bool) hub" where
  "allow_request e partner_slug rate_limit_rps =
     (case redis e of
        None \<Rightarrow> ret True
      | Some ops \<Rightarrow>
          if rate_limit_rps \<le> 0 then ret False
          else bindE (gets (\<lambda>w. unix_seconds (w_clock w))) (\<lambda>current_time.
          except_redis
            (bindE (call_redis (\<lambda>t. redis_get ops t (tokens_key partner_slug))) (\<lambda>tokens_raw.
             bindE (call_redis (\<lambda>t. redis_get ops t (ts_key partner_slug))) (\<lambda>ts_raw.
             case (tokens_raw, ts_raw) of
               (Some tr, Some sr) \<Rightarrow>
                 bindE (liftE (float_of tr)) (\<lambda>tokens0.
                 bindE (liftE (float_of sr)) (\<lambda>last_ts.
                 let elapsed = current_time - last_ts;
                     tokens = (if elapsed > 0
                               then min (of_int rate_limit_rps) (tokens0 + elapsed * of_int rate_limit_rps)
                               else tokens0)
                 in if tokens < 1 then
                      seqE (call_redis (\<lambda>t. redis_set ops t (tokens_key partner_slug) (RNum tokens) False None))
                      (seqE (call_redis (\<lambda>t. redis_set ops t (ts_key partner_slug) (RNum current_time) False None))
                      (ret False))
                    else
                      seqE (call_redis (\<lambda>t. redis_set ops t (tokens_key partner_slug) (RNum (tokens - 1)) False None))
                      (seqE (call_redis (\<lambda>t. redis_set ops t (ts_key partner_slug) (RNum current_time) False None))
                      (ret True))))
             | _ \<Rightarrow>
                 seqE (call_redis (\<lambda>t. redis_set ops t (tokens_key partner_slug)
                         (RNum (of_int (rate_limit_rps - 1))) False None))
                 (seqE (call_redis (\<lambda>t. redis_set ops t (ts_key partner_slug) (RNum current_time) False None))
                 (ret True)))))
            (ret True)))"

lemma on_db_allow_request [keep_intros]: "keeps (on_db J) (allow_request e slug rps)"
  unfolding allow_request_def Let_def
  by (cases "redis e") (auto intro!: keep_intros split: option.splits)

section \<open>The abstract bucket\<close>

text \<open>Tokens and the time of the last request, or nothing before the first one.\<close>

definition bucket_step :: "int \<Rightarrow> rat \<Rightarrow> (rat \<times> rat) option \<Rightarrow> bool \<times> (rat \<times> rat) option" where
  "bucket_step rps now b =
     (case b of
        None \<Rightarrow> (True, Some (of_int rps - 1, now))
      | Some (tokens, ts) \<Rightarrow>
          let available = (if now > ts then min (of_int rps) (tokens + (now - ts) * of_int rps) else tokens)
          in if available < 1 then (False, Some (available, now)) else (True, Some (available - 1, now)))"

fun bucket_run :: "int \<Rightarrow> rat list \<Rightarrow> (rat \<times> rat) option \<Rightarrow> bool list" where
  "bucket_run rps [] b = []"
| "bucket_run rps (t # ts) b = (case bucket_step rps t b of (ok, b') \<Rightarrow> ok # bucket_run rps ts b')"

definition admitted :: "bool list \<Rightarrow> nat" where
  "admitted bs = length (filter (\<lambda>b. b) bs)"

lemma admitted_simps [simp]:
  "admitted [] = 0" "admitted (True # bs) = Suc (admitted bs)" "admitted (False # bs) = admitted bs"
  by (simp_all add: admitted_def)

lemma bucket_run_budget:
  assumes "1 \<le> rps"
  shows "0 \<le> tokens \<Longrightarrow> tokens \<le> of_int rps \<Longrightarrow> sorted (ts # calls) \<Longrightarrow>
     of_nat (admitted (bucket_run rps calls (Some (tokens, ts)))) \<le>
       tokens + (last (ts # calls) - ts) * of_int rps"
proof (induction calls arbitrary: tokens ts)
  case Nil
  then show ?case by simp
next
  case (Cons t calls)
  define av where "av = (if t > ts then min (of_int rps) (tokens + (t - ts) * of_int rps) else tokens)"
  have r: "(1 :: rat) \<le> of_int rps" using assms by simp
  have le: "ts \<le> t" "sorted (t # calls)" using Cons.prems by auto
  have grow: "0 \<le> (t - ts) * of_int rps" using le r by (intro mult_nonneg_nonneg) auto
  have av: "0 \<le> av" "av \<le> of_int rps" "av \<le> tokens + (t - ts) * of_int rps"
    using Cons.prems grow r by (auto simp: av_def)
  have step: "bucket_step rps t (Some (tokens, ts)) =
      (if av < 1 then (False, Some (av, t)) else (True, Some (av - 1, t)))"
    by (simp add: bucket_step_def av_def Let_def)
  have last: "(last (ts # t # calls) - ts) * of_int rps =
      (last (t # calls) - t) * of_int rps + (t - ts) * of_int rps"
    by (simp add: algebra_simps)
  show ?case
  proof (cases "av < 1")
    case True
    with Cons.IH [OF av(1,2) le(2)] step last av(3) show ?thesis by simp
  next
    case False
    with Cons.IH [of "av - 1" t] av le(2) step last show ?thesis by simp
  qed
qed

text \<open>A bucket at time \<open>t\<close>: never more tokens than its capacity, and last touched before.\<close>

definition bucket_ok :: "int \<Rightarrow> rat \<Rightarrow> (rat \<times> rat) option \<Rightarrow> bool" where
  "bucket_ok rps t b \<longleftrightarrow> (case b of None \<Rightarrow> True | Some (tokens, ts) \<Rightarrow> 0 \<le> tokens \<and> tokens \<le> of_int rps \<and> ts \<le> t)"

lemma bucket_step_ok:
  assumes "1 \<le> rps" "bucket_ok rps t b"
  obtains ok tokens where "bucket_step rps t b = (ok, Some (tokens, t))" "0 \<le> tokens" "tokens + of_bool ok \<le> of_int rps"
proof (cases b)
  case None
  then show ?thesis using assms that [of True "of_int rps - 1"] by (simp add: bucket_step_def)
next
  case (Some p)
  obtain tokens ts where p: "p = (tokens, ts)" by force
  define av where "av = (if t > ts then min (of_int rps) (tokens + (t - ts) * of_int rps) else tokens)"
  have b: "0 \<le> tokens" "tokens \<le> of_int rps" using assms Some p by (simp_all add: bucket_ok_def)
  have "0 \<le> (t - ts) * of_int rps" if "ts < t" using that assms(1) by (intro mult_nonneg_nonneg) auto
  then have av: "0 \<le> av" "av \<le> of_int rps" using b assms(1) by (auto simp: av_def)
  have "bucket_step rps t b = (if av < 1 then (False, Some (av, t)) else (True, Some (av - 1, t)))"
    by (simp add: Some p bucket_step_def av_def Let_def)
  then show ?thesis using av that [of False av] that [of True "av - 1"] by (cases "av < 1") simp_all
qed

definition bucket_after :: "int \<Rightarrow> rat list \<Rightarrow> (rat \<times> rat) option \<Rightarrow> (rat \<times> rat) option" where
  "bucket_after rps calls b = foldl (\<lambda>b t. snd (bucket_step rps t b)) b calls"

lemma bucket_run_append:
  "bucket_run rps (xs @ ys) b = bucket_run rps xs b @ bucket_run rps ys (bucket_after rps xs b)"
  by (induction xs arbitrary: b) (auto simp: bucket_after_def split: prod.splits)

lemma length_bucket_run [simp]: "length (bucket_run rps calls b) = length calls"
  by (induction calls arbitrary: b) (auto split: prod.splits)

lemma bucket_after_ok:
  "1 \<le> rps \<Longrightarrow> bucket_ok rps t b \<Longrightarrow> sorted (t # calls @ [t']) \<Longrightarrow> bucket_ok rps t' (bucket_after rps calls b)"
proof (induction calls arbitrary: t b)
  case Nil
  then show ?case by (auto simp: bucket_after_def bucket_ok_def split: option.splits)
next
  case (Cons x calls)
  have "bucket_ok rps x b" using Cons.prems by (auto simp: bucket_ok_def split: option.splits)
  then obtain ok tokens where "bucket_step rps x b = (ok, Some (tokens, x))" "0 \<le> tokens" "tokens + of_bool ok \<le> of_int rps"
    by (rule bucket_step_ok [OF Cons.prems(1)])
  moreover from this have "bucket_ok rps x (Some (tokens, x))"
    by (cases ok) (auto simp: bucket_ok_def)
  ultimately show ?case using Cons.IH [of x "Some (tokens, x)"] Cons.prems by (simp add: bucket_after_def)
qed

text \<open>From any such bucket: the capacity, and the rate for the time that passes.\<close>

lemma bucket_window:
  assumes "1 \<le> rps" "bucket_ok rps t b" "sorted (t # calls)"
  shows "of_nat (admitted (bucket_run rps (t # calls) b)) \<le> of_int rps * (1 + (last (t # calls) - t))"
proof -
  obtain ok tokens where s: "bucket_step rps t b = (ok, Some (tokens, t))" "0 \<le> tokens" "tokens + of_bool ok \<le> of_int rps"
    using assms(1,2) by (rule bucket_step_ok)
  then have "of_nat (admitted (bucket_run rps calls (Some (tokens, t)))) \<le> tokens + (last (t # calls) - t) * of_int rps"
    using assms(1,3) by (intro bucket_run_budget) (cases ok; simp)+
  with s show ?thesis by (cases ok) (simp_all add: algebra_simps)
qed

text \<open>After a pause of one token's worth a request is admitted again.\<close>

lemma bucket_refills:
  assumes "1 \<le> rps" "0 \<le> tokens" "1 \<le> (now - ts) * of_int rps"
  shows "fst (bucket_step rps now (Some (tokens, ts)))"
proof -
  have "ts < now"
  proof (rule ccontr)
    assume "\<not> ts < now"
    then have "(now - ts) * of_int rps \<le> 0" using assms(1) by (intro mult_nonpos_nonneg) auto
    with assms(3) show False by simp
  qed
  then show ?thesis using assms by (auto simp: bucket_step_def Let_def)
qed

section \<open>Refinement\<close>

lemma rate_keys_differ [simp]: "tokens_key a \<noteq> ts_key a" "ts_key a \<noteq> tokens_key a"
  by (simp_all add: tokens_key_def ts_key_def)

context redis_up
begin

text \<open>The keys hold bucket \<open>b\<close> from time \<open>t\<close> on.\<close>

definition holds_bucket :: "string \<Rightarrow> time \<Rightarrow> (rat \<times> rat) option \<Rightarrow> ('r, 'k) world \<Rightarrow> bool" where
  "holds_bucket slug t b w \<longleftrightarrow> (\<forall>t' \<ge> t.
     (case b of
        None \<Rightarrow> view (w_redis w) t' (tokens_key slug) = None
      | Some (tokens, ts) \<Rightarrow> view (w_redis w) t' (tokens_key slug) = Some (RNum tokens) \<and>
          view (w_redis w) t' (ts_key slug) = Some (RNum ts)))"

lemma allow_request_refines:
  assumes "redis e = Some ops" "1 \<le> rps" "holds_bucket slug t b w" "t \<le> w_clock w"
    and step: "bucket_step rps (unix_seconds (w_clock w)) b = (ok, b')"
  shows "\<exists>r. allow_request e slug rps w = (Inr ok, w\<lparr>w_redis := r\<rparr>) \<and>
             holds_bucket slug (w_clock w) b' (w\<lparr>w_redis := r\<rparr>)"
proof (cases b)
  case None
  with assms show ?thesis
    by (auto simp: allow_request_def holds_bucket_def bucket_step_def run_simps call_get call_set
        redis_view seen_def live_def split: option.splits)
next
  case (Some p)
  obtain tokens ts where "p = (tokens, ts)" by force
  with Some assms show ?thesis
    by (auto simp: allow_request_def holds_bucket_def bucket_step_def run_simps call_get call_set
        redis_view seen_def live_def float_of_def Let_def split: if_splits)
qed

lemma allow_requests_refine:
  assumes "redis e = Some ops" "1 \<le> rps"
  shows "holds_bucket slug t b w \<Longrightarrow> sorted (t # calls) \<Longrightarrow>
     \<exists>w'. mapE (\<lambda>x. at_time x (allow_request e slug rps)) calls w =
        (Inr (bucket_run rps (map unix_seconds calls) b), w')"
proof (induction calls arbitrary: t b w)
  case Nil
  then show ?case by (simp add: run_simps)
next
  case (Cons x calls)
  obtain ok b' where st: "bucket_step rps (unix_seconds x) b = (ok, b')" by force
  have h: "holds_bucket slug x b (w\<lparr>w_clock := x\<rparr>)"
    using Cons.prems by (auto simp: holds_bucket_def split: option.splits)
  obtain w1 where w1: "at_time x (allow_request e slug rps) w = (Inr ok, w1)" "holds_bucket slug x b' w1"
    using allow_request_refines [OF assms h, of ok b'] st by (auto simp: at_time_def)
  with Cons.IH [OF w1(2)] Cons.prems st show ?case by (auto simp: run_simps)
qed

end

section \<open>Properties\<close>

lemma sorted_unix_seconds: "sorted calls \<Longrightarrow> sorted (map unix_seconds calls)"
  by (auto simp: unix_seconds_def sorted_map divide_right_mono intro!: sorted_wrt_mono_rel [of _ "(\<le>)"])

text \<open>
  C26. The limiter is a token bucket of capacity \<open>rate_limit_rps\<close>: for a partner's requests at times in
  order, on a Redis that is up and held no bucket before the first of them, the answers are those of the
  reference bucket, and in every window of the run, whatever came before it and however long the partner
  was idle, the number of admitted requests is at most the burst plus the rate times the length of the window.
\<close>

theorem rate_limit_budget:
  assumes "redis_up ops view" and "redis e = Some ops" and "1 \<le> rps" and "sorted (earlier @ t0 # calls)"
    and "\<forall>t. view (w_redis w) t (tokens_key slug) = None"
  shows "\<exists>allowed w'. mapE (\<lambda>x. at_time x (allow_request e slug rps)) (earlier @ t0 # calls) w = (Inr allowed, w') \<and>
           allowed = bucket_run rps (map unix_seconds (earlier @ t0 # calls)) None \<and>
           of_nat (admitted (drop (length earlier) allowed)) \<le>
             of_int rps * (1 + (unix_seconds (last (t0 # calls)) - unix_seconds t0))"
proof -
  note up = assms(1)
  let ?u = "map unix_seconds"
  define first where "first = hd (earlier @ [t0])"
  have srt: "sorted (first # earlier @ t0 # calls)" using assms(4) by (cases earlier) (auto simp: first_def)
  have "redis_up.holds_bucket view slug first None w"
    using assms(5) by (simp add: redis_up.holds_bucket_def [OF up])
  then obtain w' where run: "mapE (\<lambda>x. at_time x (allow_request e slug rps)) (earlier @ t0 # calls) w =
      (Inr (bucket_run rps (?u (earlier @ t0 # calls)) None), w')"
    using redis_up.allow_requests_refine [OF up assms(2,3)] srt by blast
  have "sorted (?u (first # earlier @ [t0]))" "sorted (?u (t0 # calls))"
    using srt by (intro sorted_unix_seconds; auto simp: sorted_append)+
  then have "bucket_ok rps (unix_seconds t0) (bucket_after rps (?u earlier) None)" "sorted (unix_seconds t0 # ?u calls)"
    using bucket_after_ok [OF assms(3), of "unix_seconds first" None "?u earlier"] by (simp_all add: bucket_ok_def)
  note window = bucket_window [OF assms(3) this]
  have "last (unix_seconds t0 # ?u calls) = unix_seconds (last (t0 # calls))"
    by (metis last_map list.simps(9) list.distinct(1))
  with run window show ?thesis
    by (simp only: bucket_run_append map_append list.simps(9) drop_append length_bucket_run length_map) simp
qed

text \<open>Two requests a second: after an idle minute a burst of three still lets only two through.\<close>

theorem rate_limit_budget_witness:
  "\<exists>allowed w'. mapE (\<lambda>x. at_time x (allow_request mem_env ''acme'' 2)) [0, 60000000, 60000000, 60000000]
        (initial_world (\<lambda>_. None) []) = (Inr allowed, w') \<and>
     allowed = [True, True, True, False] \<and> admitted (drop 1 allowed) \<le> 2"
proof -
  let ?w = "initial_world (\<lambda>_. None) [] :: (mem_redis, message list) world"
  have "bucket_run 2 (map unix_seconds ([0] @ 60000000 # [60000000, 60000000])) None = [True, True, True, False]"
    by (simp add: bucket_step_def unix_seconds_def us_per_second_def Let_def)
  with rate_limit_budget [OF memup.redis_up_axioms, of mem_env 2 "[0]" 60000000 "[60000000, 60000000]" ?w "''acme''"]
  show ?thesis by (auto simp: initial_world_def mem_view_def admitted_def)
qed

text \<open>
  The limiter never starves a partner and fails open: with a bucket in Redis, a request
  that comes one token's worth of time after the previous one is admitted; without Redis every
  request is admitted; a limit of zero or less admits nothing while Redis is configured; and no
  \<open>RedisError\<close> leaves the limiter.
\<close>

lemma rate_limit_admits:
  "fst (allow_request e slug rps w) \<noteq> Inl RedisError \<and>
   (redis e = None \<longrightarrow> fst (allow_request e slug rps w) = Inr True) \<and>
   (redis e \<noteq> None \<and> rps \<le> 0 \<longrightarrow> fst (allow_request e slug rps w) = Inr False) \<and>
   (\<forall>ops view tokens ts. redis_up ops view \<and> redis e = Some ops \<and> 1 \<le> rps \<and>
      (\<forall>t \<ge> w_clock w. view (w_redis w) t (tokens_key slug) = Some (RNum tokens) \<and>
                      view (w_redis w) t (ts_key slug) = Some (RNum ts)) \<and>
      0 \<le> tokens \<and> 1 \<le> (unix_seconds (w_clock w) - ts) * of_int rps \<longrightarrow>
      fst (allow_request e slug rps w) = Inr True)"
proof (intro conjI allI impI)
  show "fst (allow_request e slug rps w) \<noteq> Inl RedisError"
    by (simp add: allow_request_def bindE_simps(3) ret_apply split: option.split)
  show "fst (allow_request e slug rps w) = Inr True" if "redis e = None"
    using that by (simp add: allow_request_def run_simps)
  show "fst (allow_request e slug rps w) = Inr False" if "redis e \<noteq> None \<and> rps \<le> 0"
    using that by (auto simp: allow_request_def run_simps)
  fix ops view tokens ts
  assume a: "redis_up ops view \<and> redis e = Some ops \<and> 1 \<le> rps \<and>
      (\<forall>t \<ge> w_clock w. view (w_redis w) t (tokens_key slug) = Some (RNum tokens) \<and>
                      view (w_redis w) t (ts_key slug) = Some (RNum ts)) \<and>
      0 \<le> tokens \<and> 1 \<le> (unix_seconds (w_clock w) - ts) * of_int rps"
  then have up: "redis_up ops view" and e: "redis e = Some ops" "1 \<le> rps" by auto
  obtain b' where "bucket_step rps (unix_seconds (w_clock w)) (Some (tokens, ts)) = (True, b')"
    using bucket_refills [of rps tokens "unix_seconds (w_clock w)" ts] a by (metis prod.collapse)
  moreover have "redis_up.holds_bucket view slug (w_clock w) (Some (tokens, ts)) w"
    using a by (simp add: redis_up.holds_bucket_def [OF up])
  ultimately show "fst (allow_request e slug rps w) = Inr True"
    using redis_up.allow_request_refines [OF up e] by fastforce
qed

lemma rate_limit_admits_witness:
  "fst (allow_request mem_env ''acme'' 2 ((initial_world ((\<lambda>_. None)
      (tokens_key ''acme'' := Some (RNum 0, None), ts_key ''acme'' := Some (RNum 0, None))) [])
      \<lparr>w_clock := 500000\<rparr>)) = Inr True"
proof -
  let ?w = "(initial_world ((\<lambda>_. None) (tokens_key ''acme'' := Some (RNum 0, None),
      ts_key ''acme'' := Some (RNum 0, None))) [])\<lparr>w_clock := 500000\<rparr> :: (mem_redis, message list) world"
  have "redis_up mem_redis_ops mem_view \<and> redis mem_env = Some mem_redis_ops \<and> (1 :: int) \<le> 2 \<and>
      (\<forall>t \<ge> w_clock ?w. mem_view (w_redis ?w) t (tokens_key ''acme'') = Some (RNum 0) \<and>
                       mem_view (w_redis ?w) t (ts_key ''acme'') = Some (RNum 0)) \<and>
      (0 :: rat) \<le> 0 \<and> 1 \<le> (unix_seconds (w_clock ?w) - 0) * of_int 2"
    using memup.redis_up_axioms by (simp add: initial_world_def mem_view_def unix_seconds_def)
  then show ?thesis using rate_limit_admits [of mem_env "''acme''" 2 ?w] by blast
qed

end
