(* ===== verification/Replay.thy ===== *)
theory Replay
  imports OutboundProcessor RateLimit
begin

text \<open>
  Replay of failed deliveries: one delivery and a bulk request (\<open>replay_service.py\<close>), replay with
  approval (\<open>replay_approval_service.py\<close>), and the scheduled task (\<open>celery_app/tasks/replay.py\<close>). The
  lemmas give the exact effect of a replay and show that a bulk request sorts every identifier into
  exactly one category and that an approval is decided at most once.
\<close>

section \<open>One delivery\<close>

definition fetch_delivery_with_partner :: "uuid \<Rightarrow> ('r, 'k, (delivery \<times> partner) option) hub" where
  "fetch_delivery_with_partner delivery_public_id =
     bindE (gets (\<lambda>w. concat (map (\<lambda>d. map (\<lambda>p. (d, p))
              (filter (\<lambda>p. d_partner_id d = p_id p) (db_partners (w_db w))))
              (filter (\<lambda>d. d_public_id d = delivery_public_id) (db_deliveries (w_db w)))))) one_or_none"

definition record_invalid_replay :: "string option \<Rightarrow> ('r, 'k, unit) hub" where
  "record_invalid_replay partner_slug =
     record_delivery_metric ''hub_invalid_transition_total''
       (case partner_slug of None \<Rightarrow> [] | Some s \<Rightarrow> [(''partner_slug'', s)]) 1"

definition next_kafka_attempt :: "int \<Rightarrow> bool \<Rightarrow> int" where
  "next_kafka_attempt attempt_count reset_attempt_counter =
     (if reset_attempt_counter then 1 else max (attempt_count + 1) 1)"

text \<open>\<open>session.refresh(delivery)\<close>: the stored row of the object.\<close>

definition refresh_delivery :: "delivery \<Rightarrow> ('r, 'k, delivery) hub" where
  "refresh_delivery d = gets (\<lambda>w. case find (\<lambda>r. d_id r = d_id d) (db_deliveries (w_db w)) of
     None \<Rightarrow> d | Some r \<Rightarrow> r)"

definition replay_delivery ::
  "('r, 'k) env \<Rightarrow> uuid \<Rightarrow> string \<Rightarrow> string \<Rightarrow> bool \<Rightarrow> string \<Rightarrow> ('r, 'k, delivery) hub" where
  "replay_delivery e delivery_public_id actor_id reason reset_attempt_counter trigger =
     bindE (fetch_delivery_with_partner delivery_public_id) (\<lambda>row.
     case row of
       None \<Rightarrow> throw (HubExn DeliveryNotFoundError)
     | Some (d, p) \<Rightarrow>
         if d_status d \<noteq> FAILED then
           seqE (record_invalid_replay (Some (p_slug p)))
                (throw (HubExn (DeliveryNotReplayableError (delivery_status_value (d_status d)))))
         else
           bindE (transition (Some (\<lambda>_ _. record_invalid_replay (Some (p_slug p)))) (d_status d) REPLAYING) (\<lambda>st.
           let d1 = d\<lparr>d_status := st,
                      d_attempt_count := if reset_attempt_counter then 0 else d_attempt_count d\<rparr>;
               kafka_attempt = next_kafka_attempt (d_attempt_count d1) reset_attempt_counter in
           seqE (save_delivery d1)
           (seqE (add_audit_log e actor_id ''delivery.replay'' ''delivery'' (d_public_id d1)
                    [(''reason'', JStr reason), (''trigger'', JStr trigger)])
           (bindE utcnow (\<lambda>scheduled_at.
            let envelope = build_outbound_pending_envelope (d_public_id d1) (p_public_id p) (d_endpoint_id d1)
                  (d_event_type d1) (d_payload d1) (d_idempotency_key d1) (d_correlation_id d1)
                  scheduled_at (d_sla_deadline_at d1) kafka_attempt in
            seqE (enqueue_outbox ''delivery'' (d_id d1) OUTBOUND_PENDING_TOPIC envelope (str_uuid (p_public_id p)))
            (seqE commit
            (bindE (refresh_delivery d1) (\<lambda>refreshed.
             seqE (record_delivery_metric ''hub_replay_total''
                     [(''trigger'', trigger), (''partner_slug'', p_slug p)] 1)
             (ret refreshed)))))))))"

section \<open>Bulk replay\<close>

record BulkReplayResult =
  br_requested :: "uuid list"
  br_replayed :: "uuid list"
  br_skipped_open_circuit :: "uuid list"
  br_skipped_rate_limited :: "uuid list"
  br_skipped_invalid_status :: "uuid list"
  br_not_found :: "uuid list"

definition bulk_replay_init :: "uuid list \<Rightarrow> BulkReplayResult" where
  "bulk_replay_init requested = \<lparr>br_requested = requested, br_replayed = [], br_skipped_open_circuit = [],
     br_skipped_rate_limited = [], br_skipped_invalid_status = [], br_not_found = []\<rparr>"

definition bulk_replay_one ::
  "('r, 'k) env \<Rightarrow> string \<Rightarrow> string \<Rightarrow> settings \<Rightarrow> uuid \<Rightarrow> BulkReplayResult \<Rightarrow> ('r, 'k, BulkReplayResult) hub" where
  "bulk_replay_one e actor_id reason stg u result =
     bindE (fetch_delivery_with_partner u) (\<lambda>row.
     case row of
       None \<Rightarrow> ret (result\<lparr>br_not_found := br_not_found result @ [u]\<rparr>)
     | Some (d, p) \<Rightarrow>
         if d_status d \<noteq> FAILED then
           ret (result\<lparr>br_skipped_invalid_status := br_skipped_invalid_status result @ [u]\<rparr>)
         else bindE (is_open e (p_slug p) stg) (\<lambda>opened.
         if opened then ret (result\<lparr>br_skipped_open_circuit := br_skipped_open_circuit result @ [u]\<rparr>)
         else bindE (allow_request e (p_slug p) (p_rate_limit_rps p)) (\<lambda>allowed.
         if \<not> allowed then ret (result\<lparr>br_skipped_rate_limited := br_skipped_rate_limited result @ [u]\<rparr>)
         else seqE (replay_delivery e u actor_id reason False ''manual'')
              (ret (result\<lparr>br_replayed := br_replayed result @ [u]\<rparr>)))))"

primrec bulk_replay_loop ::
  "('r, 'k) env \<Rightarrow> string \<Rightarrow> string \<Rightarrow> settings \<Rightarrow> uuid list \<Rightarrow> BulkReplayResult \<Rightarrow> ('r, 'k, BulkReplayResult) hub" where
  "bulk_replay_loop e actor_id reason stg [] result = ret result"
| "bulk_replay_loop e actor_id reason stg (u # us) result =
     bindE (bulk_replay_one e actor_id reason stg u result) (bulk_replay_loop e actor_id reason stg us)"

definition bulk_replay_deliveries ::
  "('r, 'k) env \<Rightarrow> uuid list \<Rightarrow> string \<Rightarrow> string \<Rightarrow> settings \<Rightarrow> ('r, 'k, BulkReplayResult) hub" where
  "bulk_replay_deliveries e delivery_public_ids actor_id reason stg =
     bulk_replay_loop e actor_id reason stg delivery_public_ids (bulk_replay_init delivery_public_ids)"

section \<open>Replay with approval\<close>

definition fetch_replay_approval_with_delivery ::
  "uuid \<Rightarrow> ('r, 'k, (replay_approval \<times> delivery \<times> partner) option) hub" where
  "fetch_replay_approval_with_delivery approval_id =
     bindE (gets (\<lambda>w. concat (map (\<lambda>a. concat (map (\<lambda>d. map (\<lambda>p. (a, d, p))
              (filter (\<lambda>p. d_partner_id d = p_id p) (db_partners (w_db w))))
              (filter (\<lambda>d. ra_delivery_id a = d_id d) (db_deliveries (w_db w)))))
              (filter (\<lambda>a. ra_id a = approval_id) (db_replay_approvals (w_db w)))))) one_or_none"

definition create_replay_approval ::
  "('r, 'k) env \<Rightarrow> uuid \<Rightarrow> string \<Rightarrow> string \<Rightarrow> ('r, 'k, replay_approval) hub" where
  "create_replay_approval e delivery_public_id actor_id reason =
     bindE (fetch_delivery_with_partner delivery_public_id) (\<lambda>row.
     case row of
       None \<Rightarrow> throw (HubExn DeliveryNotFoundError)
     | Some (d, p) \<Rightarrow>
         if d_status d \<noteq> FAILED then
           throw (HubExn (DeliveryNotReplayableError (delivery_status_value (d_status d))))
         else
           bindE (generate_uuidv7 e) (\<lambda>u. bindE utcnow (\<lambda>stamp.
           let approval = \<lparr>ra_id = u, ra_delivery_id = d_id d, ra_reason = reason, ra_requested_by = actor_id,
                 ra_approved_by = None, ra_status = ReplayApprovalStatus.PENDING,
                 ra_created_at = stamp, ra_updated_at = stamp\<rparr> in
           seqE (update_db (\<lambda>db. db\<lparr>db_replay_approvals := db_replay_approvals db @ [approval]\<rparr>))
           (seqE commit (ret approval)))))"

text \<open>The decision both endings store: status, actor, and the audit entry.\<close>

definition decide_approval ::
  "('r, 'k) env \<Rightarrow> replay_approval \<Rightarrow> delivery \<Rightarrow> ReplayApprovalStatus \<Rightarrow> string \<Rightarrow> string \<Rightarrow> string \<Rightarrow>
   ('r, 'k, replay_approval) hub" where
  "decide_approval e approval d verdict actor_id action reason =
     bindE utcnow (\<lambda>stamp.
     let decided = approval\<lparr>ra_status := verdict, ra_approved_by := Some actor_id, ra_updated_at := stamp\<rparr> in
     seqE (update_db (\<lambda>db. db\<lparr>db_replay_approvals := put_row ra_id decided (db_replay_approvals db)\<rparr>))
     (seqE (add_audit_log e actor_id action ''delivery'' (d_public_id d)
              [(''approval_id'', JStr (str_uuid (ra_id approval))), (''reason'', JStr reason)])
     (seqE commit (ret decided))))"

definition approve_replay_approval :: "('r, 'k) env \<Rightarrow> uuid \<Rightarrow> string \<Rightarrow> ('r, 'k, delivery) hub" where
  "approve_replay_approval e approval_id actor_id =
     bindE (fetch_replay_approval_with_delivery approval_id) (\<lambda>row.
     case row of
       None \<Rightarrow> throw (HubExn ReplayApprovalNotFoundError)
     | Some (approval, d, p) \<Rightarrow>
         if ra_status approval \<noteq> ReplayApprovalStatus.PENDING then
           throw (HubExn (ReplayApprovalNotPendingError (replay_approval_status_value (ra_status approval))))
         else
           bindE (replay_delivery e (d_public_id d) actor_id (ra_reason approval) False ''manual'') (\<lambda>replayed.
           seqE (decide_approval e approval d APPROVED actor_id ''replay.approve'' (ra_reason approval))
           (ret replayed)))"

definition reject_replay_approval :: "('r, 'k) env \<Rightarrow> uuid \<Rightarrow> string \<Rightarrow> string \<Rightarrow> ('r, 'k, replay_approval) hub" where
  "reject_replay_approval e approval_id actor_id reason =
     bindE (fetch_replay_approval_with_delivery approval_id) (\<lambda>row.
     case row of
       None \<Rightarrow> throw (HubExn ReplayApprovalNotFoundError)
     | Some (approval, d, p) \<Rightarrow>
         if ra_status approval \<noteq> ReplayApprovalStatus.PENDING then
           throw (HubExn (ReplayApprovalNotPendingError (replay_approval_status_value (ra_status approval))))
         else decide_approval e approval d REJECTED actor_id ''replay.reject'' reason)"

section \<open>The scheduled task\<close>

definition STALE_REPLAY_ACTOR :: string where "STALE_REPLAY_ACTOR = ''celery-beat''"
definition STALE_REPLAY_REASON :: string where "STALE_REPLAY_REASON = ''scheduled stale failed replay''"
definition STALE_AGE :: time where "STALE_AGE = 3600 * us_per_second"
definition MAX_PER_TICK :: nat where "MAX_PER_TICK = 100"

record StaleReplayResult =
  sr_replayed :: nat
  sr_skipped_open_circuit :: nat
  sr_skipped_rate_limited :: nat
  sr_skipped_auto_replay_disabled :: nat

text \<open>\<open>updated_at <= cutoff\<close>: a row without the stamp does not satisfy it.\<close>

definition stale_failed :: "time \<Rightarrow> delivery \<Rightarrow> bool" where
  "stale_failed cutoff d \<longleftrightarrow> d_status d = FAILED \<and>
     (case d_updated_at d of None \<Rightarrow> False | Some t \<Rightarrow> t \<le> cutoff)"

definition fetch_stale_failed_deliveries :: "time \<Rightarrow> nat \<Rightarrow> ('r, 'k, (delivery \<times> partner) list) hub" where
  "fetch_stale_failed_deliveries now limit =
     gets (\<lambda>w. take limit (sort_key (\<lambda>(d, p). case d_updated_at d of None \<Rightarrow> 0 | Some t \<Rightarrow> t)
       (concat (map (\<lambda>d. map (\<lambda>p. (d, p))
          (filter (\<lambda>p. d_partner_id d = p_id p \<and> p_auto_replay_enabled p) (db_partners (w_db w))))
          (filter (stale_failed (now - STALE_AGE)) (db_deliveries (w_db w)))))))"

definition stale_replay_one ::
  "('r, 'k) env \<Rightarrow> settings \<Rightarrow> delivery \<times> partner \<Rightarrow> StaleReplayResult \<Rightarrow> ('r, 'k, StaleReplayResult) hub" where
  "stale_replay_one e stg row result =
     (case row of (d, p) \<Rightarrow>
       if \<not> p_auto_replay_enabled p then
         ret (result\<lparr>sr_skipped_auto_replay_disabled := sr_skipped_auto_replay_disabled result + 1\<rparr>)
       else bindE (get_circuit_state e (p_slug p) stg) (\<lambda>circuit.
       if circuit \<noteq> CLOSED then
         ret (result\<lparr>sr_skipped_open_circuit := sr_skipped_open_circuit result + 1\<rparr>)
       else bindE (allow_request e (p_slug p) (p_rate_limit_rps p)) (\<lambda>allowed.
       if \<not> allowed then
         ret (result\<lparr>sr_skipped_rate_limited := sr_skipped_rate_limited result + 1\<rparr>)
       else seqE (replay_delivery e (d_public_id d) STALE_REPLAY_ACTOR STALE_REPLAY_REASON False ''scheduled'')
            (ret (result\<lparr>sr_replayed := sr_replayed result + 1\<rparr>)))))"

primrec stale_replay_loop ::
  "('r, 'k) env \<Rightarrow> settings \<Rightarrow> (delivery \<times> partner) list \<Rightarrow> StaleReplayResult \<Rightarrow> ('r, 'k, StaleReplayResult) hub" where
  "stale_replay_loop e stg [] result = ret result"
| "stale_replay_loop e stg (row # rows) result =
     bindE (stale_replay_one e stg row result) (stale_replay_loop e stg rows)"

definition replay_stale_failed_deliveries ::
  "('r, 'k) env \<Rightarrow> settings \<Rightarrow> time option \<Rightarrow> ('r, 'k, StaleReplayResult) hub" where
  "replay_stale_failed_deliveries e stg now =
     bindE (case now of Some t \<Rightarrow> ret t | None \<Rightarrow> utcnow) (\<lambda>current_time.
     bindE (fetch_stale_failed_deliveries current_time MAX_PER_TICK) (\<lambda>rows.
     stale_replay_loop e stg rows \<lparr>sr_replayed = 0, sr_skipped_open_circuit = 0,
       sr_skipped_rate_limited = 0, sr_skipped_auto_replay_disabled = 0\<rparr>))"

definition replay_stale_failed :: "('r, 'k) env \<Rightarrow> settings \<Rightarrow> ('r, 'k, StaleReplayResult) hub" where
  "replay_stale_failed e stg = with_session (replay_stale_failed_deliveries e stg None)"

section \<open>The effect of a replay\<close>

lemma one_or_none_run [run_simps]:
  "one_or_none rows w = (case rows of [] \<Rightarrow> (Inr None, w) | [x] \<Rightarrow> (Inr (Some x), w) | _ \<Rightarrow> (Inl MultipleResultsFound, w))"
  by (auto simp: one_or_none_def ret_apply throw_apply split: list.splits)

lemma fetch_delivery_state: "snd (fetch_delivery_with_partner u w) = w"
  by (auto simp: fetch_delivery_with_partner_def run_simps split: list.splits)

lemma fetch_delivery_found:
  assumes "fst (fetch_delivery_with_partner u w) = Inr (Some (d, p))"
  shows "d \<in> set (db_deliveries (w_db w)) \<and> d_public_id d = u \<and> p \<in> set (db_partners (w_db w)) \<and> p_id p = d_partner_id d"
proof -
  let ?rows = "concat (map (\<lambda>d. map (\<lambda>p. (d, p)) (filter (\<lambda>p. d_partner_id d = p_id p) (db_partners (w_db w))))
     (filter (\<lambda>d. d_public_id d = u) (db_deliveries (w_db w))))"
  have "?rows = [(d, p)]"
    using assms by (auto simp: fetch_delivery_with_partner_def run_simps split: list.splits)
  then have "(d, p) \<in> set ?rows" by simp
  then show ?thesis by auto
qed

text \<open>The row, the audit entry, the message and the database a replay leaves.\<close>

definition replayed_row :: "delivery \<Rightarrow> bool \<Rightarrow> time \<Rightarrow> delivery" where
  "replayed_row d reset stamp = d\<lparr>d_status := REPLAYING,
     d_attempt_count := if reset then 0 else d_attempt_count d, d_updated_at := Some stamp\<rparr>"

definition replay_envelope :: "delivery \<Rightarrow> partner \<Rightarrow> bool \<Rightarrow> time \<Rightarrow> json" where
  "replay_envelope d p reset stamp =
     build_outbound_pending_envelope (d_public_id d) (p_public_id p) (d_endpoint_id d) (d_event_type d)
       (d_payload d) (d_idempotency_key d) (d_correlation_id d) stamp (d_sla_deadline_at d)
       (next_kafka_attempt (if reset then 0 else d_attempt_count d) reset)"

definition replay_log :: "uuid \<Rightarrow> string \<Rightarrow> delivery \<Rightarrow> string \<Rightarrow> string \<Rightarrow> time \<Rightarrow> audit_log" where
  "replay_log u actor_id d reason trigger stamp =
     \<lparr>al_id = u, al_actor_id = actor_id, al_action = ''delivery.replay'', al_resource_type = ''delivery'',
      al_resource_id = d_public_id d,
      al_metadata = [(''reason'', JStr reason), (''trigger'', JStr trigger)], al_created_at = stamp\<rparr>"

definition replay_database ::
  "('r, 'k) env \<Rightarrow> delivery \<Rightarrow> partner \<Rightarrow> string \<Rightarrow> string \<Rightarrow> bool \<Rightarrow> string \<Rightarrow> ('r, 'k) world \<Rightarrow> database" where
  "replay_database e d p actor_id reason reset trigger w =
     (w_db w)\<lparr>db_deliveries := put_row d_id (replayed_row d reset (w_clock w)) (db_deliveries (w_db w)),
       db_audit_logs := db_audit_logs (w_db w) @
         [replay_log (uuid7 e (w_draws w)) actor_id d reason trigger (w_clock w)],
       db_outbox := db_outbox (w_db w) @
         [outbox_row (w_seq_outbox w + 1) (w_clock w) ''delivery'' (d_id d) OUTBOUND_PENDING_TOPIC
            (str_uuid (p_public_id p)) (replay_envelope d p reset (w_clock w))]\<rparr>"

lemma replay_metric: "record_delivery_metric ''hub_replay_total'' [(''trigger'', t), (''partner_slug'', s)] 1 w =
   (Inr (), w\<lparr>w_metrics := w_metrics w @ [Counter ''hub_replay_total'' 1 [(''trigger'', t), (''partner_slug'', s)]]\<rparr>)"
  by (simp add: record_delivery_metric_def run_simps validate_metric_attributes_def FORBIDDEN_METRIC_ATTRIBUTES_def)

lemma invalid_replay_metric: "\<exists>ms. record_invalid_replay s w = (Inr (), w\<lparr>w_metrics := w_metrics w @ ms\<rparr>)"
  by (cases s) (auto simp: record_invalid_replay_def record_delivery_metric_def run_simps
      validate_metric_attributes_def FORBIDDEN_METRIC_ATTRIBUTES_def)

lemma find_put_row: "a \<in> set rows \<Longrightarrow> key a = key r \<Longrightarrow> find (\<lambda>x. key x = key r) (put_row key r rows) = Some r"
  by (induction rows) (auto simp: put_row_def)

lemma replay_failed_run:
  assumes "fst (fetch_delivery_with_partner u w) = Inr (Some (d, p))" and "d_status d = FAILED"
  shows "\<exists>w'. replay_delivery e u actor reason reset trigger w =
      (if constraints_ok (replay_database e d p actor reason reset trigger w)
       then Inr (replayed_row d reset (w_clock w)) else Inl IntegrityError, w') \<and>
     w_db w' = replay_database e d p actor reason reset trigger w \<and>
     w_committed w' = (if constraints_ok (replay_database e d p actor reason reset trigger w)
       then replay_database e d p actor reason reset trigger w else w_committed w) \<and>
     w_clock w' = w_clock w \<and> w_draws w' = Suc (w_draws w) \<and> w_seq_outbox w' = w_seq_outbox w + 1"
proof -
  have f: "fetch_delivery_with_partner u w = (Inr (Some (d, p)), w)"
    using assms(1) fetch_delivery_state [of u w] by (metis prod.collapse)
  have t: "transition h FAILED REPLAYING = ret REPLAYING" for h by (simp add: transition_ok)
  let ?d = "d\<lparr>d_status := REPLAYING, d_attempt_count := if reset then 0 else d_attempt_count d\<rparr>"
  have db: "(w_db w)\<lparr>db_deliveries := put_row d_id (?d\<lparr>d_updated_at := Some (w_clock w)\<rparr>) (db_deliveries (w_db w)),
      db_audit_logs := db_audit_logs (w_db w) @
         [\<lparr>al_id = uuid7 e (w_draws w), al_actor_id = actor, al_action = ''delivery.replay'', al_resource_type = ''delivery'',
      al_resource_id = d_public_id d,
      al_metadata = [(''reason'', JStr reason), (''trigger'', JStr trigger)], al_created_at = w_clock w\<rparr>],
      db_outbox := db_outbox (w_db w) @
         [outbox_row (w_seq_outbox w + 1) (w_clock w) ''delivery'' (d_id d) OUTBOUND_PENDING_TOPIC
            (str_uuid (p_public_id p)) (build_outbound_pending_envelope (d_public_id d) (p_public_id p) (d_endpoint_id d) (d_event_type d)
       (d_payload d) (d_idempotency_key d) (d_correlation_id d) (w_clock w) (d_sla_deadline_at d)
       (next_kafka_attempt (if reset then 0 else d_attempt_count d) reset))]\<rparr> =
     replay_database e d p actor reason reset trigger w" (is "?db = ?rdb")
    by (simp add: replay_database_def replayed_row_def replay_log_def replay_envelope_def)
  have fnd: "find (\<lambda>r. d_id r = d_id d) (db_deliveries ?rdb) = Some (replayed_row d reset (w_clock w))"
    using fetch_delivery_found [OF assms(1)] find_put_row [of d "db_deliveries (w_db w)" d_id "replayed_row d reset (w_clock w)"]
    by (simp add: replay_database_def replayed_row_def)
  show ?thesis
    using assms(2) fnd
    by (simp add: replay_delivery_def bindE_run f t bindE_simps Let_def seqE_run save_delivery_def add_audit_log_def
        enqueue_outbox_def utcnow_apply update_db_apply generate_uuidv7_apply gets_apply modify_apply ret_apply db
        commit_def flush_def throw_apply replay_metric refresh_delivery_def)
qed

text \<open>The other three answers leave the database alone.\<close>

lemma replay_refused:
  assumes "\<nexists>d p. fst (fetch_delivery_with_partner u w) = Inr (Some (d, p)) \<and> d_status d = FAILED"
  shows "\<exists>x ms. replay_delivery e u actor reason reset trigger w = (Inl x, w\<lparr>w_metrics := w_metrics w @ ms\<rparr>) \<and>
     (case fst (fetch_delivery_with_partner u w) of
        Inl y \<Rightarrow> x = y
      | Inr None \<Rightarrow> x = HubExn DeliveryNotFoundError
      | Inr (Some (d, p)) \<Rightarrow> x = HubExn (DeliveryNotReplayableError (delivery_status_value (d_status d))))"
proof -
  obtain r where f: "fetch_delivery_with_partner u w = (r, w)"
    using fetch_delivery_state [of u w] by (metis prod.collapse)
  show ?thesis
  proof (cases r)
    case (Inl x)
    then show ?thesis using f by (intro exI [of _ x] exI [of _ "[]"]) (simp add: replay_delivery_def bindE_run)
  next
    case (Inr row)
    show ?thesis
    proof (cases row)
      case None
      then show ?thesis using f Inr
        by (intro exI [of _ "HubExn DeliveryNotFoundError"] exI [of _ "[]"])
          (simp add: replay_delivery_def bindE_run throw_apply)
    next
      case (Some dp)
      then obtain d p where dp: "row = Some (d, p)" by (cases dp) auto
      with assms f Inr have "d_status d \<noteq> FAILED" by auto
      moreover obtain ms where "record_invalid_replay (Some (p_slug p)) w = (Inr (), w\<lparr>w_metrics := w_metrics w @ ms\<rparr>)"
        using invalid_replay_metric by blast
      ultimately show ?thesis using f Inr dp
        by (intro exI [of _ "HubExn (DeliveryNotReplayableError (delivery_status_value (d_status d)))"] exI [of _ ms])
          (simp add: replay_delivery_def bindE_run throw_apply seqE_run)
    qed
  qed
qed


lemma sample_fetch:
  "fst (fetch_delivery_with_partner 6 (with_delivery (sample_delivery st n))) =
     Inr (Some (sample_delivery st n, sample_partner))"
  by (simp add: fetch_delivery_with_partner_def run_simps with_delivery_def sample_defs)



section \<open>Bulk replay sorts every identifier\<close>

lemma on_db_is_open [keep_intros]: "keeps (on_db J) (is_open e slug stg)"
  unfolding is_open_def by (intro keep_intros)

lemma replay_returns:
  assumes "w_db w = w_committed w" "replay_delivery e u actor reason reset trigger w = (Inr d', w')"
  shows "w_db w' = w_committed w'" "length (db_outbox (w_committed w')) = Suc (length (db_outbox (w_committed w)))"
proof -
  have "\<exists>d p. fst (fetch_delivery_with_partner u w) = Inr (Some (d, p)) \<and> d_status d = FAILED"
    using replay_refused [of u w e actor reason reset trigger] assms(2) by auto
  then obtain d p where "fst (fetch_delivery_with_partner u w) = Inr (Some (d, p))" "d_status d = FAILED" by blast
  from replay_failed_run [OF this, of e actor reason reset trigger] assms
  show "w_db w' = w_committed w'" "length (db_outbox (w_committed w')) = Suc (length (db_outbox (w_committed w)))"
    by (auto simp: replay_database_def split: if_splits)
qed

text \<open>All categories of a result, and the number of messages it stands for.\<close>

definition all_sorted :: "BulkReplayResult \<Rightarrow> uuid list" where
  "all_sorted r = br_replayed r @ br_skipped_open_circuit r @ br_skipped_rate_limited r @
     br_skipped_invalid_status r @ br_not_found r"

lemma bulk_one_step:
  assumes "w_db w = w_committed w" "bulk_replay_one e actor reason stg u res w = (Inr res', w')"
  shows "br_requested res' = br_requested res \<and> mset (all_sorted res') = add_mset u (mset (all_sorted res)) \<and>
     w_db w' = w_committed w' \<and>
     length (db_outbox (w_committed w')) + length (br_replayed res) =
       length (db_outbox (w_committed w)) + length (br_replayed res')"
proof -
  obtain row where f: "fetch_delivery_with_partner u w = (Inr row, w)"
    using assms(2) fetch_delivery_state [of u w]
    by (cases "fst (fetch_delivery_with_partner u w)")
       (auto simp: bulk_replay_one_def bindE_run prod.case_eq_if, metis prod.collapse)
  show ?thesis
  proof (cases "\<exists>d p. row = Some (d, p) \<and> d_status d = FAILED")
    case False
    then show ?thesis using f assms
      by (auto simp: bulk_replay_one_def bindE_run ret_apply all_sorted_def split: option.splits if_splits)
  next
    case True
    then obtain d p where dp: "row = Some (d, p)" "d_status d = FAILED" by blast
    obtain r1 w1 where o: "is_open e (p_slug p) stg w = (r1, w1)" by force
    note n1 = neutral_run [OF on_db_is_open o]
    obtain r2 w2 where a: "allow_request e (p_slug p) (p_rate_limit_rps p) w1 = (r2, w2)" by force
    note n2 = neutral_run [OF on_db_allow_request a]
    obtain r3 w3 where rp: "replay_delivery e u actor reason False ''manual'' w2 = (r3, w3)" by force
    have "w_db w2 = w_committed w2" using n1 n2 assms(1) by simp
    from replay_returns [OF this] rp have r3: "r3 = Inr x \<Longrightarrow> w_db w3 = w_committed w3 \<and>
        length (db_outbox (w_committed w3)) = Suc (length (db_outbox (w_committed w2)))" for x by auto
    show ?thesis using f dp o a rp r3 assms n1 n2
      by (auto simp: bulk_replay_one_def bindE_run seqE_run ret_apply all_sorted_def split: if_splits sum.splits)
  qed
qed

lemma bulk_loop_sorts:
  "w_db w = w_committed w \<Longrightarrow> bulk_replay_loop e actor reason stg us res w = (Inr res', w') \<Longrightarrow>
   br_requested res' = br_requested res \<and> mset (all_sorted res') = mset us + mset (all_sorted res) \<and>
   length (db_outbox (w_committed w')) + length (br_replayed res) =
     length (db_outbox (w_committed w)) + length (br_replayed res')"
proof (induction us arbitrary: w res)
  case Nil
  then show ?case by (simp add: ret_apply)
next
  case (Cons u us)
  then obtain res1 w1 where one: "bulk_replay_one e actor reason stg u res w = (Inr res1, w1)"
      and rest: "bulk_replay_loop e actor reason stg us res1 w1 = (Inr res', w')"
    by (auto simp: bindE_run split: prod.splits sum.splits)
  note step = bulk_one_step [OF Cons.prems(1) one]
  from Cons.IH [OF _ rest] step show ?case by simp
qed

text \<open>
  A bulk replay that returns has sorted every requested identifier into exactly one of its five
  categories, repetitions included, and has committed exactly one outbox message for every identifier
  it reports as replayed and none for the others.
\<close>

lemma bulk_replay_sorts:
  assumes "w_db w = w_committed w" and "bulk_replay_deliveries e ids actor reason stg w = (Inr res, w')"
  shows "br_requested res = ids \<and>
     mset ids = mset (br_replayed res) + mset (br_skipped_open_circuit res) + mset (br_skipped_rate_limited res) +
       mset (br_skipped_invalid_status res) + mset (br_not_found res) \<and>
     length (db_outbox (w_committed w')) = length (db_outbox (w_committed w)) + length (br_replayed res)"
  using bulk_loop_sorts [OF assms(1) assms(2) [unfolded bulk_replay_deliveries_def]]
  by (auto simp: bulk_replay_init_def all_sorted_def add.assoc)

lemma bulk_replay_sorts_witness:
  "\<exists>res w'. bulk_replay_deliveries mem_env [6, 99] ''ann'' ''again'' default_settings
      (with_delivery (sample_delivery FAILED 2)) = (Inr res, w') \<and>
     br_replayed res = [6] \<and> br_not_found res = [99] \<and> length (db_outbox (w_committed w')) = 1"
proof -
  let ?w = "with_delivery (sample_delivery FAILED 2)"
  have f: "fetch_delivery_with_partner 6 ?w = (Inr (Some (sample_delivery FAILED 2, sample_partner)), ?w)"
    using sample_fetch fetch_delivery_state by (metis prod.collapse)
  have o: "is_open mem_env (p_slug sample_partner) default_settings ?w = (Inr False, ?w)"
    by (simp add: is_open_def get_circuit_state_def run_simps call_redis_def mem_redis_ops_def mem_view_def
        with_delivery_def sample_defs)
  obtain w1 where a: "allow_request mem_env (p_slug sample_partner) (p_rate_limit_rps sample_partner) ?w = (Inr True, w1)"
    by (simp add: allow_request_def run_simps call_redis_def mem_redis_ops_def mem_view_def
        with_delivery_def sample_defs)
  note n = neutral_run [OF on_db_allow_request a]
  have f1: "fst (fetch_delivery_with_partner 6 w1) = Inr (Some (sample_delivery FAILED 2, sample_partner))"
    using n by (simp add: fetch_delivery_with_partner_def run_simps with_delivery_def sample_defs)
  let ?db = "replay_database mem_env (sample_delivery FAILED 2) sample_partner ''ann'' ''again'' False ''manual'' w1"
  have ok: "constraints_ok ?db"
    using n by (simp add: replay_database_def replayed_row_def replay_log_def with_delivery_def sample_defs
      constraints_ok_def table_ok_defs references_def unique_on_def put_row_def outbox_row_def)
  obtain x w2 where r: "replay_delivery mem_env 6 ''ann'' ''again'' False ''manual'' w1 = (Inr x, w2)" "w_db w2 = ?db"
    using replay_failed_run [OF f1, of mem_env "''ann''" "''again''" False "''manual''"] ok by auto
  have f2: "fetch_delivery_with_partner 99 w2 = (Inr None, w2)"
    using r(2) n by (simp add: fetch_delivery_with_partner_def run_simps replay_database_def replayed_row_def
        with_delivery_def sample_defs put_row_def)
  let ?res = "(bulk_replay_init [6, 99])\<lparr>br_replayed := [6], br_not_found := [99]\<rparr>"
  have run: "bulk_replay_deliveries mem_env [6, 99] ''ann'' ''again'' default_settings ?w = (Inr ?res, w2)"
    by (simp add: bulk_replay_deliveries_def bulk_replay_one_def bulk_replay_init_def bindE_run seqE_run ret_apply f o a r f2)
  have "w_db ?w = w_committed ?w" by (simp add: with_delivery_def)
  from bulk_replay_sorts [OF this run] have "length (db_outbox (w_committed w2)) = 1"
    by (simp add: bulk_replay_init_def with_delivery_def sample_defs)
  with run show ?thesis by (intro exI [of _ ?res] exI [of _ w2]) (simp add: bulk_replay_init_def)
qed

section \<open>An approval is decided once\<close>

definition approval_step :: "replay_approval \<Rightarrow> replay_approval \<Rightarrow> bool" where
  "approval_step a b \<longleftrightarrow> b = a \<or> (ra_status a = ReplayApprovalStatus.PENDING \<and>
     (\<exists>verdict actor stamp. verdict \<noteq> ReplayApprovalStatus.PENDING \<and>
        b = a\<lparr>ra_status := verdict, ra_approved_by := Some actor, ra_updated_at := stamp\<rparr>))"

definition approvals_are :: "replay_approval list \<Rightarrow> database \<Rightarrow> database \<Rightarrow> bool" where
  "approvals_are A c d \<longleftrightarrow> db_replay_approvals c = A \<and> db_replay_approvals d = A"

lemma fetch_delivery_neutral [keep_intros]: "keeps (on_db J) (fetch_delivery_with_partner u)"
  unfolding fetch_delivery_with_partner_def by (intro keep_intros)

lemma invalid_replay_neutral [keep_intros]: "keeps (on_db J) (record_invalid_replay s)"
  unfolding record_invalid_replay_def by (intro keep_intros)

lemma on_db_modify_seq [keep_intros]: "keeps (on_db J) (modify (\<lambda>w. w\<lparr>w_seq_outbox := n\<rparr>))"
  by (simp add: keeps_def on_db_def run_simps)

lemma keeps_transition [keep_intros]:
  "(\<And>a b. keeps I (f a b)) \<Longrightarrow> keeps I (transition (Some f) s t)" "keeps I (transition None s t)"
  unfolding transition_def by (auto intro!: keep_intros)

lemma approvals_replay: "keeps (on_db (approvals_are A)) (replay_delivery e u actor reason reset trigger)"
  unfolding replay_delivery_def Let_def save_delivery_def add_audit_log_def enqueue_outbox_def refresh_delivery_def
  by (intro keep_intros) (auto simp: approvals_are_def intro: keep_intros)

lemma fetch_approval_state: "snd (fetch_replay_approval_with_delivery a w) = w"
  by (auto simp: fetch_replay_approval_with_delivery_def run_simps split: list.splits)

lemma fetch_approval_found:
  assumes "fst (fetch_replay_approval_with_delivery a w) = Inr (Some (ap, d, p))"
  shows "ap \<in> set (db_replay_approvals (w_db w)) \<and> ra_id ap = a"
proof -
  let ?rows = "concat (map (\<lambda>a. concat (map (\<lambda>d. map (\<lambda>p. (a, d, p))
              (filter (\<lambda>p. d_partner_id d = p_id p) (db_partners (w_db w))))
              (filter (\<lambda>d. ra_delivery_id a = d_id d) (db_deliveries (w_db w)))))
              (filter (\<lambda>ap. ra_id ap = a) (db_replay_approvals (w_db w))))"
  have "?rows = [(ap, d, p)]"
    using assms by (auto simp: fetch_replay_approval_with_delivery_def run_simps split: list.splits)
  then have "(ap, d, p) \<in> set ?rows" by simp
  then show ?thesis by auto
qed

lemma approval_steps_put:
  assumes "unique_on ra_id A" "ap \<in> set A" "approval_step ap b" "ra_id b = ra_id ap"
  shows "list_all2 approval_step A (put_row ra_id b A)"
proof -
  have "A ! i = ap" if "i < length A" "ra_id (A ! i) = ra_id ap" for i
    using unique_onD [OF assms(1)] assms(2) that nth_mem by blast
  with assms(3,4) show ?thesis
    by (auto simp: put_row_def list_all2_conv_all_nth) (simp_all add: approval_step_def)
qed

lemma approval_steps_refl: "list_all2 approval_step A A"
  by (simp add: list_all2_conv_all_nth approval_step_def)

lemma decide_committed:
  "db_replay_approvals (w_committed (snd (decide_approval e ap d verdict actor action reason w))) \<in>
     {db_replay_approvals (w_committed w),
      put_row ra_id (ap\<lparr>ra_status := verdict, ra_approved_by := Some actor, ra_updated_at := w_clock w\<rparr>)
        (db_replay_approvals (w_db w))}"
  by (simp add: decide_approval_def Let_def run_simps add_audit_log_def commit_def flush_def)

text \<open>
  C37. An approval is decided at most once: whatever an approval or a rejection does, every stored
  approval stays as it was or goes from pending to a verdict with the deciding actor, keeping its
  identifier, its delivery, its reason and its requester; no approval is added or removed.
\<close>

theorem approval_decided_once:
  assumes "w_db w = w_committed w" and "constraints_ok (w_committed w)"
  shows "list_all2 approval_step (db_replay_approvals (w_committed w))
       (db_replay_approvals (w_committed (snd (approve_replay_approval e a actor w)))) \<and>
     list_all2 approval_step (db_replay_approvals (w_committed w))
       (db_replay_approvals (w_committed (snd (reject_replay_approval e a actor reason w))))"
proof -
  let ?A = "db_replay_approvals (w_committed w)"
  have u: "unique_on ra_id ?A" using assms(2) by (simp add: constraints_ok_def journals_ok_def)
  obtain r where f: "fetch_replay_approval_with_delivery a w = (r, w)"
    using fetch_approval_state [of a w] by (metis prod.collapse)
  show ?thesis
  proof (cases "\<exists>ap d p. r = Inr (Some (ap, d, p)) \<and> ra_status ap = ReplayApprovalStatus.PENDING")
    case False
    then show ?thesis using f approval_steps_refl [of ?A]
      by (auto simp: approve_replay_approval_def reject_replay_approval_def bindE_run throw_apply
          split: sum.splits option.splits)
  next
    case True
    then obtain ap d p where ap: "r = Inr (Some (ap, d, p))" "ra_status ap = ReplayApprovalStatus.PENDING" by blast
    have mem: "ap \<in> set ?A" using fetch_approval_found [of a w ap d p] f ap assms(1) by simp
    have step: "list_all2 approval_step ?A (put_row ra_id (ap\<lparr>ra_status := v, ra_approved_by := Some actor, ra_updated_at := t\<rparr>) ?A)"
      if "v \<noteq> ReplayApprovalStatus.PENDING" for v t
      using ap(2) that by (intro approval_steps_put [OF u mem]) (auto simp: approval_step_def)
    have dec: "list_all2 approval_step ?A (db_replay_approvals (w_committed (snd (decide_approval e ap d v actor action rs w1))))"
      if "v \<noteq> ReplayApprovalStatus.PENDING" "on_db (approvals_are ?A) w1" for v action rs w1
      using decide_committed [of e ap d v actor action rs w1] step [OF that(1)] that(2) approval_steps_refl [of ?A]
      by (auto simp: on_db_def approvals_are_def)
    have w: "on_db (approvals_are ?A) w" using assms(1) by (simp add: on_db_def approvals_are_def)
    obtain r1 w1 where rp: "replay_delivery e (d_public_id d) actor (ra_reason ap) False ''manual'' w = (r1, w1)" by force
    have w1: "on_db (approvals_are ?A) w1" using keepsD [OF approvals_replay w] rp by (metis snd_conv)
    have "list_all2 approval_step ?A (db_replay_approvals (w_committed (snd (approve_replay_approval e a actor w))))"
      using f ap rp dec [OF _ w1, of APPROVED "''replay.approve''" "ra_reason ap"] w1 approval_steps_refl [of ?A]
      by (cases r1) (simp_all add: approve_replay_approval_def bindE_run on_db_def approvals_are_def)
    moreover have "list_all2 approval_step ?A (db_replay_approvals (w_committed (snd (reject_replay_approval e a actor reason w))))"
      using f ap dec [OF _ w] by (simp add: reject_replay_approval_def bindE_run)
    ultimately show ?thesis ..
  qed
qed

definition sample_approval :: replay_approval where
  "sample_approval = \<lparr>ra_id = 50, ra_delivery_id = 1, ra_reason = ''again'', ra_requested_by = ''ann'',
     ra_approved_by = None, ra_status = ReplayApprovalStatus.PENDING, ra_created_at = 0, ra_updated_at = 0\<rparr>"

definition approval_world :: "(mem_redis, message list) world" where
  "approval_world = (let db = sample_db\<lparr>db_deliveries := [sample_delivery FAILED 2], db_replay_approvals := [sample_approval]\<rparr>
     in sample_world\<lparr>w_committed := db, w_db := db\<rparr>)"

theorem approval_decided_once_witness:
  "\<exists>b. db_replay_approvals (w_committed (snd (reject_replay_approval mem_env 50 ''bob'' ''no'' approval_world))) = [b] \<and>
     ra_status b = REJECTED \<and> approval_step sample_approval b"
proof -
  have "w_db approval_world = w_committed approval_world" by (simp add: approval_world_def Let_def)
  moreover have "constraints_ok (w_committed approval_world)"
    by (simp add: approval_world_def Let_def sample_approval_def sample_defs constraints_ok_def table_ok_defs
        references_def unique_on_def)
  ultimately have s: "list_all2 approval_step (db_replay_approvals (w_committed approval_world))
     (db_replay_approvals (w_committed (snd (reject_replay_approval mem_env 50 ''bob'' ''no'' approval_world))))"
    using approval_decided_once [of approval_world mem_env 50 "''bob''" "''no''"] by blast
  have "db_replay_approvals (w_committed (snd (reject_replay_approval mem_env 50 ''bob'' ''no'' approval_world))) =
      [sample_approval\<lparr>ra_status := REJECTED, ra_approved_by := Some ''bob'', ra_updated_at := 0\<rparr>]"
    by (simp add: reject_replay_approval_def fetch_replay_approval_with_delivery_def run_simps decide_approval_def
        add_audit_log_def commit_def flush_def approval_world_def Let_def sample_approval_def sample_defs
        constraints_ok_def table_ok_defs references_def unique_on_def put_row_def)
  with s show ?thesis by (simp add: approval_world_def Let_def)
qed

end
