(* ===== verification/ApiSchemas.thy ===== *)
theory ApiSchemas
  imports Models
begin

text \<open>
  The request and response bodies of the HTTP API (\<open>app/schemas\<close>) and the mappers from rows to responses
  (\<open>app/api/v1/admin/mappers.py\<close>). A request class is a record with the fields pydantic has parsed; its
  declared bounds and its validators are the functions \<open>validate_...\<close>, which name the first field that
  is refused. A response carries public identifiers only. The lemmas show what a validated request
  satisfies.
\<close>

section \<open>Shared\<close>

record PaginationParams =
  pg_limit :: int
  pg_offset :: int

definition validate_pagination :: "PaginationParams \<Rightarrow> exn + PaginationParams" where
  "validate_pagination pg =
     (if \<not> (1 \<le> pg_limit pg \<and> pg_limit pg \<le> 200) then Inl (RequestValidationError ''limit'')
      else if \<not> 0 \<le> pg_offset pg then Inl (RequestValidationError ''offset'')
      else Inr pg)"

record 'a PaginatedResponse =
  pr_items :: "'a list"
  pr_total :: int
  pr_limit :: int
  pr_offset :: int

text \<open>\<open>.limit(limit).offset(offset)\<close> of an ordered selection, with the total beside it.\<close>

definition paginate :: "PaginationParams \<Rightarrow> 'a list \<Rightarrow> 'a PaginatedResponse" where
  "paginate pg rows = \<lparr>pr_items = take (nat (pg_limit pg)) (drop (nat (pg_offset pg)) rows),
     pr_total = int (length rows), pr_limit = pg_limit pg, pr_offset = pg_offset pg\<rparr>"

text \<open>\<open>ORDER BY key DESC\<close>, equal keys in table order.\<close>

definition order_desc :: "('a \<Rightarrow> int) \<Rightarrow> 'a list \<Rightarrow> 'a list" where
  "order_desc key rows = sort_key (\<lambda>x. - key x) rows"

text \<open>An optional integer with a declared lower bound.\<close>

definition at_least :: "int \<Rightarrow> int option \<Rightarrow> bool" where
  "at_least lo v \<longleftrightarrow> (case v of None \<Rightarrow> True | Some x \<Rightarrow> lo \<le> x)"

section \<open>Partners\<close>

definition slug_char :: "char \<Rightarrow> bool" where
  "slug_char c \<longleftrightarrow> (let n = (of_char c :: nat) in (97 \<le> n \<and> n \<le> 122) \<or> (48 \<le> n \<and> n \<le> 57))"

text \<open>The pattern \<open>[a-z0-9]\<close>, optionally followed by \<open>[a-z0-9-]*[a-z0-9]\<close>, over the whole text.\<close>

definition slug_pattern :: "string \<Rightarrow> bool" where
  "slug_pattern s \<longleftrightarrow> s \<noteq> [] \<and> slug_char (hd s) \<and> slug_char (last s) \<and>
     list_all (\<lambda>c. slug_char c \<or> c = CHR ''-'') s"

record PartnerCreate =
  pc_slug :: string
  pc_name :: string
  pc_sla_seconds :: int
  pc_rate_limit_rps :: "int option"

definition validate_partner_create :: "PartnerCreate \<Rightarrow> exn + PartnerCreate" where
  "validate_partner_create b =
     (if \<not> (1 \<le> length (pc_slug b) \<and> length (pc_slug b) \<le> 64 \<and> slug_pattern (pc_slug b))
        then Inl (RequestValidationError ''slug'')
      else if \<not> (1 \<le> length (pc_name b) \<and> length (pc_name b) \<le> 255) then Inl (RequestValidationError ''name'')
      else if \<not> 1 \<le> pc_sla_seconds b then Inl (RequestValidationError ''sla_seconds'')
      else if \<not> at_least 1 (pc_rate_limit_rps b) then Inl (RequestValidationError ''rate_limit_rps'')
      else Inr b)"

record PartnerUpdate =
  pu_status :: "PartnerStatus option"
  pu_sla_seconds :: "int option"
  pu_rate_limit_rps :: "int option"
  pu_auto_replay_enabled :: "bool option"
  pu_circuit_breaker_config :: "json option"

definition validate_partner_update :: "PartnerUpdate \<Rightarrow> exn + PartnerUpdate" where
  "validate_partner_update b =
     (if \<not> at_least 1 (pu_sla_seconds b) then Inl (RequestValidationError ''sla_seconds'')
      else if \<not> at_least 1 (pu_rate_limit_rps b) then Inl (RequestValidationError ''rate_limit_rps'')
      else Inr b)"

record PartnerResponse =
  rp_id :: uuid
  rp_slug :: string
  rp_name :: string
  rp_status :: PartnerStatus
  rp_sla_seconds :: int
  rp_rate_limit_rps :: int
  rp_auto_replay_enabled :: bool
  rp_circuit_breaker_config :: json
  rp_created_at :: "time option"
  rp_updated_at :: "time option"

text \<open>The creation and rotation answers add the plaintext secret.\<close>

record PartnerCreatedResponse = PartnerResponse +
  rp_signing_secret :: string

definition partner_to_response :: "partner \<Rightarrow> PartnerResponse" where
  "partner_to_response p = \<lparr>rp_id = p_public_id p, rp_slug = p_slug p, rp_name = p_name p, rp_status = p_status p,
     rp_sla_seconds = p_sla_seconds p, rp_rate_limit_rps = p_rate_limit_rps p,
     rp_auto_replay_enabled = p_auto_replay_enabled p,
     rp_circuit_breaker_config = p_circuit_breaker_config p,
     rp_created_at = p_created_at p, rp_updated_at = p_updated_at p\<rparr>"

definition partner_with_secret :: "partner \<Rightarrow> string \<Rightarrow> PartnerCreatedResponse" where
  "partner_with_secret p secret = \<lparr>rp_id = p_public_id p, rp_slug = p_slug p, rp_name = p_name p, rp_status = p_status p,
     rp_sla_seconds = p_sla_seconds p, rp_rate_limit_rps = p_rate_limit_rps p,
     rp_auto_replay_enabled = p_auto_replay_enabled p,
     rp_circuit_breaker_config = p_circuit_breaker_config p,
     rp_created_at = p_created_at p, rp_updated_at = p_updated_at p, rp_signing_secret = secret\<rparr>"

record ApiKeyCreate =
  kc_scopes :: "string list"
  kc_expires_at :: "time option"

definition default_api_key_create :: ApiKeyCreate where
  "default_api_key_create = \<lparr>kc_scopes = [''inbound:write''], kc_expires_at = None\<rparr>"

record ApiKeyCreatedResponse =
  kr_id :: uuid
  kr_key :: string
  kr_key_prefix :: string
  kr_scopes :: "string list"
  kr_expires_at :: "time option"
  kr_created_at :: time

section \<open>Endpoints\<close>

record EndpointCreate =
  ec_direction :: EndpointDirection
  ec_url :: string
  ec_event_types :: "string list"
  ec_sla_seconds :: "int option"
  ec_max_attempts :: "int option"
  ec_timeout_connect_ms :: "int option"
  ec_timeout_read_ms :: "int option"

definition validate_endpoint_create :: "EndpointCreate \<Rightarrow> exn + EndpointCreate" where
  "validate_endpoint_create b =
     (if ec_url b = [] then Inl (RequestValidationError ''url'')
      else if ec_event_types b = [] then Inl (RequestValidationError ''event_types'')
      else if \<not> at_least 1 (ec_sla_seconds b) then Inl (RequestValidationError ''sla_seconds'')
      else if \<not> (case ec_max_attempts b of None \<Rightarrow> True | Some n \<Rightarrow> 1 \<le> n \<and> n \<le> 255)
        then Inl (RequestValidationError ''max_attempts'')
      else if \<not> at_least 100 (ec_timeout_connect_ms b) then Inl (RequestValidationError ''timeout_connect_ms'')
      else if \<not> at_least 100 (ec_timeout_read_ms b) then Inl (RequestValidationError ''timeout_read_ms'')
      else Inr b)"

record EndpointUpdate =
  eu_status :: "EndpointStatus option"
  eu_url :: "string option"
  eu_event_types :: "string list option"
  eu_sla_seconds :: "int option"

definition validate_endpoint_update :: "EndpointUpdate \<Rightarrow> exn + EndpointUpdate" where
  "validate_endpoint_update b =
     (if eu_url b = Some [] then Inl (RequestValidationError ''url'')
      else if eu_event_types b = Some [] then Inl (RequestValidationError ''event_types'')
      else if \<not> at_least 1 (eu_sla_seconds b) then Inl (RequestValidationError ''sla_seconds'')
      else Inr b)"

record EndpointResponse =
  re_id :: uuid
  re_partner_id :: uuid
  re_direction :: EndpointDirection
  re_url :: string
  re_event_types :: "string list"
  re_status :: EndpointStatus
  re_sla_seconds :: "int option"
  re_max_attempts :: int
  re_timeout_connect_ms :: int
  re_timeout_read_ms :: int
  re_created_at :: "time option"
  re_updated_at :: "time option"

definition endpoint_to_response :: "partner_endpoint \<Rightarrow> uuid \<Rightarrow> EndpointResponse" where
  "endpoint_to_response ep partner_public_id =
     \<lparr>re_id = ep_id ep, re_partner_id = partner_public_id, re_direction = ep_direction ep, re_url = ep_url ep,
      re_event_types = ep_event_types ep, re_status = ep_status ep, re_sla_seconds = ep_sla_seconds ep,
      re_max_attempts = ep_max_attempts ep, re_timeout_connect_ms = ep_timeout_connect_ms ep,
      re_timeout_read_ms = ep_timeout_read_ms ep, re_created_at = ep_created_at ep,
      re_updated_at = ep_updated_at ep\<rparr>"

section \<open>Payload schemas\<close>

record PayloadSchemaCreate =
  sc_event_type :: string
  sc_version :: int
  sc_json_schema :: json

definition validate_payload_schema_create :: "PayloadSchemaCreate \<Rightarrow> exn + PayloadSchemaCreate" where
  "validate_payload_schema_create b =
     (if \<not> (1 \<le> length (sc_event_type b) \<and> length (sc_event_type b) \<le> 128) then Inl (RequestValidationError ''event_type'')
      else if \<not> 1 \<le> sc_version b then Inl (RequestValidationError ''version'')
      else Inr b)"

record PayloadSchemaListResponse =
  sl_items :: "payload_schema list"
  sl_total :: int

section \<open>Deliveries and dead letters\<close>

record DeliveryAttemptResponse =
  ra_attempt_id :: uuid
  ra_attempt_number :: int
  ra_requested_at :: time
  ra_responded_at :: "time option"
  ra_http_status_code :: "int option"
  ra_error_type :: "string option"
  ra_duration_ms :: "int option"
  ra_attempt_created_at :: "time option"

definition attempt_to_response :: "delivery_attempt \<Rightarrow> DeliveryAttemptResponse" where
  "attempt_to_response a = \<lparr>ra_attempt_id = at_id a, ra_attempt_number = at_attempt_number a,
     ra_requested_at = at_requested_at a, ra_responded_at = at_responded_at a,
     ra_http_status_code = at_http_status_code a, ra_error_type = at_error_type a,
     ra_duration_ms = at_duration_ms a, ra_attempt_created_at = at_created_at a\<rparr>"

record DeliveryResponse =
  rd_id :: uuid
  rd_partner_id :: uuid
  rd_endpoint_id :: uuid
  rd_event_type :: string
  rd_status :: DeliveryStatus
  rd_attempt_count :: int
  rd_max_attempts :: int
  rd_idempotency_key :: string
  rd_payload :: json
  rd_correlation_id :: string
  rd_sla_deadline_at :: time
  rd_sla_breached :: bool
  rd_first_success_at :: "time option"
  rd_last_error_code :: "string option"
  rd_last_error_message :: "string option"
  rd_created_at :: "time option"
  rd_updated_at :: "time option"
  rd_attempts :: "DeliveryAttemptResponse list"

definition delivery_to_response :: "delivery \<Rightarrow> uuid \<Rightarrow> DeliveryAttemptResponse list \<Rightarrow> DeliveryResponse" where
  "delivery_to_response d partner_public_id attempts =
     \<lparr>rd_id = d_public_id d, rd_partner_id = partner_public_id, rd_endpoint_id = d_endpoint_id d,
      rd_event_type = d_event_type d, rd_status = d_status d, rd_attempt_count = d_attempt_count d,
      rd_max_attempts = d_max_attempts d, rd_idempotency_key = d_idempotency_key d, rd_payload = d_payload d,
      rd_correlation_id = d_correlation_id d, rd_sla_deadline_at = d_sla_deadline_at d,
      rd_sla_breached = d_sla_breached d, rd_first_success_at = d_first_success_at d,
      rd_last_error_code = d_last_error_code d, rd_last_error_message = d_last_error_message d,
      rd_created_at = d_created_at d, rd_updated_at = d_updated_at d, rd_attempts = attempts\<rparr>"

record DeadLetterResponse =
  rl_id :: uuid
  rl_delivery_id :: uuid
  rl_partner_id :: uuid
  rl_reason :: DeadLetterReason
  rl_last_http_status :: "int option"
  rl_last_error_message :: string
  rl_acknowledged_at :: "time option"
  rl_acknowledged_by :: "string option"
  rl_created_at :: time

definition dead_letter_to_response :: "dead_letter \<Rightarrow> uuid \<Rightarrow> uuid \<Rightarrow> DeadLetterResponse" where
  "dead_letter_to_response l delivery_public_id partner_public_id =
     \<lparr>rl_id = dl_id l, rl_delivery_id = delivery_public_id, rl_partner_id = partner_public_id,
      rl_reason = dl_reason l, rl_last_http_status = dl_last_http_status l,
      rl_last_error_message = dl_last_error_message l, rl_acknowledged_at = dl_acknowledged_at l,
      rl_acknowledged_by = dl_acknowledged_by l, rl_created_at = dl_created_at l\<rparr>"

record DeadLetterAckResponse =
  ka_id :: uuid
  ka_acknowledged_at :: time
  ka_acknowledged_by :: string

record DeadLetterPurgeResponse =
  kp_id :: uuid
  kp_reason :: DeadLetterReason

record DeliveryReplayResponse =
  dy_delivery_id :: uuid
  dy_status :: DeliveryStatus

text \<open>The validator the replay, purge and rejection requests share: the stripped reason, never empty.\<close>

definition reason_not_blank :: "string \<Rightarrow> exn + string" where
  "reason_not_blank reason =
     (let stripped = py_strip reason
      in if stripped = [] then Inl (RequestValidationError ''reason'') else Inr stripped)"

record DeliveryReplayRequest =
  dr_reason :: string
  dr_reset_attempt_counter :: bool

definition validate_replay_request :: "DeliveryReplayRequest \<Rightarrow> exn + DeliveryReplayRequest" where
  "validate_replay_request b = (case reason_not_blank (dr_reason b) of
     Inl x \<Rightarrow> Inl x | Inr s \<Rightarrow> Inr (b\<lparr>dr_reason := s\<rparr>))"

record BulkReplayRequest =
  bq_delivery_ids :: "uuid list"
  bq_reason :: string

fun dedupe_loop :: "uuid list \<Rightarrow> uuid set \<Rightarrow> uuid list \<Rightarrow> uuid list" where
  "dedupe_loop [] seen deduped = deduped"
| "dedupe_loop (u # us) seen deduped =
     (if u \<notin> seen then dedupe_loop us (insert u seen) (deduped @ [u]) else dedupe_loop us seen deduped)"

definition dedupe_delivery_ids :: "uuid list \<Rightarrow> uuid list" where
  "dedupe_delivery_ids us = dedupe_loop us {} []"

definition validate_bulk_replay :: "BulkReplayRequest \<Rightarrow> exn + BulkReplayRequest" where
  "validate_bulk_replay b =
     (if \<not> (1 \<le> length (bq_delivery_ids b) \<and> length (bq_delivery_ids b) \<le> 100)
        then Inl (RequestValidationError ''delivery_ids'')
      else (case reason_not_blank (bq_reason b) of
              Inl x \<Rightarrow> Inl x
            | Inr s \<Rightarrow> Inr \<lparr>bq_delivery_ids = dedupe_delivery_ids (bq_delivery_ids b), bq_reason = s\<rparr>))"

record BulkReplayResponse =
  bs_requested :: "uuid list"
  bs_replayed :: "uuid list"
  bs_skipped_open_circuit :: "uuid list"
  bs_skipped_rate_limited :: "uuid list"
  bs_skipped_invalid_status :: "uuid list"
  bs_not_found :: "uuid list"

record DeadLetterPurgeRequest =
  pq_reason :: string

definition validate_purge_request :: "DeadLetterPurgeRequest \<Rightarrow> exn + DeadLetterPurgeRequest" where
  "validate_purge_request b = (case reason_not_blank (pq_reason b) of
     Inl x \<Rightarrow> Inl x | Inr s \<Rightarrow> Inr (b\<lparr>pq_reason := s\<rparr>))"

section \<open>Outbound events\<close>

record OutboundEventRequest =
  oq_partner_id :: uuid
  oq_event_type :: string
  oq_payload :: json
  oq_idempotency_key :: "string option"
  oq_correlation_id :: "uuid option"

definition correlation_id_must_be_uuidv7 :: "uuid option \<Rightarrow> exn + uuid option" where
  "correlation_id_must_be_uuidv7 c = (case c of
     None \<Rightarrow> Inr None
   | Some u \<Rightarrow> if uuid_version u \<noteq> Some 7 then Inl (RequestValidationError ''correlation_id'') else Inr (Some u))"

text \<open>The internal request requires a key of at least one character; the sandbox one may omit it.\<close>

definition validate_outbound_event :: "OutboundEventRequest \<Rightarrow> exn + OutboundEventRequest" where
  "validate_outbound_event b =
     (case oq_idempotency_key b of
        None \<Rightarrow> Inl (RequestValidationError ''idempotency_key'')
      | Some k \<Rightarrow>
          if k = [] then Inl (RequestValidationError ''idempotency_key'')
          else (case correlation_id_must_be_uuidv7 (oq_correlation_id b) of Inl x \<Rightarrow> Inl x | Inr c \<Rightarrow> Inr b))"

definition validate_sandbox_test :: "OutboundEventRequest \<Rightarrow> exn + OutboundEventRequest" where
  "validate_sandbox_test b =
     (case correlation_id_must_be_uuidv7 (oq_correlation_id b) of Inl x \<Rightarrow> Inl x | Inr c \<Rightarrow> Inr b)"

section \<open>Replay approvals and partner status\<close>

record ReplayApprovalPendingResponse =
  rp_approval_id :: uuid
  rp_status :: ReplayApprovalStatus

record ReplayApprovalRejectRequest =
  rj_reason :: string

definition validate_reject_request :: "ReplayApprovalRejectRequest \<Rightarrow> exn + ReplayApprovalRejectRequest" where
  "validate_reject_request b = (case reason_not_blank (rj_reason b) of
     Inl x \<Rightarrow> Inl x | Inr s \<Rightarrow> Inr (b\<lparr>rj_reason := s\<rparr>))"

record ReplayApprovalActionResponse =
  rn_delivery_id :: uuid
  rn_status :: DeliveryStatus

record ReplayApprovalRejectedResponse =
  rr_approval_id :: uuid
  rr_status :: ReplayApprovalStatus

record ReplayApprovalListItem =
  li_id :: uuid
  li_delivery_id :: uuid
  li_reason :: string
  li_requested_by :: string
  li_approved_by :: "string option"
  li_status :: ReplayApprovalStatus
  li_created_at :: time

record PartnerDeliveryStatusResponse =
  ds_id :: uuid
  ds_status :: DeliveryStatus
  ds_event_type :: string
  ds_attempt_count :: int
  ds_last_error_code :: "string option"
  ds_sla_breached :: bool
  ds_first_success_at :: "time option"

section \<open>What validation gives\<close>

lemma dedupe_loop_spec:
  "set ds = seen \<Longrightarrow> distinct ds \<Longrightarrow> distinct (dedupe_loop us seen ds) \<and>
     set (dedupe_loop us seen ds) = seen \<union> set us \<and> (\<exists>rest. dedupe_loop us seen ds = ds @ rest \<and> length rest \<le> length us)"
proof (induction us seen ds rule: dedupe_loop.induct)
  case (2 u us seen ds)
  show ?case
  proof (cases "u \<in> seen")
    case True
    with 2 show ?thesis by fastforce
  next
    case False
    with 2 have "distinct (dedupe_loop us (insert u seen) (ds @ [u])) \<and>
      set (dedupe_loop us (insert u seen) (ds @ [u])) = insert u seen \<union> set us \<and>
      (\<exists>rest. dedupe_loop us (insert u seen) (ds @ [u]) = (ds @ [u]) @ rest \<and> length rest \<le> length us)" by auto
    with False show ?thesis by auto
  qed
qed simp

lemma dedupe_spec:
  "distinct (dedupe_delivery_ids us)" "set (dedupe_delivery_ids us) = set us" "length (dedupe_delivery_ids us) \<le> length us"
  using dedupe_loop_spec [of "[]" "{}" us] by (auto simp: dedupe_delivery_ids_def)

lemma paginate_bounds:
  assumes "validate_pagination pg = Inr pg"
  shows "length (pr_items (paginate pg rows)) \<le> 200" "set (pr_items (paginate pg rows)) \<subseteq> set rows"
  using assms by (auto simp: validate_pagination_def paginate_def split: if_splits dest!: in_set_takeD in_set_dropD)

end
