(* ===== verification/ApiAuth.thy ===== *)
theory ApiAuth
  imports ApiSchemas Enqueue Signing
begin

text \<open>
  Access to the HTTP API: admin authentication with the bootstrap token or a signed token and the role
  check (\<open>app/api/auth.py\<close>), partner API keys (\<open>app/api/deps_partner.py\<close>), the correlation and body
  size middlewares (\<open>app/api/middleware\<close>), the mapping of domain errors to answers
  (\<open>app/api/errors.py\<close>), the partner status route and the internal enqueue route. The lemmas show who
  gets through and what a partner can see.
\<close>

section \<open>Admin principals\<close>

record AdminPrincipal =
  ap_sub :: string
  ap_role :: HubRole

definition authenticate_token :: "('r, 'k) env \<Rightarrow> string \<Rightarrow> settings \<Rightarrow> ('r, 'k, AdminPrincipal) hub" where
  "authenticate_token e token stg =
     (if admin_bootstrap_token stg = [] then throw (HTTPException 401 ''Admin authentication is not configured.'')
      else if token = admin_bootstrap_token stg then ret \<lparr>ap_sub = ''bootstrap'', ap_role = HUB_ADMIN\<rparr>
      else bindE utcnow (\<lambda>now.
        case jwt_decode e token (admin_bootstrap_token stg) now of
          None \<Rightarrow> throw (HTTPException 401 ''Invalid or expired admin token.'')
        | Some payload \<Rightarrow>
            (case cl_sub payload of
               Some (JStr (c # cs)) \<Rightarrow>
                 (case cl_role payload of
                    Some (JStr (d # ds)) \<Rightarrow>
                      (case hub_role_of (d # ds) of
                         None \<Rightarrow> throw (HTTPException 401 ''Invalid admin token role.'')
                       | Some role \<Rightarrow> ret \<lparr>ap_sub = c # cs, ap_role = role\<rparr>)
                  | _ \<Rightarrow> throw (HTTPException 401 ''Invalid admin token role.''))
             | _ \<Rightarrow> throw (HTTPException 401 ''Invalid admin token claims.''))))"

definition get_admin_principal :: "('r, 'k) env \<Rightarrow> string option \<Rightarrow> settings \<Rightarrow> ('r, 'k, AdminPrincipal) hub" where
  "get_admin_principal e credentials stg =
     (case credentials of
        None \<Rightarrow> throw (HTTPException 401 ''Missing Authorization header.'')
      | Some token \<Rightarrow> authenticate_token e token stg)"

definition require_roles :: "('r, 'k) env \<Rightarrow> HubRole list \<Rightarrow> string option \<Rightarrow> settings \<Rightarrow> ('r, 'k, AdminPrincipal) hub" where
  "require_roles e allowed credentials stg =
     bindE (get_admin_principal e credentials stg) (\<lambda>principal.
     if ap_role principal \<notin> set allowed then throw (HTTPException 403 ''Insufficient role for this operation.'')
     else ret principal)"

definition RequireViewer :: "HubRole list" where "RequireViewer = [HUB_ADMIN, HUB_OPERATOR, HUB_VIEWER]"
definition RequireOperator :: "HubRole list" where "RequireOperator = [HUB_ADMIN, HUB_OPERATOR]"
definition RequireAdmin :: "HubRole list" where "RequireAdmin = [HUB_ADMIN]"

section \<open>Partner keys\<close>

definition STATUS_READ_SCOPE :: string where
  "STATUS_READ_SCOPE = ''status:read''"

definition parse_bearer_token :: "string option \<Rightarrow> string option" where
  "parse_bearer_token authorization =
     (case authorization of
        None \<Rightarrow> None
      | Some a \<Rightarrow>
          (case py_split1 (CHR '' '') a of
             [scheme, rest] \<Rightarrow>
               if py_lower scheme \<noteq> ''bearer'' then None
               else let token = py_strip rest in if token = [] then None else Some token
           | _ \<Rightarrow> None))"

text \<open>The loop over the keys with the prefix: the partner of the first key that fits.\<close>

fun scan_keys :: "('r, 'k) env \<Rightarrow> string \<Rightarrow> time \<Rightarrow> bool \<Rightarrow> partner_api_key list \<Rightarrow> exn + int" where
  "scan_keys e api_key now_dt wrong_scope [] =
     (if wrong_scope then Inl (HTTPException 403 ''API key lacks status:read scope.'')
      else Inl (HTTPException 401 ''Missing or invalid API key.''))"
| "scan_keys e api_key now_dt wrong_scope (row # rows) =
     (if ak_revoked_at row \<noteq> None then scan_keys e api_key now_dt wrong_scope rows
      else if (case ak_expires_at row of None \<Rightarrow> False | Some t \<Rightarrow> t \<le> now_dt)
        then scan_keys e api_key now_dt wrong_scope rows
      else if \<not> verify_api_key e api_key (ak_key_hash row) then scan_keys e api_key now_dt wrong_scope rows
      else if STATUS_READ_SCOPE \<notin> set (ak_scopes row) then scan_keys e api_key now_dt True rows
      else Inr (ak_partner_id row))"

definition authenticate_partner_api_key :: "('r, 'k) env \<Rightarrow> string option \<Rightarrow> ('r, 'k, int) hub" where
  "authenticate_partner_api_key e authorization =
     (case parse_bearer_token authorization of
        None \<Rightarrow> throw (HTTPException 401 ''Missing or invalid API key.'')
      | Some api_key \<Rightarrow>
          bindE (gets (\<lambda>w. filter (\<lambda>row. ak_key_prefix row = extract_prefix api_key) (db_api_keys (w_db w)))) (\<lambda>rows.
          bindE utcnow (\<lambda>now_dt.
          liftE (scan_keys e api_key now_dt False rows))))"

definition to_status_response :: "delivery \<Rightarrow> PartnerDeliveryStatusResponse" where
  "to_status_response d = \<lparr>ds_id = d_public_id d, ds_status = d_status d, ds_event_type = d_event_type d,
     ds_attempt_count = d_attempt_count d, ds_last_error_code = d_last_error_code d,
     ds_sla_breached = d_sla_breached d, ds_first_success_at = d_first_success_at d\<rparr>"

definition get_delivery_status ::
  "('r, 'k) env \<Rightarrow> string option \<Rightarrow> uuid \<Rightarrow> ('r, 'k, PartnerDeliveryStatusResponse) hub" where
  "get_delivery_status e authorization delivery_id =
     bindE (authenticate_partner_api_key e authorization) (\<lambda>auth_partner_id.
     bindE (gets (\<lambda>w. filter (\<lambda>d. d_public_id d = delivery_id) (db_deliveries (w_db w)))) (\<lambda>rows.
     bindE (one_or_none rows) (\<lambda>found.
     case found of
       None \<Rightarrow> throw (HTTPException 404 ''Delivery not found.'')
     | Some d \<Rightarrow> if d_partner_id d \<noteq> auth_partner_id then throw (HTTPException 404 ''Delivery not found.'')
                 else ret (to_status_response d))))"

section \<open>Middlewares and errors\<close>

definition resolve_correlation_id :: "('r, 'k) env \<Rightarrow> string option \<Rightarrow> ('r, 'k, string) hub" where
  "resolve_correlation_id e raw =
     (if (case raw of None \<Rightarrow> True | Some s \<Rightarrow> py_strip s = []) then
        bindE (generate_uuidv7 e) (\<lambda>u. ret (str_uuid u))
      else (case uuid_parse (the raw) of
              None \<Rightarrow> throw (RequestValidationError ''X-Correlation-Id'')
            | Some parsed \<Rightarrow>
                if uuid_version parsed \<noteq> Some 7 then throw (RequestValidationError ''X-Correlation-Id'')
                else ret (str_uuid parsed)))"

text \<open>The wrapped application runs with the identifier in its context; the answer carries it.\<close>

definition correlation_middleware ::
  "('r, 'k) env \<Rightarrow> string option \<Rightarrow> (string option \<Rightarrow> ('r, 'k, 'a) hub) \<Rightarrow> ('r, 'k, 'a \<times> string) hub" where
  "correlation_middleware e raw app =
     bindE (resolve_correlation_id e raw) (\<lambda>resolved.
     bindE (app (Some resolved)) (\<lambda>answer. ret (answer, resolved)))"

text \<open>The size check on the declared \<open>Content-Length\<close>; its answer is a 413.\<close>

definition payload_too_large :: exn where
  "payload_too_large = HTTPException 413 ''Request body exceeds the 256 KB payload limit''"

definition max_body_size_middleware :: "int \<Rightarrow> string option \<Rightarrow> ('r, 'k, 'a) hub \<Rightarrow> ('r, 'k, 'a) hub" where
  "max_body_size_middleware max_body_size content_length app =
     (case content_length of
        None \<Rightarrow> app
      | Some h \<Rightarrow>
          (case py_int 10 h of
             None \<Rightarrow> throw payload_too_large
           | Some declared \<Rightarrow> if declared > max_body_size then throw payload_too_large else app))"

text \<open>
  The status of the answer to an exception: the handler of the domain errors, the framework's own for
  its two exceptions, and an internal error for any other.
\<close>

definition hub_error_handler :: "exn \<Rightarrow> (int \<times> string) option" where
  "hub_error_handler x = (case x of HubExn h \<Rightarrow> Some (hub_error_status h, hub_error_detail h) | _ \<Rightarrow> None)"

definition answer_status :: "exn \<Rightarrow> int" where
  "answer_status x = (case x of HTTPException code detail \<Rightarrow> code | RequestValidationError field \<Rightarrow> 422
     | _ \<Rightarrow> (case hub_error_handler x of None \<Rightarrow> 500 | Some (code, detail) \<Rightarrow> code))"

section \<open>Internal enqueue\<close>

definition outbound_correlation :: "uuid option \<Rightarrow> string option \<Rightarrow> exn + string" where
  "outbound_correlation given context =
     (case given of
        Some u \<Rightarrow> Inr (str_uuid u)
      | None \<Rightarrow> (case context of None \<Rightarrow> Inl (HTTPException 500 ''Correlation context missing.'') | Some c \<Rightarrow> Inr c))"

definition create_outbound_event ::
  "('r, 'k) env \<Rightarrow> settings \<Rightarrow> string option \<Rightarrow> string option \<Rightarrow> OutboundEventRequest \<Rightarrow> int \<Rightarrow>
   ('r, 'k, enqueue_response) hub" where
  "create_outbound_event e stg credentials context body now =
     seqE (require_roles e RequireAdmin credentials stg)
     (bindE (liftE (validate_outbound_event body)) (\<lambda>body.
      bindE (liftE (outbound_correlation (oq_correlation_id body) context)) (\<lambda>correlation_id.
      enqueue_outbound_for_event e (oq_partner_id body) (oq_event_type body) (oq_payload body)
        (case oq_idempotency_key body of None \<Rightarrow> [] | Some k \<Rightarrow> k) correlation_id (utc_now_from_timestamp now))))"

section \<open>Who gets through\<close>

lemma authenticate_token_state: "snd (authenticate_token e token stg w) = w"
  by (auto simp: authenticate_token_def bindE_run utcnow_apply throw_apply ret_apply
      split: option.splits json.splits list.splits)

lemma require_roles_state: "snd (require_roles e allowed creds stg w) = w"
proof -
  have "snd (get_admin_principal e creds stg w) = w"
    using authenticate_token_state by (auto simp: get_admin_principal_def throw_apply split: option.splits)
  then show ?thesis
    by (cases "get_admin_principal e creds stg w")
      (auto simp: require_roles_def bindE_run throw_apply ret_apply split: sum.splits)
qed

lemma require_roles_neutral [keep_intros]: "keeps I (require_roles e allowed creds stg)"
  by (rule keepsI) (simp add: require_roles_state)

text \<open>A token that names a principal: the bootstrap token, or one the library accepts with these claims.\<close>

definition token_names :: "('r, 'k) env \<Rightarrow> settings \<Rightarrow> time \<Rightarrow> string \<Rightarrow> AdminPrincipal \<Rightarrow> bool" where
  "token_names e stg now token p \<longleftrightarrow> admin_bootstrap_token stg \<noteq> [] \<and>
     (token = admin_bootstrap_token stg \<and> p = \<lparr>ap_sub = ''bootstrap'', ap_role = HUB_ADMIN\<rparr> \<or>
      token \<noteq> admin_bootstrap_token stg \<and> ap_sub p \<noteq> [] \<and>
      (\<exists>claims. jwt_decode e token (admin_bootstrap_token stg) now = Some claims \<and>
         cl_sub claims = Some (JStr (ap_sub p)) \<and> cl_role claims = Some (JStr (hub_role_value (ap_role p)))))"

lemma hub_role_value_nonempty [simp]: "hub_role_value r \<noteq> []"
  by (cases r) simp_all

lemma authenticate_token_iff:
  "fst (authenticate_token e token stg w) = Inr p \<longleftrightarrow> token_names e stg (w_clock w) token p"
proof (cases "admin_bootstrap_token stg = [] \<or> token = admin_bootstrap_token stg")
  case True
  then show ?thesis by (auto simp: authenticate_token_def token_names_def throw_apply ret_apply)
next
  case False
  show ?thesis
  proof
    assume "fst (authenticate_token e token stg w) = Inr p"
    then obtain claims c cs d ds role where "jwt_decode e token (admin_bootstrap_token stg) (w_clock w) = Some claims"
        "cl_sub claims = Some (JStr (c # cs))" "cl_role claims = Some (JStr (d # ds))"
        "hub_role_of (d # ds) = Some role" "p = \<lparr>ap_sub = c # cs, ap_role = role\<rparr>"
      using False
      by (auto simp: authenticate_token_def bindE_run utcnow_apply throw_apply ret_apply
          split: option.splits json.splits list.splits)
    with False show "token_names e stg (w_clock w) token p"
      using hub_role_of_Some [of "d # ds" role] by (simp add: token_names_def)
  next
    assume "token_names e stg (w_clock w) token p"
    with False obtain claims c cs where cl: "jwt_decode e token (admin_bootstrap_token stg) (w_clock w) = Some claims"
        "cl_sub claims = Some (JStr (ap_sub p))" "cl_role claims = Some (JStr (hub_role_value (ap_role p)))"
        "ap_sub p = c # cs"
      by (auto simp: token_names_def neq_Nil_conv)
    obtain d ds where r: "hub_role_value (ap_role p) = d # ds" by (cases "hub_role_value (ap_role p)") auto
    then have "hub_role_of (d # ds) = Some (ap_role p)" using hub_role_of_value [of "ap_role p"] by simp
    with False cl r show "fst (authenticate_token e token stg w) = Inr p"
      by (simp add: authenticate_token_def bindE_run utcnow_apply ret_apply)
  qed
qed

text \<open>
  Access control of the admin API: a route lets a caller through exactly when the bearer token names
  a principal (the configured bootstrap token, or a token the library accepts under it with a subject
  and a known role) whose role the route allows; everyone else gets a 401 or 403, and the check
  changes nothing. What admins may do operators need not, and what operators may do viewers need not:
  the three lists are nested.
\<close>

lemma admin_access:
  "(fst (require_roles e allowed creds stg w) = Inr p \<longleftrightarrow>
      (\<exists>token. creds = Some token \<and> token_names e stg (w_clock w) token p \<and> ap_role p \<in> set allowed)) \<and>
   snd (require_roles e allowed creds stg w) = w \<and>
   (\<exists>q x. fst (require_roles e allowed creds stg w) = Inr q \<or>
      fst (require_roles e allowed creds stg w) = Inl x \<and> answer_status x \<in> {401, 403}) \<and>
   set RequireAdmin \<subset> set RequireOperator \<and> set RequireOperator \<subset> set RequireViewer"
proof -
  have errs: "\<exists>q x. fst (authenticate_token e token stg w) = Inr q \<or>
      fst (authenticate_token e token stg w) = Inl x \<and> answer_status x \<in> {401, 403}" for token
    by (auto simp: authenticate_token_def bindE_run utcnow_apply throw_apply ret_apply answer_status_def
        split: option.splits json.splits list.splits)
  have iff: "fst (require_roles e allowed creds stg w) = Inr p \<longleftrightarrow>
      (\<exists>token. creds = Some token \<and> token_names e stg (w_clock w) token p \<and> ap_role p \<in> set allowed)"
  proof (cases creds)
    case (Some token)
    then show ?thesis using authenticate_token_iff [of e token stg w p]
      by (cases "authenticate_token e token stg w")
        (auto simp: require_roles_def get_admin_principal_def bindE_run throw_apply ret_apply split: sum.splits if_splits)
  qed (simp add: require_roles_def get_admin_principal_def bindE_run throw_apply)
  have "\<exists>q x. fst (require_roles e allowed creds stg w) = Inr q \<or>
      fst (require_roles e allowed creds stg w) = Inl x \<and> answer_status x \<in> {401, 403}"
  proof (cases creds)
    case (Some token)
    then show ?thesis using errs [of token]
      by (cases "authenticate_token e token stg w")
        (auto simp: require_roles_def get_admin_principal_def bindE_run throw_apply ret_apply answer_status_def split: sum.splits)
  qed (simp add: require_roles_def get_admin_principal_def bindE_run throw_apply answer_status_def)
  with iff show ?thesis
    by (auto simp: require_roles_state RequireAdmin_def RequireOperator_def RequireViewer_def)
qed

section \<open>What a partner sees\<close>

lemma scan_keys_found:
  "scan_keys e key now wrong rows = Inr pid \<Longrightarrow> \<exists>row \<in> set rows. ak_partner_id row = pid \<and> ak_revoked_at row = None \<and>
     (case ak_expires_at row of None \<Rightarrow> True | Some t \<Rightarrow> now < t) \<and> verify_api_key e key (ak_key_hash row) \<and>
     STATUS_READ_SCOPE \<in> set (ak_scopes row)"
  by (induction rows arbitrary: wrong) (auto split: if_splits option.splits)

lemma scan_keys_refused: "scan_keys e key now wrong rows = Inl x \<Longrightarrow> answer_status x \<in> {401, 403}"
  by (induction rows arbitrary: wrong) (auto simp: answer_status_def split: if_splits option.splits)

text \<open>
  C29. Isolation of partners: a status answer comes only from a request with an unrevoked, unexpired API
  key that carries \<open>status:read\<close>, and it describes a delivery of that key's own partner; without such a
  key the answer is a 401 or 403, and a delivery of another partner is a 404, as one that does not
  exist. The route changes nothing.
\<close>

theorem partner_isolation:
  assumes "get_delivery_status e authorization u w = (r, w')"
  shows "w' = w \<and> (case r of
      Inr resp \<Rightarrow> \<exists>key row d. parse_bearer_token authorization = Some key \<and> row \<in> set (db_api_keys (w_db w)) \<and>
        ak_key_prefix row = extract_prefix key \<and> ak_revoked_at row = None \<and>
        (case ak_expires_at row of None \<Rightarrow> True | Some t \<Rightarrow> w_clock w < t) \<and>
        verify_api_key e key (ak_key_hash row) \<and> STATUS_READ_SCOPE \<in> set (ak_scopes row) \<and>
        d \<in> set (db_deliveries (w_db w)) \<and> d_public_id d = u \<and> d_partner_id d = ak_partner_id row \<and>
        resp = to_status_response d
    | Inl x \<Rightarrow> x = MultipleResultsFound \<or> answer_status x \<in> {401, 403, 404})"
proof (cases "parse_bearer_token authorization")
  case None
  with assms show ?thesis
    by (auto simp: get_delivery_status_def authenticate_partner_api_key_def bindE_run throw_apply answer_status_def)
next
  case (Some key)
  let ?rows = "filter (\<lambda>row. ak_key_prefix row = extract_prefix key) (db_api_keys (w_db w))"
  let ?ds = "filter (\<lambda>d. d_public_id d = u) (db_deliveries (w_db w))"
  show ?thesis
  proof (cases "scan_keys e key (w_clock w) False ?rows")
    case (Inl x)
    with Some assms scan_keys_refused [OF Inl] show ?thesis
      by (auto simp: get_delivery_status_def authenticate_partner_api_key_def bindE_run gets_apply utcnow_apply liftE_apply)
  next
    case (Inr pid)
    from scan_keys_found [OF Inr] obtain row where row: "row \<in> set ?rows" "ak_partner_id row = pid" "ak_revoked_at row = None"
        "case ak_expires_at row of None \<Rightarrow> True | Some t \<Rightarrow> w_clock w < t" "verify_api_key e key (ak_key_hash row)"
        "STATUS_READ_SCOPE \<in> set (ak_scopes row)" by blast
    have run: "(r, w') = (case ?ds of
          [] \<Rightarrow> (Inl (HTTPException 404 ''Delivery not found.''), w)
        | [d] \<Rightarrow> (if d_partner_id d \<noteq> pid then Inl (HTTPException 404 ''Delivery not found.'') else Inr (to_status_response d), w)
        | _ \<Rightarrow> (Inl MultipleResultsFound, w))"
      using assms Some Inr
      by (auto simp: get_delivery_status_def authenticate_partner_api_key_def bindE_run gets_apply utcnow_apply liftE_apply
          one_or_none_def ret_apply throw_apply split: list.splits)
    show ?thesis
    proof (cases "\<exists>d. ?ds = [d] \<and> d_partner_id d = pid")
      case True
      then obtain d where d: "?ds = [d]" "d_partner_id d = pid" by blast
      then have "d \<in> set ?ds" by simp
      then have "d \<in> set (db_deliveries (w_db w))" "d_public_id d = u" by simp_all
      moreover from run d have "r = Inr (to_status_response d)" "w' = w" by simp_all
      ultimately show ?thesis using row d(2) Some
        by (auto intro!: exI [of _ row] exI [of _ d])
    next
      case False
      with run show ?thesis by (auto simp: answer_status_def split: list.splits if_splits)
    qed
  qed
qed

text \<open>A key of the sample partner with the scope, and one of its deliveries.\<close>

definition status_key :: partner_api_key where
  "status_key = \<lparr>ak_id = 6, ak_partner_id = 1, ak_key_prefix = ''pk_live_acme'', ak_key_hash = ''pk_live_acme'',
     ak_scopes = [STATUS_READ_SCOPE], ak_expires_at = None, ak_revoked_at = None, ak_created_at = 0\<rparr>"

definition status_world :: "(mem_redis, message list) world" where
  "status_world = (let db = sample_db\<lparr>db_api_keys := [status_key], db_deliveries := [sample_delivery DELIVERED 1]\<rparr>
     in sample_world\<lparr>w_committed := db, w_db := db\<rparr>)"

lemma partner_isolation_witness:
  "get_delivery_status mem_env (Some ''bearer pk_live_acme'') (d_public_id (sample_delivery DELIVERED 1)) status_world =
     (Inr (to_status_response (sample_delivery DELIVERED 1)), status_world) \<and> d_partner_id (sample_delivery DELIVERED 1) = 1"
proof -
  let ?u = "d_public_id (sample_delivery DELIVERED 1)"
  have b: "parse_bearer_token (Some ''bearer pk_live_acme'') = Some ''pk_live_acme''"
    by (simp add: parse_bearer_token_def py_lower_def lower_char_def py_strip_def is_space_def Let_def)
  have run: "get_delivery_status mem_env (Some ''bearer pk_live_acme'') ?u status_world =
      (Inr (to_status_response (sample_delivery DELIVERED 1)), status_world)"
    by (simp add: get_delivery_status_def authenticate_partner_api_key_def b bindE_run gets_apply utcnow_apply liftE_apply
        one_or_none_def ret_apply status_world_def status_key_def sample_delivery_def verify_api_key_def extract_prefix_def
        build_pending_delivery_def Let_def sample_defs)
  from partner_isolation [OF run] run show ?thesis
    by (simp add: status_world_def status_key_def sample_delivery_def build_pending_delivery_def Let_def sample_defs)
qed

section \<open>Correlation identifiers\<close>

lemma strip_str_uuid: "py_strip (str_uuid u) = str_uuid u"
proof -
  have "\<not> is_space c" if "c \<in> set (str_uuid u)" for c
    using str_uuid_chars [OF that] hex_char_neq(4) [of c] by (auto simp: is_space_def)
  then have "dropWhile is_space (str_uuid u) = str_uuid u" "dropWhile is_space (rev (str_uuid u)) = rev (str_uuid u)"
    by (auto intro: dropWhile_all_false)
  then show ?thesis by (simp add: py_strip_def)
qed

lemma str_uuid_nonempty [simp]: "str_uuid u \<noteq> []"
  using length_str_uuid [of u] by (metis list.size(3) zero_neq_numeral)

lemma resolve_str_uuid: "uuid_version u = Some 7 \<Longrightarrow> resolve_correlation_id e (Some (str_uuid u)) w = (Inr (str_uuid u), w)"
  by (simp add: resolve_correlation_id_def ret_apply strip_str_uuid)

text \<open>
  Correlation: a header that is accepted is a version 7 UUID and is passed on in its canonical form,
  which the hub accepts again as it stands; a header that is no such UUID is refused with a 422, and the
  application behind the middleware does not run.
\<close>

lemma correlation_resolved:
  assumes "resolve_correlation_id e (Some raw) w = (r, w')" and "py_strip raw \<noteq> []"
  shows "w' = w \<and> (case r of
      Inr s \<Rightarrow> (\<exists>u. uuid_parse raw = Some u \<and> uuid_version u = Some 7 \<and> s = str_uuid u) \<and>
        resolve_correlation_id e (Some s) w = (Inr s, w)
    | Inl x \<Rightarrow> answer_status x = 422 \<and> (\<nexists>u. uuid_parse raw = Some u \<and> uuid_version u = Some 7) \<and>
        correlation_middleware e (Some raw) app w = (Inl x, w))"
proof (cases "\<exists>u. uuid_parse raw = Some u \<and> uuid_version u = Some 7")
  case True
  with assms show ?thesis using strip_str_uuid by (auto simp: resolve_correlation_id_def ret_apply)
next
  case False
  with assms(2) have bad: "resolve_correlation_id e (Some raw) w = (Inl (RequestValidationError ''X-Correlation-Id''), w)"
    by (auto simp: resolve_correlation_id_def throw_apply split: option.splits)
  with assms(1) False show ?thesis
    by (auto simp: correlation_middleware_def bindE_run answer_status_def)
qed

lemma correlation_resolved_witness:
  "resolve_correlation_id mem_env (Some (str_uuid 528914269453437118709760)) sample_world = (Inr (str_uuid 528914269453437118709760), sample_world) \<and>
   fst (correlation_middleware mem_env (Some ''x'') (\<lambda>_. ret ()) sample_world) = Inl (RequestValidationError ''X-Correlation-Id'')"
proof -
  have v: "uuid_version (528914269453437118709760 :: uuid) = Some 7" by (simp add: uuid_version_def)
  have "uuid_parse ''x'' = None" by (simp add: uuid_parse_def uuid_hex_def py_startswith_def)
  then have x: "resolve_correlation_id mem_env (Some ''x'') sample_world = (Inl (RequestValidationError ''X-Correlation-Id''), sample_world)"
    by (simp add: resolve_correlation_id_def throw_apply py_strip_def is_space_def)
  have "py_strip ''x'' \<noteq> []" by (simp add: py_strip_def is_space_def)
  from correlation_resolved [OF x this, where app = "\<lambda>_. ret ()"]
    correlation_resolved [OF resolve_str_uuid [OF v, of mem_env sample_world], where app = "\<lambda>_. ret ()"]
  show ?thesis by (simp add: strip_str_uuid)
qed

end
