(* ===== verification/Inbound.thy ===== *)
theory Inbound
  imports ApiAuth RateLimit
begin

text \<open>
  Inbound webhooks: the idempotency helpers (\<open>app/domain/services/idempotency.py\<close>) and the ingestion
  endpoint (\<open>app/api/v1/inbound/events.py\<close>) with its checks in the order the code makes them. A raised
  \<open>HTTPException\<close> is the error answer; any other exception is an internal error. The lemmas show that
  an accepted event was authentic and is stored once, together with its outbox message.
\<close>

section \<open>Idempotency\<close>

definition IDEMPOTENCY_PREFIX :: string where
  "IDEMPOTENCY_PREFIX = ''inbound:idempotency:''"

definition idempotency_redis_key :: "int \<Rightarrow> string \<Rightarrow> string" where
  "idempotency_redis_key partner_id idempotency_key =
     IDEMPOTENCY_PREFIX @ str_int partner_id @ '':'' @ idempotency_key"

definition get_cached_event_id :: "('r, 'k) env \<Rightarrow> int \<Rightarrow> string \<Rightarrow> ('r, 'k, uuid option) hub" where
  "get_cached_event_id e partner_id idempotency_key =
     (case redis e of
        None \<Rightarrow> ret None
      | Some ops \<Rightarrow>
          bindE (call_redis (\<lambda>t. redis_get ops t (idempotency_redis_key partner_id idempotency_key))) (\<lambda>raw.
          case raw of
            None \<Rightarrow> ret None
          | Some (RText s) \<Rightarrow> bindE (liftE (uuid_of (JStr s))) (\<lambda>u. ret (Some u))
          | Some (RNum _) \<Rightarrow> throw (ValueError ''UUID'')))"

definition cache_event_id :: "('r, 'k) env \<Rightarrow> int \<Rightarrow> string \<Rightarrow> uuid \<Rightarrow> int \<Rightarrow> ('r, 'k, unit) hub" where
  "cache_event_id e partner_id idempotency_key event_id ttl_seconds =
     (case redis e of
        None \<Rightarrow> ret ()
      | Some ops \<Rightarrow>
          seqE (call_redis (\<lambda>t. redis_set ops t (idempotency_redis_key partner_id idempotency_key)
                  (RText (str_uuid event_id)) False (Some ttl_seconds)))
          (ret ()))"

definition inbound_by_key :: "int \<Rightarrow> string \<Rightarrow> database \<Rightarrow> inbound_event list" where
  "inbound_by_key partner_id idempotency_key db =
     filter (\<lambda>ie. ie_partner_id ie = partner_id \<and> ie_idempotency_key ie = idempotency_key) (db_inbound_events db)"

definition fetch_event_id_by_idempotency :: "int \<Rightarrow> string \<Rightarrow> ('r, 'k, uuid option) hub" where
  "fetch_event_id_by_idempotency partner_id idempotency_key =
     bindE (gets (\<lambda>w. map ie_id (inbound_by_key partner_id idempotency_key (w_db w)))) one_or_none"

definition fetch_inbound_event_by_idempotency :: "int \<Rightarrow> string \<Rightarrow> ('r, 'k, inbound_event option) hub" where
  "fetch_inbound_event_by_idempotency partner_id idempotency_key =
     bindE (gets (\<lambda>w. inbound_by_key partner_id idempotency_key (w_db w))) one_or_none"

section \<open>The checks\<close>

definition ALLOWED_EVENT_TYPES :: "string list" where
  "ALLOWED_EVENT_TYPES = [''order.created'', ''order.updated'']"

definition INBOUND_WRITE_SCOPE :: string where
  "INBOUND_WRITE_SCOPE = ''inbound:write''"

definition parse_bearer :: "string option \<Rightarrow> string option" where
  "parse_bearer authorization =
     (case authorization of
        None \<Rightarrow> None
      | Some a \<Rightarrow>
          (case py_split1 (CHR '' '') a of
             [scheme, rest] \<Rightarrow>
               if py_lower scheme \<noteq> ''bearer'' then None
               else let token = py_strip rest in if token = [] then None else Some token
           | _ \<Rightarrow> None))"

definition load_partner :: "string \<Rightarrow> ('r, 'k, partner) hub" where
  "load_partner partner_slug =
     bindE (gets (\<lambda>w. filter (\<lambda>p. p_slug p = partner_slug) (db_partners (w_db w)))) (\<lambda>rows.
     bindE (one_or_none rows) (\<lambda>found.
     case found of
       None \<Rightarrow> throw (HTTPException 404 ''Partner not found or inactive.'')
     | Some p \<Rightarrow> if p_status p \<noteq> PartnerStatus.ACTIVE
                 then throw (HTTPException 404 ''Partner not found or inactive.'') else ret p))"

definition bad_signature :: exn where
  "bad_signature = HTTPException 403 ''Missing or invalid HMAC signature or timestamp.''"

definition verify_timestamp :: "string option \<Rightarrow> int \<Rightarrow> int \<Rightarrow> exn + unit" where
  "verify_timestamp timestamp_header now tolerance =
     (case timestamp_header of
        None \<Rightarrow> Inl bad_signature
      | Some h \<Rightarrow>
          (case py_int 10 h of
             None \<Rightarrow> Inl bad_signature
           | Some ts \<Rightarrow> if \<bar>now - ts\<bar> > tolerance
                        then Inl (HTTPException 403 ''Request timestamp outside allowed skew window.'')
                        else Inr ()))"

definition verify_hmac ::
  "('r, 'k) env \<Rightarrow> settings \<Rightarrow> partner \<Rightarrow> string \<Rightarrow> bytes \<Rightarrow> string option \<Rightarrow> int \<Rightarrow> ('r, 'k, unit) hub" where
  "verify_hmac e stg p timestamp body signature_header now =
     (case signature_header of
        None \<Rightarrow> throw bad_signature
      | Some header \<Rightarrow>
          bindE (load_inbound_signing_secrets e p stg (Some (now * us_per_second))) (\<lambda>(secret, previous_secret).
          case secret of
            None \<Rightarrow> throw bad_signature
          | Some s \<Rightarrow>
              bindE (liftE (verify s timestamp body header now (hub_inbound_timestamp_tolerance stg) previous_secret)) (\<lambda>ok.
              if ok then ret () else throw (HTTPException 403 ''Invalid HMAC signature.''))))"

definition key_usable :: "('r, 'k) env \<Rightarrow> string \<Rightarrow> time \<Rightarrow> partner_api_key \<Rightarrow> bool" where
  "key_usable e api_key now_dt row \<longleftrightarrow>
     (case ak_expires_at row of None \<Rightarrow> True | Some t \<Rightarrow> \<not> t \<le> now_dt) \<and>
     INBOUND_WRITE_SCOPE \<in> set (ak_scopes row) \<and> verify_api_key e api_key (ak_key_hash row)"

definition check_api_key :: "('r, 'k) env \<Rightarrow> partner \<Rightarrow> string option \<Rightarrow> ('r, 'k, unit) hub" where
  "check_api_key e p api_key =
     (case api_key of
        None \<Rightarrow> throw (HTTPException 401 ''Missing or invalid API key.'')
      | Some key \<Rightarrow>
          bindE (gets (\<lambda>w. filter (\<lambda>row. ak_key_prefix row = extract_prefix key \<and> ak_partner_id row = p_id p \<and>
                             ak_revoked_at row = None) (db_api_keys (w_db w)))) (\<lambda>rows.
          bindE utcnow (\<lambda>now_dt.
          if list_ex (key_usable e key now_dt) rows then ret ()
          else throw (HTTPException 401 ''Missing or invalid API key.''))))"

text \<open>The parsed body: event type and payload.\<close>

definition parse_event_body :: "('r, 'k) env \<Rightarrow> bytes \<Rightarrow> exn + string \<times> json" where
  "parse_event_body e body =
     (case json_loads e body of
        UnicodeDecodeError \<Rightarrow> Inl (ValueError ''UnicodeDecodeError'')
      | JSONDecodeError \<Rightarrow> Inl (HTTPException 422 ''Invalid JSON body.'')
      | Parsed parsed \<Rightarrow>
          (case parsed of
             JObj kvs \<Rightarrow>
               (case (map_of kvs ''event_type'', map_of kvs ''payload'') of
                  (Some (JStr event_type), Some (JObj payload)) \<Rightarrow>
                    if event_type \<notin> set ALLOWED_EVENT_TYPES
                    then Inl (HTTPException 422 (''Unsupported event_type: '' @ event_type))
                    else Inr (event_type, JObj payload)
                | _ \<Rightarrow> Inl (HTTPException 422 ''Invalid event schema.''))
           | _ \<Rightarrow> Inl (HTTPException 422 ''Invalid JSON body.'')))"

section \<open>Ingestion\<close>

record inbound_request =
  ir_body :: bytes
  ir_partner_slug :: string
  ir_authorization :: "string option"
  ir_signature :: "string option"
  ir_timestamp :: "string option"
  ir_idempotency_key :: "string option"
  ir_correlation_id :: "string option"

datatype inbound_response =
    InboundEventAcceptedResponse uuid
  | InboundEventDuplicateResponse uuid

definition finalize_accepted_inbound ::
  "('r, 'k) env \<Rightarrow> partner \<Rightarrow> inbound_event \<Rightarrow> string \<Rightarrow> string \<Rightarrow> settings \<Rightarrow> ('r, 'k, inbound_response) hub" where
  "finalize_accepted_inbound e p inbound event_type idempotency_key stg =
     seqE (cache_event_id e (p_id p) idempotency_key (ie_id inbound) (hub_idempotency_ttl_hours stg * 3600))
     (seqE (record_delivery_metric ''hub_inbound_events_total''
              [(''partner_slug'', p_slug p), (''event_type'', event_type)] 1)
     (ret (InboundEventAcceptedResponse (ie_id inbound))))"

definition record_duplicate :: "partner \<Rightarrow> uuid \<Rightarrow> ('r, 'k, inbound_response) hub" where
  "record_duplicate p event_id =
     seqE (record_delivery_metric ''hub_inbound_duplicate_suppressed_total'' [(''partner_slug'', p_slug p)] 1)
     (ret (InboundEventDuplicateResponse event_id))"

text \<open>Everything up to the parsed body: who is calling, and may they.\<close>

definition authenticate_inbound ::
  "('r, 'k) env \<Rightarrow> settings \<Rightarrow> inbound_request \<Rightarrow> int \<Rightarrow> ('r, 'k, partner) hub" where
  "authenticate_inbound e stg rq now =
     bindE (load_partner (ir_partner_slug rq)) (\<lambda>p.
     seqE (liftE (verify_timestamp (ir_timestamp rq) now (hub_inbound_timestamp_tolerance stg)))
     (seqE (verify_hmac e stg p (case ir_timestamp rq of None \<Rightarrow> [] | Some t \<Rightarrow> t) (ir_body rq) (ir_signature rq) now)
     (seqE (check_api_key e p (parse_bearer (ir_authorization rq)))
     (bindE (allow_request e (p_slug p) (p_rate_limit_rps p)) (\<lambda>allowed.
      if \<not> allowed then
        seqE (record_delivery_metric ''hub_rate_limit_rejected_total'' [(''partner_slug'', p_slug p)] 1)
             (throw (HTTPException 429 ''Rate limit exceeded.''))
      else ret p)))))"

definition check_inbound_schema :: "('r, 'k) env \<Rightarrow> string \<Rightarrow> json \<Rightarrow> ('r, 'k, unit) hub" where
  "check_inbound_schema e event_type payload =
     bindE (fetch_latest_active_schema event_type) (\<lambda>schema_row.
     catchE (validate_payload e event_type payload schema_row)
       (\<lambda>x. if x = SchemaValidationError
            then throw (HTTPException 422 ''payload does not match registered schema'') else throw x))"

text \<open>The insert with its flush, which a stored key makes an \<open>IntegrityError\<close>.\<close>

definition store_inbound ::
  "('r, 'k) env \<Rightarrow> partner \<Rightarrow> string \<Rightarrow> string \<Rightarrow> json \<Rightarrow> bytes \<Rightarrow> time \<Rightarrow> string \<Rightarrow> ('r, 'k, inbound_event) hub" where
  "store_inbound e p idempotency_key event_type payload raw_body received_at correlation_id =
     bindE (generate_uuidv7 e) (\<lambda>u.
     let inbound = \<lparr>ie_id = u, ie_partner_id = p_id p, ie_idempotency_key = idempotency_key,
           ie_event_type = event_type, ie_payload = payload, ie_payload_hash = sha256_hexdigest raw_body,
           ie_signature_valid = True, ie_signing_secret_version = None, ie_received_at = received_at,
           ie_published_at = None, ie_correlation_id = correlation_id\<rparr> in
     seqE (update_db (\<lambda>db. db\<lparr>db_inbound_events := db_inbound_events db @ [inbound]\<rparr>))
     (seqE flush (ret inbound)))"

text \<open>
  The handler of the \<open>IntegrityError\<close>. The partner was loaded in this session, so that reading
  \<open>partner.id\<close> for the lookup fails; what follows it is the code's, and is never reached.
\<close>

definition inbound_conflict :: "partner \<Rightarrow> string \<Rightarrow> ('r, 'k, inbound_response) hub" where
  "inbound_conflict p idempotency_key =
     seqE rollback
     (seqE (read_after_rollback True)
     (bindE (fetch_inbound_event_by_idempotency (p_id p) idempotency_key) (\<lambda>existing.
      case existing of
        None \<Rightarrow> throw (HTTPException 409 ''Idempotency conflict; retry.'')
      | Some ie \<Rightarrow> record_duplicate p (ie_id ie))))"

definition accept_inbound ::
  "('r, 'k) env \<Rightarrow> settings \<Rightarrow> partner \<Rightarrow> string \<Rightarrow> string \<Rightarrow> json \<Rightarrow> time \<Rightarrow> string \<Rightarrow> inbound_event \<Rightarrow>
   ('r, 'k, inbound_response) hub" where
  "accept_inbound e stg p idempotency_key event_type payload received_at correlation_id inbound =
     seqE (enqueue_outbox ''inbound_event'' (p_id p) (inbound_topic event_type)
             (build_inbound_envelope (ie_id inbound) (p_public_id p) event_type payload idempotency_key
                correlation_id received_at)
             (str_uuid (p_public_id p)))
     (seqE commit
     (finalize_accepted_inbound e p inbound event_type idempotency_key stg))"

definition persist_inbound ::
  "('r, 'k) env \<Rightarrow> settings \<Rightarrow> partner \<Rightarrow> string \<Rightarrow> string \<Rightarrow> json \<Rightarrow> bytes \<Rightarrow> time \<Rightarrow> string \<Rightarrow>
   ('r, 'k, inbound_response) hub" where
  "persist_inbound e stg p idempotency_key event_type payload raw_body received_at correlation_id =
     (\<lambda>w. case store_inbound e p idempotency_key event_type payload raw_body received_at correlation_id w of
        (Inl IntegrityError, w') \<Rightarrow> inbound_conflict p idempotency_key w'
      | (Inl x, w') \<Rightarrow> (Inl x, w')
      | (Inr inbound, w') \<Rightarrow>
          accept_inbound e stg p idempotency_key event_type payload received_at correlation_id inbound w')"

definition ingest_event ::
  "('r, 'k) env \<Rightarrow> settings \<Rightarrow> inbound_request \<Rightarrow> int \<Rightarrow> ('r, 'k, inbound_response) hub" where
  "ingest_event e stg rq now =
     (case ir_idempotency_key rq of
        None \<Rightarrow> throw (HTTPException 422 ''Idempotency-Key header is required.'')
      | Some raw_key \<Rightarrow>
          if py_strip raw_key = [] then throw (HTTPException 422 ''Idempotency-Key header is required.'')
          else let idempotency_key = py_strip raw_key in
          bindE (authenticate_inbound e stg rq now) (\<lambda>p.
          bindE (liftE (parse_event_body e (ir_body rq))) (\<lambda>(event_type, payload).
          seqE (check_inbound_schema e event_type payload)
          (case ir_correlation_id rq of
             None \<Rightarrow> throw (HTTPException 500 ''Correlation context missing.'')
           | Some correlation_id \<Rightarrow>
               bindE utcnow (\<lambda>received_at.
               bindE (get_cached_event_id e (p_id p) idempotency_key) (\<lambda>cached_id.
               case cached_id of
                 Some u \<Rightarrow> record_duplicate p u
               | None \<Rightarrow> persist_inbound e stg p idempotency_key event_type payload (ir_body rq)
                           received_at correlation_id))))))"

definition inbound_endpoint ::
  "('r, 'k) env \<Rightarrow> settings \<Rightarrow> inbound_request \<Rightarrow> int \<Rightarrow> ('r, 'k, inbound_response) hub" where
  "inbound_endpoint e stg rq now = with_session (ingest_event e stg rq now)"

section \<open>What the checks establish\<close>

lemma load_partner_run:
  assumes "load_partner slug w = (r, w')"
  shows "w' = w" "r = Inr p \<Longrightarrow> p \<in> set (db_partners (w_db w)) \<and> p_slug p = slug \<and> p_status p = PartnerStatus.ACTIVE"
proof -
  let ?rows = "filter (\<lambda>p. p_slug p = slug) (db_partners (w_db w))"
  have run: "load_partner slug w = (case ?rows of
      [q] \<Rightarrow> (if p_status q \<noteq> PartnerStatus.ACTIVE then Inl (HTTPException 404 ''Partner not found or inactive.'') else Inr q, w)
    | [] \<Rightarrow> (Inl (HTTPException 404 ''Partner not found or inactive.''), w) | _ \<Rightarrow> (Inl MultipleResultsFound, w))"
    by (auto simp: load_partner_def bindE_run gets_apply one_or_none_def ret_apply throw_apply split: list.splits)
  show "w' = w" using assms run by (auto split: list.splits)
  show "p \<in> set (db_partners (w_db w)) \<and> p_slug p = slug \<and> p_status p = PartnerStatus.ACTIVE" if "r = Inr p"
  proof -
    have "?rows = [p] \<and> p_status p = PartnerStatus.ACTIVE"
      using assms run that by (auto split: list.splits if_splits)
    moreover from this have "set ?rows = {p}" by simp
    ultimately show ?thesis by (metis (mono_tags, lifting) filter_is_subset insertI1 mem_Collect_eq set_filter)
  qed
qed

lemma load_secrets_state: "snd (load_inbound_signing_secrets e p stg t w) = w"
  by (auto simp: load_inbound_signing_secrets_def fetch_primary_row_def fetch_previous_rows_def one_or_none_def
      bindE_run gets_apply ret_apply throw_apply utcnow_apply split: option.splits sum.splits list.splits)

text \<open>
  A request is authentic for a partner: the partner is active and named by the path, the timestamp is
  in the window, the signature is that of the raw body under a current secret, and the bearer token
  is an unrevoked, unexpired key of the partner with the write scope.
\<close>

definition authentic ::
  "('r, 'k) env \<Rightarrow> settings \<Rightarrow> inbound_request \<Rightarrow> int \<Rightarrow> ('r, 'k) world \<Rightarrow> partner \<Rightarrow> bool" where
  "authentic e stg rq now w p \<longleftrightarrow>
     p \<in> set (db_partners (w_db w)) \<and> p_slug p = ir_partner_slug rq \<and> p_status p = PartnerStatus.ACTIVE \<and>
     (\<exists>ts n sig s prev. ir_timestamp rq = Some ts \<and> py_int 10 ts = Some n \<and>
        \<bar>now - n\<bar> \<le> hub_inbound_timestamp_tolerance stg \<and> ir_signature rq = Some sig \<and>
        fst (load_inbound_signing_secrets e p stg (Some (now * us_per_second)) w) = Inr (Some s, prev) \<and>
        (sig = sign s ts (ir_body rq) \<or> (\<exists>q. prev = Some q \<and> sig = sign q ts (ir_body rq)))) \<and>
     (\<exists>key row. parse_bearer (ir_authorization rq) = Some key \<and> row \<in> set (db_api_keys (w_db w)) \<and>
        ak_partner_id row = p_id p \<and> ak_key_prefix row = extract_prefix key \<and> ak_revoked_at row = None \<and>
        key_usable e key (w_clock w) row)"

lemma verify_hmac_run:
  assumes "verify_hmac e stg p ts body sig now w = (r, w')"
  shows "w' = w" "r = Inr () \<Longrightarrow> \<exists>n h s prev. sig = Some h \<and> py_int 10 ts = Some n \<and>
     \<bar>now - n\<bar> \<le> hub_inbound_timestamp_tolerance stg \<and>
     fst (load_inbound_signing_secrets e p stg (Some (now * us_per_second)) w) = Inr (Some s, prev) \<and>
     (h = sign s ts body \<or> (\<exists>q. prev = Some q \<and> h = sign q ts body))"
proof -
  obtain x where l: "load_inbound_signing_secrets e p stg (Some (now * us_per_second)) w = (x, w)"
    using load_secrets_state [of e p stg "Some (now * us_per_second)" w] by (metis prod.collapse)
  show "w' = w"
    using assms l by (auto simp: verify_hmac_def bindE_run liftE_apply ret_apply throw_apply
        split: option.splits sum.splits prod.splits if_splits)
  show "\<exists>n h s prev. sig = Some h \<and> py_int 10 ts = Some n \<and>
     \<bar>now - n\<bar> \<le> hub_inbound_timestamp_tolerance stg \<and>
     fst (load_inbound_signing_secrets e p stg (Some (now * us_per_second)) w) = Inr (Some s, prev) \<and>
     (h = sign s ts body \<or> (\<exists>q. prev = Some q \<and> h = sign q ts body))" if ok: "r = Inr ()"
  proof -
    obtain h s prev where "sig = Some h" "x = Inr (Some s, prev)"
        "verify s ts body h now (hub_inbound_timestamp_tolerance stg) prev = Inr True"
      using assms ok l by (auto simp: verify_hmac_def bindE_run liftE_apply ret_apply throw_apply
          split: option.splits sum.splits prod.splits if_splits)
    then show ?thesis using l verify_true_iff [of s ts body h now "hub_inbound_timestamp_tolerance stg" prev] by auto
  qed
qed

lemma check_api_key_run:
  assumes "check_api_key e p api_key w = (r, w')"
  shows "w' = w" "r = Inr () \<Longrightarrow> \<exists>key row. api_key = Some key \<and> row \<in> set (db_api_keys (w_db w)) \<and>
     ak_partner_id row = p_id p \<and> ak_key_prefix row = extract_prefix key \<and> ak_revoked_at row = None \<and>
     key_usable e key (w_clock w) row"
  using assms by (auto simp: check_api_key_def bindE_run gets_apply utcnow_apply ret_apply throw_apply list_ex_iff
      split: option.splits if_splits)

lemma authenticate_run:
  assumes "authenticate_inbound e stg rq now w = (r, w')"
  shows "w_db w' = w_db w \<and> w_committed w' = w_committed w" "r = Inr p \<Longrightarrow> authentic e stg rq now w p"
proof -
  have "keeps (on_db J) (load_partner slug)" for J slug
    using load_partner_run(1) by (metis keepsI prod.collapse)
  moreover have "keeps (on_db J) (verify_hmac e stg q ts body sig now)" for J q ts body sig
    using verify_hmac_run(1) by (metis keepsI prod.collapse)
  moreover have "keeps (on_db J) (check_api_key e q k)" for J q k
    using check_api_key_run(1) by (metis keepsI prod.collapse)
  ultimately have "keeps (on_db J) (authenticate_inbound e stg rq now)" for J
    unfolding authenticate_inbound_def by (intro keep_intros)
  from keepsD [OF this, of "\<lambda>c d. c = w_committed w \<and> d = w_db w" w] assms
  show "w_db w' = w_db w \<and> w_committed w' = w_committed w" by (simp add: on_db_def)
  show "authentic e stg rq now w p" if ok: "r = Inr p"
  proof -
    let ?ts = "case ir_timestamp rq of None \<Rightarrow> [] | Some t \<Rightarrow> t"
    obtain r1 where l: "load_partner (ir_partner_slug rq) w = (r1, w)" using load_partner_run(1) by (metis prod.collapse)
    then obtain q where q: "r1 = Inr q" using assms ok by (cases r1) (auto simp: authenticate_inbound_def bindE_run)
    obtain r2 where h: "verify_hmac e stg q ?ts (ir_body rq) (ir_signature rq) now w = (r2, w)"
      using verify_hmac_run(1) by (metis prod.collapse)
    obtain r3 where k: "check_api_key e q (parse_bearer (ir_authorization rq)) w = (r3, w)"
      using check_api_key_run(1) by (metis prod.collapse)
    have vt: "verify_timestamp (ir_timestamp rq) now (hub_inbound_timestamp_tolerance stg) = Inr ()"
      and r: "r2 = Inr ()" "r3 = Inr ()" and qp: "q = p"
      using assms ok l q h k
      by (auto simp: authenticate_inbound_def bindE_run seqE_run liftE_apply ret_apply throw_apply
          split: sum.splits prod.splits if_splits)
    obtain ts where ts: "ir_timestamp rq = Some ts"
      using vt by (auto simp: verify_timestamp_def split: option.splits)
    show ?thesis
      using load_partner_run(2) [OF l, of p] q qp verify_hmac_run(2) [OF h r(1)] check_api_key_run(2) [OF k r(2)] ts
      unfolding authentic_def by auto
  qed
qed

section \<open>Storing\<close>

lemma finalize_neutral [keep_intros]: "keeps (on_db J) (finalize_accepted_inbound e p ie ty key stg)"
  unfolding finalize_accepted_inbound_def cache_event_id_def by (intro keep_intros)

lemma finalize_result:
  "fst (finalize_accepted_inbound e p ie ty key stg w) \<in> {Inr (InboundEventAcceptedResponse (ie_id ie)), Inl RedisError}"
proof -
  let ?c = "cache_event_id e (p_id p) key (ie_id ie) (hub_idempotency_ttl_hours stg * 3600) w"
  have "fst ?c \<in> {Inr (), Inl RedisError}"
    by (auto simp: cache_event_id_def seqE_run ret_apply call_redis_def split: option.splits prod.splits reply.splits)
  moreover have m: "record_delivery_metric ''hub_inbound_events_total'' [(''partner_slug'', x), (''event_type'', y)] 1 w =
      (Inr (), w\<lparr>w_metrics := w_metrics w @ [Counter ''hub_inbound_events_total'' 1 [(''partner_slug'', x), (''event_type'', y)]]\<rparr>)" for x y w
    by (simp add: record_delivery_metric_def run_simps validate_metric_attributes_def FORBIDDEN_METRIC_ATTRIBUTES_def)
  ultimately show ?thesis
    by (cases ?c) (auto simp: finalize_accepted_inbound_def seqE_run ret_apply m)
qed

lemma duplicate_metric:
  "record_duplicate p u w = (Inr (InboundEventDuplicateResponse u), w\<lparr>w_metrics := w_metrics w @
     [Counter ''hub_inbound_duplicate_suppressed_total'' 1 [(''partner_slug'', p_slug p)]]\<rparr>)"
  by (simp add: record_duplicate_def record_delivery_metric_def run_simps validate_metric_attributes_def
      FORBIDDEN_METRIC_ATTRIBUTES_def)

text \<open>The row and the message an accepted event leaves.\<close>

definition inbound_row :: "uuid \<Rightarrow> partner \<Rightarrow> string \<Rightarrow> string \<Rightarrow> json \<Rightarrow> bytes \<Rightarrow> time \<Rightarrow> string \<Rightarrow> inbound_event" where
  "inbound_row u p key event_type payload raw_body received_at correlation_id =
     \<lparr>ie_id = u, ie_partner_id = p_id p, ie_idempotency_key = key, ie_event_type = event_type,
      ie_payload = payload, ie_payload_hash = sha256_hexdigest raw_body, ie_signature_valid = True,
      ie_signing_secret_version = None, ie_received_at = received_at, ie_published_at = None,
      ie_correlation_id = correlation_id\<rparr>"

definition inbound_database ::
  "database \<Rightarrow> inbound_event \<Rightarrow> int \<Rightarrow> time \<Rightarrow> partner \<Rightarrow> database" where
  "inbound_database db ie n stamp p =
     db\<lparr>db_inbound_events := db_inbound_events db @ [ie],
        db_outbox := db_outbox db @ [outbox_row n stamp ''inbound_event'' (p_id p) (inbound_topic (ie_event_type ie))
          (str_uuid (p_public_id p))
          (build_inbound_envelope (ie_id ie) (p_public_id p) (ie_event_type ie) (ie_payload ie)
             (ie_idempotency_key ie) (ie_correlation_id ie) (ie_received_at ie))]\<rparr>"

lemma inbound_by_keyD:
  "ie \<in> set (inbound_by_key pid key db) \<longleftrightarrow>
     ie \<in> set (db_inbound_events db) \<and> ie_partner_id ie = pid \<and> ie_idempotency_key ie = key"
  by (auto simp: inbound_by_key_def)

lemma conflict_run: "inbound_conflict p key w = (Inl MissingGreenlet, w\<lparr>w_db := w_committed w\<rparr>)"
  by (simp add: inbound_conflict_def seqE_run rollback_apply read_after_rollback_apply)

lemma persist_cases:
  fixes w :: "('r, 'k) world"
  assumes db: "w_db w = w_committed w"
    and run: "persist_inbound e stg p key event_type payload raw_body received_at correlation_id w = (r, w')"
  defines "ie \<equiv> inbound_row (uuid7 e (w_draws w)) p key event_type payload raw_body received_at correlation_id"
  defines "D \<equiv> inbound_database (w_committed w) ie (w_seq_outbox w + 1) (w_clock w) p"
  shows "(w_committed w' = w_committed w \<and>
       r \<in> {Inl IntegrityError, Inl MissingGreenlet}) \<or>
     (constraints_ok D \<and> w_committed w' = D \<and>
       r \<in> {Inr (InboundEventAcceptedResponse (ie_id ie)), Inl RedisError})"
proof -
  let ?w1 = "w\<lparr>w_draws := Suc (w_draws w), w_db := (w_db w)\<lparr>db_inbound_events := db_inbound_events (w_db w) @ [ie]\<rparr>\<rparr>"
  have st: "store_inbound e p key event_type payload raw_body received_at correlation_id w =
      (if constraints_ok (w_db ?w1) then Inr ie else Inl IntegrityError, ?w1)"
    by (simp add: store_inbound_def bindE_run seqE_run generate_uuidv7_apply update_db_apply flush_def Let_def ret_apply
        ie_def inbound_row_def)
  show ?thesis
  proof (cases "constraints_ok (w_db ?w1)")
    case False
    then show ?thesis
      using run st by (auto simp: persist_inbound_def conflict_run)
  next
    case True
    let ?w2 = "?w1\<lparr>w_seq_outbox := w_seq_outbox w + 1, w_db := D\<rparr>"
    have acc: "accept_inbound e stg p key event_type payload received_at correlation_id ie ?w1 =
        (if constraints_ok D then finalize_accepted_inbound e p ie event_type key stg (?w2\<lparr>w_committed := D\<rparr>)
         else (Inl IntegrityError, ?w2))"
      by (simp add: accept_inbound_def seqE_run bindE_run enqueue_outbox_def utcnow_apply gets_apply modify_apply
          update_db_apply ret_apply commit_def flush_def Let_def D_def inbound_database_def ie_def inbound_row_def db)
    show ?thesis
    proof (cases "constraints_ok D")
      case True
      then have "finalize_accepted_inbound e p ie event_type key stg (?w2\<lparr>w_committed := D\<rparr>) = (r, w')"
        using run st acc \<open>constraints_ok (w_db ?w1)\<close> by (simp add: persist_inbound_def)
      with finalize_result [of e p ie event_type key stg "?w2\<lparr>w_committed := D\<rparr>"] True
        neutral_run(2) [OF finalize_neutral this]
      show ?thesis by auto
    next
      case False
      then show ?thesis using run st acc \<open>constraints_ok (w_db ?w1)\<close> by (auto simp: persist_inbound_def)
    qed
  qed
qed

text \<open>A stored key: the insert fails, and so does the handler of that failure.\<close>

lemma persist_stored_key:
  assumes "w_db w = w_committed w" "ie \<in> set (db_inbound_events (w_committed w))" "ie_partner_id ie = p_id p"
    "ie_idempotency_key ie = key"
  shows "\<exists>w'. persist_inbound e stg p key event_type payload raw_body received_at correlation_id w = (Inl MissingGreenlet, w') \<and>
    w_committed w' = w_committed w"
proof -
  let ?ie = "inbound_row (uuid7 e (w_draws w)) p key event_type payload raw_body received_at correlation_id"
  let ?db = "(w_db w)\<lparr>db_inbound_events := db_inbound_events (w_db w) @ [?ie]\<rparr>"
  have "(p_id p, key) \<in> (\<lambda>x. (ie_partner_id x, ie_idempotency_key x)) ` set (db_inbound_events (w_committed w))"
    using assms(2-4) by force
  then have "\<not> constraints_ok ?db"
    using assms(1) by (auto simp: constraints_ok_def inbound_events_ok_def inbound_row_def unique_on_def)
  then have "store_inbound e p key event_type payload raw_body received_at correlation_id w =
      (Inl IntegrityError, w\<lparr>w_draws := Suc (w_draws w), w_db := ?db\<rparr>)"
    by (simp add: store_inbound_def bindE_run seqE_run generate_uuidv7_apply update_db_apply flush_def Let_def
        inbound_row_def)
  then show ?thesis by (simp add: persist_inbound_def conflict_run)
qed

section \<open>The endpoint\<close>

lemma schema_neutral [keep_intros]: "keeps (on_db J) (check_inbound_schema e ty pl)"
proof -
  have m: "keeps (on_db J) (modify (\<lambda>w. w\<lparr>w_validators := f w\<rparr>))" for f
    by (simp add: keeps_def on_db_def run_simps)
  have "keeps (on_db J) (validator_for row)" for row
    unfolding validator_for_def by (auto intro!: keep_intros m split: option.splits)
  then show ?thesis
    unfolding check_inbound_schema_def validate_payload_def fetch_latest_active_schema_def
    by (intro keep_intros)
qed

lemma cached_neutral [keep_intros]: "keeps (on_db J) (get_cached_event_id e pid key)"
  unfolding get_cached_event_id_def
  by (cases "redis e") (auto intro!: keep_intros split: option.splits rval.splits)

lemma authenticate_last:
  assumes "authenticate_inbound e stg rq now w = (Inr p, w1)"
  shows "allow_request e (p_slug p) (p_rate_limit_rps p) w = (Inr True, w1)"
proof -
  let ?ts = "case ir_timestamp rq of None \<Rightarrow> [] | Some t \<Rightarrow> t"
  obtain r1 where l: "load_partner (ir_partner_slug rq) w = (r1, w)" using load_partner_run(1) by (metis prod.collapse)
  then obtain q where q: "r1 = Inr q" using assms by (cases r1) (auto simp: authenticate_inbound_def bindE_run)
  obtain r2 where h: "verify_hmac e stg q ?ts (ir_body rq) (ir_signature rq) now w = (r2, w)"
    using verify_hmac_run(1) by (metis prod.collapse)
  obtain r3 where k: "check_api_key e q (parse_bearer (ir_authorization rq)) w = (r3, w)"
    using check_api_key_run(1) by (metis prod.collapse)
  show ?thesis using assms l q h k
    by (auto simp: authenticate_inbound_def bindE_run seqE_run liftE_apply ret_apply throw_apply
        split: sum.splits prod.splits if_splits)
qed

lemma schema_redis: "w_redis (snd (check_inbound_schema e ty pl w)) = w_redis w"
proof -
  have "keeps (\<lambda>v. w_redis v = w_redis w) (validator_for row)" for row
    by (auto simp: keeps_def validator_for_def run_simps split: option.splits)
  then have "keeps (\<lambda>v. w_redis v = w_redis w) (check_inbound_schema e ty pl)"
    unfolding check_inbound_schema_def validate_payload_def fetch_latest_active_schema_def
    by (intro keep_intros)
  from keepsD [OF this, of w] show ?thesis by simp
qed

text \<open>Every way through the handler: it stops with an error, finds the event in Redis, or persists.\<close>

lemma ingest_paths:
  assumes run: "ingest_event e stg rq now w = (r, w')"
  obtains (stopped) x where "r = Inl x" "w_committed w' = w_committed w"
  | (cached) p u w1 where "authentic e stg rq now w p" "r = Inr (InboundEventDuplicateResponse u)"
      "w_committed w' = w_committed w"
      "w_redis w1 = w_redis (snd (allow_request e (p_slug p) (p_rate_limit_rps p) w))"
      "fst (get_cached_event_id e (p_id p) (py_strip (the (ir_idempotency_key rq))) w1) = Inr (Some u)"
  | (persisted) p ty pl cid w0 w1 where "authentic e stg rq now w p" "parse_event_body e (ir_body rq) = Inr (ty, pl)"
      "ir_correlation_id rq = Some cid" "w_db w1 = w_db w" "w_committed w1 = w_committed w"
      "get_cached_event_id e (p_id p) (py_strip (the (ir_idempotency_key rq))) w0 = (Inr None, w1)"
      "persist_inbound e stg p (py_strip (the (ir_idempotency_key rq))) ty pl (ir_body rq) (w_clock w1) cid w1 = (r, w')"
proof -
  consider "ir_idempotency_key rq = None \<or> py_strip (the (ir_idempotency_key rq)) = []"
    | raw where "ir_idempotency_key rq = Some raw" "py_strip raw \<noteq> []"
    by (cases "ir_idempotency_key rq") auto
  then show thesis
  proof cases
    case 1
    then show thesis using run stopped by (auto simp: ingest_event_def throw_apply split: option.splits)
  next
    case 2
    obtain r1 w1 where a: "authenticate_inbound e stg rq now w = (r1, w1)" by force
    note au = authenticate_run [OF a]
    show thesis
    proof (cases "\<exists>p ty pl. r1 = Inr p \<and> parse_event_body e (ir_body rq) = Inr (ty, pl)")
      case False
      then have "\<exists>x. r = Inl x \<and> w' = w1" using run 2 a
        by (auto simp: ingest_event_def Let_def bindE_run liftE_apply split: sum.splits)
      with au(1) stopped show thesis by auto
    next
      case True
      then obtain p ty pl where p: "r1 = Inr p" "parse_event_body e (ir_body rq) = Inr (ty, pl)" by blast
      obtain r2 w2 where s: "check_inbound_schema e ty pl w1 = (r2, w2)" by force
      note n2 = neutral_run [OF schema_neutral s]
      obtain r3 w3 where c: "get_cached_event_id e (p_id p) (py_strip raw) w2 = (r3, w3)" by force
      note n3 = neutral_run [OF cached_neutral c]
      have clk: "w_clock w3 = w_clock w2"
        using c by (auto simp: get_cached_event_id_def bindE_run call_redis_def ret_apply throw_apply liftE_apply
            split: option.splits prod.splits reply.splits sum.splits rval.splits)
      note step = run 2 a p s c
      show thesis
      proof (cases "r2 = Inr () \<and> ir_correlation_id rq \<noteq> None \<and> (\<exists>cu. r3 = Inr cu)")
        case False
        then have "\<exists>x. r = Inl x \<and> w_committed w' = w_committed w" using step au(1) n2 n3
          by (auto simp: ingest_event_def Let_def bindE_run seqE_run liftE_apply throw_apply utcnow_apply
              split: sum.splits option.splits)
        with stopped show thesis by blast
      next
        case True
        then obtain cid cu where t: "r2 = Inr ()" "ir_correlation_id rq = Some cid" "r3 = Inr cu" by auto
        show thesis
        proof (cases cu)
          case (Some u)
          have "r = Inr (InboundEventDuplicateResponse u) \<and> w_committed w' = w_committed w3"
            using step t Some
            by (auto simp: ingest_event_def Let_def bindE_run seqE_run liftE_apply utcnow_apply duplicate_metric)
          with cached [of p u w2] au p n2 n3 c t Some 2 s schema_redis [of e ty pl w1] authenticate_last [of e stg rq now w p w1] a
          show thesis by simp
        next
          case None
          have "persist_inbound e stg p (py_strip raw) ty pl (ir_body rq) (w_clock w2) cid w3 = (r, w')"
            using step t None
            by (simp add: ingest_event_def Let_def bindE_run seqE_run liftE_apply utcnow_apply)
          with persisted [of p ty pl cid w3 w2] au p n2 n3 t clk c None 2 show thesis by simp
        qed
      qed
    qed
  qed
qed

text \<open>The request passes every check the handler makes before it looks the idempotency key up.\<close>

definition passes_checks ::
  "('r, 'k) env \<Rightarrow> settings \<Rightarrow> inbound_request \<Rightarrow> int \<Rightarrow> ('r, 'k) world \<Rightarrow> bool" where
  "passes_checks e stg rq now w \<longleftrightarrow>
     (case ir_idempotency_key rq of None \<Rightarrow> False | Some raw \<Rightarrow> py_strip raw \<noteq> []) \<and> ir_correlation_id rq \<noteq> None \<and>
     (case authenticate_inbound e stg rq now w of
        (Inl _, _) \<Rightarrow> False
      | (Inr p, w1) \<Rightarrow>
          (case parse_event_body e (ir_body rq) of
             Inl _ \<Rightarrow> False
           | Inr (event_type, payload) \<Rightarrow> fst (check_inbound_schema e event_type payload w1) = Inr ()))"

lemma clock_call_redis: "keeps (\<lambda>v. w_clock v = t) (call_redis f)"
  by (auto simp: keeps_def call_redis_def split: prod.splits reply.splits)

lemma clock_kept:
  "keeps (\<lambda>v. w_clock v = t) (allow_request e slug rps)" "keeps (\<lambda>v. w_clock v = t) (check_inbound_schema e ty pl)"
proof -
  show "keeps (\<lambda>v. w_clock v = t) (allow_request e slug rps)"
    unfolding allow_request_def Let_def except_redis_def
    by (auto intro!: keep_intros clock_call_redis split: option.splits)
  have "keeps (\<lambda>v. w_clock v = t) (validator_for row)" for row
    by (auto simp: keeps_def validator_for_def run_simps split: option.splits)
  then show "keeps (\<lambda>v. w_clock v = t) (check_inbound_schema e ty pl)"
    unfolding check_inbound_schema_def validate_payload_def fetch_latest_active_schema_def
    by (intro keep_intros)
qed

text \<open>What is left to do for such a request: the lookup in Redis, and the insert when it finds nothing.\<close>

lemma passed_run:
  assumes "passes_checks e stg rq now w" "ir_idempotency_key rq = Some raw"
  obtains p ty pl cid w2 where "authentic e stg rq now w p" "w_db w2 = w_db w" "w_committed w2 = w_committed w"
    "w_clock w2 = w_clock w" "w_redis w2 = w_redis (snd (allow_request e (p_slug p) (p_rate_limit_rps p) w))"
    "ingest_event e stg rq now w =
       bindE (get_cached_event_id e (p_id p) (py_strip raw)) (\<lambda>cached_id. case cached_id of
           Some u \<Rightarrow> record_duplicate p u
         | None \<Rightarrow> persist_inbound e stg p (py_strip raw) ty pl (ir_body rq) (w_clock w2) cid) w2"
proof -
  from assms obtain cid p w1 ty pl w2 where a: "authenticate_inbound e stg rq now w = (Inr p, w1)"
    and b: "parse_event_body e (ir_body rq) = Inr (ty, pl)" and c: "check_inbound_schema e ty pl w1 = (Inr (), w2)"
    and k: "py_strip raw \<noteq> []" "ir_correlation_id rq = Some cid"
    by (auto simp: passes_checks_def split: option.splits prod.splits sum.splits) (metis prod.collapse)
  have al: "allow_request e (p_slug p) (p_rate_limit_rps p) w = (Inr True, w1)" by (rule authenticate_last [OF a])
  have "w_clock w1 = w_clock w" using keepsD [OF clock_kept(1), where s = w] al by (metis snd_conv)
  moreover have "w_clock w2 = w_clock w1" using keepsD [OF clock_kept(2), where s = w1] c by (metis snd_conv)
  ultimately show thesis
    using that [of p w2 ty pl cid] a b c k al authenticate_run [OF a] neutral_run [OF schema_neutral c]
      schema_redis [of e ty pl w1] assms(2)
    by (simp add: ingest_event_def Let_def bindE_run seqE_run liftE_apply utcnow_apply)
qed

lemma stopped_run:
  assumes "ingest_event e stg rq now w = (r, w')" "\<not> passes_checks e stg rq now w"
  shows "\<exists>x. r = Inl x \<and> w_committed w' = w_committed w"
proof -
  consider "ir_idempotency_key rq = None \<or> py_strip (the (ir_idempotency_key rq)) = []"
    | raw where "ir_idempotency_key rq = Some raw" "py_strip raw \<noteq> []"
    by (cases "ir_idempotency_key rq") auto
  then show ?thesis
  proof cases
    case 1
    then show ?thesis using assms(1) by (auto simp: ingest_event_def throw_apply split: option.splits)
  next
    case 2
    obtain r1 w1 where a: "authenticate_inbound e stg rq now w = (r1, w1)" by force
    have n: "w_committed v = w_committed w1" if "check_inbound_schema e ty pl w1 = (x, v)" for ty pl x v
      using neutral_run(2) [OF schema_neutral that] .
    show ?thesis
      using assms 2 a authenticate_run(1) [OF a]
      by (auto simp: passes_checks_def ingest_event_def Let_def bindE_run seqE_run liftE_apply throw_apply
          split: sum.splits option.splits prod.splits dest: n)
  qed
qed

text \<open>
  C14. What an accepted webhook means: the request was authentic (an active partner, a timestamp in the
  window, a valid signature of the raw body under a current secret, a usable API key), and the commit
  added exactly one inbound event, with the body's type, payload and hash, together with exactly one
  unpublished outbox message for it.
\<close>

theorem inbound_accepted:
  assumes "w_db w = w_committed w"
    and "ingest_event e stg rq now w = (Inr (InboundEventAcceptedResponse u), w')"
  shows "\<exists>p ie ev ty pl. authentic e stg rq now w p \<and> parse_event_body e (ir_body rq) = Inr (ty, pl) \<and>
     ie_id ie = u \<and> ie_partner_id ie = p_id p \<and> ie_event_type ie = ty \<and> ie_payload ie = pl \<and>
     ie_payload_hash ie = sha256_hexdigest (ir_body rq) \<and>
     Some (ie_idempotency_key ie) = map_option py_strip (ir_idempotency_key rq) \<and> ie_idempotency_key ie \<noteq> [] \<and>
     ob_topic ev = inbound_topic ty \<and> ob_published_at ev = None \<and>
     item (ob_payload ev) ''event_id'' = Inr (JStr (str_uuid u)) \<and>
     w_committed w' = (w_committed w)\<lparr>db_inbound_events := db_inbound_events (w_committed w) @ [ie],
       db_outbox := db_outbox (w_committed w) @ [ev]\<rparr> \<and> constraints_ok (w_committed w')"
proof -
  obtain raw where key: "ir_idempotency_key rq = Some raw" "py_strip raw \<noteq> []"
    using assms(2) by (auto simp: ingest_event_def throw_apply split: option.splits if_splits)
  from assms(2) show ?thesis
  proof (cases rule: ingest_paths)
    case (persisted p ty pl cid w0 w1)
    let ?ie = "inbound_row (uuid7 e (w_draws w1)) p (py_strip raw) ty pl (ir_body rq) (w_clock w1) cid"
    let ?D = "inbound_database (w_committed w1) ?ie (w_seq_outbox w1 + 1) (w_clock w1) p"
    have "w_db w1 = w_committed w1" using persisted(4,5) assms(1) by simp
    from persist_cases [OF this persisted(7)] key have "constraints_ok ?D" "w_committed w' = ?D" "u = ie_id ?ie"
      by auto
    with persisted key show ?thesis
      by (intro exI [of _ p] exI [of _ ?ie] exI [of _ "last (db_outbox ?D)"] exI [of _ ty] exI [of _ pl])
        (simp add: inbound_row_def inbound_database_def outbox_row_def item_def build_inbound_envelope_def jget_def)
  qed auto
qed

section \<open>Idempotency of ingestion\<close>

lemma idempotency_key_not_rate [simp]:
  "idempotency_redis_key pid key \<noteq> tokens_key slug" "idempotency_redis_key pid key \<noteq> ts_key slug"
  by (simp_all add: idempotency_redis_key_def IDEMPOTENCY_PREFIX_def tokens_key_def ts_key_def)

context redis_service
begin

text \<open>The rate limiter writes no key but its own two.\<close>

lemma allow_request_frame:
  assumes "redis e = Some ops" "k \<noteq> tokens_key slug" "k \<noteq> ts_key slug"
  shows "keeps (\<lambda>v. \<forall>t. view (w_redis v) t k = f t) (allow_request e slug rps)"
proof -
  have g: "keeps (\<lambda>v. \<forall>t. view (w_redis v) t k = f t) (call_redis (\<lambda>t. redis_get ops t k'))" for k'
    using get_frame by (auto simp: keeps_def call_redis_def split: prod.splits reply.splits)
  have s: "keeps (\<lambda>v. \<forall>t. view (w_redis v) t k = f t) (call_redis (\<lambda>t. redis_set ops t k' x nx ex))" if "k' \<noteq> k" for k' x nx ex
    using set_frame that by (auto simp: keeps_def call_redis_def split: prod.splits reply.splits)
  show ?thesis
    unfolding allow_request_def Let_def except_redis_def using assms
    by (auto intro!: keep_intros g s split: option.splits)
qed

end

lemma cached_lookup:
  assumes "redis_up ops view" "redis e = Some ops"
    and "view (w_redis w) (w_clock w) (idempotency_redis_key pid key) = (if held then Some (RText (str_uuid u)) else None)"
  shows "\<exists>s'. get_cached_event_id e pid key w = (Inr (if held then Some u else None), w\<lparr>w_redis := s'\<rparr>)"
proof -
  let ?k = "idempotency_redis_key pid key"
  have svc: "redis_service ops view" using assms(1) by (simp add: redis_up_def)
  obtain x s' where g: "redis_get ops (w_clock w) ?k (w_redis w) = (x, s')" by force
  then obtain y where y: "x = Reply y" using redis_up.get_up [OF assms(1)] by (cases x) (metis fst_conv)+
  then have "y = view (w_redis w) (w_clock w) ?k" using redis_service.get_reply [OF svc] g by blast
  with g y assms(2,3) show ?thesis
    by (auto simp: get_cached_event_id_def bindE_run call_redis_def ret_apply liftE_apply)
qed

text \<open>
  C15. A webhook is stored once: when an event of this partner with this idempotency key is stored
  already, a repeated request commits nothing. If it passes the checks, the answer is the duplicate with the
  identifier of the stored event as long as Redis holds it under the key; once the key is gone, the
  unique constraint stops the insert, and the handler, which reads the partner's identifier after
  the rollback that expired it, ends with \<open>MissingGreenlet\<close> instead of its duplicate answer.
\<close>

theorem inbound_idempotent:
  assumes "redis_up ops view" and "redis e = Some ops"
    and "w_db w = w_committed w" and "constraints_ok (w_committed w)"
    and "p \<in> set (db_partners (w_committed w))" and "p_slug p = ir_partner_slug rq"
    and "ie \<in> set (db_inbound_events (w_committed w))" and "ie_partner_id ie = p_id p"
    and "ir_idempotency_key rq = Some raw" and "ie_idempotency_key ie = py_strip raw"
    and "view (w_redis w) (w_clock w) (idempotency_redis_key (p_id p) (py_strip raw)) =
           (if held then Some (RText (str_uuid (ie_id ie))) else None)"
    and "ingest_event e stg rq now w = (r, w')"
  shows "w_committed w' = w_committed w \<and>
    (if passes_checks e stg rq now w
     then r = (if held then Inr (InboundEventDuplicateResponse (ie_id ie)) else Inl MissingGreenlet)
     else \<exists>x. r = Inl x)"
proof -
  have same: "q = p" if "authentic e stg rq now w q" for q
    using that assms(3-6) unfolding authentic_def constraints_ok_def partners_ok_def
    by (metis unique_onD)
  show ?thesis
  proof (cases "passes_checks e stg rq now w")
    case True
    then obtain q ty pl cid w2 where au: "authentic e stg rq now w q"
      and w2: "w_db w2 = w_db w" "w_committed w2 = w_committed w" "w_clock w2 = w_clock w"
        "w_redis w2 = w_redis (snd (allow_request e (p_slug q) (p_rate_limit_rps q) w))"
      and run: "ingest_event e stg rq now w =
        bindE (get_cached_event_id e (p_id q) (py_strip raw)) (\<lambda>cached_id. case cached_id of
           Some u \<Rightarrow> record_duplicate q u
         | None \<Rightarrow> persist_inbound e stg q (py_strip raw) ty pl (ir_body rq) (w_clock w2) cid) w2"
      by (rule passed_run [OF _ assms(9)])
    have q: "q = p" using same au .
    let ?k = "idempotency_redis_key (p_id p) (py_strip raw)"
    have svc: "redis_service ops view" using assms(1) by (simp add: redis_up_def)
    have "view (w_redis w2) (w_clock w2) ?k = view (w_redis w) (w_clock w) ?k"
      using keepsD [OF redis_service.allow_request_frame [OF svc assms(2), where k = ?k and
            f = "\<lambda>t. view (w_redis w) t ?k"], where s = w] w2(3,4) by simp
    with cached_lookup [OF assms(1,2), of w2 "p_id p" "py_strip raw" held "ie_id ie"] assms(11) obtain s' where
      g: "get_cached_event_id e (p_id p) (py_strip raw) w2 = (Inr (if held then Some (ie_id ie) else None), w2\<lparr>w_redis := s'\<rparr>)"
      by auto
    obtain v where "persist_inbound e stg p (py_strip raw) ty pl (ir_body rq) (w_clock w2) cid (w2\<lparr>w_redis := s'\<rparr>) = (Inl MissingGreenlet, v)"
        "w_committed v = w_committed w"
      using persist_stored_key [of "w2\<lparr>w_redis := s'\<rparr>" ie p "py_strip raw"] assms(3,7,8,10) w2 by fastforce
    with True run g q assms(12) w2(2) show ?thesis by (auto simp: bindE_run duplicate_metric)
  next
    case False
    have "\<exists>x. r = Inl x \<and> w_committed w' = w_committed w" using stopped_run [OF assms(12) False] .
    with False show ?thesis by auto
  qed
qed

text \<open>
  C38. Ingestion does not survive a Redis outage: when every \<open>GET\<close> fails, nothing is stored and every webhook
  ends with an error. One that passes all the checks ends with the client's own \<open>RedisError\<close>,
  which no exception handler of the application translates: the answer is an internal server error,
  and the unique constraint of the database is never asked.
\<close>

theorem inbound_needs_redis:
  assumes "redis e = Some ops" and "\<forall>t k s. fst (redis_get ops t k s) = Fault"
    and "ingest_event e stg rq now w = (r, w')"
  shows "w_committed w' = w_committed w \<and>
    (if passes_checks e stg rq now w then r = Inl RedisError else \<exists>x. r = Inl x) \<and>
    hub_error_handler RedisError = None \<and> answer_status RedisError = 500"
proof -
  have c: "\<exists>s'. get_cached_event_id e pid key u = (Inl RedisError, u\<lparr>w_redis := s'\<rparr>)" for pid key u
  proof -
    obtain s' where "redis_get ops (w_clock u) (idempotency_redis_key pid key) (w_redis u) = (Fault, s')"
      using assms(2) by (metis prod.collapse)
    then show ?thesis using assms(1) by (auto simp: get_cached_event_id_def bindE_run call_redis_def)
  qed
  have "w_committed w' = w_committed w \<and> r = Inl RedisError" if pass: "passes_checks e stg rq now w"
  proof -
    obtain raw where raw: "ir_idempotency_key rq = Some raw"
      using pass by (auto simp: passes_checks_def split: option.splits)
    from passed_run [OF pass raw] obtain p ty pl cid w2 where
      w2: "w_committed w2 = w_committed w" and run: "ingest_event e stg rq now w =
       bindE (get_cached_event_id e (p_id p) (py_strip raw)) (\<lambda>cached_id. case cached_id of
           Some u \<Rightarrow> record_duplicate p u
         | None \<Rightarrow> persist_inbound e stg p (py_strip raw) ty pl (ir_body rq) (w_clock w2) cid) w2"
      by metis
    obtain s' where "get_cached_event_id e (p_id p) (py_strip raw) w2 = (Inl RedisError, w2\<lparr>w_redis := s'\<rparr>)" using c by blast
    with run assms(3) w2 show ?thesis by (auto simp: bindE_run)
  qed
  then show ?thesis
    using stopped_run [OF assms(3)] by (auto simp: hub_error_handler_def answer_status_def)
qed

section \<open>A concrete webhook\<close>

text \<open>The sample partner with an API key, and a signed request.\<close>

definition sample_key :: partner_api_key where
  "sample_key = \<lparr>ak_id = 5, ak_partner_id = 1, ak_key_prefix = ''pk_live_acme'', ak_key_hash = ''pk_live_acme'',
     ak_scopes = [INBOUND_WRITE_SCOPE], ak_expires_at = None, ak_revoked_at = None, ak_created_at = 0\<rparr>"

definition webhook_world :: "inbound_event list \<Rightarrow> (mem_redis, message list) world" where
  "webhook_world ies = (let db = sample_db\<lparr>db_api_keys := [sample_key], db_inbound_events := ies\<rparr>
     in sample_world\<lparr>w_committed := db, w_db := db\<rparr>)"

definition sample_webhook :: inbound_request where
  "sample_webhook = \<lparr>ir_body = ''body'', ir_partner_slug = ''acme'', ir_authorization = Some ''bearer pk_live_acme'',
     ir_signature = Some (sign ''old'' ''0'' ''body''), ir_timestamp = Some ''0'', ir_idempotency_key = Some ''key'',
     ir_correlation_id = Some ''c''\<rparr>"

lemma sample_authentic:
  assumes "ops \<in> {mem_redis_ops, down_redis_ops}" "m (tokens_key ''acme'') = None"
  shows "\<exists>w1. authenticate_inbound (mem_env\<lparr>redis := Some ops\<rparr>) default_settings sample_webhook 0 ((webhook_world ies)\<lparr>w_redis := m\<rparr>) =
    (Inr sample_partner, w1)"
proof -
  let ?e = "mem_env\<lparr>redis := Some ops\<rparr>"
  let ?w = "(webhook_world ies)\<lparr>w_redis := m\<rparr>"
  have ts: "py_int 10 ''0'' = Some 0"
    by (simp add: py_int_def py_strip_def is_space_def unsigned_int_def digit_val_def)
  have l: "load_partner ''acme'' ?w = (Inr sample_partner, ?w)"
    by (simp add: load_partner_def bindE_run gets_apply one_or_none_def ret_apply webhook_world_def Let_def sample_defs)
  have s: "load_inbound_signing_secrets ?e sample_partner default_settings (Some 0) ?w = (Inr (Some ''old'', None), ?w)"
    by (simp add: load_inbound_signing_secrets_def fetch_primary_row_def primary_rows_def fetch_previous_rows_def
        previous_rows_def bindE_run gets_apply one_or_none_def ret_apply decrypt_signing_secret_def default_settings_def
        is_ascii_def webhook_world_def Let_def sample_defs)
  have v: "verify ''old'' ''0'' ''body'' (sign ''old'' ''0'' ''body'') 0 300 None = Inr True"
    by (simp add: verify_true_iff ts)
  have h: "verify_hmac ?e default_settings sample_partner ''0'' ''body'' (Some (sign ''old'' ''0'' ''body'')) 0 ?w = (Inr (), ?w)"
    by (simp add: verify_hmac_def bindE_run liftE_apply ret_apply s) (simp add: default_settings_def v ret_apply)
  have b: "parse_bearer (Some ''bearer pk_live_acme'') = Some ''pk_live_acme''"
    by (simp add: parse_bearer_def py_lower_def lower_char_def py_strip_def is_space_def Let_def)
  have k: "check_api_key ?e sample_partner (Some ''pk_live_acme'') ?w = (Inr (), ?w)"
    by (simp add: check_api_key_def bindE_run gets_apply utcnow_apply ret_apply key_usable_def verify_api_key_def
        extract_prefix_def sample_key_def webhook_world_def Let_def sample_defs)
  obtain w1 where a: "allow_request ?e (p_slug sample_partner) (p_rate_limit_rps sample_partner) ?w = (Inr True, w1)"
    using assms by (auto simp: allow_request_def except_redis_def run_simps call_redis_def mem_redis_ops_def down_redis_ops_def
        mem_view_def webhook_world_def Let_def sample_defs)
  have tol: "hub_inbound_timestamp_tolerance default_settings = 300" by (simp add: default_settings_def)
  show ?thesis
    by (simp add: authenticate_inbound_def bindE_run seqE_run liftE_apply ret_apply sample_webhook_def l b h k a
        verify_timestamp_def ts tol)
qed

definition stored_webhook :: inbound_event where
  "stored_webhook = inbound_row 77 sample_partner ''key'' ''order.created'' (JObj []) ''body'' 0 ''c''"

lemma webhook_world_simps [simp]:
  "w_db (webhook_world ies) = w_committed (webhook_world ies)" "w_redis (webhook_world ies) = (\<lambda>_. None)"
  "db_inbound_events (w_committed (webhook_world ies)) = ies" "sample_partner \<in> set (db_partners (w_committed (webhook_world ies)))"
  "p_slug sample_partner = ''acme''" "p_id sample_partner = 1" "db_outbox (w_committed (webhook_world ies)) = []"
  by (simp_all add: webhook_world_def Let_def sample_defs)

lemma webhook_world_plain:
  "mem_env\<lparr>redis := Some mem_redis_ops\<rparr> = mem_env" "(webhook_world ies)\<lparr>w_redis := \<lambda>_. None\<rparr> = webhook_world ies"
  by (simp_all add: mem_env_def webhook_world_def Let_def sample_defs)

lemma webhook_world_ok:
  "constraints_ok (w_committed (webhook_world []))" "constraints_ok (w_committed (webhook_world [stored_webhook]))"
  "constraints_ok (inbound_database (w_committed (webhook_world [])) (inbound_row u sample_partner k ty pl b t c) n t' sample_partner)"
  by (simp_all add: webhook_world_def Let_def sample_key_def stored_webhook_def inbound_row_def inbound_database_def
      outbox_row_def sample_defs constraints_ok_def table_ok_defs references_def unique_on_def)

lemma strip_key: "py_strip ''key'' = ''key''"
  by (simp add: py_strip_def is_space_def)

lemma sample_passes:
  assumes "ops \<in> {mem_redis_ops, down_redis_ops}" "m (tokens_key ''acme'') = None"
  shows "passes_checks (mem_env\<lparr>redis := Some ops\<rparr>) default_settings sample_webhook 0 ((webhook_world ies)\<lparr>w_redis := m\<rparr>)"
proof -
  obtain w1 where a: "authenticate_inbound (mem_env\<lparr>redis := Some ops\<rparr>) default_settings sample_webhook 0
      ((webhook_world ies)\<lparr>w_redis := m\<rparr>) = (Inr sample_partner, w1)"
    using sample_authentic [of ops m] assms by blast
  have "fst (check_inbound_schema (mem_env\<lparr>redis := Some ops\<rparr>) ''order.created'' (JObj []) w1) = Inr ()"
    using authenticate_run(1) [OF a]
    by (simp add: check_inbound_schema_def bindE_run fetch_latest_active_schema_def gets_apply catchE_run
        validate_payload_def ret_apply latest_active_schema_def active_schemas_def webhook_world_def Let_def sample_defs)
  with a show ?thesis
    by (simp add: passes_checks_def) (simp add: sample_webhook_def parse_event_body_def ALLOWED_EVENT_TYPES_def strip_key)
qed

lemma sample_accepts:
  "\<exists>u w'. ingest_event mem_env default_settings sample_webhook 0 (webhook_world []) = (Inr (InboundEventAcceptedResponse u), w')"
proof -
  let ?w = "webhook_world []"
  obtain w1 where a: "authenticate_inbound mem_env default_settings sample_webhook 0 ?w = (Inr sample_partner, w1)"
    using sample_authentic [of mem_redis_ops "\<lambda>_. None" "[]"] webhook_world_plain by auto
  have n: "w_db w1 = w_committed w1" "w_committed w1 = w_committed ?w" using authenticate_run(1) [OF a] by simp_all
  have "mem_view (w_redis w1) t (idempotency_redis_key 1 ''key'') = None" for t
    using keepsD [OF mem.allow_request_frame [of mem_env "idempotency_redis_key 1 ''key''" "p_slug sample_partner"
          "\<lambda>_. None" "p_rate_limit_rps sample_partner"], of ?w] authenticate_last [OF a]
    by (simp add: mem_view_def)
  then have c: "get_cached_event_id mem_env 1 ''key'' w1 = (Inr None, w1)"
    by (simp add: get_cached_event_id_def bindE_run call_redis_def mem_redis_ops_def ret_apply)
  have s: "check_inbound_schema mem_env ''order.created'' (JObj []) w1 = (Inr (), w1)"
    using n by (simp add: check_inbound_schema_def bindE_run fetch_latest_active_schema_def gets_apply catchE_run
        validate_payload_def ret_apply latest_active_schema_def active_schemas_def webhook_world_def Let_def sample_defs)
  have m: "record_delivery_metric ''hub_inbound_events_total'' [(''partner_slug'', x), (''event_type'', y)] 1 v =
      (Inr (), v\<lparr>w_metrics := w_metrics v @ [Counter ''hub_inbound_events_total'' 1 [(''partner_slug'', x), (''event_type'', y)]]\<rparr>)" for x y and v :: "(mem_redis, message list) world"
    by (simp add: record_delivery_metric_def run_simps validate_metric_attributes_def FORBIDDEN_METRIC_ATTRIBUTES_def)
  obtain r w' where p: "persist_inbound mem_env default_settings sample_partner ''key'' ''order.created'' (JObj []) ''body'' (w_clock w1) ''c'' w1 = (r, w')"
    by force
  have run: "ingest_event mem_env default_settings sample_webhook 0 ?w = (r, w')"
    using a s c p by (simp add: ingest_event_def sample_webhook_def strip_key Let_def bindE_run seqE_run liftE_apply
        parse_event_body_def ALLOWED_EVENT_TYPES_def utcnow_apply)
  have "constraints_ok ((w_committed ?w)\<lparr>db_inbound_events := [inbound_row u sample_partner k ty pl b t cc]\<rparr>)" for u k ty pl b t cc
    by (simp add: webhook_world_def Let_def sample_key_def inbound_row_def sample_defs constraints_ok_def table_ok_defs
        references_def unique_on_def)
  then have "\<exists>u. r = Inr (InboundEventAcceptedResponse u)"
    using p n webhook_world_ok(3)
    by (auto simp: persist_inbound_def store_inbound_def bindE_run seqE_run generate_uuidv7_apply update_db_apply
        flush_def Let_def ret_apply accept_inbound_def enqueue_outbox_def utcnow_apply gets_apply modify_apply commit_def
        finalize_accepted_inbound_def cache_event_id_def call_redis_def mem_redis_ops_def m
        inbound_row_def inbound_database_def)
  with run show ?thesis by auto
qed

theorem inbound_accepted_witness:
  "\<exists>u w'. ingest_event mem_env default_settings sample_webhook 0 (webhook_world []) = (Inr (InboundEventAcceptedResponse u), w') \<and>
     length (db_inbound_events (w_committed w')) = 1 \<and> length (db_outbox (w_committed w')) = 1"
proof -
  obtain u w' where r: "ingest_event mem_env default_settings sample_webhook 0 (webhook_world []) =
      (Inr (InboundEventAcceptedResponse u), w')" using sample_accepts by blast
  with inbound_accepted [OF webhook_world_simps(1) r] show ?thesis by auto
qed

theorem inbound_idempotent_witness:
  "fst (ingest_event mem_env default_settings sample_webhook 0 ((webhook_world [stored_webhook])\<lparr>w_redis :=
       [idempotency_redis_key 1 ''key'' \<mapsto> (RText (str_uuid 77), None)]\<rparr>)) = Inr (InboundEventDuplicateResponse 77) \<and>
   fst (ingest_event mem_env default_settings sample_webhook 0 (webhook_world [stored_webhook])) = Inl MissingGreenlet"
proof -
  have *: "fst (ingest_event mem_env default_settings sample_webhook 0 ((webhook_world [stored_webhook])\<lparr>w_redis := m\<rparr>)) =
      (if held then Inr (InboundEventDuplicateResponse 77) else Inl MissingGreenlet)"
    if m: "m = (if held then [idempotency_redis_key 1 ''key'' \<mapsto> (RText (str_uuid 77), None)] else (\<lambda>_. None))" for m held
  proof -
    let ?w = "(webhook_world [stored_webhook])\<lparr>w_redis := m\<rparr>"
    obtain r w' where r: "ingest_event mem_env default_settings sample_webhook 0 ?w = (r, w')" by force
    have "m (tokens_key ''acme'') = None"
      using m idempotency_key_not_rate(1) [of 1 "''key''" "''acme''", symmetric] by (simp split: if_splits)
    then have "passes_checks mem_env default_settings sample_webhook 0 ?w"
      using sample_passes [of mem_redis_ops m] webhook_world_plain(1) by simp
    with inbound_idempotent [OF memup.redis_up_axioms, of mem_env ?w sample_partner
        sample_webhook stored_webhook "''key''" held default_settings 0 r w'] r webhook_world_ok(2)
    show ?thesis using m
      by (auto simp: sample_webhook_def stored_webhook_def inbound_row_def strip_key mem_view_def)
  qed
  show ?thesis
    using * [of _ True] * [of "\<lambda>_. None" False] webhook_world_plain(2) by simp
qed

theorem inbound_needs_redis_witness:
  "fst (ingest_event (mem_env\<lparr>redis := Some down_redis_ops\<rparr>) default_settings sample_webhook 0 (webhook_world [])) = Inl RedisError"
proof -
  let ?e = "mem_env\<lparr>redis := Some down_redis_ops\<rparr>"
  obtain r w' where r: "ingest_event ?e default_settings sample_webhook 0 (webhook_world []) = (r, w')" by force
  have "passes_checks ?e default_settings sample_webhook 0 (webhook_world [])"
    using sample_passes [of down_redis_ops "\<lambda>_. None" "[]"] webhook_world_plain(2) by simp
  with inbound_needs_redis [of ?e down_redis_ops default_settings sample_webhook 0 "webhook_world []" r w'] r show ?thesis
    by (simp add: down_redis_ops_def)
qed

end
