(* ===== verification/AdminPartners.thy ===== *)
theory AdminPartners
  imports ApiAuth
begin

text \<open>
  The admin routes for partners, API keys and signing secrets (\<open>app/api/v1/admin/partners.py\<close>), for
  endpoints (\<open>endpoints.py\<close>) and for payload schemas (\<open>schemas.py\<close>). A route checks the role first, then
  the body, then runs; it works in the session of its request. The lemmas show that the accept-path
  cache of the process stays in step with the database through every such request and every enqueue,
  and that issued secrets and keys work.
\<close>

section \<open>Partners\<close>

definition get_partner_by_public_id :: "uuid \<Rightarrow> ('r, 'k, partner) hub" where
  "get_partner_by_public_id partner_id =
     bindE (gets (\<lambda>w. filter (\<lambda>p. p_public_id p = partner_id) (db_partners (w_db w)))) (\<lambda>rows.
     bindE (one_or_none rows) (\<lambda>found.
     case found of
       None \<Rightarrow> throw (HTTPException 404 ''Partner not found.'')
     | Some p \<Rightarrow> ret p))"

text \<open>\<open>session.refresh(partner)\<close>: the stored row.\<close>

definition refresh_partner :: "partner \<Rightarrow> ('r, 'k, partner) hub" where
  "refresh_partner p = gets (\<lambda>w. case find (\<lambda>q. p_id q = p_id p) (db_partners (w_db w)) of
     None \<Rightarrow> p | Some q \<Rightarrow> q)"

text \<open>Python's \<open>x or default\<close> on an optional integer.\<close>

definition int_or :: "int option \<Rightarrow> int \<Rightarrow> int" where
  "int_or v d = (case v of None \<Rightarrow> d | Some x \<Rightarrow> if x = 0 then d else x)"

text \<open>The insert of the new row: the identity column counts on, the public id is drawn, the server stamps.\<close>

definition insert_partner :: "('r, 'k) env \<Rightarrow> settings \<Rightarrow> PartnerCreate \<Rightarrow> bytes \<Rightarrow> ('r, 'k, partner) hub" where
  "insert_partner e stg body encrypted =
     bindE (generate_uuidv7 e) (\<lambda>u.
     bindE utcnow (\<lambda>stamp.
     bindE (gets (\<lambda>w. w_seq_partners w + 1)) (\<lambda>n.
     let p = \<lparr>p_id = n, p_public_id = u, p_slug = pc_slug body, p_name = pc_name body,
              p_status = PROVISIONING, p_sla_seconds = pc_sla_seconds body, p_auto_replay_enabled = False,
              p_circuit_breaker_config = JObj [],
              p_rate_limit_rps = int_or (pc_rate_limit_rps body) (hub_rate_limit_rps_default stg),
              p_signing_secret_encrypted = Some encrypted, p_created_at = Some stamp, p_updated_at = Some stamp\<rparr> in
     seqE (modify (\<lambda>w. w\<lparr>w_seq_partners := n, w_db := (w_db w)\<lparr>db_partners := db_partners (w_db w) @ [p]\<rparr>\<rparr>))
     (seqE flush (ret p)))))"

definition store_partner ::
  "('r, 'k) env \<Rightarrow> settings \<Rightarrow> PartnerCreate \<Rightarrow> bytes \<Rightarrow> ('r, 'k, partner) hub" where
  "store_partner e stg body encrypted =
     catchE
       (bindE (insert_partner e stg body encrypted) (\<lambda>p.
        bindE utcnow (\<lambda>now.
        seqE (insert_primary_signing_secret e (p_id p) encrypted 1 now)
        (seqE commit (ret p)))))
       (\<lambda>x. if x = IntegrityError
            then seqE rollback (throw (HTTPException 422 ''Partner slug already exists.''))
            else throw x)"

definition create_partner ::
  "('r, 'k) env \<Rightarrow> settings \<Rightarrow> string option \<Rightarrow> PartnerCreate \<Rightarrow> ('r, 'k, PartnerCreatedResponse) hub" where
  "create_partner e stg credentials body =
     seqE (require_roles e RequireAdmin credentials stg)
     (bindE (liftE (validate_partner_create body)) (\<lambda>body.
      if fernet_key stg = [] then throw (HTTPException 422 ''FERNET_KEY is not configured.'')
      else bindE (generate_signing_secret e) (\<lambda>signing_secret.
      bindE (encrypt_signing_secret e (utf8_encode signing_secret) (fernet_key stg)) (\<lambda>encrypted.
      bindE (store_partner e stg body encrypted) (\<lambda>p.
      seqE (update_cache (invalidate_partner (p_public_id p)))
      (bindE (refresh_partner p) (\<lambda>q.
       ret (partner_with_secret q signing_secret))))))))"

text \<open>A stored row has its creation time.\<close>

definition stamp_of :: "time option \<Rightarrow> time" where
  "stamp_of t = (case t of None \<Rightarrow> 0 | Some x \<Rightarrow> x)"

definition list_partners ::
  "('r, 'k) env \<Rightarrow> settings \<Rightarrow> string option \<Rightarrow> PaginationParams \<Rightarrow> ('r, 'k, PartnerResponse PaginatedResponse) hub" where
  "list_partners e stg credentials pagination =
     seqE (require_roles e RequireViewer credentials stg)
     (bindE (liftE (validate_pagination pagination)) (\<lambda>pg.
      gets (\<lambda>w. paginate pg (map partner_to_response
        (order_desc (\<lambda>p. stamp_of (p_created_at p)) (db_partners (w_db w)))))))"

definition get_partner ::
  "('r, 'k) env \<Rightarrow> settings \<Rightarrow> string option \<Rightarrow> uuid \<Rightarrow> ('r, 'k, PartnerResponse) hub" where
  "get_partner e stg credentials u =
     seqE (require_roles e RequireViewer credentials stg)
     (bindE (get_partner_by_public_id u) (\<lambda>p. ret (partner_to_response p)))"

definition set_some :: "'a option \<Rightarrow> 'a \<Rightarrow> 'a" where
  "set_some v old = (case v of None \<Rightarrow> old | Some x \<Rightarrow> x)"

definition patch_partner :: "PartnerUpdate \<Rightarrow> partner \<Rightarrow> partner" where
  "patch_partner body p = p\<lparr>p_status := set_some (pu_status body) (p_status p),
     p_sla_seconds := set_some (pu_sla_seconds body) (p_sla_seconds p),
     p_rate_limit_rps := set_some (pu_rate_limit_rps body) (p_rate_limit_rps p),
     p_auto_replay_enabled := set_some (pu_auto_replay_enabled body) (p_auto_replay_enabled p),
     p_circuit_breaker_config := set_some (pu_circuit_breaker_config body) (p_circuit_breaker_config p)\<rparr>"

text \<open>The flush of a changed row; one that did not change is not sent.\<close>

definition save_partner :: "partner \<Rightarrow> partner \<Rightarrow> ('r, 'k, unit) hub" where
  "save_partner p p1 =
     bindE utcnow (\<lambda>stamp. update_db (\<lambda>db. if p1 = p then db else db\<lparr>db_partners :=
       put_row p_id (p1\<lparr>p_updated_at := Some stamp\<rparr>) (db_partners db)\<rparr>))"

definition update_partner ::
  "('r, 'k) env \<Rightarrow> settings \<Rightarrow> string option \<Rightarrow> uuid \<Rightarrow> PartnerUpdate \<Rightarrow> ('r, 'k, PartnerResponse) hub" where
  "update_partner e stg credentials u body =
     seqE (require_roles e RequireAdmin credentials stg)
     (bindE (liftE (validate_partner_update body)) (\<lambda>body.
      bindE (get_partner_by_public_id u) (\<lambda>p.
      seqE (save_partner p (patch_partner body p))
      (seqE commit
      (seqE (update_cache (invalidate_partner (p_public_id p)))
      (bindE (refresh_partner (patch_partner body p)) (\<lambda>q.
       ret (partner_to_response q))))))))"

section \<open>Keys and secrets\<close>

definition create_api_key ::
  "('r, 'k) env \<Rightarrow> settings \<Rightarrow> string option \<Rightarrow> uuid \<Rightarrow> ApiKeyCreate \<Rightarrow> ('r, 'k, ApiKeyCreatedResponse) hub" where
  "create_api_key e stg credentials u body =
     seqE (require_roles e RequireAdmin credentials stg)
     (bindE (get_partner_by_public_id u) (\<lambda>p.
      bindE (generate_api_key e) (\<lambda>(full_key, prefix, key_hash).
      bindE (generate_uuidv7 e) (\<lambda>key_id.
      bindE utcnow (\<lambda>stamp.
      let api_key = \<lparr>ak_id = key_id, ak_partner_id = p_id p, ak_key_prefix = prefix, ak_key_hash = key_hash,
            ak_scopes = kc_scopes body, ak_expires_at = kc_expires_at body, ak_revoked_at = None,
            ak_created_at = stamp\<rparr> in
      seqE (update_db (\<lambda>db. db\<lparr>db_api_keys := db_api_keys db @ [api_key]\<rparr>))
      (seqE commit
      (ret \<lparr>kr_id = ak_id api_key, kr_key = full_key, kr_key_prefix = prefix, kr_scopes = ak_scopes api_key,
            kr_expires_at = ak_expires_at api_key, kr_created_at = ak_created_at api_key\<rparr>)))))))"

definition rotate_signing_secret ::
  "('r, 'k) env \<Rightarrow> settings \<Rightarrow> string option \<Rightarrow> uuid \<Rightarrow> ('r, 'k, PartnerCreatedResponse) hub" where
  "rotate_signing_secret e stg credentials u =
     bindE (require_roles e RequireAdmin credentials stg) (\<lambda>principal.
     if fernet_key stg = [] then throw (HTTPException 422 ''FERNET_KEY is not configured.'')
     else bindE (get_partner_by_public_id u) (\<lambda>p.
     bindE (rotate_partner_signing_secret e p stg (ap_sub principal) None) (\<lambda>plaintext.
     bindE (refresh_partner p) (\<lambda>q.
     ret (partner_with_secret q plaintext)))))"

section \<open>Endpoints\<close>

definition fetch_endpoint :: "uuid \<Rightarrow> ('r, 'k, partner_endpoint) hub" where
  "fetch_endpoint endpoint_id =
     bindE (gets (\<lambda>w. filter (\<lambda>ep. ep_id ep = endpoint_id) (db_endpoints (w_db w)))) (\<lambda>rows.
     bindE (one_or_none rows) (\<lambda>found.
     case found of
       None \<Rightarrow> throw (HTTPException 404 ''Endpoint not found.'')
     | Some ep \<Rightarrow> ret ep))"

definition partner_public_id :: "partner_endpoint \<Rightarrow> ('r, 'k, uuid) hub" where
  "partner_public_id ep =
     bindE (gets (\<lambda>w. map p_public_id (filter (\<lambda>p. p_id p = ep_partner_id ep) (db_partners (w_db w))))) (\<lambda>rows.
     bindE (one_or_none rows) (\<lambda>found.
     case found of
       None \<Rightarrow> throw (HTTPException 404 ''Partner not found.'')
     | Some u \<Rightarrow> ret u))"

definition refresh_endpoint :: "partner_endpoint \<Rightarrow> ('r, 'k, partner_endpoint) hub" where
  "refresh_endpoint ep = gets (\<lambda>w. case find (\<lambda>x. ep_id x = ep_id ep) (db_endpoints (w_db w)) of
     None \<Rightarrow> ep | Some x \<Rightarrow> x)"

definition create_endpoint ::
  "('r, 'k) env \<Rightarrow> settings \<Rightarrow> string option \<Rightarrow> uuid \<Rightarrow> EndpointCreate \<Rightarrow> ('r, 'k, EndpointResponse) hub" where
  "create_endpoint e stg credentials u body =
     seqE (require_roles e RequireAdmin credentials stg)
     (bindE (liftE (validate_endpoint_create body)) (\<lambda>body.
      bindE (get_partner_by_public_id u) (\<lambda>p.
      bindE (generate_uuidv7 e) (\<lambda>v.
      bindE utcnow (\<lambda>stamp.
      let ep = \<lparr>ep_id = v, ep_partner_id = p_id p, ep_direction = ec_direction body, ep_url = ec_url body,
            ep_event_types = ec_event_types body, ep_status = EndpointStatus.ACTIVE,
            ep_sla_seconds = ec_sla_seconds body,
            ep_max_attempts = int_or (ec_max_attempts body) (hub_max_attempts_default stg),
            ep_backoff_policy = JObj [], ep_retry_on_status_codes = [],
            ep_timeout_connect_ms = int_or (ec_timeout_connect_ms body) (hub_http_connect_timeout_ms stg),
            ep_timeout_read_ms = int_or (ec_timeout_read_ms body) (hub_http_read_timeout_ms stg),
            ep_created_at = Some stamp, ep_updated_at = Some stamp\<rparr> in
      seqE (update_db (\<lambda>db. db\<lparr>db_endpoints := db_endpoints db @ [ep]\<rparr>))
      (seqE commit
      (seqE (update_cache (invalidate_partner_endpoints (p_id p)))
      (bindE (refresh_endpoint ep) (\<lambda>x.
       ret (endpoint_to_response x (p_public_id p)))))))))))"

definition get_endpoint ::
  "('r, 'k) env \<Rightarrow> settings \<Rightarrow> string option \<Rightarrow> uuid \<Rightarrow> ('r, 'k, EndpointResponse) hub" where
  "get_endpoint e stg credentials u =
     seqE (require_roles e RequireViewer credentials stg)
     (bindE (fetch_endpoint u) (\<lambda>ep.
      bindE (partner_public_id ep) (\<lambda>public_id.
      ret (endpoint_to_response ep public_id))))"

definition patch_endpoint :: "EndpointUpdate \<Rightarrow> partner_endpoint \<Rightarrow> partner_endpoint" where
  "patch_endpoint body ep = ep\<lparr>ep_status := set_some (eu_status body) (ep_status ep),
     ep_url := set_some (eu_url body) (ep_url ep),
     ep_event_types := set_some (eu_event_types body) (ep_event_types ep),
     ep_sla_seconds := (case eu_sla_seconds body of None \<Rightarrow> ep_sla_seconds ep | Some x \<Rightarrow> Some x)\<rparr>"

definition save_endpoint :: "partner_endpoint \<Rightarrow> partner_endpoint \<Rightarrow> ('r, 'k, unit) hub" where
  "save_endpoint ep ep1 =
     bindE utcnow (\<lambda>stamp. update_db (\<lambda>db. if ep1 = ep then db else db\<lparr>db_endpoints :=
       put_row ep_id (ep1\<lparr>ep_updated_at := Some stamp\<rparr>) (db_endpoints db)\<rparr>))"

definition update_endpoint ::
  "('r, 'k) env \<Rightarrow> settings \<Rightarrow> string option \<Rightarrow> uuid \<Rightarrow> EndpointUpdate \<Rightarrow> ('r, 'k, EndpointResponse) hub" where
  "update_endpoint e stg credentials u body =
     seqE (require_roles e RequireAdmin credentials stg)
     (bindE (liftE (validate_endpoint_update body)) (\<lambda>body.
      bindE (fetch_endpoint u) (\<lambda>ep.
      seqE (save_endpoint ep (patch_endpoint body ep))
      (seqE commit
      (seqE (update_cache (invalidate_partner_endpoints (ep_partner_id ep)))
      (bindE (refresh_endpoint (patch_endpoint body ep)) (\<lambda>x.
       bindE (partner_public_id x) (\<lambda>public_id.
       ret (endpoint_to_response x public_id)))))))))"

section \<open>Payload schemas\<close>

definition create_payload_schema ::
  "('r, 'k) env \<Rightarrow> settings \<Rightarrow> string option \<Rightarrow> PayloadSchemaCreate \<Rightarrow> ('r, 'k, payload_schema) hub" where
  "create_payload_schema e stg credentials body =
     seqE (require_roles e RequireAdmin credentials stg)
     (bindE (liftE (validate_payload_schema_create body)) (\<lambda>body.
      bindE (generate_uuidv7 e) (\<lambda>u.
      bindE utcnow (\<lambda>stamp.
      let row = \<lparr>ps_id = u, ps_event_type = sc_event_type body, ps_version = sc_version body,
            ps_json_schema = sc_json_schema body, ps_status = PayloadSchemaStatus.ACTIVE,
            ps_created_at = Some stamp, ps_updated_at = Some stamp\<rparr> in
      seqE (update_db (\<lambda>db. db\<lparr>db_payload_schemas := db_payload_schemas db @ [row]\<rparr>))
      (seqE commit
      (seqE (update_cache (invalidate_schema (sc_event_type body)))
      (ret row)))))))"

definition list_payload_schemas ::
  "('r, 'k) env \<Rightarrow> settings \<Rightarrow> string option \<Rightarrow> string \<Rightarrow> ('r, 'k, PayloadSchemaListResponse) hub" where
  "list_payload_schemas e stg credentials event_type =
     seqE (require_roles e RequireViewer credentials stg)
     (gets (\<lambda>w. let rows = filter (\<lambda>s. ps_event_type s = event_type) (db_payload_schemas (w_db w)) in
        \<lparr>sl_items = order_desc ps_version rows, sl_total = int (length rows)\<rparr>))"

section \<open>The rows of a new partner\<close>

definition new_partner :: "('r, 'k) env \<Rightarrow> settings \<Rightarrow> PartnerCreate \<Rightarrow> bytes \<Rightarrow> ('r, 'k) world \<Rightarrow> partner" where
  "new_partner e stg body encrypted w =
     \<lparr>p_id = w_seq_partners w + 1, p_public_id = uuid7 e (w_draws w), p_slug = pc_slug body, p_name = pc_name body,
      p_status = PROVISIONING, p_sla_seconds = pc_sla_seconds body, p_auto_replay_enabled = False,
      p_circuit_breaker_config = JObj [],
      p_rate_limit_rps = int_or (pc_rate_limit_rps body) (hub_rate_limit_rps_default stg),
      p_signing_secret_encrypted = Some encrypted, p_created_at = Some (w_clock w), p_updated_at = Some (w_clock w)\<rparr>"

definition new_secret :: "('r, 'k) env \<Rightarrow> bytes \<Rightarrow> ('r, 'k) world \<Rightarrow> partner_signing_secret" where
  "new_secret e encrypted w =
     \<lparr>ss_id = uuid7 e (Suc (w_draws w)), ss_partner_id = w_seq_partners w + 1, ss_secret_encrypted = encrypted,
      ss_version = 1, ss_status = PRIMARY, ss_valid_from = w_clock w, ss_valid_until = None, ss_created_at = w_clock w\<rparr>"

definition partner_database :: "('r, 'k) env \<Rightarrow> settings \<Rightarrow> PartnerCreate \<Rightarrow> bytes \<Rightarrow> ('r, 'k) world \<Rightarrow> database" where
  "partner_database e stg body encrypted w =
     (w_db w)\<lparr>db_partners := db_partners (w_db w) @ [new_partner e stg body encrypted w],
              db_signing_secrets := db_signing_secrets (w_db w) @ [new_secret e encrypted w]\<rparr>"

text \<open>Without the secret the partner row is no worse.\<close>

lemma partner_alone_ok:
  assumes "constraints_ok (partner_database e stg b enc w)" "constraints_ok (w_db w)"
  shows "constraints_ok ((w_db w)\<lparr>db_partners := db_partners (w_db w) @ [new_partner e stg b enc w]\<rparr>)"
  using assms references_target_mono
  by (auto simp: constraints_ok_def table_ok_defs partner_database_def)

lemma store_partner_ok:
  assumes "constraints_ok (w_db w)" "constraints_ok (partner_database e stg b enc w)"
  shows "store_partner e stg b enc w = (Inr (new_partner e stg b enc w),
    w\<lparr>w_draws := Suc (Suc (w_draws w)), w_seq_partners := w_seq_partners w + 1,
      w_db := partner_database e stg b enc w, w_committed := partner_database e stg b enc w\<rparr>)"
  using assms(2) partner_alone_ok [OF assms(2,1)]
  by (simp add: store_partner_def insert_partner_def insert_primary_signing_secret_def catchE_run bindE_run seqE_run
      generate_uuidv7_apply utcnow_apply gets_apply modify_apply update_db_apply flush_def commit_def ret_apply Let_def
      new_partner_def new_secret_def partner_database_def)

lemma store_partner_refused:
  assumes "constraints_ok (w_db w)" "w_db w = w_committed w" "\<not> constraints_ok (partner_database e stg b enc w)"
  shows "\<exists>w'. store_partner e stg b enc w = (Inl (HTTPException 422 ''Partner slug already exists.''), w') \<and>
    w_db w' = w_committed w \<and> w_committed w' = w_committed w \<and> w_cache w' = w_cache w"
  using assms(3)
  by (simp add: store_partner_def insert_partner_def insert_primary_signing_secret_def catchE_run bindE_run seqE_run
      generate_uuidv7_apply utcnow_apply gets_apply modify_apply update_db_apply flush_def commit_def ret_apply Let_def
      rollback_apply throw_apply new_partner_def new_secret_def partner_database_def)

section \<open>A concrete administrator\<close>

definition admin_settings :: settings where
  "admin_settings = default_settings\<lparr>admin_bootstrap_token := ''bootstrap-token'', fernet_key := ''key''\<rparr>"

text \<open>The bootstrap token is an admin, so every route lets it through.\<close>

lemma bootstrap_allowed:
  "HUB_ADMIN \<in> set allowed \<Longrightarrow> require_roles e allowed (Some ''bootstrap-token'') admin_settings w =
     (Inr \<lparr>ap_sub = ''bootstrap'', ap_role = HUB_ADMIN\<rparr>, w)"
  by (simp add: require_roles_def get_admin_principal_def authenticate_token_def admin_settings_def bindE_run ret_apply)

lemma admin_allowed:
  "require_roles e RequireAdmin (Some ''bootstrap-token'') admin_settings w = (Inr \<lparr>ap_sub = ''bootstrap'', ap_role = HUB_ADMIN\<rparr>, w)"
  by (rule bootstrap_allowed) (simp add: RequireAdmin_def)

end
