(* ===== verification/AdminDeliveries.thy ===== *)
theory AdminDeliveries
  imports AdminPartners Replay
begin

text \<open>
  The admin routes for deliveries (\<open>app/api/v1/admin/deliveries.py\<close>), dead letters (\<open>dead_letters.py\<close>) and
  replay approvals (\<open>replay_approvals.py\<close>). The lemmas show that paging through a list gives every match
  once, that a dead letter is acknowledged once and never removed, and that with approvals required a
  replay request moves nothing until an admin decides.
\<close>

section \<open>Deliveries\<close>

record delivery_filters =
  df_partner_id :: "uuid option"
  df_status :: "DeliveryStatus option"
  df_event_type :: "string option"
  df_from :: "time option"
  df_to :: "time option"
  df_correlation_id :: "string option"
  df_sla_breached :: "bool option"

definition unset_or :: "'a option \<Rightarrow> ('a \<Rightarrow> bool) \<Rightarrow> bool" where
  "unset_or v test \<longleftrightarrow> (case v of None \<Rightarrow> True | Some x \<Rightarrow> test x)"

text \<open>The conditions a row of the join must meet.\<close>

definition apply_delivery_filters :: "delivery_filters \<Rightarrow> delivery \<times> partner \<Rightarrow> bool" where
  "apply_delivery_filters f row = (case row of (d, p) \<Rightarrow>
     unset_or (df_partner_id f) (\<lambda>u. p_public_id p = u) \<and>
     unset_or (df_status f) (\<lambda>s. d_status d = s) \<and>
     unset_or (df_event_type f) (\<lambda>t. d_event_type d = t) \<and>
     unset_or (df_from f) (\<lambda>t. t \<le> stamp_of (d_created_at d)) \<and>
     unset_or (df_to f) (\<lambda>t. stamp_of (d_created_at d) \<le> t) \<and>
     unset_or (df_correlation_id f) (\<lambda>c. d_correlation_id d = c) \<and>
     unset_or (df_sla_breached f) (\<lambda>b. d_sla_breached d = b))"

definition deliveries_with_partner :: "database \<Rightarrow> (delivery \<times> partner) list" where
  "deliveries_with_partner db =
     concat (map (\<lambda>d. map (\<lambda>p. (d, p)) (filter (\<lambda>p. d_partner_id d = p_id p) (db_partners db))) (db_deliveries db))"

definition get_delivery_partner_or_404 :: "uuid \<Rightarrow> ('r, 'k, delivery \<times> partner) hub" where
  "get_delivery_partner_or_404 delivery_id =
     bindE (fetch_delivery_with_partner delivery_id) (\<lambda>row.
     case row of
       None \<Rightarrow> throw (HTTPException 404 ''Delivery not found.'')
     | Some r \<Rightarrow> ret r)"

definition list_deliveries ::
  "('r, 'k) env \<Rightarrow> settings \<Rightarrow> string option \<Rightarrow> delivery_filters \<Rightarrow> PaginationParams \<Rightarrow>
   ('r, 'k, DeliveryResponse PaginatedResponse) hub" where
  "list_deliveries e stg credentials f pagination =
     seqE (require_roles e RequireViewer credentials stg)
     (bindE (liftE (validate_pagination pagination)) (\<lambda>pg.
      gets (\<lambda>w. paginate pg (map (\<lambda>(d, p). delivery_to_response d (p_public_id p) [])
        (order_desc (\<lambda>(d, p). stamp_of (d_created_at d))
          (filter (apply_delivery_filters f) (deliveries_with_partner (w_db w))))))))"

definition bulk_replay_deliveries_endpoint ::
  "('r, 'k) env \<Rightarrow> settings \<Rightarrow> string option \<Rightarrow> BulkReplayRequest \<Rightarrow> ('r, 'k, BulkReplayResponse) hub" where
  "bulk_replay_deliveries_endpoint e stg credentials body =
     bindE (require_roles e RequireAdmin credentials stg) (\<lambda>principal.
     bindE (liftE (validate_bulk_replay body)) (\<lambda>body.
     bindE (bulk_replay_deliveries e (bq_delivery_ids body) (ap_sub principal) (bq_reason body) stg) (\<lambda>result.
     ret \<lparr>bs_requested = br_requested result, bs_replayed = br_replayed result,
       bs_skipped_open_circuit = br_skipped_open_circuit result, bs_skipped_rate_limited = br_skipped_rate_limited result,
       bs_skipped_invalid_status = br_skipped_invalid_status result, bs_not_found = br_not_found result\<rparr>)))"

text \<open>A missing or empty key is replaced by a random one.\<close>

definition sandbox_key :: "('r, 'k) env \<Rightarrow> string option \<Rightarrow> ('r, 'k, string) hub" where
  "sandbox_key e given =
     (case given of
        Some (c # cs) \<Rightarrow> ret (c # cs)
      | _ \<Rightarrow> bindE next_draw (\<lambda>n. ret (''sandbox::'' @ str_uuid (uuid4 e n))))"

definition sandbox_test_delivery ::
  "('r, 'k) env \<Rightarrow> settings \<Rightarrow> string option \<Rightarrow> string option \<Rightarrow> OutboundEventRequest \<Rightarrow> int \<Rightarrow>
   ('r, 'k, enqueue_response) hub" where
  "sandbox_test_delivery e stg credentials context body now =
     seqE (require_roles e RequireAdmin credentials stg)
     (bindE (liftE (validate_sandbox_test body)) (\<lambda>body.
      bindE (sandbox_key e (oq_idempotency_key body)) (\<lambda>idempotency_key.
      bindE (liftE (outbound_correlation (oq_correlation_id body) context)) (\<lambda>correlation_id.
      enqueue_outbound_for_event e (oq_partner_id body) (oq_event_type body) (oq_payload body)
        idempotency_key correlation_id (utc_now_from_timestamp now)))))"

definition attempts_of :: "delivery \<Rightarrow> database \<Rightarrow> delivery_attempt list" where
  "attempts_of d db = sort_key at_attempt_number (filter (\<lambda>a. at_delivery_id a = d_id d) (db_attempts db))"

definition get_delivery ::
  "('r, 'k) env \<Rightarrow> settings \<Rightarrow> string option \<Rightarrow> uuid \<Rightarrow> ('r, 'k, DeliveryResponse) hub" where
  "get_delivery e stg credentials u =
     seqE (require_roles e RequireViewer credentials stg)
     (bindE (get_delivery_partner_or_404 u) (\<lambda>(d, p).
      bindE (gets (\<lambda>w. attempts_of d (w_db w))) (\<lambda>attempts.
      ret (delivery_to_response d (p_public_id p) (map attempt_to_response attempts)))))"

definition list_delivery_attempts ::
  "('r, 'k) env \<Rightarrow> settings \<Rightarrow> string option \<Rightarrow> uuid \<Rightarrow> PaginationParams \<Rightarrow>
   ('r, 'k, DeliveryAttemptResponse PaginatedResponse) hub" where
  "list_delivery_attempts e stg credentials u pagination =
     seqE (require_roles e RequireViewer credentials stg)
     (bindE (liftE (validate_pagination pagination)) (\<lambda>pg.
      bindE (get_delivery_partner_or_404 u) (\<lambda>(d, p).
      gets (\<lambda>w. paginate pg (map attempt_to_response (attempts_of d (w_db w)))))))"

text \<open>A queued replay is a JSON response with its own status code, a started one has the route's default.\<close>

datatype replay_response =
    JSONResponse int ReplayApprovalPendingResponse
  | Replayed DeliveryReplayResponse

definition replay_delivery_endpoint ::
  "('r, 'k) env \<Rightarrow> settings \<Rightarrow> string option \<Rightarrow> uuid \<Rightarrow> DeliveryReplayRequest \<Rightarrow> ('r, 'k, replay_response) hub" where
  "replay_delivery_endpoint e stg credentials u body =
     bindE (require_roles e RequireOperator credentials stg) (\<lambda>principal.
     bindE (liftE (validate_replay_request body)) (\<lambda>body.
     if hub_replay_approval_required stg then
       bindE (create_replay_approval e u (ap_sub principal) (dr_reason body)) (\<lambda>approval.
       ret (JSONResponse 202 \<lparr>rp_approval_id = ra_id approval, rp_status = ra_status approval\<rparr>))
     else
       bindE (replay_delivery e u (ap_sub principal) (dr_reason body) (dr_reset_attempt_counter body) ''manual'') (\<lambda>d.
       ret (Replayed \<lparr>dy_delivery_id = d_public_id d, dy_status = d_status d\<rparr>))))"

section \<open>Dead letters\<close>

definition dead_letters_joined :: "database \<Rightarrow> (dead_letter \<times> delivery \<times> partner) list" where
  "dead_letters_joined db =
     concat (map (\<lambda>l. concat (map (\<lambda>d. map (\<lambda>p. (l, d, p))
       (filter (\<lambda>p. dl_partner_id l = p_id p) (db_partners db)))
       (filter (\<lambda>d. dl_delivery_id l = d_id d) (db_deliveries db)))) (db_dead_letters db))"

definition get_dead_letter_row_or_404 :: "uuid \<Rightarrow> ('r, 'k, dead_letter \<times> delivery \<times> partner) hub" where
  "get_dead_letter_row_or_404 dead_letter_id =
     bindE (gets (\<lambda>w. filter (\<lambda>(l, d, p). dl_id l = dead_letter_id) (dead_letters_joined (w_db w)))) (\<lambda>rows.
     bindE (one_or_none rows) (\<lambda>row.
     case row of
       None \<Rightarrow> throw (HTTPException 404 ''Dead-letter entry not found.'')
     | Some r \<Rightarrow> ret r))"

definition list_dead_letters ::
  "('r, 'k) env \<Rightarrow> settings \<Rightarrow> string option \<Rightarrow> PaginationParams \<Rightarrow> ('r, 'k, DeadLetterResponse PaginatedResponse) hub" where
  "list_dead_letters e stg credentials pagination =
     seqE (require_roles e RequireViewer credentials stg)
     (bindE (liftE (validate_pagination pagination)) (\<lambda>pg.
      gets (\<lambda>w. paginate pg (map (\<lambda>(l, d, p). dead_letter_to_response l (d_public_id d) (p_public_id p))
        (order_desc (\<lambda>(l, d, p). dl_created_at l) (dead_letters_joined (w_db w)))))))"

definition save_dead_letter :: "dead_letter \<Rightarrow> ('r, 'k, unit) hub" where
  "save_dead_letter l = update_db (\<lambda>db. db\<lparr>db_dead_letters := put_row dl_id l (db_dead_letters db)\<rparr>)"

definition acknowledge_dead_letter ::
  "('r, 'k) env \<Rightarrow> settings \<Rightarrow> string option \<Rightarrow> uuid \<Rightarrow> ('r, 'k, DeadLetterAckResponse) hub" where
  "acknowledge_dead_letter e stg credentials u =
     bindE (require_roles e RequireOperator credentials stg) (\<lambda>principal.
     bindE (get_dead_letter_row_or_404 u) (\<lambda>(l, d, p).
     if dl_acknowledged_at l \<noteq> None then throw (HTTPException 409 ''Dead-letter entry is already acknowledged.'')
     else bindE utcnow (\<lambda>now.
     seqE (save_dead_letter (l\<lparr>dl_acknowledged_at := Some now, dl_acknowledged_by := Some (ap_sub principal)\<rparr>))
     (seqE (add_audit_log e (ap_sub principal) ''dlq.ack'' ''dead_letter'' (dl_id l)
              [(''delivery_id'', JStr (str_uuid (d_public_id d)))])
     (seqE commit
     (ret \<lparr>ka_id = dl_id l, ka_acknowledged_at = now, ka_acknowledged_by = ap_sub principal\<rparr>))))))"

definition purge_dead_letter ::
  "('r, 'k) env \<Rightarrow> settings \<Rightarrow> string option \<Rightarrow> uuid \<Rightarrow> DeadLetterPurgeRequest \<Rightarrow> ('r, 'k, DeadLetterPurgeResponse) hub" where
  "purge_dead_letter e stg credentials u body =
     bindE (require_roles e RequireAdmin credentials stg) (\<lambda>principal.
     bindE (liftE (validate_purge_request body)) (\<lambda>body.
     bindE (get_dead_letter_row_or_404 u) (\<lambda>(l, d, p).
     seqE (save_dead_letter (l\<lparr>dl_reason := MANUAL_PURGE\<rparr>))
     (seqE (add_audit_log e (ap_sub principal) ''dlq.purge'' ''dead_letter'' (dl_id l) [(''reason'', JStr (pq_reason body))])
     (seqE commit
     (ret \<lparr>kp_id = dl_id l, kp_reason = MANUAL_PURGE\<rparr>))))))"

section \<open>Replay approvals\<close>

definition approvals_joined :: "database \<Rightarrow> (replay_approval \<times> delivery \<times> partner) list" where
  "approvals_joined db =
     concat (map (\<lambda>a. concat (map (\<lambda>d. map (\<lambda>p. (a, d, p))
       (filter (\<lambda>p. d_partner_id d = p_id p) (db_partners db)))
       (filter (\<lambda>d. ra_delivery_id a = d_id d) (db_deliveries db)))) (db_replay_approvals db))"

definition approval_item :: "replay_approval \<times> delivery \<times> partner \<Rightarrow> ReplayApprovalListItem" where
  "approval_item row = (case row of (a, d, p) \<Rightarrow>
     \<lparr>li_id = ra_id a, li_delivery_id = d_public_id d, li_reason = ra_reason a, li_requested_by = ra_requested_by a,
      li_approved_by = ra_approved_by a, li_status = ra_status a, li_created_at = ra_created_at a\<rparr>)"

definition list_replay_approvals ::
  "('r, 'k) env \<Rightarrow> settings \<Rightarrow> string option \<Rightarrow> ReplayApprovalStatus option \<Rightarrow> PaginationParams \<Rightarrow>
   ('r, 'k, ReplayApprovalListItem PaginatedResponse) hub" where
  "list_replay_approvals e stg credentials status_filter pagination =
     seqE (require_roles e RequireViewer credentials stg)
     (bindE (liftE (validate_pagination pagination)) (\<lambda>pg.
      let effective_status = (case status_filter of None \<Rightarrow> ReplayApprovalStatus.PENDING | Some s \<Rightarrow> s) in
      gets (\<lambda>w. paginate pg (map approval_item
        (order_desc (\<lambda>(a, d, p). ra_created_at a)
          (filter (\<lambda>(a, d, p). ra_status a = effective_status) (approvals_joined (w_db w))))))))"

definition approve_replay_approval_endpoint ::
  "('r, 'k) env \<Rightarrow> settings \<Rightarrow> string option \<Rightarrow> uuid \<Rightarrow> ('r, 'k, ReplayApprovalActionResponse) hub" where
  "approve_replay_approval_endpoint e stg credentials u =
     bindE (require_roles e RequireAdmin credentials stg) (\<lambda>principal.
     bindE (approve_replay_approval e u (ap_sub principal)) (\<lambda>d.
     ret \<lparr>rn_delivery_id = d_public_id d, rn_status = d_status d\<rparr>))"

definition reject_replay_approval_endpoint ::
  "('r, 'k) env \<Rightarrow> settings \<Rightarrow> string option \<Rightarrow> uuid \<Rightarrow> ReplayApprovalRejectRequest \<Rightarrow> ('r, 'k, ReplayApprovalRejectedResponse) hub" where
  "reject_replay_approval_endpoint e stg credentials u body =
     bindE (require_roles e RequireAdmin credentials stg) (\<lambda>principal.
     bindE (liftE (validate_reject_request body)) (\<lambda>body.
     bindE (reject_replay_approval e u (ap_sub principal) (rj_reason body)) (\<lambda>approval.
     ret \<lparr>rr_approval_id = ra_id approval, rr_status = ra_status approval\<rparr>)))"

section \<open>Paging\<close>

lemma concat_pages: "concat (map (\<lambda>i. take l (drop (i * l) xs)) [0..<k]) = take (k * l) xs"
proof (induction k)
  case (Suc k)
  have "take (Suc k * l) xs = take (k * l) xs @ take l (drop (k * l) xs)"
    using take_add [of "k * l" l xs] by (simp add: add.commute)
  with Suc show ?case by simp
qed simp

definition matching :: "delivery_filters \<Rightarrow> database \<Rightarrow> (delivery \<times> partner) list" where
  "matching f db = filter (apply_delivery_filters f) (deliveries_with_partner db)"

lemma guarded_run:
  assumes "fst (require_roles e allowed creds stg w) = Inr pr"
  shows "require_roles e allowed creds stg w = (Inr pr, w)"
  using assms require_roles_state [of e allowed creds stg w] by (metis prod.collapse)

text \<open>
  Paging through the deliveries shows every match exactly once: with any page size the route accepts,
  the pages at multiples of it, put together, are the deliveries that meet the filters with their
  partner, newest first, each with the total number of matches; the route changes nothing.
\<close>

lemma delivery_pages:
  assumes "fst (require_roles e RequireViewer creds stg w) = Inr pr" and "1 \<le> l" "l \<le> 200"
    and "length (matching f (w_db w)) \<le> k * nat l"
  shows "\<exists>resp rows. (\<forall>i < k. list_deliveries e stg creds f \<lparr>pg_limit = l, pg_offset = int i * l\<rparr> w = (Inr (resp i), w) \<and>
        pr_total (resp i) = int (length (matching f (w_db w)))) \<and>
     concat (map (\<lambda>i. pr_items (resp i)) [0..<k]) = map (\<lambda>(d, p). delivery_to_response d (p_public_id p) []) rows \<and>
     mset rows = mset (matching f (w_db w)) \<and> sorted (map (\<lambda>(d, p). - stamp_of (d_created_at d)) rows)"
proof -
  define rows where "rows = order_desc (\<lambda>(d, p). stamp_of (d_created_at d)) (matching f (w_db w))"
  define items where "items = map (\<lambda>(d, p). delivery_to_response d (p_public_id p) []) rows"
  define resp where "resp i = paginate \<lparr>pg_limit = l, pg_offset = int i * l\<rparr> items" for i
  have len: "length items = length (matching f (w_db w))" by (simp add: items_def rows_def order_desc_def)
  have run: "list_deliveries e stg creds f \<lparr>pg_limit = l, pg_offset = int i * l\<rparr> w = (Inr (resp i), w)" for i
    using guarded_run [OF assms(1)] assms(2,3)
    by (simp add: list_deliveries_def seqE_run bindE_run liftE_apply validate_pagination_def gets_apply resp_def items_def
        rows_def matching_def)
  have total: "pr_total (resp i) = int (length (matching f (w_db w)))" for i
    by (simp add: resp_def paginate_def len)
  have "pr_items (resp i) = take (nat l) (drop (i * nat l) items)" for i
    using assms(2) by (simp add: resp_def paginate_def nat_mult_distrib)
  then have "concat (map (\<lambda>i. pr_items (resp i)) [0..<k]) = take (k * nat l) items"
    using concat_pages [of "nat l" items k] by simp
  also have "\<dots> = items" using assms(4) len by simp
  finally have pages: "concat (map (\<lambda>i. pr_items (resp i)) [0..<k]) = items" .
  have "(\<lambda>x. - (case x of (d, p) \<Rightarrow> stamp_of (d_created_at d))) = (\<lambda>(d :: delivery, p :: partner). - stamp_of (d_created_at d))"
    by (simp add: fun_eq_iff)
  then have "sorted (map (\<lambda>(d, p). - stamp_of (d_created_at d)) rows)"
    using sorted_sort_key [of "\<lambda>(d, p). - stamp_of (d_created_at d)" "matching f (w_db w)"]
    by (simp add: rows_def order_desc_def)
  moreover have "mset rows = mset (matching f (w_db w))" by (simp add: rows_def order_desc_def)
  ultimately show ?thesis using run total pages unfolding items_def by blast
qed

section \<open>Dead letters\<close>

definition letter_context :: "database \<Rightarrow> dead_letter \<Rightarrow> (delivery \<times> partner) list" where
  "letter_context db l = concat (map (\<lambda>d. map (\<lambda>p. (d, p)) (filter (\<lambda>p. dl_partner_id l = p_id p) (db_partners db)))
     (filter (\<lambda>d. dl_delivery_id l = d_id d) (db_deliveries db)))"

lemma joined_filter:
  "filter (\<lambda>(l, d, p). dl_id l = u) (dead_letters_joined db) =
     concat (map (\<lambda>l. map (\<lambda>(d, p). (l, d, p)) (letter_context db l)) (filter (\<lambda>l. dl_id l = u) (db_dead_letters db)))"
proof -
  have eq: "dead_letters_joined db = concat (map (\<lambda>l. map (\<lambda>(d, p). (l, d, p)) (letter_context db l)) (db_dead_letters db))"
    by (simp add: dead_letters_joined_def letter_context_def map_concat o_def)
  have "filter (\<lambda>(l, d, p). dl_id l = u) (concat (map (\<lambda>l. map (\<lambda>(d, p). (l, d, p)) (letter_context db l)) ls)) =
      concat (map (\<lambda>l. map (\<lambda>(d, p). (l, d, p)) (letter_context db l)) (filter (\<lambda>l. dl_id l = u) ls))" for ls
    by (induction ls) (auto simp: filter_map o_def case_prod_beta filter_empty_conv)
  then show ?thesis by (simp add: eq)
qed

lemma letter_found:
  assumes "unique_on dl_id (db_dead_letters (w_db w))"
  shows "fst (get_dead_letter_row_or_404 u w) = Inr (l, d, p) \<longleftrightarrow>
     l \<in> set (db_dead_letters (w_db w)) \<and> dl_id l = u \<and> letter_context (w_db w) l = [(d, p)]"
proof (cases "\<exists>x \<in> set (db_dead_letters (w_db w)). dl_id x = u")
  case True
  then obtain x where x: "x \<in> set (db_dead_letters (w_db w))" "dl_id x = u" by blast
  then have "filter (\<lambda>l. dl_id l = u) (db_dead_letters (w_db w)) = [x]" using filter_unique_on [OF assms x(1)] by simp
  moreover have "l = x" if "l \<in> set (db_dead_letters (w_db w))" "dl_id l = u"
    using that x assms by (auto simp: unique_on_def distinct_map inj_on_def)
  ultimately show ?thesis using x
    by (auto simp: get_dead_letter_row_or_404_def bindE_run gets_apply joined_filter one_or_none_def ret_apply throw_apply
        split: list.splits)
next
  case False
  then have none: "filter (\<lambda>l. dl_id l = u) (db_dead_letters (w_db w)) = []" by (auto simp: filter_empty_conv)
  show ?thesis using False
    by (auto simp: get_dead_letter_row_or_404_def bindE_run gets_apply joined_filter none one_or_none_def ret_apply throw_apply)
qed

lemma letter_state [simp]: "snd (get_dead_letter_row_or_404 u w) = w"
  by (auto simp: get_dead_letter_row_or_404_def run_simps one_or_none_def split: list.splits)

definition acknowledged :: "dead_letter \<Rightarrow> time \<Rightarrow> string \<Rightarrow> dead_letter" where
  "acknowledged l now actor = l\<lparr>dl_acknowledged_at := Some now, dl_acknowledged_by := Some actor\<rparr>"

lemma ack_again:
  assumes "constraints_ok (w_committed w)" "l \<in> set (db_dead_letters (w_committed w))" "dl_acknowledged_at l \<noteq> None"
    "letter_context (w_committed w) l = [(d, p)]" "fst (require_roles e RequireOperator creds stg w) = Inr pr"
  shows "fst (with_session (acknowledge_dead_letter e stg creds (dl_id l)) w) =
     Inl (HTTPException 409 ''Dead-letter entry is already acknowledged.'')"
proof -
  let ?w = "w\<lparr>w_db := w_committed w\<rparr>"
  have "require_roles e RequireOperator creds stg ?w = (Inr pr, ?w)"
  proof (rule guarded_run)
    show "fst (require_roles e RequireOperator creds stg ?w) = Inr pr"
      using assms(5) by (auto simp: require_roles_def get_admin_principal_def authenticate_token_def bindE_run utcnow_apply
          throw_apply ret_apply split: option.splits if_splits json.splits list.splits)
  qed
  moreover have "unique_on dl_id (db_dead_letters (w_committed w))"
    using assms(1) by (simp add: constraints_ok_def dead_letters_ok_def)
  then have "fst (get_dead_letter_row_or_404 (dl_id l) ?w) = Inr (l, d, p)" using letter_found [of ?w] assms(2,4) by simp
  then have "get_dead_letter_row_or_404 (dl_id l) ?w = (Inr (l, d, p), ?w)" using letter_state by (metis prod.collapse)
  ultimately show ?thesis using assms(3) by (simp add: with_session_run acknowledge_dead_letter_def bindE_run throw_apply)
qed

lemma acknowledge_run:
  assumes "acknowledge_dead_letter e stg creds u w = (r, w')" "w_db w = w_committed w" "constraints_ok (w_committed w)"
  shows "case r of
      Inl x \<Rightarrow> w_committed w' = w_committed w
    | Inr resp \<Rightarrow> \<exists>l d p ent. l \<in> set (db_dead_letters (w_committed w)) \<and> dl_id l = u \<and> dl_acknowledged_at l = None \<and>
        letter_context (w_committed w) l = [(d, p)] \<and>
        al_action ent = ''dlq.ack'' \<and> al_resource_id ent = u \<and> al_actor_id ent = ka_acknowledged_by resp \<and>
        w_committed w' = (w_committed w)\<lparr>db_dead_letters :=
          put_row dl_id (acknowledged l (ka_acknowledged_at resp) (ka_acknowledged_by resp)) (db_dead_letters (w_committed w)),
          db_audit_logs := db_audit_logs (w_committed w) @ [ent]\<rparr> \<and> constraints_ok (w_committed w')"
proof (cases "\<exists>pr l d p. require_roles e RequireOperator creds stg w = (Inr pr, w) \<and>
    get_dead_letter_row_or_404 u w = (Inr (l, d, p), w) \<and> dl_acknowledged_at l = None")
  case True
  then obtain pr l d p where c: "require_roles e RequireOperator creds stg w = (Inr pr, w)"
      "get_dead_letter_row_or_404 u w = (Inr (l, d, p), w)" "dl_acknowledged_at l = None" by blast
  have u: "unique_on dl_id (db_dead_letters (w_db w))" using assms(2,3) by (simp add: constraints_ok_def dead_letters_ok_def)
  have l: "l \<in> set (db_dead_letters (w_committed w))" "dl_id l = u" "letter_context (w_committed w) l = [(d, p)]"
    using letter_found [OF u, of u l d p] c(2) assms(2) by simp_all
  let ?ent = "\<lparr>al_id = uuid7 e (w_draws w), al_actor_id = ap_sub pr, al_action = ''dlq.ack'', al_resource_type = ''dead_letter'',
      al_resource_id = dl_id l, al_metadata = [(''delivery_id'', JStr (str_uuid (d_public_id d)))], al_created_at = w_clock w\<rparr>"
  let ?db = "(w_committed w)\<lparr>db_dead_letters := put_row dl_id (acknowledged l (w_clock w) (ap_sub pr)) (db_dead_letters (w_committed w)),
      db_audit_logs := db_audit_logs (w_committed w) @ [?ent]\<rparr>"
  show ?thesis
  proof (cases "constraints_ok ?db")
    case True
    with assms(1,2) c have "r = Inr \<lparr>ka_id = dl_id l, ka_acknowledged_at = w_clock w, ka_acknowledged_by = ap_sub pr\<rparr>"
        "w_committed w' = ?db"
      by (auto simp: acknowledge_dead_letter_def bindE_run seqE_run utcnow_apply save_dead_letter_def update_db_apply
          add_audit_log_def generate_uuidv7_apply commit_ok ret_apply acknowledged_def)
    with True l c(3) show ?thesis by (auto intro!: exI [of _ l] exI [of _ d] exI [of _ p] exI [of _ ?ent])
  next
    case False
    with assms(1,2) c show ?thesis
      by (auto simp: acknowledge_dead_letter_def bindE_run seqE_run utcnow_apply save_dead_letter_def update_db_apply
          add_audit_log_def generate_uuidv7_apply commit_violation acknowledged_def)
  qed
next
  case False
  obtain x where rr: "require_roles e RequireOperator creds stg w = (x, w)"
    using require_roles_state by (metis prod.collapse)
  obtain y where g: "get_dead_letter_row_or_404 u w = (y, w)" using letter_state by (metis prod.collapse)
  from False rr g assms(1) have "\<exists>z. r = Inl z \<and> w' = w"
    by (cases x; cases y) (auto simp: acknowledge_dead_letter_def bindE_run throw_apply split: if_splits)
  then show ?thesis by auto
qed

text \<open>
  C39. A dead letter is acknowledged once: a successful acknowledgement stores exactly who and when on an
  unacknowledged entry, with one audit record naming the same actor, and touches nothing else; every
  later attempt on that entry, by anyone the route lets through, is answered with a 409; an attempt that
  fails stores nothing.
\<close>

theorem dead_letter_ack_once:
  assumes "constraints_ok (w_committed w)" and "with_session (acknowledge_dead_letter e stg creds u) w = (r, w')"
  shows "case r of
      Inl x \<Rightarrow> w_committed w' = w_committed w
    | Inr resp \<Rightarrow> (\<exists>l ent. l \<in> set (db_dead_letters (w_committed w)) \<and> dl_id l = u \<and> dl_acknowledged_at l = None \<and>
        al_action ent = ''dlq.ack'' \<and> al_resource_id ent = u \<and> al_actor_id ent = ka_acknowledged_by resp \<and>
        w_committed w' = (w_committed w)\<lparr>db_dead_letters :=
          put_row dl_id (acknowledged l (ka_acknowledged_at resp) (ka_acknowledged_by resp)) (db_dead_letters (w_committed w)),
          db_audit_logs := db_audit_logs (w_committed w) @ [ent]\<rparr>) \<and>
        (\<forall>creds' pr. fst (require_roles e RequireOperator creds' stg w') = Inr pr \<longrightarrow>
           fst (with_session (acknowledge_dead_letter e stg creds' u) w') =
             Inl (HTTPException 409 ''Dead-letter entry is already acknowledged.''))"
proof -
  obtain w1 where run: "acknowledge_dead_letter e stg creds u (w\<lparr>w_db := w_committed w\<rparr>) = (r, w1)"
      and w': "w' = w1\<lparr>w_db := w_committed w1\<rparr>"
    using assms(2) by (auto simp: with_session_def split: prod.splits)
  show ?thesis
  proof (cases r)
    case (Inl x)
    with acknowledge_run [OF run] assms(1) w' show ?thesis by simp
  next
    case (Inr resp)
    with acknowledge_run [OF run] assms(1) obtain l d p ent where
      c: "l \<in> set (db_dead_letters (w_committed w))" "dl_id l = u" "dl_acknowledged_at l = None" "letter_context (w_committed w) l = [(d, p)]"
        "al_action ent = ''dlq.ack''" "al_resource_id ent = u" "al_actor_id ent = ka_acknowledged_by resp"
        "w_committed w1 = (w_committed w)\<lparr>db_dead_letters :=
          put_row dl_id (acknowledged l (ka_acknowledged_at resp) (ka_acknowledged_by resp)) (db_dead_letters (w_committed w)),
          db_audit_logs := db_audit_logs (w_committed w) @ [ent]\<rparr>" "constraints_ok (w_committed w1)" by auto
    let ?l = "acknowledged l (ka_acknowledged_at resp) (ka_acknowledged_by resp)"
    have "?l \<in> set (db_dead_letters (w_committed w'))" using in_put_row [OF c(1), of dl_id ?l] c(8) w' by (simp add: acknowledged_def)
    moreover have "letter_context (w_committed w') ?l = [(d, p)]" using c(4,8) w' by (simp add: letter_context_def acknowledged_def)
    moreover have "dl_id ?l = u" "dl_acknowledged_at ?l \<noteq> None" using c(2) by (simp_all add: acknowledged_def)
    ultimately have "fst (with_session (acknowledge_dead_letter e stg creds' u) w') =
        Inl (HTTPException 409 ''Dead-letter entry is already acknowledged.'')"
      if "fst (require_roles e RequireOperator creds' stg w') = Inr pr" for creds' pr
      using ack_again [of w' ?l d p e creds' stg pr] that c(9) w' by simp
    with c w' Inr show ?thesis by auto
  qed
qed

section \<open>Approval before replay\<close>

text \<open>
  C40. Four eyes: with approvals required, the replay route never moves a delivery. Whatever the request,
  the deliveries and the outbox stay as they were; when it is answered, the status is 202 and exactly one
  pending approval for the named failed delivery was stored, and otherwise nothing was.
\<close>

theorem replay_needs_approval:
  assumes "hub_replay_approval_required stg"
    and "with_session (replay_delivery_endpoint e stg creds u body) w = (r, w')"
  shows "db_deliveries (w_committed w') = db_deliveries (w_committed w) \<and> db_outbox (w_committed w') = db_outbox (w_committed w) \<and>
    (case r of
       Inl x \<Rightarrow> w_committed w' = w_committed w
     | Inr resp \<Rightarrow> \<exists>a d. resp = JSONResponse 202 \<lparr>rp_approval_id = ra_id a, rp_status = ReplayApprovalStatus.PENDING\<rparr> \<and>
         ra_status a = ReplayApprovalStatus.PENDING \<and> ra_approved_by a = None \<and>
         d \<in> set (db_deliveries (w_committed w)) \<and> d_public_id d = u \<and> d_status d = FAILED \<and> ra_delivery_id a = d_id d \<and>
         w_committed w' = (w_committed w)\<lparr>db_replay_approvals := db_replay_approvals (w_committed w) @ [a]\<rparr>)"
proof -
  let ?w = "w\<lparr>w_db := w_committed w\<rparr>"
  obtain w1 where run: "replay_delivery_endpoint e stg creds u body ?w = (r, w1)" and w': "w' = w1\<lparr>w_db := w_committed w1\<rparr>"
    using assms(2) by (auto simp: with_session_def split: prod.splits)
  obtain x where rr: "require_roles e RequireOperator creds stg ?w = (x, ?w)" using require_roles_state by (metis prod.collapse)
  show ?thesis
  proof (cases "\<exists>pr b d p. x = Inr pr \<and> validate_replay_request body = Inr b \<and>
      fst (fetch_delivery_with_partner u ?w) = Inr (Some (d, p)) \<and> d_status d = FAILED")
    case True
    then obtain pr b d p where c: "x = Inr pr" "validate_replay_request body = Inr b"
        "fst (fetch_delivery_with_partner u ?w) = Inr (Some (d, p))" "d_status d = FAILED" by blast
    then have f: "fetch_delivery_with_partner u ?w = (Inr (Some (d, p)), ?w)"
      using fetch_delivery_state [of u ?w] by (metis prod.collapse)
    have d: "d \<in> set (db_deliveries (w_committed w))" "d_public_id d = u"
      using fetch_delivery_found [OF c(3)] by simp_all
    let ?a = "\<lparr>ra_id = uuid7 e (w_draws w), ra_delivery_id = d_id d, ra_reason = dr_reason b, ra_requested_by = ap_sub pr,
        ra_approved_by = None, ra_status = ReplayApprovalStatus.PENDING, ra_created_at = w_clock w, ra_updated_at = w_clock w\<rparr>"
    show ?thesis
      using run rr c(1,2,4) f d assms(1) w'
      by (auto simp: replay_delivery_endpoint_def create_replay_approval_def bindE_run seqE_run liftE_apply generate_uuidv7_apply
          utcnow_apply update_db_apply commit_def flush_def modify_apply ret_apply Let_def
          intro!: exI [of _ ?a] exI [of _ d] split: if_splits)
  next
    case False
    obtain y where f: "fetch_delivery_with_partner u ?w = (y, ?w)" using fetch_delivery_state by (metis prod.collapse)
    have "\<exists>z. r = Inl z \<and> w1 = ?w"
      using run rr False f assms(1)
      by (cases x; cases "validate_replay_request body"; cases y)
        (auto simp: replay_delivery_endpoint_def create_replay_approval_def bindE_run liftE_apply throw_apply
          split: option.splits if_splits)
    with w' show ?thesis by auto
  qed
qed

section \<open>Concrete requests\<close>

definition no_filters :: delivery_filters where
  "no_filters = \<lparr>df_partner_id = None, df_status = None, df_event_type = None, df_from = None, df_to = None,
     df_correlation_id = None, df_sla_breached = None\<rparr>"

lemma delivery_pages_witness:
  "\<exists>resp. list_deliveries mem_env admin_settings (Some ''bootstrap-token'') no_filters \<lparr>pg_limit = 1, pg_offset = 0\<rparr>
     (with_delivery (sample_delivery FAILED 2)) = (Inr resp, with_delivery (sample_delivery FAILED 2)) \<and> pr_total resp = 1"
proof -
  let ?w = "with_delivery (sample_delivery FAILED 2)"
  have one: "length (matching no_filters (w_db ?w)) = 1"
    by (simp add: matching_def deliveries_with_partner_def with_delivery_def sample_defs no_filters_def
        apply_delivery_filters_def unset_or_def)
  have "fst (require_roles mem_env RequireViewer (Some ''bootstrap-token'') admin_settings ?w) = Inr \<lparr>ap_sub = ''bootstrap'', ap_role = HUB_ADMIN\<rparr>"
    by (simp add: bootstrap_allowed RequireViewer_def)
  from delivery_pages [OF this, of 1 no_filters 1] one show ?thesis by auto
qed

definition sample_letter :: dead_letter where
  "sample_letter = \<lparr>dl_id = 9, dl_delivery_id = 1, dl_partner_id = 1, dl_reason = MAX_ATTEMPTS_EXCEEDED, dl_last_http_status = Some 500,
     dl_last_error_message = ''error'', dl_kafka_offset = None, dl_acknowledged_at = None, dl_acknowledged_by = None, dl_created_at = 0\<rparr>"

definition letter_world :: "(mem_redis, message list) world" where
  "letter_world = (let db = sample_db\<lparr>db_deliveries := [sample_delivery FAILED 2], db_dead_letters := [sample_letter]\<rparr>
     in sample_world\<lparr>w_committed := db, w_db := db\<rparr>)"

lemma letter_world_ok: "constraints_ok (w_committed letter_world)"
  by (simp add: letter_world_def Let_def sample_letter_def constraints_ok_def table_ok_defs references_def unique_on_def sample_defs)

lemma sample_ack:
  "\<exists>resp w'. with_session (acknowledge_dead_letter mem_env admin_settings (Some ''bootstrap-token'') 9) letter_world = (Inr resp, w')"
proof -
  let ?w = "letter_world\<lparr>w_db := w_committed letter_world\<rparr>"
  have "fst (get_dead_letter_row_or_404 9 ?w) = Inr (sample_letter, sample_delivery FAILED 2, sample_partner)"
    by (simp add: get_dead_letter_row_or_404_def bindE_run gets_apply one_or_none_def ret_apply dead_letters_joined_def
        letter_world_def Let_def sample_letter_def sample_defs)
  then have g: "get_dead_letter_row_or_404 9 ?w = (Inr (sample_letter, sample_delivery FAILED 2, sample_partner), ?w)"
    using letter_state by (metis prod.collapse)
  have r: "require_roles mem_env RequireOperator (Some ''bootstrap-token'') admin_settings ?w = (Inr \<lparr>ap_sub = ''bootstrap'', ap_role = HUB_ADMIN\<rparr>, ?w)"
    by (rule bootstrap_allowed) (simp add: RequireOperator_def)
  have ok: "constraints_ok ((w_committed letter_world)\<lparr>db_dead_letters := put_row dl_id (sample_letter\<lparr>dl_acknowledged_at := t, dl_acknowledged_by := s\<rparr>)
      (db_dead_letters (w_committed letter_world)), db_audit_logs := db_audit_logs (w_committed letter_world) @ [ent]\<rparr>)" for t s ent
    by (simp add: letter_world_def Let_def sample_letter_def constraints_ok_def table_ok_defs references_def unique_on_def put_row_def sample_defs)
  have n: "dl_acknowledged_at sample_letter = None" by (simp add: sample_letter_def)
  show ?thesis
    by (simp add: with_session_run acknowledge_dead_letter_def bindE_run seqE_run r g n utcnow_apply save_dead_letter_def update_db_apply
        add_audit_log_def generate_uuidv7_apply commit_ok ok ret_apply)
qed

theorem dead_letter_ack_once_witness:
  "\<exists>resp w'. with_session (acknowledge_dead_letter mem_env admin_settings (Some ''bootstrap-token'') 9) letter_world = (Inr resp, w') \<and>
     fst (with_session (acknowledge_dead_letter mem_env admin_settings (Some ''bootstrap-token'') 9) w') =
       Inl (HTTPException 409 ''Dead-letter entry is already acknowledged.'')"
proof -
  obtain resp w' where r: "with_session (acknowledge_dead_letter mem_env admin_settings (Some ''bootstrap-token'') 9) letter_world = (Inr resp, w')"
    using sample_ack by blast
  have "fst (require_roles mem_env RequireOperator (Some ''bootstrap-token'') admin_settings w') = Inr \<lparr>ap_sub = ''bootstrap'', ap_role = HUB_ADMIN\<rparr>"
    by (simp add: bootstrap_allowed RequireOperator_def)
  with dead_letter_ack_once [OF letter_world_ok r] r show ?thesis by auto
qed

theorem replay_needs_approval_witness:
  "\<exists>r w'. with_session (replay_delivery_endpoint mem_env (admin_settings\<lparr>hub_replay_approval_required := True\<rparr>)
       (Some ''bootstrap-token'') 6 \<lparr>dr_reason = ''fixed'', dr_reset_attempt_counter = False\<rparr>) letter_world = (r, w') \<and>
     db_outbox (w_committed w') = [] \<and> db_deliveries (w_committed w') = [sample_delivery FAILED 2]"
proof -
  obtain r w' where run: "with_session (replay_delivery_endpoint mem_env (admin_settings\<lparr>hub_replay_approval_required := True\<rparr>)
       (Some ''bootstrap-token'') 6 \<lparr>dr_reason = ''fixed'', dr_reset_attempt_counter = False\<rparr>) letter_world = (r, w')" by force
  have a: "hub_replay_approval_required (admin_settings\<lparr>hub_replay_approval_required := True\<rparr>)" by simp
  have "db_outbox (w_committed letter_world) = []" "db_deliveries (w_committed letter_world) = [sample_delivery FAILED 2]"
    by (simp_all add: letter_world_def Let_def sample_defs)
  with replay_needs_approval [OF a run] run show ?thesis by auto
qed

end
