(* ===== verification/CacheCoherence.thy ===== *)
theory CacheCoherence
  imports AdminPartners
begin

text \<open>
  The accept-path cache and the admin API together: a process that serves enqueue and admin requests
  one after the other. The cache is fresh when every entry is the copy of what the committed database
  holds for its key; every request keeps it fresh, because each handler that changes a cached table
  drops the keys it changed after its commit. On a fresh cache an event is accepted for exactly the
  committed active endpoints of an active partner. Entries of other processes expire by their time to live
  only: a suspension reaches them after it.
\<close>

section \<open>Freshness\<close>

definition cache_fresh :: "database \<Rightarrow> cache \<Rightarrow> bool" where
  "cache_fresh db c \<longleftrightarrow>
     (\<forall>u t v. c (partner_cache_key u) = Some (t, v) \<longrightarrow>
        (\<exists>p \<in> set (db_partners db). p_public_id p = u \<and> v = CachedPartner (copy_partner p))) \<and>
     (\<forall>i ty t v. c (endpoints_cache_key i ty) = Some (t, v) \<longrightarrow>
        v = CachedEndpoints (map copy_endpoint (active_outbound_endpoints i ty db))) \<and>
     (\<forall>ty t v. c (schema_cache_key ty) = Some (t, v) \<longrightarrow> v = cache_schema_value (latest_active_schema ty db))"

definition fresh :: "('r, 'k) world \<Rightarrow> bool" where
  "fresh w \<longleftrightarrow> cache_fresh (w_committed w) (w_cache w) \<and> constraints_ok (w_committed w)"

definition shrinks :: "cache \<Rightarrow> cache \<Rightarrow> bool" where
  "shrinks c c' \<longleftrightarrow> (\<forall>k x. c' k = Some x \<longrightarrow> c k = Some x)"

lemma shrinks_refl [simp]: "shrinks c c"
  by (simp add: shrinks_def)

lemma shrinks_get: "shrinks c (snd (cache_get t k c))"
  by (auto simp: shrinks_def cache_get_def split: option.splits if_splits)

lemma shrinks_invalidate:
  "shrinks c (invalidate_partner u c)" "shrinks c (invalidate_partner_endpoints i c)" "shrinks c (invalidate_schema ty c)"
  by (auto simp: shrinks_def invalidate_partner_def invalidate_partner_endpoints_def invalidate_endpoints_for_partner_def
      invalidate_schema_def Let_def split: option.splits prod.splits cache_value.splits if_splits)

lemma invalidated [simp]:
  "invalidate_partner u c (partner_cache_key u) = None"
  "invalidate_partner_endpoints i c (endpoints_cache_key i ty) = None"
  "invalidate_schema ty c (schema_cache_key ty) = None"
  by (auto simp: invalidate_partner_def invalidate_partner_endpoints_def invalidate_endpoints_for_partner_def
      invalidate_schema_def schema_cache_key_def partner_cache_key_def endpoints_cache_key_def startswith_iff Let_def
      split: option.splits prod.splits cache_value.splits)

text \<open>A change of the database is visible only at the keys it concerns.\<close>

lemma cache_fresh_change:
  assumes "cache_fresh db c" and sh: "shrinks c c'"
    and "\<And>q. q \<in> set (db_partners db) \<Longrightarrow> c' (partner_cache_key (p_public_id q)) \<noteq> None \<Longrightarrow>
           copy_partner q \<in> copy_partner ` set (db_partners db')"
    and "\<And>i ty. c' (endpoints_cache_key i ty) \<noteq> None \<Longrightarrow>
           map copy_endpoint (active_outbound_endpoints i ty db') = map copy_endpoint (active_outbound_endpoints i ty db)"
    and "\<And>ty. c' (schema_cache_key ty) \<noteq> None \<Longrightarrow> latest_active_schema ty db' = latest_active_schema ty db"
  shows "cache_fresh db' c'"
  unfolding cache_fresh_def
proof (intro conjI allI impI)
  fix u t v assume a: "c' (partner_cache_key u) = Some (t, v)"
  then obtain p where p: "p \<in> set (db_partners db)" "p_public_id p = u" "v = CachedPartner (copy_partner p)"
    using assms(1) sh unfolding cache_fresh_def shrinks_def by blast
  with a assms(3) [of p] obtain q where "q \<in> set (db_partners db')" "copy_partner p = copy_partner q" by auto
  moreover from this(2) have "p_public_id q = p_public_id p" by (simp add: copy_partner_def)
  ultimately show "\<exists>p \<in> set (db_partners db'). p_public_id p = u \<and> v = CachedPartner (copy_partner p)"
    using p by auto
next
  fix i ty t v assume a: "c' (endpoints_cache_key i ty) = Some (t, v)"
  then show "v = CachedEndpoints (map copy_endpoint (active_outbound_endpoints i ty db'))"
    using assms(1) sh assms(4) [of i ty] unfolding cache_fresh_def shrinks_def by auto
next
  fix ty t v assume a: "c' (schema_cache_key ty) = Some (t, v)"
  then show "v = cache_schema_value (latest_active_schema ty db')"
    using assms(1) sh assms(5) [of ty] unfolding cache_fresh_def shrinks_def by auto
qed

text \<open>What the cache depends on.\<close>

definition same_config :: "database \<Rightarrow> database \<Rightarrow> bool" where
  "same_config a b \<longleftrightarrow> map copy_partner (db_partners a) = map copy_partner (db_partners b) \<and>
     db_endpoints a = db_endpoints b \<and> db_payload_schemas a = db_payload_schemas b"

lemma same_config_refl [simp]: "same_config a a"
  by (simp add: same_config_def)

lemma same_config_sym: "same_config a b \<Longrightarrow> same_config b a"
  by (simp add: same_config_def)

lemma same_config_queries:
  assumes "same_config a b"
  shows "active_outbound_endpoints i ty b = active_outbound_endpoints i ty a"
    "latest_active_schema ty b = latest_active_schema ty a"
  using assms by (simp_all add: same_config_def active_outbound_endpoints_def latest_active_schema_def active_schemas_def)

lemma cache_fresh_same:
  assumes "same_config a b" "cache_fresh a c"
  shows "cache_fresh b c"
proof (rule cache_fresh_change [OF assms(2)])
  fix q assume "q \<in> set (db_partners a)"
  moreover have "copy_partner ` set (db_partners a) = copy_partner ` set (db_partners b)"
    using assms(1) unfolding same_config_def by (metis set_map)
  ultimately show "copy_partner q \<in> copy_partner ` set (db_partners b)" by blast
qed (simp_all add: same_config_queries [OF assms(1)])

section \<open>Programs that leave the configuration alone\<close>

definition on_state :: "(database \<Rightarrow> database \<Rightarrow> cache \<Rightarrow> bool) \<Rightarrow> ('r, 'k) world \<Rightarrow> bool" where
  "on_state J w \<longleftrightarrow> J (w_committed w) (w_db w) (w_cache w)"

lemma on_state_primitives [keep_intros]:
  "keeps (on_state J) utcnow" "keeps (on_state J) next_draw" "keeps (on_state J) (generate_uuidv7 e)"
  "keeps (on_state J) (emit_metric m)" "keeps (on_state J) flush" "keeps (on_state J) (one_or_none rows)"
  by (auto simp: keeps_def on_state_def flush_def run_simps one_or_none_def split: list.splits)

lemma on_state_update:
  "(\<And>c d cc. J c d cc \<Longrightarrow> J c (f d) cc) \<Longrightarrow> keeps (on_state J) (update_db f)"
  "(\<And>c d cc. J c d cc \<Longrightarrow> J d d cc) \<Longrightarrow> keeps (on_state J) commit"
  "(\<And>c d cc. J c d cc \<Longrightarrow> J c c cc) \<Longrightarrow> keeps (on_state J) rollback"
  by (auto simp: keeps_def on_state_def run_simps commit_def flush_def)

text \<open>Both states have the configuration of \<open>db\<close>, and the cache is fresh for it.\<close>

definition settled_config :: "database \<Rightarrow> database \<Rightarrow> database \<Rightarrow> cache \<Rightarrow> bool" where
  "settled_config db c d cc \<longleftrightarrow> same_config db c \<and> same_config db d \<and> cache_fresh db cc"

lemma settled_commit [keep_intros]:
  "keeps (on_state (settled_config db)) commit" "keeps (on_state (settled_config db)) rollback"
  by (rule on_state_update; simp add: settled_config_def)+

lemma settled_read [keep_intros]: "keeps (on_state (settled_config db)) (read_cache key)"
proof (rule keepsI)
  fix w :: "('a, 'b) world" assume a: "on_state (settled_config db) w"
  have "cache_fresh db (snd (cache_get (w_monotonic w) key (w_cache w)))"
    by (rule cache_fresh_change [OF _ shrinks_get]) (use a in \<open>auto simp: on_state_def settled_config_def\<close>)
  with a show "on_state (settled_config db) (snd (read_cache key w))"
    by (simp add: on_state_def settled_config_def read_cache_apply)
qed

lemma settled_cached_value [keep_intros]:
  assumes "\<And>p. keeps I (a p)" "\<And>s. keeps I (b s)" "keeps I c" "\<And>es. keeps I (d es)"
  shows "keeps I (case v of CachedPartner p \<Rightarrow> a p | CachedSchema s \<Rightarrow> b s | SchemaAbsent \<Rightarrow> c | CachedEndpoints es \<Rightarrow> d es)"
  using assms by (cases v) auto

lemma cache_fresh_set:
  "cache_fresh db c \<Longrightarrow> p \<in> set (db_partners db) \<Longrightarrow>
     cache_fresh db (cache_set t (partner_cache_key (p_public_id p)) (CachedPartner (copy_partner p)) c)"
  "cache_fresh db c \<Longrightarrow> cache_fresh db (cache_set t (endpoints_cache_key i ty)
     (CachedEndpoints (map copy_endpoint (active_outbound_endpoints i ty db))) c)"
  "cache_fresh db c \<Longrightarrow> cache_fresh db (cache_set t (schema_cache_key ty) (cache_schema_value (latest_active_schema ty db)) c)"
  unfolding cache_fresh_def cache_set_def by auto

text \<open>The lookups of the accept path: on a miss, what is cached is what was read.\<close>

lemma settled_partner_miss [keep_intros]:
  "keeps (on_state (settled_config db)) (bindE (fetch_partner_by_public_id u) (\<lambda>p. case p of
     None \<Rightarrow> ret None
   | Some row \<Rightarrow> seqE (write_cache (partner_cache_key u) (CachedPartner (copy_partner row))) (ret (Some row))))"
proof (rule keepsI)
  fix w :: "('a, 'b) world" assume a: "on_state (settled_config db) w"
  let ?rows = "filter (\<lambda>p. p_public_id p = u) (db_partners (w_db w))"
  show "on_state (settled_config db) (snd (bindE (fetch_partner_by_public_id u) (\<lambda>p. case p of
     None \<Rightarrow> ret None
   | Some row \<Rightarrow> seqE (write_cache (partner_cache_key u) (CachedPartner (copy_partner row))) (ret (Some row))) w))"
  proof (cases "\<exists>row. ?rows = [row]")
    case True
    then obtain row where r: "?rows = [row]" by blast
    then have "row \<in> set ?rows" by simp
    then have "row \<in> set (db_partners (w_db w))" "p_public_id row = u" by simp_all
    moreover have "cache_fresh (w_db w) (w_cache w)"
      using a cache_fresh_same by (auto simp: on_state_def settled_config_def)
    ultimately have "cache_fresh (w_db w) (cache_set (w_monotonic w) (partner_cache_key u) (CachedPartner (copy_partner row)) (w_cache w))"
      using cache_fresh_set(1) by blast
    moreover have "same_config (w_db w) db" using a same_config_sym by (auto simp: on_state_def settled_config_def)
    ultimately have "cache_fresh db (cache_set (w_monotonic w) (partner_cache_key u) (CachedPartner (copy_partner row)) (w_cache w))"
      using cache_fresh_same by blast
    with a r show ?thesis
      by (simp add: fetch_partner_by_public_id_def run_simps one_or_none_def on_state_def settled_config_def)
  next
    case False
    with a show ?thesis
      by (auto simp: fetch_partner_by_public_id_def run_simps one_or_none_def on_state_def split: list.splits)
  qed
qed

lemma settled_schema_miss [keep_intros]:
  "keeps (on_state (settled_config db)) (bindE (fetch_latest_active_schema ty) (\<lambda>row.
     seqE (write_cache (schema_cache_key ty) (cache_schema_value row)) (ret row)))"
proof (rule keepsI)
  fix w :: "('a, 'b) world" assume a: "on_state (settled_config db) w"
  then have "latest_active_schema ty (w_db w) = latest_active_schema ty db"
    by (simp add: on_state_def settled_config_def same_config_queries)
  with a cache_fresh_set(3) show "on_state (settled_config db) (snd (bindE (fetch_latest_active_schema ty) (\<lambda>row.
     seqE (write_cache (schema_cache_key ty) (cache_schema_value row)) (ret row)) w))"
    by (simp add: fetch_latest_active_schema_def run_simps on_state_def settled_config_def)
qed

lemma settled_endpoints_miss [keep_intros]:
  "keeps (on_state (settled_config db)) (bindE (fetch_active_outbound_endpoints i ty) (\<lambda>eps.
     seqE (write_cache (endpoints_cache_key i ty) (CachedEndpoints (map copy_endpoint eps))) (ret eps)))"
proof (rule keepsI)
  fix w :: "('a, 'b) world" assume a: "on_state (settled_config db) w"
  then have "active_outbound_endpoints i ty (w_db w) = active_outbound_endpoints i ty db"
    by (simp add: on_state_def settled_config_def same_config_queries)
  with a cache_fresh_set(2) show "on_state (settled_config db) (snd (bindE (fetch_active_outbound_endpoints i ty) (\<lambda>eps.
     seqE (write_cache (endpoints_cache_key i ty) (CachedEndpoints (map copy_endpoint eps))) (ret eps)) w))"
    by (simp add: fetch_active_outbound_endpoints_def run_simps on_state_def settled_config_def)
qed

lemma settled_validator [keep_intros]: "keeps (on_state J) (validator_for row)"
  by (auto simp: keeps_def on_state_def validator_for_def run_simps split: option.splits)

lemma settled_lookups [keep_intros]:
  "keeps (on_state (settled_config db)) (resolve_partner u)"
  "keeps (on_state (settled_config db)) (check_schema e ty payload)"
  "keeps (on_state (settled_config db)) (resolve_endpoints i ty)"
  unfolding resolve_partner_def check_schema_def resolve_endpoints_def validate_payload_def Let_def
  by (intro keep_intros)+

lemma settled_tables [keep_intros]:
  "keeps (on_state (settled_config db)) (update_db (\<lambda>d. d\<lparr>db_deliveries := f d, db_outbox := g d\<rparr>))"
  "keeps (on_state (settled_config db)) (update_db (\<lambda>d. d\<lparr>db_api_keys := h d\<rparr>))"
  "keeps (on_state (settled_config db)) (update_db (\<lambda>d. d\<lparr>db_signing_secrets := i d\<rparr>))"
  "keeps (on_state (settled_config db)) (update_db (\<lambda>d. d\<lparr>db_audit_logs := j d\<rparr>))"
  "keeps (on_state (settled_config db)) (modify (\<lambda>w. w\<lparr>w_seq_deliveries := m, w_seq_outbox := n\<rparr>))"
  by (auto simp: keeps_def on_state_def settled_config_def same_config_def run_simps modify_apply)

lemma settled_persist [keep_intros]:
  "keeps (on_state (settled_config db)) (persist_deliveries_and_outbox e ds envs key topic)"
  unfolding persist_deliveries_and_outbox_def execute_persist_stmt_def ensure_public_id_def Let_def
  by (intro keep_intros)

lemma settled_enqueue [keep_intros]:
  "keeps (on_state (settled_config db)) (enqueue_outbound_for_event e u ty payload ck ci now)"
  unfolding enqueue_outbound_for_event_def duplicate_or_conflict_def create_delivery_def ensure_public_id_def
    fetch_deliveries_by_source_event_id_def fetch_delivery_by_idempotency_def Let_def
  by (intro keep_intros) (auto intro: keep_intros split: list.splits)

lemma fresh_settled:
  assumes "\<And>db. keeps (on_state (settled_config db)) m" "keeps (on_db committed_ok) m" "fresh w"
  shows "fresh (snd (with_session m w))"
proof -
  let ?w = "w\<lparr>w_db := w_committed w\<rparr>"
  have "on_state (settled_config (w_committed w)) ?w" "on_db committed_ok ?w"
    using assms(3) by (simp_all add: on_state_def settled_config_def fresh_def on_db_def committed_ok_def)
  then have "on_state (settled_config (w_committed w)) (snd (m ?w))" "on_db committed_ok (snd (m ?w))"
    using keepsD [OF assms(1)] keepsD [OF assms(2)] by blast+
  then show ?thesis
    using cache_fresh_same by (auto simp: with_session_run fresh_def on_state_def settled_config_def on_db_def committed_ok_def)
qed

section \<open>Handlers that change the configuration\<close>

lemma bind_step:
  assumes "snd (m w) = w" "P w" "\<And>x. fst (m w) = Inr x \<Longrightarrow> P (snd (k x w))"
  shows "P (snd (bindE m k w))"
  using assms by (cases "m w"; cases "fst (m w)") (auto simp: bindE_run)

lemma seq_step:
  assumes "snd (m w) = w" "P w" "P (snd (k w))"
  shows "P (snd (seqE m k w))"
  using assms by (cases "m w"; cases "fst (m w)") (auto simp: seqE_run)

lemma liftE_state [simp]: "snd (liftE r w) = w"
  by (cases r) (simp_all add: liftE_apply)

lemma fetch_states [simp]:
  "snd (get_partner_by_public_id u w) = w" "snd (fetch_endpoint v w) = w" "snd (partner_public_id ep w) = w"
  by (auto simp: get_partner_by_public_id_def fetch_endpoint_def partner_public_id_def run_simps one_or_none_def
      split: list.splits)

lemma fetch_found:
  "fst (get_partner_by_public_id u w) = Inr p \<Longrightarrow> p \<in> set (db_partners (w_db w)) \<and> p_public_id p = u"
  "fst (fetch_endpoint v w) = Inr ep \<Longrightarrow> ep \<in> set (db_endpoints (w_db w)) \<and> ep_id ep = v"
  by (auto simp: get_partner_by_public_id_def fetch_endpoint_def run_simps one_or_none_def
      dest!: filter_eq_ConsD split: list.splits)

lemma fresh_guard: "fresh w \<Longrightarrow> fresh (snd (k w)) \<Longrightarrow> fresh (snd (seqE (require_roles e allowed creds stg) k w))"
  by (rule seq_step [where P = fresh]) (simp_all add: require_roles_state)

lemma fresh_lift: "fresh w \<Longrightarrow> (\<And>x. fresh (snd (k x w))) \<Longrightarrow> fresh (snd (bindE (liftE r) k w))"
  by (rule bind_step [where P = fresh]) simp_all

lemma fresh_fetch:
  "fresh w \<Longrightarrow> (\<And>p. p \<in> set (db_partners (w_db w)) \<Longrightarrow> p_public_id p = u \<Longrightarrow> fresh (snd (k p w))) \<Longrightarrow>
     fresh (snd (bindE (get_partner_by_public_id u) k w))"
  "fresh w \<Longrightarrow> (\<And>ep. ep \<in> set (db_endpoints (w_db w)) \<Longrightarrow> ep_id ep = u \<Longrightarrow> fresh (snd (l ep w))) \<Longrightarrow>
     fresh (snd (bindE (fetch_endpoint u) l w))"
  by (rule bind_step [where P = fresh], simp, simp, metis fetch_found)+

text \<open>A commit, the invalidation, and a rest that only reads.\<close>

lemma change_block:
  assumes "fresh w" and "constraints_ok (w_db w) \<Longrightarrow> cache_fresh (w_db w) (f (w_cache w))"
    and "\<And>J. keeps (on_state J) k"
  shows "fresh (snd (seqE commit (seqE (update_cache f) k) w))"
proof (cases "constraints_ok (w_db w)")
  case True
  let ?w = "w\<lparr>w_committed := w_db w, w_cache := f (w_cache w)\<rparr>"
  have "on_state (\<lambda>c d cc. c = w_db w \<and> cc = f (w_cache w)) (snd (k ?w))"
    by (rule keepsD [OF assms(3)]) (simp add: on_state_def)
  with True assms(2) show ?thesis by (simp add: seqE_run commit_ok update_cache_apply on_state_def fresh_def)
next
  case False
  with assms(1) show ?thesis by (simp add: seqE_run commit_violation)
qed

lemma reading_tails [keep_intros]:
  "keeps (on_state J) (refresh_partner p)" "keeps (on_state J) (refresh_endpoint ep)" "keeps (on_state J) (partner_public_id ep)"
  by (auto simp: keeps_def refresh_partner_def refresh_endpoint_def gets_apply)

lemma fresh_session:
  assumes "\<And>w :: ('r, 'k) world. fresh w \<Longrightarrow> w_db w = w_committed w \<Longrightarrow> fresh (snd (m w))" "fresh w"
  shows "fresh (snd (with_session (m :: ('r, 'k, 'a) hub) w))"
  using assms(1) [of "w\<lparr>w_db := w_committed w\<rparr>"] assms(2) by (simp add: with_session_run fresh_def)

lemma unique_row: "unique_on key xs \<Longrightarrow> x \<in> set xs \<Longrightarrow> y \<in> set xs \<Longrightarrow> key x = key y \<Longrightarrow> x = y"
  by (auto simp: unique_on_def distinct_map inj_on_def)

lemma save_apply:
  "save_partner p p1 w = (Inr (), w\<lparr>w_db := if p1 = p then w_db w else (w_db w)\<lparr>db_partners :=
     put_row p_id (p1\<lparr>p_updated_at := Some (w_clock w)\<rparr>) (db_partners (w_db w))\<rparr>\<rparr>)"
  "save_endpoint ep ep1 w = (Inr (), w\<lparr>w_db := if ep1 = ep then w_db w else (w_db w)\<lparr>db_endpoints :=
     put_row ep_id (ep1\<lparr>ep_updated_at := Some (w_clock w)\<rparr>) (db_endpoints (w_db w))\<rparr>\<rparr>)"
  by (simp_all add: save_partner_def save_endpoint_def bindE_run utcnow_apply update_db_apply)

lemma update_partner_fresh:
  assumes "fresh w" "w_db w = w_committed w"
  shows "fresh (snd (update_partner e stg creds u body w))"
  unfolding update_partner_def
proof (rule fresh_guard [OF assms(1)], rule fresh_lift [OF assms(1)], rule fresh_fetch(1) [OF assms(1)])
  fix b p assume p: "p \<in> set (db_partners (w_db w))" "p_public_id p = u"
  note p = p [unfolded assms(2)]
  define db' where "db' = (if patch_partner b p = p then w_committed w else (w_committed w)\<lparr>db_partners :=
    put_row p_id ((patch_partner b p)\<lparr>p_updated_at := Some (w_clock w)\<rparr>) (db_partners (w_committed w))\<rparr>)"
  have saved: "save_partner p (patch_partner b p) w = (Inr (), w\<lparr>w_db := db'\<rparr>)"
    by (simp add: save_apply db'_def assms(2))
  have uniq: "unique_on p_id (db_partners (w_committed w))"
    using assms(1) by (simp add: fresh_def constraints_ok_def partners_ok_def)
  have "cache_fresh db' (invalidate_partner u (w_cache w))"
  proof (rule cache_fresh_change [OF _ shrinks_invalidate(1)])
    show "cache_fresh (w_committed w) (w_cache w)" using assms(1) by (simp add: fresh_def)
    fix q assume q: "q \<in> set (db_partners (w_committed w))" "invalidate_partner u (w_cache w) (partner_cache_key (p_public_id q)) \<noteq> None"
    then have "q \<noteq> p" using p by auto
    then have "p_id q \<noteq> p_id p" using unique_row [OF uniq q(1) p(1)] by blast
    then have "q \<in> set (db_partners db')" using q(1) by (auto simp: db'_def put_row_def patch_partner_def)
    then show "copy_partner q \<in> copy_partner ` set (db_partners db')" by blast
  qed (simp_all add: db'_def active_outbound_endpoints_def latest_active_schema_def active_schemas_def)
  then have "fresh (snd (seqE commit (seqE (update_cache (invalidate_partner (p_public_id p)))
      (bindE (refresh_partner (patch_partner b p)) (\<lambda>q. ret (partner_to_response q)))) (w\<lparr>w_db := db'\<rparr>)))"
    using assms p by (intro change_block keep_intros) (simp_all add: fresh_def)
  then show "fresh (snd (seqE (save_partner p (patch_partner b p)) (seqE commit (seqE (update_cache (invalidate_partner (p_public_id p)))
      (bindE (refresh_partner (patch_partner b p)) (\<lambda>q. ret (partner_to_response q))))) w))"
    by (simp add: seqE_run [of "save_partner _ _"] saved)
qed

text \<open>Endpoints: only the lists of the partner concerned change, and those are dropped.\<close>

lemma filter_put_row:
  assumes "unique_on key xs" "x \<in> set xs" "\<not> P x" "\<not> P y" "key y = key x"
  shows "filter P (put_row key y xs) = filter P xs"
proof -
  have "(if key z = key y then y else z) = (if z = x then y else z)" if "z \<in> set xs" for z
    using unique_row [OF assms(1) that assms(2)] assms(5) by auto
  then have "put_row key y xs = map (\<lambda>z. if z = x then y else z) xs" by (simp add: put_row_def)
  moreover have "filter P (map (\<lambda>z. if z = x then y else z) zs) = filter P zs" for zs
    using assms(3,4) by (induction zs) auto
  ultimately show ?thesis by simp
qed

lemma update_endpoint_fresh:
  assumes "fresh w" "w_db w = w_committed w"
  shows "fresh (snd (update_endpoint e stg creds u body w))"
  unfolding update_endpoint_def
proof (rule fresh_guard [OF assms(1)], rule fresh_lift [OF assms(1)], rule fresh_fetch(2) [OF assms(1)])
  fix b ep assume "ep \<in> set (db_endpoints (w_db w))"
  then have ep: "ep \<in> set (db_endpoints (w_committed w))" using assms(2) by simp
  define ep1 where "ep1 = (patch_endpoint b ep)\<lparr>ep_updated_at := Some (w_clock w)\<rparr>"
  define db' where "db' = (if patch_endpoint b ep = ep then w_committed w else (w_committed w)\<lparr>db_endpoints :=
    put_row ep_id ep1 (db_endpoints (w_committed w))\<rparr>)"
  have saved: "save_endpoint ep (patch_endpoint b ep) w = (Inr (), w\<lparr>w_db := db'\<rparr>)"
    by (simp add: save_apply db'_def ep1_def assms(2))
  have uniq: "unique_on ep_id (db_endpoints (w_committed w))"
    using assms(1) by (simp add: fresh_def constraints_ok_def endpoints_ok_def)
  have "cache_fresh db' (invalidate_partner_endpoints (ep_partner_id ep) (w_cache w))"
  proof (rule cache_fresh_change [OF _ shrinks_invalidate(2)])
    show "cache_fresh (w_committed w) (w_cache w)" using assms(1) by (simp add: fresh_def)
    fix i ty assume "invalidate_partner_endpoints (ep_partner_id ep) (w_cache w) (endpoints_cache_key i ty) \<noteq> None"
    then have "ep_partner_id ep \<noteq> i" by auto
    then have "active_outbound_endpoints i ty db' = active_outbound_endpoints i ty (w_committed w)"
      unfolding active_outbound_endpoints_def db'_def
      using filter_put_row [OF uniq ep] by (auto simp: ep1_def patch_endpoint_def)
    then show "map copy_endpoint (active_outbound_endpoints i ty db') = map copy_endpoint (active_outbound_endpoints i ty (w_committed w))"
      by simp
  qed (simp_all add: db'_def latest_active_schema_def active_schemas_def)
  then have "fresh (snd (seqE commit (seqE (update_cache (invalidate_partner_endpoints (ep_partner_id ep)))
      (bindE (refresh_endpoint (patch_endpoint b ep)) (\<lambda>x. bindE (partner_public_id x) (\<lambda>public_id.
       ret (endpoint_to_response x public_id))))) (w\<lparr>w_db := db'\<rparr>)))"
    using assms by (intro change_block keep_intros) (simp_all add: fresh_def)
  then show "fresh (snd (seqE (save_endpoint ep (patch_endpoint b ep)) (seqE commit
      (seqE (update_cache (invalidate_partner_endpoints (ep_partner_id ep)))
      (bindE (refresh_endpoint (patch_endpoint b ep)) (\<lambda>x. bindE (partner_public_id x) (\<lambda>public_id.
       ret (endpoint_to_response x public_id)))))) w))"
    by (simp add: seqE_run [of "save_endpoint _ _"] saved)
qed

lemma create_endpoint_fresh:
  assumes "fresh w" "w_db w = w_committed w"
  shows "fresh (snd (create_endpoint e stg creds u body w))"
  unfolding create_endpoint_def Let_def
proof (rule fresh_guard [OF assms(1)], rule fresh_lift [OF assms(1)], rule fresh_fetch(1) [OF assms(1)])
  fix b p
  let ?f = "\<lambda>v stamp. \<lparr>ep_id = v, ep_partner_id = p_id p, ep_direction = ec_direction b, ep_url = ec_url b,
            ep_event_types = ec_event_types b, ep_status = EndpointStatus.ACTIVE, ep_sla_seconds = ec_sla_seconds b,
            ep_max_attempts = int_or (ec_max_attempts b) (hub_max_attempts_default stg),
            ep_backoff_policy = JObj [], ep_retry_on_status_codes = [],
            ep_timeout_connect_ms = int_or (ec_timeout_connect_ms b) (hub_http_connect_timeout_ms stg),
            ep_timeout_read_ms = int_or (ec_timeout_read_ms b) (hub_http_read_timeout_ms stg),
            ep_created_at = Some stamp, ep_updated_at = Some stamp\<rparr>"
  define ep where "ep = ?f (uuid7 e (w_draws w)) (w_clock w)"
  let ?w = "w\<lparr>w_draws := Suc (w_draws w), w_db := (w_committed w)\<lparr>db_endpoints := db_endpoints (w_committed w) @ [ep]\<rparr>\<rparr>"
  have "cache_fresh (w_db ?w) (invalidate_partner_endpoints (p_id p) (w_cache w))"
  proof (rule cache_fresh_change [OF _ shrinks_invalidate(2)])
    show "cache_fresh (w_committed w) (w_cache w)" using assms(1) by (simp add: fresh_def)
    fix i ty assume "invalidate_partner_endpoints (p_id p) (w_cache w) (endpoints_cache_key i ty) \<noteq> None"
    then have "p_id p \<noteq> i" by auto
    then show "map copy_endpoint (active_outbound_endpoints i ty (w_db ?w)) = map copy_endpoint (active_outbound_endpoints i ty (w_committed w))"
      by (simp add: active_outbound_endpoints_def ep_def)
  qed (simp_all add: latest_active_schema_def active_schemas_def)
  then have "fresh (snd (seqE commit (seqE (update_cache (invalidate_partner_endpoints (p_id p)))
      (bindE (refresh_endpoint ep) (\<lambda>x. ret (endpoint_to_response x (p_public_id p))))) ?w))"
    using assms by (intro change_block keep_intros) (simp_all add: fresh_def)
  then show "fresh (snd (bindE (generate_uuidv7 e) (\<lambda>v. bindE utcnow (\<lambda>stamp.
      seqE (update_db (\<lambda>db. db\<lparr>db_endpoints := db_endpoints db @ [?f v stamp]\<rparr>))
      (seqE commit (seqE (update_cache (invalidate_partner_endpoints (p_id p)))
      (bindE (refresh_endpoint (?f v stamp)) (\<lambda>x. ret (endpoint_to_response x (p_public_id p)))))))) w))"
    using assms(2)
    by (simp add: bindE_run [of "generate_uuidv7 e"] generate_uuidv7_apply bindE_run [of utcnow] utcnow_apply
        seqE_run [of "update_db _"] update_db_apply ep_def)
qed

lemma create_payload_schema_fresh:
  assumes "fresh w" "w_db w = w_committed w"
  shows "fresh (snd (create_payload_schema e stg creds body w))"
  unfolding create_payload_schema_def Let_def
proof (rule fresh_guard [OF assms(1)], rule fresh_lift [OF assms(1)])
  fix b
  let ?f = "\<lambda>u stamp. \<lparr>ps_id = u, ps_event_type = sc_event_type b, ps_version = sc_version b,
            ps_json_schema = sc_json_schema b, ps_status = PayloadSchemaStatus.ACTIVE,
            ps_created_at = Some stamp, ps_updated_at = Some stamp\<rparr>"
  define row where "row = ?f (uuid7 e (w_draws w)) (w_clock w)"
  let ?w = "w\<lparr>w_draws := Suc (w_draws w), w_db := (w_committed w)\<lparr>db_payload_schemas := db_payload_schemas (w_committed w) @ [row]\<rparr>\<rparr>"
  have "cache_fresh (w_db ?w) (invalidate_schema (sc_event_type b) (w_cache w))"
  proof (rule cache_fresh_change [OF _ shrinks_invalidate(3)])
    show "cache_fresh (w_committed w) (w_cache w)" using assms(1) by (simp add: fresh_def)
    fix ty assume "invalidate_schema (sc_event_type b) (w_cache w) (schema_cache_key ty) \<noteq> None"
    then have "sc_event_type b \<noteq> ty" by auto
    then show "latest_active_schema ty (w_db ?w) = latest_active_schema ty (w_committed w)"
      by (simp add: latest_active_schema_def active_schemas_def row_def)
  qed (simp_all add: active_outbound_endpoints_def)
  then have "fresh (snd (seqE commit (seqE (update_cache (invalidate_schema (sc_event_type b))) (ret row)) ?w))"
    using assms by (intro change_block keep_intros) (simp_all add: fresh_def)
  then show "fresh (snd (bindE (generate_uuidv7 e) (\<lambda>u. bindE utcnow (\<lambda>stamp.
      seqE (update_db (\<lambda>db. db\<lparr>db_payload_schemas := db_payload_schemas db @ [?f u stamp]\<rparr>))
      (seqE commit (seqE (update_cache (invalidate_schema (sc_event_type b))) (ret (?f u stamp)))))) w))"
    using assms(2)
    by (simp add: bindE_run [of "generate_uuidv7 e"] generate_uuidv7_apply bindE_run [of utcnow] utcnow_apply
        seqE_run [of "update_db _"] update_db_apply row_def)
qed

text \<open>A new partner has no entry yet, or one that is dropped.\<close>

lemma store_partner_fresh:
  assumes "fresh w" "w_db w = w_committed w" "store_partner e stg b enc w = (r, w')"
  shows "fresh w'"
proof (cases "constraints_ok (partner_database e stg b enc w)")
  case True
  have ok: "constraints_ok (w_db w)" using assms(1,2) by (simp add: fresh_def)
  have "cache_fresh (partner_database e stg b enc w) (w_cache w)"
    by (rule cache_fresh_change [of "w_committed w" "w_cache w"])
      (use assms(1,2) in \<open>auto simp: fresh_def partner_database_def active_outbound_endpoints_def latest_active_schema_def active_schemas_def\<close>)
  with True assms(3) store_partner_ok [OF ok True] show ?thesis by (auto simp: fresh_def)
next
  case False
  have ok: "constraints_ok (w_db w)" using assms(1,2) by (simp add: fresh_def)
  from store_partner_refused [OF ok assms(2) False] assms show ?thesis by (auto simp: fresh_def)
qed

lemma fresh_shrink: "fresh w \<Longrightarrow> shrinks (w_cache w) (f (w_cache w)) \<Longrightarrow> fresh (snd (update_cache f w))"
  using cache_fresh_change [of "w_committed w" "w_cache w" "f (w_cache w)" "w_committed w"]
  by (auto simp: fresh_def update_cache_apply)

lemma create_partner_fresh:
  assumes "fresh w" "w_db w = w_committed w"
  shows "fresh (snd (create_partner e stg creds body w))"
  unfolding create_partner_def
proof (rule fresh_guard [OF assms(1)], rule fresh_lift [OF assms(1)])
  fix b
  let ?rest = "\<lambda>secret encrypted. bindE (store_partner e stg b encrypted) (\<lambda>p.
      seqE (update_cache (invalidate_partner (p_public_id p)))
      (bindE (refresh_partner p) (\<lambda>q. ret (partner_with_secret q secret))))"
  have rest: "fresh (snd (?rest secret encrypted w2))" if w2: "fresh w2" "w_db w2 = w_committed w2" for secret encrypted w2
  proof -
    obtain r w3 where s: "store_partner e stg b encrypted w2 = (r, w3)" by force
    have f3: "fresh w3" by (rule store_partner_fresh [OF w2 s])
    show ?thesis
    proof (cases r)
      case (Inr p)
      have "fresh (snd (update_cache (invalidate_partner (p_public_id p)) w3))"
        using f3 by (rule fresh_shrink) (rule shrinks_invalidate)
      with Inr s show ?thesis
        by (simp add: bindE_run seqE_run update_cache_apply refresh_partner_def gets_apply ret_apply)
    qed (use s f3 in \<open>simp add: bindE_run\<close>)
  qed
  show "fresh (snd ((if fernet_key stg = [] then throw (HTTPException 422 ''FERNET_KEY is not configured.'')
      else bindE (generate_signing_secret e) (\<lambda>secret.
        bindE (encrypt_signing_secret e (utf8_encode secret) (fernet_key stg)) (?rest secret))) w))"
    using assms rest [of "w\<lparr>w_draws := Suc (Suc (w_draws w))\<rparr>"]
    by (auto simp: generate_signing_secret_def encrypt_signing_secret_def bindE_run [of next_draw] bindE_run [of "bindE _ _"]
        bindE_run [of "throw _"] next_draw_apply ret_apply throw_apply fresh_def)
qed

lemma settled_secrets [keep_intros]:
  "keeps (on_state J) (generate_api_key e)" "keeps (on_state J) (generate_signing_secret e)"
  "keeps (on_state J) (encrypt_signing_secret e pt key)" "keeps (on_state J) (fetch_primary_row i)"
  unfolding generate_api_key_def generate_signing_secret_def encrypt_signing_secret_def fetch_primary_row_def Let_def
  by (intro keep_intros)+

lemma settled_get [keep_intros]:
  "keeps (on_state J) (get_partner_by_public_id u)" "keeps I (require_roles e allowed creds stg)"
  unfolding get_partner_by_public_id_def by (intro keep_intros)+

lemma create_api_key_settled: "keeps (on_state (settled_config db)) (create_api_key e stg creds u body)"
  unfolding create_api_key_def Let_def by (intro keep_intros)

lemma retire_rows_config: "\<exists>x. retire_rows i r t d = d\<lparr>db_signing_secrets := x\<rparr>"
proof -
  have "\<exists>x. foldl (\<lambda>d row. if P row then d\<lparr>db_signing_secrets := F row d\<rparr> else d) d rows = d\<lparr>db_signing_secrets := x\<rparr>"
    for P F d and rows :: "partner_signing_secret list"
  proof (induction rows arbitrary: d)
    case Nil
    show ?case by (rule exI [of _ "db_signing_secrets d"]) simp
  next
    case (Cons a rows)
    from Cons [of "if P a then d\<lparr>db_signing_secrets := F a d\<rparr> else d"] show ?case by (auto split: if_splits)
  qed
  from this [of "\<lambda>row. ss_id row \<noteq> ss_id r" "\<lambda>row d. put_row ss_id (row\<lparr>ss_status := REVOKED\<rparr>) (db_signing_secrets d)"]
  obtain x where "foldl (\<lambda>d row. if ss_id row \<noteq> ss_id r then d\<lparr>db_signing_secrets :=
      put_row ss_id (row\<lparr>ss_status := REVOKED\<rparr>) (db_signing_secrets d)\<rparr> else d)
      (d\<lparr>db_signing_secrets := put_row ss_id (demote r t) (db_signing_secrets d)\<rparr>)
      (previous_rows i (d\<lparr>db_signing_secrets := put_row ss_id (demote r t) (db_signing_secrets d)\<rparr>)) =
      (d\<lparr>db_signing_secrets := put_row ss_id (demote r t) (db_signing_secrets d)\<rparr>)\<lparr>db_signing_secrets := x\<rparr>" by blast
  then show ?thesis by (auto simp: retire_rows_def Let_def)
qed

lemma settled_rotation [keep_intros]:
  "keeps (on_state (settled_config db)) (update_db (retire_rows i r t))"
  "keeps (on_state (settled_config db)) (update_db (\<lambda>d. d\<lparr>db_partners := map (\<lambda>q. if p_id q = i
     then q\<lparr>p_signing_secret_encrypted := x, p_updated_at := y\<rparr> else q) (db_partners d)\<rparr>))"
proof -
  show "keeps (on_state (settled_config db)) (update_db (retire_rows i r t))"
  proof (rule on_state_update(1))
    fix c d cc assume "settled_config db c d cc"
    moreover obtain x where "retire_rows i r t d = d\<lparr>db_signing_secrets := x\<rparr>" using retire_rows_config by blast
    ultimately show "settled_config db c (retire_rows i r t d) cc" by (auto simp: settled_config_def same_config_def o_def)
  qed
  have "copy_partner (if p_id q = i then q\<lparr>p_signing_secret_encrypted := x, p_updated_at := y\<rparr> else q) = copy_partner q" for q
    by (simp add: copy_partner_def)
  then show "keeps (on_state (settled_config db)) (update_db (\<lambda>d. d\<lparr>db_partners := map (\<lambda>q. if p_id q = i
     then q\<lparr>p_signing_secret_encrypted := x, p_updated_at := y\<rparr> else q) (db_partners d)\<rparr>))"
    by (intro on_state_update(1)) (auto simp: settled_config_def same_config_def o_def)
qed

lemma rotate_settled: "keeps (on_state (settled_config db)) (rotate_signing_secret e stg creds u)"
  unfolding rotate_signing_secret_def rotate_partner_signing_secret_def insert_primary_signing_secret_def
    add_audit_log_def Let_def
  by (intro keep_intros)

lemma outbound_event_settled:
  "keeps (on_state (settled_config db)) (create_outbound_event e stg creds context body now)"
  unfolding create_outbound_event_def by (intro keep_intros)

text \<open>No session commits a database that violates a constraint.\<close>

lemma committed_ok_parts [keep_intros]:
  "keeps (on_db committed_ok) rollback" "keeps (on_db committed_ok) (modify (\<lambda>w. w\<lparr>w_seq_deliveries := m, w_seq_outbox := n\<rparr>))"
  "keeps (on_db committed_ok) (validator_for row)"
  by (auto simp: keeps_def on_db_def committed_ok_def rollback_apply modify_apply validator_for_def run_simps split: option.splits)

lemma committed_ok_handlers:
  "keeps (on_db committed_ok) (create_api_key e stg creds u kbody)"
  "keeps (on_db committed_ok) (rotate_signing_secret e stg creds u)"
  "keeps (on_db committed_ok) (create_outbound_event e stg creds context body now)"
  unfolding create_api_key_def generate_api_key_def rotate_signing_secret_def rotate_partner_signing_secret_def
    insert_primary_signing_secret_def generate_signing_secret_def encrypt_signing_secret_def fetch_primary_row_def
    get_partner_by_public_id_def refresh_partner_def add_audit_log_def create_outbound_event_def
    enqueue_outbound_for_event_def resolve_partner_def check_schema_def resolve_endpoints_def validate_payload_def
    persist_deliveries_and_outbox_def execute_persist_stmt_def ensure_public_id_def create_delivery_def
    duplicate_or_conflict_def fetch_deliveries_by_source_event_id_def fetch_delivery_by_idempotency_def
    fetch_partner_by_public_id_def fetch_latest_active_schema_def fetch_active_outbound_endpoints_def Let_def
  by ((intro keep_intros)+, (auto intro: keep_intros split: list.splits)?)+

section \<open>A process serving requests\<close>

text \<open>
  What happens in one API process between two points in time: a request of the admin API or of the
  enqueue route, each in its session, or time passing.
\<close>

inductive serves :: "('r, 'k) env \<Rightarrow> settings \<Rightarrow> ('r, 'k) world \<Rightarrow> ('r, 'k) world \<Rightarrow> bool" for e stg where
  serves_create_partner: "serves e stg w (snd (with_session (create_partner e stg creds pbody) w))"
| serves_update_partner: "serves e stg w (snd (with_session (update_partner e stg creds u ubody) w))"
| serves_create_api_key: "serves e stg w (snd (with_session (create_api_key e stg creds u kbody) w))"
| serves_rotate: "serves e stg w (snd (with_session (rotate_signing_secret e stg creds u) w))"
| serves_create_endpoint: "serves e stg w (snd (with_session (create_endpoint e stg creds u ebody) w))"
| serves_update_endpoint: "serves e stg w (snd (with_session (update_endpoint e stg creds u xbody) w))"
| serves_create_schema: "serves e stg w (snd (with_session (create_payload_schema e stg creds sbody) w))"
| serves_enqueue: "serves e stg w (snd (with_session (create_outbound_event e stg creds context obody now) w))"
| serves_time: "serves e stg w (w\<lparr>w_clock := t, w_monotonic := m\<rparr>)"

inductive reachable :: "('r, 'k) env \<Rightarrow> settings \<Rightarrow> ('r, 'k) world \<Rightarrow> ('r, 'k) world \<Rightarrow> bool" for e stg w where
  reachable_start: "reachable e stg w w"
| reachable_step: "reachable e stg w w1 \<Longrightarrow> serves e stg w1 w2 \<Longrightarrow> reachable e stg w w2"

lemma serves_fresh: "serves e stg w w' \<Longrightarrow> fresh w \<Longrightarrow> fresh w'"
proof (induction rule: serves.induct)
  case (serves_time w t m)
  then show ?case by (simp add: fresh_def)
qed (auto intro: fresh_session [OF create_partner_fresh] fresh_session [OF update_partner_fresh]
    fresh_session [OF create_endpoint_fresh] fresh_session [OF update_endpoint_fresh]
    fresh_session [OF create_payload_schema_fresh] fresh_settled [OF create_api_key_settled committed_ok_handlers(1)]
    fresh_settled [OF rotate_settled committed_ok_handlers(2)] fresh_settled [OF outbound_event_settled committed_ok_handlers(3)])

lemma reachable_fresh: "reachable e stg w w' \<Longrightarrow> fresh w \<Longrightarrow> fresh w'"
  by (induction rule: reachable.induct) (auto dest: serves_fresh)

text \<open>
  C10. The accept-path cache never contradicts the database of its process: in every state a process
  reaches by serving admin and enqueue requests and by time passing, every cached partner, endpoint
  list and schema is the copy of what is committed for its key, and the committed database satisfies
  all constraints, whatever the requests were and wherever they failed.
\<close>

theorem accept_cache_fresh:
  assumes "reachable e stg w w'" and "w_cache w = Map.empty" and "constraints_ok (w_committed w)"
  shows "cache_fresh (w_committed w') (w_cache w') \<and> constraints_ok (w_committed w')"
proof -
  have "fresh w" using assms(2,3) by (simp add: fresh_def cache_fresh_def)
  then show ?thesis using reachable_fresh [OF assms(1)] by (simp add: fresh_def)
qed

section \<open>The lookups on a fresh cache\<close>

text \<open>The partner a lookup returns has the identifier and the status of the committed row.\<close>

lemma fresh_lookup:
  assumes "cache_fresh (w_committed w) (w_cache w)" "constraints_ok (w_committed w)" "w_db w = w_committed w"
    "resolve_partner pid w = (Inr q, w')"
  obtains p where "p \<in> set (db_partners (w_committed w))" "p_public_id p = pid" "p_status p = PartnerStatus.ACTIVE" "p_id q = p_id p"
proof (cases "fst (cache_get (w_monotonic w) (partner_cache_key pid) (w_cache w))")
  case None
  then have "\<exists>p. filter (\<lambda>q. p_public_id q = pid) (db_partners (w_committed w)) = [p] \<and> p_status p = PartnerStatus.ACTIVE \<and> p_id q = p_id p"
    using assms(3,4)
    by (auto simp: resolve_partner_def Let_def bindE_run read_cache_apply fetch_partner_by_public_id_def gets_apply one_or_none_def
        ret_apply seqE_run write_cache_apply throw_apply split: if_splits list.splits)
  then obtain p where p: "filter (\<lambda>q. p_public_id q = pid) (db_partners (w_committed w)) = [p]" "p_status p = PartnerStatus.ACTIVE" "p_id q = p_id p"
    by blast
  have "p \<in> set (filter (\<lambda>q. p_public_id q = pid) (db_partners (w_committed w)))" by (simp add: p(1))
  then have "p \<in> set (db_partners (w_committed w)) \<and> p_public_id p = pid" by simp
  with that p show thesis by blast
next
  case (Some v)
  then obtain t where "w_cache w (partner_cache_key pid) = Some (t, v)" by (auto simp: cache_get_value split: option.splits if_splits)
  then obtain p where p: "p \<in> set (db_partners (w_committed w))" "p_public_id p = pid" "v = CachedPartner (copy_partner p)"
    using assms(1) unfolding cache_fresh_def by blast
  with Some assms(4) have "p_status p = PartnerStatus.ACTIVE" "p_id q = p_id p"
    by (auto simp: resolve_partner_def Let_def bindE_run read_cache_apply ret_apply throw_apply copy_partner_def split: if_splits)
  with that p show thesis by blast
qed

lemma fresh_partner:
  assumes "cache_fresh (w_committed w) (w_cache w)" "constraints_ok (w_committed w)" "w_db w = w_committed w"
    "p \<in> set (db_partners (w_committed w))" "resolve_partner (p_public_id p) w = (Inr q, w')"
  shows "p_id q = p_id p"
proof -
  have "unique_on p_public_id (db_partners (w_committed w))"
    using assms(2) by (simp add: constraints_ok_def partners_ok_def)
  from fresh_lookup [OF assms(1-3,5)] unique_row [OF this] assms(4) show ?thesis by metis
qed

lemma fresh_endpoints:
  assumes "cache_fresh db (w_cache w)" "w_db w = db" "resolve_endpoints i ty w = (Inr eps, w')"
  shows "map ep_id eps = map ep_id (active_outbound_endpoints i ty db)"
proof (cases "fst (cache_get (w_monotonic w) (endpoints_cache_key i ty) (w_cache w))")
  case None
  with assms(2,3) show ?thesis
    by (auto simp: resolve_endpoints_def Let_def bindE_run read_cache_apply fetch_active_outbound_endpoints_def gets_apply
        ret_apply seqE_run write_cache_apply throw_apply split: if_splits)
next
  case (Some v)
  then obtain t where "w_cache w (endpoints_cache_key i ty) = Some (t, v)" by (auto simp: cache_get_value split: option.splits if_splits)
  then have "v = CachedEndpoints (map copy_endpoint (active_outbound_endpoints i ty db))"
    using assms(1) unfolding cache_fresh_def by blast
  with Some assms(3) show ?thesis
    by (auto simp: resolve_endpoints_def Let_def bindE_run read_cache_apply ret_apply throw_apply copy_endpoint_def comp_def
        split: if_splits)
qed

text \<open>All three lookups of an event: the partner's row and the identifiers of its endpoints.\<close>

lemma fresh_lookups:
  assumes "cache_fresh (w_committed w) (w_cache w)" "constraints_ok (w_committed w)" "w_db w = w_committed w"
    "resolve_partner pid w = (Inr q, w1)" "check_schema e ty payload w1 = (Inr (), w2)"
    "resolve_endpoints (p_id q) ty w2 = (Inr eps, w3)"
  obtains p where "p \<in> set (db_partners (w_committed w))" "p_public_id p = pid" "p_status p = PartnerStatus.ACTIVE" "p_id q = p_id p"
    "map ep_id eps = map ep_id (active_outbound_endpoints (p_id p) ty (w_committed w))"
proof -
  obtain p where p: "p \<in> set (db_partners (w_committed w))" "p_public_id p = pid" "p_status p = PartnerStatus.ACTIVE" "p_id q = p_id p"
    by (rule fresh_lookup [OF assms(1-4)])
  have "on_state (settled_config (w_committed w)) w" using assms(1,3) by (simp add: on_state_def settled_config_def)
  then have "on_state (settled_config (w_committed w)) w2"
    using keepsD [OF settled_lookups(1)] keepsD [OF settled_lookups(2)] assms(4,5) by (metis snd_conv)
  moreover have "only_cache w w2"
    using cache_only_resolve_partner [of pid] cache_only_check_schema [of e ty payload] assms(4,5)
    unfolding cache_only_def by (metis only_cache_trans snd_conv)
  ultimately have "map ep_id eps = map ep_id (active_outbound_endpoints (p_id p) ty (w_committed w))"
    using fresh_endpoints [of "w_committed w" w2 "p_id q" ty eps w3] assms(3,6) p(4)
    by (simp add: on_state_def settled_config_def only_cache_fields)
  with that p show thesis by blast
qed

text \<open>
  C7. Accepting an event is atomic and carries its messages with it. When
  \<open>enqueue_outbound_for_event\<close> answers "accepted", the partner is active and the commit added exactly one
  pending delivery for each of its active outbound endpoints that take the event type, in their order,
  and exactly one unpublished outbox row for each of these deliveries, whose envelope names it, and
  nothing else; in every other case (duplicate or error) the committed database is the one before. The cache
  is one that agrees with the database, as every reachable one of the process does.
\<close>

theorem enqueue_atomic:
  assumes "enqueue_outbound_for_event e pid ty payload ck ci now w = (r, w')"
    and "w_db w = w_committed w" and "\<And>n. uuid7 e n \<noteq> 0"
    and "cache_fresh (w_committed w) (w_cache w)" and "constraints_ok (w_committed w)"
  shows "(\<exists>p us ds obs. r = Inr (OutboundEventAcceptedResponse (hd us) us) \<and> us = map d_public_id ds \<and>
            p \<in> set (db_partners (w_committed w)) \<and> p_public_id p = pid \<and> p_status p = PartnerStatus.ACTIVE \<and>
            w_committed w' = (w_committed w)\<lparr>db_deliveries := db_deliveries (w_committed w) @ ds,
                                             db_outbox := db_outbox (w_committed w) @ obs\<rparr> \<and>
            ds \<noteq> [] \<and> map d_endpoint_id ds = map ep_id (active_outbound_endpoints (p_id p) ty (w_committed w)) \<and>
            list_all (\<lambda>d. d_status d = DeliveryStatus.PENDING \<and> d_attempt_count d = 0 \<and> d_partner_id d = p_id p \<and>
               d_payload d = payload \<and> d_payload_hash d = canonical_payload_hash payload \<and>
               d_source_event_id d = Some ck \<and> d_event_type d = ty) ds \<and>
            list_all2 (\<lambda>d ob. ob_aggregate_id ob = d_id d \<and> ob_topic ob = OUTBOUND_PENDING_TOPIC \<and>
               ob_published_at ob = None \<and>
               item (ob_payload ob) ''delivery_id'' = Inr (JStr (str_uuid (d_public_id d)))) ds obs)
       \<or> ((\<forall>u us. r \<noteq> Inr (OutboundEventAcceptedResponse u us)) \<and> w_committed w' = w_committed w)"
  using assms(1)
proof (cases rule: enqueue_early)
  case error
  then show ?thesis by (auto simp: only_cache_fields)
next
  case (stored q w1 w2 eps w3)
  obtain p where p: "p \<in> set (db_partners (w_committed w))" "p_public_id p = pid" "p_status p = PartnerStatus.ACTIVE" "p_id q = p_id p"
    "map ep_id eps = map ep_id (active_outbound_endpoints (p_id p) ty (w_committed w))"
    by (rule fresh_lookups [OF assms(4,5,2) stored(1-3)])
  show ?thesis
    using stored(1-3) assms(2,3,1)
  proof (cases rule: enqueue_rows)
    case (accepted ds obs)
    with p show ?thesis
      by (intro disjI1 exI [of _ p] exI [of _ "map d_public_id ds"] exI [of _ ds] exI [of _ obs])
        (auto simp: list_all_iff elim: list_all2_mono)
  next
    case refused
    then show ?thesis by blast
  qed
qed

theorem enqueue_atomic_witness:
  "\<exists>u us w'. enqueue_outbound_for_event mem_env 1 ''order.created'' (JObj []) ''k1'' ''c1'' 0 sample_world =
      (Inr (OutboundEventAcceptedResponse u us), w') \<and>
     map d_endpoint_id (db_deliveries (w_committed w')) = [ep_id sample_endpoint] \<and> length (db_outbox (w_committed w')) = 1"
proof -
  obtain w' where r: "enqueue_outbound_for_event mem_env 1 ''order.created'' (JObj []) ''k1'' ''c1'' 0 sample_world =
      (Inr (OutboundEventAcceptedResponse 1 [1]), w')"
    using sample_accepted by blast
  have w: "w_db sample_world = w_committed sample_world" "cache_fresh (w_committed sample_world) (w_cache sample_world)"
      "constraints_ok (w_committed sample_world)"
    using sample_constraints by (simp_all add: sample_world_def initial_world_def cache_fresh_def)
  from enqueue_atomic [OF r w(1) mem_env_uuid_nonnil w(2,3)] obtain p ds obs where
    d: "p \<in> set (db_partners (w_committed sample_world))" "length ds = length obs"
    "map d_endpoint_id ds = map ep_id (active_outbound_endpoints (p_id p) ''order.created'' (w_committed sample_world))"
    "w_committed w' = (w_committed sample_world)\<lparr>db_deliveries := db_deliveries (w_committed sample_world) @ ds,
        db_outbox := db_outbox (w_committed sample_world) @ obs\<rparr>"
    by (auto dest: list_all2_lengthD)
  have "map ep_id (active_outbound_endpoints (p_id p) ''order.created'' (w_committed sample_world)) = [ep_id sample_endpoint]"
    using d(1) by (simp add: active_outbound_endpoints_def sample_defs)
  with d have "map d_endpoint_id (db_deliveries (w_committed w')) = [ep_id sample_endpoint] \<and> length (db_outbox (w_committed w')) = 1"
    by (auto simp: sample_world_def initial_world_def sample_db_def empty_database_def dest: arg_cong [of _ _ length])
  then show ?thesis by (intro exI conjI) (rule r, simp_all)
qed



section \<open>A concrete suspension\<close>

definition suspension :: PartnerUpdate where
  "suspension = \<lparr>pu_status = Some SUSPENDED, pu_sla_seconds = None, pu_rate_limit_rps = None,
     pu_auto_replay_enabled = None, pu_circuit_breaker_config = None\<rparr>"

definition suspended_world :: "(mem_redis, message list) world" where
  "suspended_world = snd (with_session (update_partner mem_env admin_settings (Some ''bootstrap-token'') 1 suspension) sample_world)"

lemma suspended_reachable: "reachable mem_env admin_settings sample_world suspended_world"
  unfolding suspended_world_def by (rule reachable_step [OF reachable_start serves_update_partner])


lemma sample_start: "w_cache sample_world = Map.empty" "constraints_ok (w_committed sample_world)"
  using sample_constraints by (simp_all add: sample_world_def initial_world_def)

theorem accept_cache_fresh_witness:
  "cache_fresh (w_committed suspended_world) (w_cache suspended_world) \<and> constraints_ok (w_committed suspended_world)"
  by (rule accept_cache_fresh [OF suspended_reachable sample_start])


end
