(* ===== verification/Credentials.thy ===== *)
theory Credentials
  imports CacheCoherence
begin

text \<open>
  What the admin API issues works: the signing secret a new partner is answered with is the one the hub
  signs and verifies with, and an API key authenticates its partner. Fernet and argon2 are parameters;
  their round trips are the named hypotheses.
\<close>

section \<open>Signing secrets of new partners\<close>

lemma create_partner_run:
  assumes "constraints_ok (w_db w)" "w_db w = w_committed w"
    and "create_partner e stg creds body w = (Inr resp, w')"
  shows "\<exists>w2 secret enc n. w_db w2 = w_db w \<and> enc = fernet_encrypt e (fernet_key stg) n (utf8_encode secret) \<and>
     is_ascii (fernet_key stg) \<and> fernet_key_ok e (fernet_key stg) \<and>
     constraints_ok (partner_database e stg body enc w2) \<and> w_committed w' = partner_database e stg body enc w2 \<and>
     w_db w' = w_committed w' \<and> resp = partner_with_secret (new_partner e stg body enc w2) secret"
proof -
  define secret where "secret = ''whsec_'' @ token_urlsafe e (w_draws w) 32"
  define enc where "enc = fernet_encrypt e (fernet_key stg) (Suc (w_draws w)) (utf8_encode secret)"
  define w2 where "w2 = w\<lparr>w_draws := Suc (Suc (w_draws w))\<rparr>"
  obtain pr where rr: "require_roles e RequireAdmin creds stg w = (Inr pr, w)"
    using assms(3) require_roles_state [of e RequireAdmin creds stg w]
    by (cases "require_roles e RequireAdmin creds stg w"; cases "fst (require_roles e RequireAdmin creds stg w)")
      (auto simp: create_partner_def seqE_run)
  have val: "validate_partner_create body = Inr body"
    using assms(3) rr by (auto simp: create_partner_def seqE_run bindE_run liftE_apply validate_partner_create_def split: if_splits)
  have key: "is_ascii (fernet_key stg)" "fernet_key_ok e (fernet_key stg)" "fernet_key stg \<noteq> []"
    using assms(3) rr val by (auto simp: create_partner_def seqE_run bindE_run liftE_apply throw_apply
        generate_signing_secret_def encrypt_signing_secret_def next_draw_apply ret_apply split: if_splits)
  have run: "(Inr resp, w') = bindE (store_partner e stg body enc) (\<lambda>p.
      seqE (update_cache (invalidate_partner (p_public_id p)))
      (bindE (refresh_partner p) (\<lambda>q. ret (partner_with_secret q secret)))) w2"
    using assms(3) rr val key by (simp add: create_partner_def seqE_run [of "require_roles _ _ _ _"] bindE_run [of "liftE _"] liftE_apply
        bindE_run [of "bindE _ _"] bindE_run [of next_draw] generate_signing_secret_def encrypt_signing_secret_def
        next_draw_apply ret_apply enc_def secret_def w2_def)
  have ok: "constraints_ok (partner_database e stg body enc w2)"
  proof (rule ccontr)
    assume "\<not> constraints_ok (partner_database e stg body enc w2)"
    then have "\<exists>x. store_partner e stg body enc w2 = (Inl (HTTPException 422 ''Partner slug already exists.''), x)"
      using store_partner_refused [of w2 e stg body enc] assms(1,2) by (auto simp: w2_def)
    with run show False by (auto simp: bindE_run)
  qed
  have ok2: "constraints_ok (w_db w2)" using assms(1) by (simp add: w2_def)
  have fnd: "find (\<lambda>q. p_id q = p_id (new_partner e stg body enc w2)) (db_partners (partner_database e stg body enc w2)) =
      Some (new_partner e stg body enc w2)"
  proof -
    have "unique_on p_id (db_partners (partner_database e stg body enc w2))"
      using ok by (simp add: constraints_ok_def partners_ok_def)
    then show ?thesis
      by (rule find_unique_on) (simp add: partner_database_def)
  qed
  from run have "resp = partner_with_secret (new_partner e stg body enc w2) secret"
      "w_committed w' = partner_database e stg body enc w2" "w_db w' = partner_database e stg body enc w2"
    by (simp_all add: bindE_run seqE_run store_partner_ok [OF ok2 ok] update_cache_apply refresh_partner_def gets_apply
        ret_apply fnd)
  moreover have "w_db w2 = w_db w" by (simp add: w2_def)
  ultimately show ?thesis using key ok enc_def
    by (intro exI [of _ w2] exI [of _ secret] exI [of _ enc] exI [of _ "Suc (w_draws w)"]) simp
qed

text \<open>The foreign key leaves no older secret under the new identity.\<close>

lemma new_partner_secrets:
  assumes "constraints_ok (w_db w)" "constraints_ok (partner_database e stg b enc w)"
  shows "primary_rows (w_seq_partners w + 1) (partner_database e stg b enc w) = [new_secret e enc w]"
    "previous_rows (w_seq_partners w + 1) (partner_database e stg b enc w) = []"
proof -
  have "w_seq_partners w + 1 \<notin> p_id ` set (db_partners (w_db w))"
    using assms(2) by (auto simp: constraints_ok_def partners_ok_def partner_database_def unique_on_def new_partner_def)
  moreover have "ss_partner_id r \<in> p_id ` set (db_partners (w_db w))" if "r \<in> set (db_signing_secrets (w_db w))" for r
    using assms(1) that by (auto simp: constraints_ok_def keys_and_secrets_ok_def references_def list_all_iff)
  ultimately have none: "ss_partner_id r \<noteq> w_seq_partners w + 1" if "r \<in> set (db_signing_secrets (w_db w))" for r
    using that by metis
  then show "primary_rows (w_seq_partners w + 1) (partner_database e stg b enc w) = [new_secret e enc w]"
    "previous_rows (w_seq_partners w + 1) (partner_database e stg b enc w) = []"
    by (auto simp: primary_rows_def previous_rows_def partner_database_def new_secret_def filter_empty_conv)
qed

text \<open>
  C17. The secret a new partner is answered with is the one in use: after a creation that succeeds, the
  partner is stored once under the slug it asked for, which no other partner had, in status
  provisioning, and the hub signs outbound requests and verifies inbound ones with exactly the returned
  secret and no older one. Fernet decrypting what it encrypted is the only assumption.
\<close>

theorem issued_secret_in_use:
  assumes "\<forall>n p. fernet_decrypt e (fernet_key stg) (fernet_encrypt e (fernet_key stg) n p) = Some p"
    and "constraints_ok (w_committed w)"
    and "with_session (create_partner e stg creds body) w = (Inr resp, w')"
  shows "\<exists>p. db_partners (w_committed w') = db_partners (w_committed w) @ [p] \<and>
    p_public_id p = rp_id resp \<and> p_slug p = pc_slug body \<and> p_status p = PROVISIONING \<and>
    pc_slug body \<notin> p_slug ` set (db_partners (w_committed w)) \<and>
    fst (load_outbound_primary_secret e p stg w') = Inr (Some (utf8_encode (rp_signing_secret resp))) \<and>
    fst (load_inbound_signing_secrets e p stg t w') = Inr (Some (utf8_encode (rp_signing_secret resp)), None)"
proof -
  let ?w = "w\<lparr>w_db := w_committed w\<rparr>"
  obtain w1 where run: "create_partner e stg creds body ?w = (Inr resp, w1)" and w': "w' = w1\<lparr>w_db := w_committed w1\<rparr>"
    using assms(3) by (auto simp: with_session_def split: prod.splits)
  from create_partner_run [OF _ _ run] assms(2) obtain w2 secret enc n where
    c: "w_db w2 = w_committed w" "enc = fernet_encrypt e (fernet_key stg) n (utf8_encode secret)"
      "is_ascii (fernet_key stg)" "fernet_key_ok e (fernet_key stg)" "constraints_ok (partner_database e stg body enc w2)"
      "w_committed w1 = partner_database e stg body enc w2" "resp = partner_with_secret (new_partner e stg body enc w2) secret"
    by auto
  have dec: "decrypt_signing_secret e enc (fernet_key stg) = Inr (utf8_encode secret)"
    using c(2-4) assms(1) by (simp add: decrypt_signing_secret_def)
  have rows: "primary_rows (w_seq_partners w2 + 1) (w_db w') = [new_secret e enc w2]" "previous_rows (w_seq_partners w2 + 1) (w_db w') = []"
    using new_partner_secrets [of w2 e stg body enc] c(1,5,6) assms(2) w' by simp_all
  have slug: "pc_slug body \<notin> p_slug ` set (db_partners (w_committed w))"
    using c(1,5) by (auto simp: constraints_ok_def partners_ok_def partner_database_def unique_on_def new_partner_def)
  have pid: "p_id (new_partner e stg body enc w2) = w_seq_partners w2 + 1" by (simp add: new_partner_def)
  have "fst (load_outbound_primary_secret e (new_partner e stg body enc w2) stg w') = Inr (Some (utf8_encode secret))"
    "fst (load_inbound_signing_secrets e (new_partner e stg body enc w2) stg t w') = Inr (Some (utf8_encode secret), None)"
    using rows dec
    by (simp_all add: load_outbound_primary_secret_def load_inbound_signing_secrets_def fetch_primary_row_def fetch_previous_rows_def
        pid bindE_run gets_apply one_or_none_def ret_apply utcnow_apply new_secret_def split: option.splits)
  then show ?thesis
    using c(1,6,7) slug w'
    by (intro exI [of _ "new_partner e stg body enc w2"])
      (simp add: partner_with_secret_def partner_database_def new_partner_def)
qed

definition globex :: PartnerCreate where
  "globex = \<lparr>pc_slug = ''globex'', pc_name = ''Globex'', pc_sla_seconds = 60, pc_rate_limit_rps = None\<rparr>"

lemma globex_created:
  "\<exists>resp w'. with_session (create_partner mem_env admin_settings (Some ''bootstrap-token'') globex) sample_world = (Inr resp, w')"
proof -
  have v: "validate_partner_create globex = Inr globex"
    by (simp add: validate_partner_create_def globex_def slug_pattern_def slug_char_def at_least_def Let_def)
  let ?enc = "utf8_encode (''whsec_'' @ ''token'')"
  let ?w = "sample_world\<lparr>w_db := sample_db, w_draws := 2\<rparr>"
  have ok: "constraints_ok (partner_database mem_env admin_settings globex ?enc ?w)"
    by (simp add: partner_database_def new_partner_def new_secret_def constraints_ok_def table_ok_defs references_def unique_on_def
        globex_def sample_defs)
  have st: "store_partner mem_env admin_settings globex ?enc ?w = (Inr (new_partner mem_env admin_settings globex ?enc ?w),
    ?w\<lparr>w_draws := Suc (Suc (w_draws ?w)), w_seq_partners := w_seq_partners ?w + 1,
      w_db := partner_database mem_env admin_settings globex ?enc ?w, w_committed := partner_database mem_env admin_settings globex ?enc ?w\<rparr>)"
    by (rule store_partner_ok [OF _ ok]) (simp add: sample_constraints)
  have w: "w_committed sample_world = sample_db" "w_draws sample_world = 0"
    by (simp_all add: sample_world_def initial_world_def)
  have key: "fernet_key admin_settings = ''key''" by (simp add: admin_settings_def)
  show ?thesis
    using st
    by (simp add: with_session_run create_partner_def seqE_run bindE_run admin_allowed liftE_apply v key
        generate_signing_secret_def encrypt_signing_secret_def is_ascii_def next_draw_apply ret_apply w
        update_cache_apply refresh_partner_def gets_apply numeral_2_eq_2)
qed

theorem issued_secret_in_use_witness:
  "\<exists>resp w' p. with_session (create_partner mem_env admin_settings (Some ''bootstrap-token'') globex) sample_world = (Inr resp, w') \<and>
     p \<in> set (db_partners (w_committed w')) \<and> p_slug p = ''globex'' \<and>
     fst (load_outbound_primary_secret mem_env p admin_settings w') = Inr (Some (utf8_encode (rp_signing_secret resp)))"
proof -
  obtain resp w' where r: "with_session (create_partner mem_env admin_settings (Some ''bootstrap-token'') globex) sample_world = (Inr resp, w')"
    using globex_created by blast
  have "\<forall>n p. fernet_decrypt mem_env (fernet_key admin_settings) (fernet_encrypt mem_env (fernet_key admin_settings) n p) = Some p"
    by simp
  from issued_secret_in_use [OF this sample_start(2) r, of None] r show ?thesis by (fastforce simp: globex_def)
qed

section \<open>API keys\<close>

lemma bearer_token:
  assumes "list_all (\<lambda>c. \<not> is_space c) key" "key \<noteq> []"
  shows "parse_bearer_token (Some (''Bearer '' @ key)) = Some key"
proof -
  have "dropWhile is_space key = key" "dropWhile is_space (rev key) = rev key"
    using assms(1) by (auto intro: dropWhile_all_false simp: list_all_iff)
  then have "py_strip key = key" by (simp add: py_strip_def)
  moreover have "py_lower ''Bearer'' = ''bearer''" by code_simp
  ultimately show ?thesis using assms(2) by (simp add: parse_bearer_token_def Let_def)
qed

lemma scan_keys_skips:
  "\<forall>row \<in> set rows. \<not> verify_api_key e key (ak_key_hash row) \<Longrightarrow> scan_keys e key now wrong (rows @ rest) = scan_keys e key now wrong rest"
  by (induction rows) auto

text \<open>
  C18. An issued API key authenticates its partner: after a key was created for a partner with the
  status scope, a request with this key as its bearer token is served as that partner until the key
  expires. The hypotheses are what argon2 and \<open>token_urlsafe\<close> document: a hash verifies what it was made
  of, a token has no white space, and no older hash verifies the new key.
\<close>

theorem issued_key_authenticates:
  assumes "\<forall>salt k. argon2_verify e (argon2_hash e salt k) k"
    and "\<forall>n. list_all (\<lambda>c. \<not> is_space c) (token_urlsafe e n 24)"
    and "with_session (create_api_key e stg creds u body) w = (Inr resp, w')"
    and "\<forall>row \<in> set (db_api_keys (w_committed w)). \<not> argon2_verify e (ak_key_hash row) (kr_key resp)"
    and "STATUS_READ_SCOPE \<in> set (kc_scopes body)"
    and "case kc_expires_at body of None \<Rightarrow> True | Some t \<Rightarrow> w_clock w' < t"
  shows "\<exists>p \<in> set (db_partners (w_committed w)). p_public_id p = u \<and>
     authenticate_partner_api_key e (Some (''Bearer '' @ kr_key resp)) w' = (Inr (p_id p), w')"
proof -
  let ?w = "w\<lparr>w_db := w_committed w\<rparr>"
  define key where "key = ''pk_live_'' @ token_urlsafe e (w_draws w) 24"
  obtain w1 where run: "create_api_key e stg creds u body ?w = (Inr resp, w1)" and w': "w' = w1\<lparr>w_db := w_committed w1\<rparr>"
    using assms(3) by (auto simp: with_session_def split: prod.splits)
  obtain pr where rr: "require_roles e RequireAdmin creds stg ?w = (Inr pr, ?w)"
    using run require_roles_state [of e RequireAdmin creds stg ?w]
    by (cases "require_roles e RequireAdmin creds stg ?w"; cases "fst (require_roles e RequireAdmin creds stg ?w)")
      (auto simp: create_api_key_def seqE_run)
  obtain p where g: "get_partner_by_public_id u ?w = (Inr p, ?w)"
    using run rr fetch_states(1) [of u ?w]
    by (cases "get_partner_by_public_id u ?w"; cases "fst (get_partner_by_public_id u ?w)")
      (auto simp: create_api_key_def seqE_run bindE_run)
  then have p: "p \<in> set (db_partners (w_committed w))" "p_public_id p = u" using fetch_found(1) [of u ?w p] by simp_all
  let ?row = "\<lparr>ak_id = uuid7 e (Suc (Suc (w_draws w))), ak_partner_id = p_id p, ak_key_prefix = take 16 key,
      ak_key_hash = argon2_hash e (Suc (w_draws w)) key, ak_scopes = kc_scopes body, ak_expires_at = kc_expires_at body,
      ak_revoked_at = None, ak_created_at = w_clock w\<rparr>"
  have "kr_key resp = key \<and> db_api_keys (w_committed w1) = db_api_keys (w_committed w) @ [?row] \<and> w_clock w1 = w_clock w"
    using run rr g
    by (auto simp: create_api_key_def generate_api_key_def seqE_run bindE_run next_draw_apply ret_apply generate_uuidv7_apply
        utcnow_apply update_db_apply commit_def flush_def modify_apply Let_def key_def split: if_splits)
  then have k: "kr_key resp = key" "db_api_keys (w_db w') = db_api_keys (w_committed w) @ [?row]" using w' by simp_all
  have "list_all (\<lambda>c. \<not> is_space c) key" "key \<noteq> []" using assms(2) by (simp_all add: key_def is_space_def)
  then have b: "parse_bearer_token (Some (''Bearer '' @ key)) = Some key" by (rule bearer_token)
  have "scan_keys e key (w_clock w') False (filter (\<lambda>row. ak_key_prefix row = extract_prefix key) (db_api_keys (w_db w'))) = Inr (p_id p)"
    unfolding k(2) filter_append using assms(1,4,5,6) k(1)
    by (subst scan_keys_skips) (auto simp: verify_api_key_def extract_prefix_def split: option.splits)
  then have "authenticate_partner_api_key e (Some (''Bearer '' @ kr_key resp)) w' = (Inr (p_id p), w')"
    using b k(1) by (simp add: authenticate_partner_api_key_def bindE_run gets_apply utcnow_apply liftE_apply)
  with p show ?thesis by blast
qed

definition status_scope :: ApiKeyCreate where
  "status_scope = \<lparr>kc_scopes = [STATUS_READ_SCOPE], kc_expires_at = None\<rparr>"

lemma key_created:
  "\<exists>resp w'. with_session (create_api_key mem_env admin_settings (Some ''bootstrap-token'') 1 status_scope) sample_world = (Inr resp, w')"
proof -
  have g: "get_partner_by_public_id 1 (sample_world\<lparr>w_db := sample_db\<rparr>) = (Inr sample_partner, sample_world\<lparr>w_db := sample_db\<rparr>)"
    by (simp add: get_partner_by_public_id_def bindE_run gets_apply one_or_none_def ret_apply sample_defs)
  have ok: "constraints_ok (sample_db\<lparr>db_api_keys := db_api_keys sample_db @ [\<lparr>ak_id = i, ak_partner_id = p_id sample_partner,
      ak_key_prefix = x, ak_key_hash = h, ak_scopes = sc, ak_expires_at = t, ak_revoked_at = r, ak_created_at = c\<rparr>]\<rparr>)" for i x h sc t r c
    by (simp add: constraints_ok_def table_ok_defs references_def unique_on_def sample_defs)
  have w: "w_committed sample_world = sample_db" by (simp add: sample_world_def)
  show ?thesis
    by (simp add: with_session_run create_api_key_def generate_api_key_def seqE_run bindE_run admin_allowed w g next_draw_apply
        ret_apply generate_uuidv7_apply utcnow_apply update_db_apply commit_ok ok Let_def)
qed

theorem issued_key_authenticates_witness:
  "\<exists>resp w' i. with_session (create_api_key mem_env admin_settings (Some ''bootstrap-token'') 1 status_scope) sample_world = (Inr resp, w') \<and>
     authenticate_partner_api_key mem_env (Some (''Bearer '' @ kr_key resp)) w' = (Inr i, w')"
proof -
  obtain resp w' where r: "with_session (create_api_key mem_env admin_settings (Some ''bootstrap-token'') 1 status_scope) sample_world = (Inr resp, w')"
    using key_created by blast
  have a: "\<forall>salt k. argon2_verify mem_env (argon2_hash mem_env salt k) k" by (simp add: mem_env_def)
  have t: "\<forall>n. list_all (\<lambda>c. \<not> is_space c) (token_urlsafe mem_env n 24)" by (simp add: is_space_def)
  have o: "\<forall>row \<in> set (db_api_keys (w_committed sample_world)). \<not> argon2_verify mem_env (ak_key_hash row) (kr_key resp)"
    by (simp add: sample_defs)
  from issued_key_authenticates [OF a t r o] r show ?thesis by (auto simp: status_scope_def)
qed

end
