(* ===== verification/Analytics.thy ===== *)
theory Analytics
  imports AdminPartners CircuitBreaker "HOL-Library.Product_Lexorder" "HOL-Library.List_Lexorder" "HOL-Library.Char_ord"
begin

text \<open>
  Analytics over the stored deliveries: \<open>app/domain/services/analytics_service.py\<close> and its admin routes
  (\<open>app/api/v1/admin/analytics.py\<close>). Ratios are exact rationals; \<open>math.ceil(0.95 * n)\<close> is the ceiling of
  the exact product, which the double computation agrees with for every list that fits in memory.
  A dict that a loop fills is an association list in insertion order. Time bounds are instants. The
  lemmas show that the percentile is the nearest rank, that the ratios are what the rows say, and that
  the overview lists the worst partners first.
\<close>

section \<open>Statistics\<close>

definition WINDOW_HOURS :: int where "WINDOW_HOURS = 24"

definition window_start :: "time \<Rightarrow> time" where
  "window_start now = now - WINDOW_HOURS * 3600 * us_per_second"

definition terminal :: "delivery \<Rightarrow> bool" where
  "terminal d \<longleftrightarrow> d_status d \<in> set [DeliveryStatus.DELIVERED, FAILED]"

record PartnerWindowStats =
  st_delivered :: int
  st_failed :: int
  st_sla_breaches :: int
  st_sla_not_breached :: int

definition compute_p95_latency_ms :: "int list \<Rightarrow> int option" where
  "compute_p95_latency_ms durations =
     (if durations = [] then None
      else let sorted_values = sort durations;
               index = nat (\<lceil>19 / 20 * of_nat (length sorted_values) :: rat\<rceil> - 1)
           in Some (sorted_values ! index))"

definition compute_success_rate :: "int \<Rightarrow> int \<Rightarrow> rat option" where
  "compute_success_rate delivered failed =
     (let total = delivered + failed
      in if total = 0 then None else Some (of_int delivered / of_int total))"

definition compute_sla_compliance_pct :: "int \<Rightarrow> int \<Rightarrow> rat option" where
  "compute_sla_compliance_pct not_breached total_rows =
     (if total_rows = 0 then None else Some (100 * of_int not_breached / of_int total_rows))"

definition stats_row :: "PartnerWindowStats \<Rightarrow> DeliveryStatus \<times> bool \<Rightarrow> PartnerWindowStats" where
  "stats_row s row = (case row of (st, breached) \<Rightarrow>
     let s1 = (if st = DeliveryStatus.DELIVERED then s\<lparr>st_delivered := st_delivered s + 1\<rparr>
               else if st = FAILED then s\<lparr>st_failed := st_failed s + 1\<rparr> else s)
     in if breached then s1\<lparr>st_sla_breaches := st_sla_breaches s1 + 1\<rparr>
        else s1\<lparr>st_sla_not_breached := st_sla_not_breached s1 + 1\<rparr>)"

definition stats_from_terminal_rows :: "(DeliveryStatus \<times> bool) list \<Rightarrow> PartnerWindowStats" where
  "stats_from_terminal_rows rows =
     foldl stats_row \<lparr>st_delivered = 0, st_failed = 0, st_sla_breaches = 0, st_sla_not_breached = 0\<rparr> rows"

section \<open>Partner summary\<close>

definition fetch_partner_terminal_rows :: "int \<Rightarrow> time \<Rightarrow> ('r, 'k, (DeliveryStatus \<times> bool) list) hub" where
  "fetch_partner_terminal_rows partner_id start =
     gets (\<lambda>w. map (\<lambda>d. (d_status d, d_sla_breached d))
       (filter (\<lambda>d. d_partner_id d = partner_id \<and> start \<le> stamp_of (d_created_at d) \<and> terminal d) (db_deliveries (w_db w))))"

definition fetch_partner_attempt_durations :: "int \<Rightarrow> time \<Rightarrow> ('r, 'k, int list) hub" where
  "fetch_partner_attempt_durations partner_id start =
     gets (\<lambda>w. concat (map (\<lambda>a. case at_duration_ms a of None \<Rightarrow> [] | Some ms \<Rightarrow>
         map (\<lambda>d. ms) (filter (\<lambda>d. at_delivery_id a = d_id d \<and> d_partner_id d = partner_id) (db_deliveries (w_db w))))
       (filter (\<lambda>a. start \<le> stamp_of (at_created_at a)) (db_attempts (w_db w)))))"

definition min_time :: "time list \<Rightarrow> time option" where
  "min_time ts = (case ts of [] \<Rightarrow> None | t # rest \<Rightarrow> Some (foldl min t rest))"

definition fetch_oldest_unacked_dlq_created_at :: "int \<Rightarrow> ('r, 'k, time option) hub" where
  "fetch_oldest_unacked_dlq_created_at partner_id =
     gets (\<lambda>w. min_time (map dl_created_at (filter (\<lambda>l. dl_partner_id l = partner_id \<and> dl_acknowledged_at l = None \<and>
       dl_reason l \<noteq> MANUAL_PURGE) (db_dead_letters (w_db w)))))"

text \<open>\<open>int(delta.total_seconds())\<close> truncates towards zero.\<close>

definition whole_seconds :: "time \<Rightarrow> int" where
  "whole_seconds t = (if t \<ge> 0 then t div us_per_second else - ((- t) div us_per_second))"

definition compute_dlq_age_seconds :: "time option \<Rightarrow> time \<Rightarrow> int" where
  "compute_dlq_age_seconds oldest now =
     (case oldest of None \<Rightarrow> 0 | Some t \<Rightarrow> max 0 (whole_seconds (now - t)))"

record PartnerSummaryData =
  sm_id :: uuid
  sm_slug :: string
  sm_window_hours :: int
  sm_success_rate :: "rat option"
  sm_p95_latency_ms :: "int option"
  sm_sla_compliance_pct :: "rat option"
  sm_sla_breaches :: int
  sm_circuit_state :: AnalyticsCircuitState
  sm_dlq_age_seconds :: int

definition build_partner_summary ::
  "('r, 'k) env \<Rightarrow> partner \<Rightarrow> settings \<Rightarrow> time \<Rightarrow> ('r, 'k, PartnerSummaryData) hub" where
  "build_partner_summary e p stg now =
     (let start = window_start now in
      bindE (fetch_partner_terminal_rows (p_id p) start) (\<lambda>terminal_rows.
      let stats = stats_from_terminal_rows terminal_rows in
      bindE (fetch_partner_attempt_durations (p_id p) start) (\<lambda>durations.
      bindE (fetch_oldest_unacked_dlq_created_at (p_id p)) (\<lambda>oldest_dlq.
      bindE (get_analytics_circuit_state e (p_slug p) stg) (\<lambda>circuit_state.
      let total_terminal = st_delivered stats + st_failed stats in
      ret \<lparr>sm_id = p_public_id p, sm_slug = p_slug p, sm_window_hours = WINDOW_HOURS,
           sm_success_rate = compute_success_rate (st_delivered stats) (st_failed stats),
           sm_p95_latency_ms = compute_p95_latency_ms durations,
           sm_sla_compliance_pct = compute_sla_compliance_pct (st_sla_not_breached stats) total_terminal,
           sm_sla_breaches = st_sla_breaches stats, sm_circuit_state = circuit_state,
           sm_dlq_age_seconds = compute_dlq_age_seconds oldest_dlq now\<rparr>)))))"

section \<open>Overview\<close>

record TopFailingPartnerData =
  tf_id :: uuid
  tf_slug :: string
  tf_success_rate :: rat
  tf_sla_breaches :: int

record OverviewData =
  ov_window_hours :: int
  ov_dlq_count :: int
  ov_avg_sla_compliance_pct :: "rat option"
  ov_top_failing_partners :: "TopFailingPartnerData list"

text \<open>Rows collected per key, keys in the order of their first row.\<close>

fun group_add :: "'k \<Rightarrow> 'v \<Rightarrow> ('k \<times> 'v list) list \<Rightarrow> ('k \<times> 'v list) list" where
  "group_add k v [] = [(k, [v])]"
| "group_add k v ((k', vs) # g) = (if k' = k then (k', vs @ [v]) # g else (k', vs) # group_add k v g)"

definition group_rows :: "('k \<times> 'v) list \<Rightarrow> ('k \<times> 'v list) list" where
  "group_rows rows = foldl (\<lambda>g (k, v). group_add k v g) [] rows"

definition fetch_dlq_backlog_count :: "('r, 'k, int) hub" where
  "fetch_dlq_backlog_count =
     gets (\<lambda>w. int (length (filter (\<lambda>l. dl_reason l \<noteq> MANUAL_PURGE) (db_dead_letters (w_db w)))))"

type_synonym overview_row = "uuid \<times> string \<times> DeliveryStatus \<times> bool"

definition fetch_overview_partner_rows :: "time \<Rightarrow> ('r, 'k, overview_row list) hub" where
  "fetch_overview_partner_rows start =
     gets (\<lambda>w. concat (map (\<lambda>p. map (\<lambda>d. (p_public_id p, p_slug p, d_status d, d_sla_breached d))
         (filter (\<lambda>d. d_partner_id d = p_id p \<and> start \<le> stamp_of (d_created_at d) \<and> terminal d) (db_deliveries (w_db w))))
       (db_partners (w_db w))))"

text \<open>One group: its slug is that of the first row; a group without a rate is left out.\<close>

definition overview_partner :: "uuid \<times> (string \<times> DeliveryStatus \<times> bool) list \<Rightarrow> TopFailingPartnerData list" where
  "overview_partner g = (case g of (public_id, rows) \<Rightarrow>
     let stats = stats_from_terminal_rows (map snd rows)
     in case compute_success_rate (st_delivered stats) (st_failed stats) of
          None \<Rightarrow> []
        | Some success_rate \<Rightarrow> [\<lparr>tf_id = public_id, tf_slug = fst (hd rows), tf_success_rate = success_rate,
            tf_sla_breaches = st_sla_breaches stats\<rparr>])"

definition overview_partners :: "overview_row list \<Rightarrow> TopFailingPartnerData list" where
  "overview_partners rows = concat (map overview_partner (group_rows rows))"

definition failing_key :: "TopFailingPartnerData \<Rightarrow> rat \<times> int" where
  "failing_key x = (tf_success_rate x, - tf_sla_breaches x)"

definition aggregate_overview_partners :: "overview_row list \<Rightarrow> TopFailingPartnerData list" where
  "aggregate_overview_partners rows = take 5 (sort_key failing_key (overview_partners rows))"

definition avg_sla_compliance :: "overview_row list \<Rightarrow> rat option" where
  "avg_sla_compliance rows =
     (let grouped = group_rows (map (\<lambda>(u, slug, r). (u, r)) rows);
          pct_of = (\<lambda>terminal_rows. let stats = stats_from_terminal_rows terminal_rows in
            compute_sla_compliance_pct (st_sla_not_breached stats) (st_delivered stats + st_failed stats));
          pcts = concat (map (\<lambda>(u, terminal_rows). case pct_of terminal_rows of None \<Rightarrow> [] | Some x \<Rightarrow> [x]) grouped)
      in if pcts = [] then None else Some (sum_list pcts / of_nat (length pcts)))"

definition build_analytics_overview :: "time \<Rightarrow> ('r, 'k, OverviewData) hub" where
  "build_analytics_overview now =
     (let start = window_start now in
      bindE fetch_dlq_backlog_count (\<lambda>dlq_count.
      bindE (fetch_overview_partner_rows start) (\<lambda>partner_rows.
      ret \<lparr>ov_window_hours = WINDOW_HOURS, ov_dlq_count = dlq_count,
           ov_avg_sla_compliance_pct = avg_sla_compliance partner_rows,
           ov_top_failing_partners = aggregate_overview_partners partner_rows\<rparr>)))"

section \<open>Compliance export\<close>

record ComplianceExportRowData =
  cx_partner_slug :: string
  cx_success_rate :: "rat option"
  cx_sla_compliance_pct :: "rat option"
  cx_sla_breaches :: int
  cx_dlq_count :: int

definition in_window :: "time \<Rightarrow> time \<Rightarrow> time \<Rightarrow> bool" where
  "in_window start finish t \<longleftrightarrow> start \<le> t \<and> t \<le> finish"

definition fetch_compliance_delivery_rows :: "time \<Rightarrow> time \<Rightarrow> ('r, 'k, (string \<times> DeliveryStatus \<times> bool) list) hub" where
  "fetch_compliance_delivery_rows start finish =
     gets (\<lambda>w. concat (map (\<lambda>p. map (\<lambda>d. (p_slug p, d_status d, d_sla_breached d))
         (filter (\<lambda>d. d_partner_id d = p_id p \<and> in_window start finish (stamp_of (d_created_at d)) \<and> terminal d)
           (db_deliveries (w_db w)))) (db_partners (w_db w))))"

definition fetch_partner_dlq_counts_in_window :: "time \<Rightarrow> time \<Rightarrow> ('r, 'k, (string \<times> int) list) hub" where
  "fetch_partner_dlq_counts_in_window start finish =
     gets (\<lambda>w. map (\<lambda>(slug, ls). (slug, int (length ls))) (group_rows (concat (map (\<lambda>p. map (\<lambda>l. (p_slug p, l))
         (filter (\<lambda>l. dl_partner_id l = p_id p \<and> in_window start finish (dl_created_at l) \<and> dl_reason l \<noteq> MANUAL_PURGE)
           (db_dead_letters (w_db w)))) (db_partners (w_db w))))))"

definition compliance_row ::
  "(string \<times> (DeliveryStatus \<times> bool) list) list \<Rightarrow> (string \<times> int) list \<Rightarrow> string \<Rightarrow> ComplianceExportRowData" where
  "compliance_row grouped dlq_by_slug slug =
     (let terminal_rows = (case map_of grouped slug of None \<Rightarrow> [] | Some rs \<Rightarrow> rs);
          stats = stats_from_terminal_rows terminal_rows;
          total_terminal = st_delivered stats + st_failed stats
      in \<lparr>cx_partner_slug = slug,
          cx_success_rate = compute_success_rate (st_delivered stats) (st_failed stats),
          cx_sla_compliance_pct = compute_sla_compliance_pct (st_sla_not_breached stats) total_terminal,
          cx_sla_breaches = st_sla_breaches stats,
          cx_dlq_count = (case map_of dlq_by_slug slug of None \<Rightarrow> 0 | Some n \<Rightarrow> n)\<rparr>)"

definition aggregate_compliance_rows ::
  "(string \<times> DeliveryStatus \<times> bool) list \<Rightarrow> (string \<times> int) list \<Rightarrow> ComplianceExportRowData list" where
  "aggregate_compliance_rows delivery_rows dlq_by_slug =
     (let grouped = group_rows delivery_rows;
          all_slugs = sort (remdups (map fst grouped @ map fst dlq_by_slug))
      in map (compliance_row grouped dlq_by_slug) all_slugs)"

definition build_compliance_export :: "time \<Rightarrow> time \<Rightarrow> ('r, 'k, ComplianceExportRowData list) hub" where
  "build_compliance_export start finish =
     bindE (fetch_compliance_delivery_rows start finish) (\<lambda>delivery_rows.
     bindE (fetch_partner_dlq_counts_in_window start finish) (\<lambda>dlq_by_slug.
     ret (aggregate_compliance_rows delivery_rows dlq_by_slug)))"

text \<open>The text of a float, \<open>str(x)\<close>, is an argument of the rendering.\<close>

definition csv_line :: "(rat \<Rightarrow> string) \<Rightarrow> ComplianceExportRowData \<Rightarrow> string" where
  "csv_line str_float row =
     (let success = (case cx_success_rate row of None \<Rightarrow> [] | Some x \<Rightarrow> str_float x);
          sla_pct = (case cx_sla_compliance_pct row of None \<Rightarrow> [] | Some x \<Rightarrow> str_float x)
      in cx_partner_slug row @ '','' @ success @ '','' @ sla_pct @ '','' @ str_int (cx_sla_breaches row) @ '','' @
         str_int (cx_dlq_count row))"

fun join_lines :: "string list \<Rightarrow> string" where
  "join_lines [] = []"
| "join_lines [l] = l"
| "join_lines (l # ls) = l @ CHR 0x0A # join_lines ls"

definition render_compliance_csv :: "(rat \<Rightarrow> string) \<Rightarrow> ComplianceExportRowData list \<Rightarrow> string" where
  "render_compliance_csv str_float rows =
     join_lines (''partner_slug,success_rate,sla_compliance_pct,sla_breaches,dlq_count'' # map (csv_line str_float) rows)"

section \<open>Response models\<close>

text \<open>
  The Pydantic models of the answers (\<open>app/schemas/analytics.py\<close>): counts must not be negative, and a model
  that is built with another value raises a \<open>ValidationError\<close>, which is a \<open>ValueError\<close>.
\<close>

record PartnerAnalyticsSummary =
  pa_id :: uuid
  pa_slug :: string
  pa_window_hours :: int
  pa_success_rate :: "rat option"
  pa_p95_latency_ms :: "int option"
  pa_sla_compliance_pct :: "rat option"
  pa_sla_breaches :: int
  pa_circuit_state :: AnalyticsCircuitState
  pa_dlq_age_seconds :: int

record TopFailingPartner =
  tp_id :: uuid
  tp_slug :: string
  tp_success_rate :: rat
  tp_sla_breaches :: int

record ComplianceExportRow =
  ce_partner_slug :: string
  ce_success_rate :: "rat option"
  ce_sla_compliance_pct :: "rat option"
  ce_sla_breaches :: int
  ce_dlq_count :: int

record AnalyticsOverview =
  ao_window_hours :: int
  ao_dlq_count :: int
  ao_avg_sla_compliance_pct :: "rat option"
  ao_top_failing_partners :: "TopFailingPartner list"

definition partner_analytics_summary :: "PartnerSummaryData \<Rightarrow> exn + PartnerAnalyticsSummary" where
  "partner_analytics_summary d =
     (if \<not> 0 \<le> sm_sla_breaches d then Inl (ValueError ''sla_breaches'')
      else if \<not> 0 \<le> sm_dlq_age_seconds d then Inl (ValueError ''dlq_age_seconds'')
      else Inr \<lparr>pa_id = sm_id d, pa_slug = sm_slug d, pa_window_hours = sm_window_hours d, pa_success_rate = sm_success_rate d,
                pa_p95_latency_ms = sm_p95_latency_ms d, pa_sla_compliance_pct = sm_sla_compliance_pct d,
                pa_sla_breaches = sm_sla_breaches d, pa_circuit_state = sm_circuit_state d,
                pa_dlq_age_seconds = sm_dlq_age_seconds d\<rparr>)"

definition top_failing_partner :: "TopFailingPartnerData \<Rightarrow> exn + TopFailingPartner" where
  "top_failing_partner x =
     (if \<not> 0 \<le> tf_sla_breaches x then Inl (ValueError ''sla_breaches'')
      else Inr \<lparr>tp_id = tf_id x, tp_slug = tf_slug x, tp_success_rate = tf_success_rate x, tp_sla_breaches = tf_sla_breaches x\<rparr>)"

definition compliance_export_row :: "ComplianceExportRowData \<Rightarrow> exn + ComplianceExportRow" where
  "compliance_export_row row =
     (if \<not> 0 \<le> cx_sla_breaches row then Inl (ValueError ''sla_breaches'')
      else if \<not> 0 \<le> cx_dlq_count row then Inl (ValueError ''dlq_count'')
      else Inr \<lparr>ce_partner_slug = cx_partner_slug row, ce_success_rate = cx_success_rate row,
                ce_sla_compliance_pct = cx_sla_compliance_pct row, ce_sla_breaches = cx_sla_breaches row,
                ce_dlq_count = cx_dlq_count row\<rparr>)"

definition analytics_overview :: "OverviewData \<Rightarrow> TopFailingPartner list \<Rightarrow> exn + AnalyticsOverview" where
  "analytics_overview d tops =
     (if \<not> 0 \<le> ov_dlq_count d then Inl (ValueError ''dlq_count'')
      else Inr \<lparr>ao_window_hours = ov_window_hours d, ao_dlq_count = ov_dlq_count d,
                ao_avg_sla_compliance_pct = ov_avg_sla_compliance_pct d, ao_top_failing_partners = tops\<rparr>)"

section \<open>Routes\<close>

definition get_partner_analytics_summary ::
  "('r, 'k) env \<Rightarrow> settings \<Rightarrow> string option \<Rightarrow> uuid \<Rightarrow> int \<Rightarrow> ('r, 'k, PartnerAnalyticsSummary) hub" where
  "get_partner_analytics_summary e stg credentials u now_ts =
     seqE (require_roles e RequireViewer credentials stg)
     (bindE (get_partner_by_public_id u) (\<lambda>p.
      bindE (build_partner_summary e p stg (now_ts * us_per_second)) (\<lambda>summary.
      liftE (partner_analytics_summary summary))))"

definition get_analytics_overview ::
  "('r, 'k) env \<Rightarrow> settings \<Rightarrow> string option \<Rightarrow> int \<Rightarrow> ('r, 'k, AnalyticsOverview) hub" where
  "get_analytics_overview e stg credentials now_ts =
     seqE (require_roles e RequireViewer credentials stg)
     (bindE (build_analytics_overview (now_ts * us_per_second)) (\<lambda>overview.
      bindE (mapE (\<lambda>x. liftE (top_failing_partner x)) (ov_top_failing_partners overview)) (\<lambda>tops.
      liftE (analytics_overview overview tops))))"

datatype compliance_response = ComplianceExportResponse "ComplianceExportRow list" | PlainTextResponse string

definition get_compliance_export ::
  "('r, 'k) env \<Rightarrow> settings \<Rightarrow> (rat \<Rightarrow> string) \<Rightarrow> string option \<Rightarrow> time \<Rightarrow> time \<Rightarrow> string option \<Rightarrow>
   ('r, 'k, compliance_response) hub" where
  "get_compliance_export e stg str_float credentials from_dt to_dt accept =
     seqE (require_roles e RequireViewer credentials stg)
     (if to_dt \<le> from_dt then throw (HTTPException 422 (CHR 0x27 # ''to'' @ CHR 0x27 # '' must be after '' @ CHR 0x27 # ''from'' @ CHR 0x27 # ''.''))
      else bindE (build_compliance_export from_dt to_dt) (\<lambda>rows.
      if (case accept of None \<Rightarrow> False | Some a \<Rightarrow> py_in ''application/json'' a)
      then bindE (mapE (\<lambda>row. liftE (compliance_export_row row)) rows) (\<lambda>xs. ret (ComplianceExportResponse xs))
      else ret (PlainTextResponse (render_compliance_csv str_float rows))))"

section \<open>The percentile\<close>

lemma sorted_count_le:
  assumes "sorted s" "i < length s"
  shows "Suc i \<le> length (filter (\<lambda>x. x \<le> s ! i) s)" "length (filter (\<lambda>x. x < s ! i) s) \<le> i"
proof -
  have split: "s = take (Suc i) s @ drop (Suc i) s" by simp
  have "\<forall>x \<in> set (take (Suc i) s). x \<le> s ! i"
    using assms by (auto simp: in_set_conv_nth sorted_iff_nth_mono)
  then have "filter (\<lambda>x. x \<le> s ! i) (take (Suc i) s) = take (Suc i) s" by (simp add: filter_id_conv)
  then have "length (filter (\<lambda>x. x \<le> s ! i) (take (Suc i) s @ drop (Suc i) s)) \<ge> Suc i"
    using assms(2) by (subst filter_append) simp
  then show "Suc i \<le> length (filter (\<lambda>x. x \<le> s ! i) s)" by simp
  have "\<forall>x \<in> set (drop i s). \<not> x < s ! i"
    using assms by (auto simp: in_set_conv_nth sorted_iff_nth_mono not_less)
  then have "filter (\<lambda>x. x < s ! i) (drop i s) = []" by (simp add: filter_empty_conv)
  then have "length (filter (\<lambda>x. x < s ! i) (take i s @ drop i s)) \<le> length (take i s)"
    using length_filter_le [of "\<lambda>x. x < s ! i" "take i s"] by (subst filter_append) (simp del: length_take)
  then show "length (filter (\<lambda>x. x < s ! i) s) \<le> i" using assms(2) by simp
qed

lemma p95_index:
  assumes "0 < n"
  shows "nat (\<lceil>19 / 20 * of_nat n :: rat\<rceil> - 1) < n"
    "95 * n \<le> 100 * Suc (nat (\<lceil>19 / 20 * of_nat n :: rat\<rceil> - 1))"
    "100 * nat (\<lceil>19 / 20 * of_nat n :: rat\<rceil> - 1) < 95 * n"
proof -
  define c where "c = \<lceil>19 / 20 * of_nat n :: rat\<rceil>"
  have up: "(19 / 20 * of_nat n :: rat) \<le> of_int c" unfolding c_def by simp
  have lo: "of_int c - 1 < (19 / 20 * of_nat n :: rat)" unfolding c_def by linarith
  have "(0 :: rat) < 19 / 20 * of_nat n" using assms by simp
  then have "0 < c" unfolding c_def by simp
  have "(19 * of_nat n :: rat) \<le> 20 * of_int c" using up by simp
  then have "of_int (19 * int n) \<le> (of_int (20 * c) :: rat)" by simp
  then have a: "19 * int n \<le> 20 * c" by (simp only: of_int_le_iff)
  have "(20 * of_int c - 20 :: rat) < 19 * of_nat n" using lo by simp
  then have "of_int (20 * c - 20) < (of_int (19 * int n) :: rat)" by simp
  then have b: "20 * c - 20 < 19 * int n" by (simp only: of_int_less_iff)
  obtain m where m: "c = int m + 1" using \<open>0 < c\<close> by (metis add.commute zero_less_imp_eq_int of_nat_Suc Suc_pred)
  show "nat (c - 1) < n" "95 * n \<le> 100 * Suc (nat (c - 1))" "100 * nat (c - 1) < 95 * n"
    using a b assms unfolding m by simp_all
qed

text \<open>
  The latency percentile is the nearest rank: for a non-empty list it is one of the durations, at
  least 95 percent of them are no longer, and fewer than 95 percent are shorter; it is null exactly for
  the empty list.
\<close>

lemma p95_nearest_rank:
  "(compute_p95_latency_ms ds = None \<longleftrightarrow> ds = []) \<and>
   (\<forall>v. compute_p95_latency_ms ds = Some v \<longrightarrow> v \<in> set ds \<and>
      95 * length ds \<le> 100 * length (filter (\<lambda>x. x \<le> v) ds) \<and>
      100 * length (filter (\<lambda>x. x < v) ds) < 95 * length ds)"
proof (cases "ds = []")
  case False
  let ?i = "nat (\<lceil>19 / 20 * of_nat (length ds) :: rat\<rceil> - 1)"
  have n: "0 < length ds" using False by simp
  have i: "?i < length (sort ds)" using p95_index(1) [OF n] by simp
  have v: "compute_p95_latency_ms ds = Some (sort ds ! ?i)" using False by (simp add: compute_p95_latency_ms_def Let_def)
  have cnt: "length (filter P (sort ds)) = length (filter P ds)" for P
    by (metis mset_filter mset_sort size_mset)
  have "sort ds ! ?i \<in> set ds" using nth_mem [OF i] by simp
  moreover have "95 * length ds \<le> 100 * length (filter (\<lambda>x. x \<le> sort ds ! ?i) ds)"
    using sorted_count_le(1) [OF sorted_sort i] p95_index(2) [OF n] by (simp add: cnt)
  moreover have "100 * length (filter (\<lambda>x. x < sort ds ! ?i) ds) < 95 * length ds"
    using sorted_count_le(2) [OF sorted_sort i] p95_index(3) [OF n] by (simp add: cnt)
  ultimately show ?thesis using v by auto
qed (simp add: compute_p95_latency_ms_def)

lemma p95_nearest_rank_witness:
  "compute_p95_latency_ms [30, 10, 20] = Some 30 \<and> 95 * length [30, 10, 20 :: int] \<le> 100 * length (filter (\<lambda>x. x \<le> 30) [30, 10, 20 :: int])"
proof -
  have "\<lceil>57 / 20 :: rat\<rceil> = 3" by (simp add: ceiling_eq_iff)
  then have "compute_p95_latency_ms [30, 10, 20] = Some 30" by (simp add: compute_p95_latency_ms_def)
  with p95_nearest_rank [of "[30, 10, 20]"] show ?thesis by blast
qed

section \<open>What the ratios say\<close>

lemma stats_fold:
  "foldl stats_row s rows =
     \<lparr>st_delivered = st_delivered s + int (length (filter (\<lambda>r. fst r = DeliveryStatus.DELIVERED) rows)),
      st_failed = st_failed s + int (length (filter (\<lambda>r. fst r = FAILED) rows)),
      st_sla_breaches = st_sla_breaches s + int (length (filter snd rows)),
      st_sla_not_breached = st_sla_not_breached s + int (length (filter (\<lambda>r. \<not> snd r) rows))\<rparr>"
  by (induction rows arbitrary: s) (auto simp: stats_row_def Let_def)

lemma stats_counts:
  "st_delivered (stats_from_terminal_rows rows) = int (length (filter (\<lambda>r. fst r = DeliveryStatus.DELIVERED) rows))"
  "st_failed (stats_from_terminal_rows rows) = int (length (filter (\<lambda>r. fst r = FAILED) rows))"
  "st_sla_breaches (stats_from_terminal_rows rows) = int (length (filter snd rows))"
  "st_sla_not_breached (stats_from_terminal_rows rows) = int (length (filter (\<lambda>r. \<not> snd r) rows))"
  by (simp_all add: stats_from_terminal_rows_def stats_fold)

lemma terminal_total:
  "\<forall>r \<in> set rows. fst r \<in> {DeliveryStatus.DELIVERED, FAILED} \<Longrightarrow>
     st_delivered (stats_from_terminal_rows rows) + st_failed (stats_from_terminal_rows rows) = int (length rows)"
  unfolding stats_counts by (induction rows) auto

text \<open>Over terminal rows the ratios are ratios.\<close>

lemma rate_bounds:
  assumes "compute_success_rate (st_delivered (stats_from_terminal_rows rows)) (st_failed (stats_from_terminal_rows rows)) = Some x"
  shows "0 \<le> x \<and> x \<le> 1"
proof -
  let ?s = "stats_from_terminal_rows rows"
  have n: "0 \<le> st_delivered ?s" "0 \<le> st_failed ?s" by (simp_all add: stats_counts)
  from assms have t: "st_delivered ?s + st_failed ?s \<noteq> 0" and x: "x = of_int (st_delivered ?s) / of_int (st_delivered ?s + st_failed ?s)"
    by (auto simp: compute_success_rate_def Let_def split: if_splits)
  from t n have p: "(0 :: rat) < of_int (st_delivered ?s + st_failed ?s)" by (simp only: of_int_0_less_iff)
  from n p show ?thesis unfolding x by (simp add: divide_le_eq_1)
qed

lemma compliance_bounds:
  assumes "\<forall>r \<in> set rows. fst r \<in> {DeliveryStatus.DELIVERED, FAILED}"
    and "compute_sla_compliance_pct (st_sla_not_breached (stats_from_terminal_rows rows))
           (st_delivered (stats_from_terminal_rows rows) + st_failed (stats_from_terminal_rows rows)) = Some x"
  shows "0 \<le> x \<and> x \<le> 100"
proof -
  from assms(2) have ne: "rows \<noteq> []" and x: "x = 100 * of_int (st_sla_not_breached (stats_from_terminal_rows rows)) / of_int (int (length rows))"
    unfolding terminal_total [OF assms(1)] by (auto simp: compute_sla_compliance_pct_def split: if_splits)
  have "st_sla_not_breached (stats_from_terminal_rows rows) \<le> int (length rows)" by (simp add: stats_counts)
  then have "(of_int (st_sla_not_breached (stats_from_terminal_rows rows)) :: rat) \<le> of_int (int (length rows))" by (simp only: of_int_le_iff)
  moreover have "(0 :: rat) \<le> of_int (st_sla_not_breached (stats_from_terminal_rows rows))" by (simp add: stats_counts)
  ultimately show ?thesis unfolding x using ne by (simp add: divide_le_eq)
qed

text \<open>
  The summary of a partner is always a valid answer: its model accepts it, the rate lies between 0 and 1,
  the compliance between 0 and 100, and the counts and ages are not negative.
\<close>

lemma summary_valid:
  assumes "build_partner_summary e p stg now w = (Inr d, w')"
  shows "\<exists>a. partner_analytics_summary d = Inr a \<and> pred_option (\<lambda>x. 0 \<le> x \<and> x \<le> 1) (pa_success_rate a) \<and>
     pred_option (\<lambda>x. 0 \<le> x \<and> x \<le> 100) (pa_sla_compliance_pct a) \<and> 0 \<le> pa_sla_breaches a \<and> 0 \<le> pa_dlq_age_seconds a"
proof -
  let ?rows = "map (\<lambda>d. (d_status d, d_sla_breached d))
       (filter (\<lambda>d. d_partner_id d = p_id p \<and> window_start now \<le> stamp_of (d_created_at d) \<and> terminal d) (db_deliveries (w_db w)))"
  let ?s = "stats_from_terminal_rows ?rows"
  have "sm_success_rate d = compute_success_rate (st_delivered ?s) (st_failed ?s)"
    "sm_sla_compliance_pct d = compute_sla_compliance_pct (st_sla_not_breached ?s) (st_delivered ?s + st_failed ?s)"
    "sm_sla_breaches d = st_sla_breaches ?s" "0 \<le> sm_dlq_age_seconds d"
    using assms
    by (auto simp: build_partner_summary_def Let_def bindE_Inr fetch_partner_terminal_rows_def fetch_partner_attempt_durations_def
        fetch_oldest_unacked_dlq_created_at_def gets_apply ret_apply compute_dlq_age_seconds_def split: option.splits)
  moreover have "\<forall>r \<in> set ?rows. fst r \<in> {DeliveryStatus.DELIVERED, FAILED}" by (auto simp: terminal_def)
  ultimately show ?thesis
    using rate_bounds [of ?rows] compliance_bounds [of ?rows]
    by (auto simp: partner_analytics_summary_def stats_counts(3) option.pred_set)
qed

text \<open>Neither does the overview or the export ever fail to build its models.\<close>

lemma mapE_all: "(\<And>x. x \<in> set xs \<Longrightarrow> \<exists>y. f x = Inr y) \<Longrightarrow> \<exists>ys. mapE (\<lambda>x. liftE (f x)) xs w = (Inr ys, w) \<and> length ys = length xs"
proof (induction xs)
  case (Cons x xs)
  then obtain y ys where "f x = Inr y" "mapE (\<lambda>x. liftE (f x)) xs w = (Inr ys, w)" "length ys = length xs" by force
  then show ?case by (simp add: bindE_run liftE_apply [of "Inr y"] ret_apply)
qed (simp add: ret_apply)

lemma group_add_keys: "set (map fst (group_add k v g)) = insert k (set (map fst g))"
  "distinct (map fst g) \<Longrightarrow> distinct (map fst (group_add k v g))"
proof -
  show keys: "set (map fst (group_add k v g)) = insert k (set (map fst g))" for k v and g :: "('a \<times> 'b list) list"
    by (induction k v g rule: group_add.induct) auto
  show "distinct (map fst g) \<Longrightarrow> distinct (map fst (group_add k v g))"
  proof (induction k v g rule: group_add.induct)
    case (2 k v k' vs g)
    then have "k' \<notin> set (map fst (group_add k v g))" if "k' \<noteq> k" using keys [of k v g] that by simp
    with 2 show ?case by (cases "k' = k") simp_all
  qed simp
qed

lemma map_of_group_add: "map_of (group_add k v g) x = (if x = k
    then Some ((case map_of g k of None \<Rightarrow> [] | Some vs \<Rightarrow> vs) @ [v]) else map_of g x)"
  by (induction g) auto

text \<open>The group of a key holds its rows in order; there is no group without rows.\<close>

lemma group_fold:
  "map_of (foldl (\<lambda>g (k, v). group_add k v g) g rows) x =
     (let vs = map snd (filter (\<lambda>r. fst r = x) rows) in
      case map_of g x of None \<Rightarrow> if vs = [] then None else Some vs | Some us \<Rightarrow> Some (us @ vs))"
proof (induction rows arbitrary: g)
  case (Cons r rows)
  show ?case by (cases r) (simp add: Cons map_of_group_add Let_def split: option.splits)
qed (simp split: option.splits)

lemma group_rows_map: "map_of (group_rows rows) x =
    (let vs = map snd (filter (\<lambda>r. fst r = x) rows) in if vs = [] then None else Some vs)"
  by (simp add: group_rows_def group_fold Let_def)

lemma group_rows_distinct: "distinct (map fst (group_rows rows))"
proof -
  have "distinct (map fst g) \<Longrightarrow> distinct (map fst (foldl (\<lambda>g (k, v). group_add k v g) g rows))" for g
    by (induction rows arbitrary: g) (auto simp: group_add_keys(2))
  then show ?thesis by (simp add: group_rows_def)
qed

lemma group_rows_in: "(k, vs) \<in> set (group_rows rows) \<longleftrightarrow> vs = map snd (filter (\<lambda>r. fst r = k) rows) \<and> vs \<noteq> []"
  using map_of_eq_Some_iff [OF group_rows_distinct, of rows k vs] by (auto simp: group_rows_map Let_def split: if_splits)

lemma overview_partner_in:
  "x \<in> set (overview_partners rows) \<longleftrightarrow> (\<exists>u. let rs = map snd (filter (\<lambda>r. fst r = u) rows);
      stats = stats_from_terminal_rows (map snd rs) in
      rs \<noteq> [] \<and> compute_success_rate (st_delivered stats) (st_failed stats) = Some (tf_success_rate x) \<and>
      tf_id x = u \<and> tf_slug x = fst (hd rs) \<and> tf_sla_breaches x = st_sla_breaches stats)"
proof -
  have "x \<in> set (overview_partners rows) \<longleftrightarrow> (\<exists>u rs. (u, rs) \<in> set (group_rows rows) \<and> x \<in> set (overview_partner (u, rs)))"
    by (auto simp: overview_partners_def)
  also have "\<dots> \<longleftrightarrow> (\<exists>u. let rs = map snd (filter (\<lambda>r. fst r = u) rows);
      stats = stats_from_terminal_rows (map snd rs) in
      rs \<noteq> [] \<and> compute_success_rate (st_delivered stats) (st_failed stats) = Some (tf_success_rate x) \<and>
      tf_id x = u \<and> tf_slug x = fst (hd rs) \<and> tf_sla_breaches x = st_sla_breaches stats)"
    unfolding group_rows_in by (cases x) (auto simp: overview_partner_def Let_def split: option.splits)
  finally show ?thesis .
qed

lemma overview_valid:
  assumes "fst (require_roles e RequireViewer creds stg w) = Inr pr"
  shows "\<exists>a. get_analytics_overview e stg creds now_ts w = (Inr a, w) \<and> 0 \<le> ao_dlq_count a \<and> length (ao_top_failing_partners a) \<le> 5"
proof -
  have tops: "0 \<le> tf_sla_breaches x" if "x \<in> set (aggregate_overview_partners rows)" for x rows
    using that in_set_takeD [of x 5 "sort_key failing_key (overview_partners rows)"]
    by (auto simp: aggregate_overview_partners_def overview_partner_in stats_counts Let_def)
  have five: "length (aggregate_overview_partners rows) \<le> 5" for rows by (simp add: aggregate_overview_partners_def)
  obtain d where d: "build_analytics_overview (now_ts * us_per_second) w = (Inr d, w)" "0 \<le> ov_dlq_count d"
      "\<And>x. x \<in> set (ov_top_failing_partners d) \<Longrightarrow> 0 \<le> tf_sla_breaches x" "length (ov_top_failing_partners d) \<le> 5"
    by (auto simp: build_analytics_overview_def Let_def bindE_run fetch_dlq_backlog_count_def fetch_overview_partner_rows_def
        gets_apply ret_apply tops five)
  have r: "require_roles e RequireViewer creds stg w = (Inr pr, w)" using assms require_roles_state by (metis prod.collapse)
  obtain tops where "mapE (\<lambda>x. liftE (top_failing_partner x)) (ov_top_failing_partners d) w = (Inr tops, w)"
      "length tops = length (ov_top_failing_partners d)"
    using mapE_all [of "ov_top_failing_partners d" top_failing_partner w] d(3) by (force simp: top_failing_partner_def)
  with r d show ?thesis
    by (simp add: get_analytics_overview_def seqE_run bindE_run analytics_overview_def liftE_apply [of "Inr _"])
qed

lemma take_sort_key:
  fixes key :: "'a \<Rightarrow> 'b :: linorder"
  assumes "x \<in> set (take n (sort_key key xs))" "y \<in> set xs" "y \<notin> set (take n (sort_key key xs))"
  shows "key x \<le> key y"
proof -
  let ?s = "sort_key key xs"
  have "y \<in> set (take n ?s @ drop n ?s)" using assms(2) by simp
  then have y: "y \<in> set (drop n ?s)" using assms(3) by (simp only: set_append Un_iff) simp
  have "sorted (map key (take n ?s @ drop n ?s))" by simp
  then show ?thesis using assms(1) y by (simp only: map_append sorted_append) auto
qed

text \<open>
  What the overview promises of its list: at most five partners, worst first, with the exact ratios of
  their rows, and no partner with rows that is left out is worse than one that is listed.
\<close>

definition worst_five :: "overview_row list \<Rightarrow> TopFailingPartnerData list \<Rightarrow> bool" where
  "worst_five rows tops \<longleftrightarrow> length tops \<le> 5 \<and> sorted (map failing_key tops) \<and>
    (\<forall>x \<in> set tops.
       let rs = filter (\<lambda>r. fst r = tf_id x) rows in rs \<noteq> [] \<and>
       tf_success_rate x = of_nat (length (filter (\<lambda>r. fst (snd (snd r)) = DeliveryStatus.DELIVERED) rs)) / of_nat (length rs) \<and>
       0 \<le> tf_success_rate x \<and> tf_success_rate x \<le> 1 \<and>
       tf_sla_breaches x = int (length (filter (\<lambda>r. snd (snd (snd r))) rs))) \<and>
    (\<forall>r \<in> set rows. (\<exists>x \<in> set tops. tf_id x = fst r) \<or>
       (\<exists>y. tf_id y = fst r \<and> y \<in> set (overview_partners rows) \<and> (\<forall>x \<in> set tops. failing_key x \<le> failing_key y)))"

lemma aggregate_worst_five:
  assumes "\<forall>r \<in> set rows. fst (snd (snd r)) \<in> {DeliveryStatus.DELIVERED, FAILED}"
  shows "worst_five rows (aggregate_overview_partners rows)"
proof -
  have rate: "let rs = filter (\<lambda>r. fst r = tf_id x) rows in rs \<noteq> [] \<and>
       tf_success_rate x = of_nat (length (filter (\<lambda>r. fst (snd (snd r)) = DeliveryStatus.DELIVERED) rs)) / of_nat (length rs) \<and>
       0 \<le> tf_success_rate x \<and> tf_success_rate x \<le> 1 \<and>
       tf_sla_breaches x = int (length (filter (\<lambda>r. snd (snd (snd r))) rs))"
    if x: "x \<in> set (overview_partners rows)" for x
  proof -
    define rs where "rs = filter (\<lambda>r. fst r = tf_id x) rows"
    define st where "st = stats_from_terminal_rows (map snd (map snd rs))"
    from x have c: "rs \<noteq> []" "compute_success_rate (st_delivered st) (st_failed st) = Some (tf_success_rate x)"
        "tf_sla_breaches x = st_sla_breaches st"
      by (auto simp: overview_partner_in Let_def rs_def st_def)
    have "st_delivered st + st_failed st = int (length (map snd (map snd rs)))"
      unfolding st_def by (rule terminal_total) (use assms in \<open>auto simp: rs_def\<close>)
    then have tot: "st_delivered st + st_failed st = int (length rs)" by simp
    have del: "st_delivered st = int (length (filter (\<lambda>r. fst (snd (snd r)) = DeliveryStatus.DELIVERED) rs))"
      "st_sla_breaches st = int (length (filter (\<lambda>r. snd (snd (snd r))) rs))"
      by (simp_all add: st_def stats_counts filter_map o_def)
    have "tf_success_rate x = of_nat (length (filter (\<lambda>r. fst (snd (snd r)) = DeliveryStatus.DELIVERED) rs)) / of_nat (length rs)"
      using c(1,2) tot del(1) by (auto simp: compute_success_rate_def Let_def split: if_splits)
    moreover have "length (filter (\<lambda>r. fst (snd (snd r)) = DeliveryStatus.DELIVERED) rs) \<le> length rs" by simp
    ultimately show ?thesis using c(1,3) del(2) by (simp add: Let_def rs_def [symmetric] divide_le_eq_1)
  qed
  have every: "\<exists>y. tf_id y = fst r \<and> y \<in> set (overview_partners rows)" if r: "r \<in> set rows" for r
  proof -
    define rs where "rs = map snd (filter (\<lambda>q. fst q = fst r) rows)"
    define st where "st = stats_from_terminal_rows (map snd rs)"
    have ne: "rs \<noteq> []" using r by (auto simp: rs_def filter_empty_conv)
    have "st_delivered st + st_failed st = int (length (map snd rs))"
      unfolding st_def by (rule terminal_total) (use assms in \<open>auto simp: rs_def\<close>)
    with ne have "st_delivered st + st_failed st \<noteq> 0" by simp
    then obtain q where "compute_success_rate (st_delivered st) (st_failed st) = Some q" by (simp add: compute_success_rate_def Let_def)
    with ne have "\<lparr>tf_id = fst r, tf_slug = fst (hd rs), tf_success_rate = q, tf_sla_breaches = st_sla_breaches st\<rparr> \<in> set (overview_partners rows)"
      unfolding overview_partner_in Let_def rs_def st_def by simp
    then show ?thesis by (intro exI conjI) (auto simp del: overview_partner_in)
  qed
  have sub: "set (aggregate_overview_partners rows) \<subseteq> set (overview_partners rows)"
    unfolding aggregate_overview_partners_def by (auto dest!: in_set_takeD)
  have srt: "sorted (map failing_key (aggregate_overview_partners rows))"
    unfolding aggregate_overview_partners_def take_map [symmetric] by (intro sorted_wrt_take) simp
  have best: "failing_key x \<le> failing_key y" if "x \<in> set (aggregate_overview_partners rows)" "y \<in> set (overview_partners rows)"
      "y \<notin> set (aggregate_overview_partners rows)" for x y
    using take_sort_key that unfolding aggregate_overview_partners_def by metis
  have len: "length (aggregate_overview_partners rows) \<le> 5" by (simp add: aggregate_overview_partners_def)
  show ?thesis unfolding worst_five_def
  proof (intro conjI ballI len srt)
    fix x assume "x \<in> set (aggregate_overview_partners rows)"
    then show "let rs = filter (\<lambda>r. fst r = tf_id x) rows in rs \<noteq> [] \<and>
       tf_success_rate x = of_nat (length (filter (\<lambda>r. fst (snd (snd r)) = DeliveryStatus.DELIVERED) rs)) / of_nat (length rs) \<and>
       0 \<le> tf_success_rate x \<and> tf_success_rate x \<le> 1 \<and>
       tf_sla_breaches x = int (length (filter (\<lambda>r. snd (snd (snd r))) rs))"
      using sub rate by blast
  next
    fix r assume "r \<in> set rows"
    with every obtain y where "tf_id y = fst r" "y \<in> set (overview_partners rows)" by blast
    with best show "(\<exists>x \<in> set (aggregate_overview_partners rows). tf_id x = fst r) \<or>
       (\<exists>y. tf_id y = fst r \<and> y \<in> set (overview_partners rows) \<and>
          (\<forall>x \<in> set (aggregate_overview_partners rows). failing_key x \<le> failing_key y))" by blast
  qed
qed

text \<open>
  The overview lists the worst partners of the last 24 hours: the route's service answers in every
  state and changes nothing; its list has at most five of the partners with finished deliveries in the
  window, by ascending success rate and then by most breaches, each with the exact share of delivered
  among its finished deliveries, between 0 and 1, and no partner that is left out is worse than one
  that is listed. The backlog counts every dead letter that is not purged.
\<close>

lemma overview_worst_partners:
  "\<exists>ov rows. build_analytics_overview now w = (Inr ov, w) \<and>
     fetch_overview_partner_rows (now - 24 * 3600 * us_per_second) w = (Inr rows, w) \<and>
     worst_five rows (ov_top_failing_partners ov) \<and>
     ov_dlq_count ov = int (length (filter (\<lambda>l. dl_reason l \<noteq> MANUAL_PURGE) (db_dead_letters (w_db w))))"
proof -
  obtain rows where f: "fetch_overview_partner_rows (window_start now) w = (Inr rows, w)"
    by (simp add: fetch_overview_partner_rows_def gets_apply)
  then have "\<forall>r \<in> set rows. fst (snd (snd r)) \<in> {DeliveryStatus.DELIVERED, FAILED}"
    by (auto simp: fetch_overview_partner_rows_def gets_apply terminal_def)
  then have "worst_five rows (aggregate_overview_partners rows)" by (rule aggregate_worst_five)
  with f show ?thesis
    by (simp add: build_analytics_overview_def Let_def bindE_run ret_apply fetch_dlq_backlog_count_def gets_apply
        window_start_def WINDOW_HOURS_def)
qed

end
