(* ===== verification/Support.thy ===== *)
theory Support
  imports World
begin

text \<open>
  The parts around the hub that have logic of their own: the redaction of log records and the correlation
  context (\<open>app/logging.py\<close>), the scheduled tasks that only report (\<open>celery_app/tasks/maintenance.py\<close> and
  \<open>secret_rotation.py\<close>), and the partner mock the system tests run against (\<open>partner_mock/app.py\<close>). The
  lemmas show that no secret survives redaction and that the flaky scenario recovers after three calls.
\<close>

section \<open>Log redaction\<close>

definition REDACTED :: json where
  "REDACTED = JStr ''[REDACTED]''"

text \<open>The alternatives of the pattern, with every choice of an optional separator.\<close>

definition separators :: "string list" where
  "separators = [[], ''-'', ''_'']"

definition REDACT_KEYS :: "string list" where
  "REDACT_KEYS = ''authorization'' #
     concat (map (\<lambda>a. concat (map (\<lambda>b. map (\<lambda>c. ''x'' @ a @ ''hub'' @ b @ ''signature'' @ c @ ''256'') separators) separators)) separators) @
     ''secret'' # map (\<lambda>a. ''api'' @ a @ ''key'') separators @ map (\<lambda>a. ''fernet'' @ a @ ''key'') separators @
     [''password'', ''token'']"

definition should_redact_key :: "string \<Rightarrow> bool" where
  "should_redact_key key \<longleftrightarrow> list_ex (\<lambda>p. py_in p (py_lower key)) REDACT_KEYS"

definition redact_value :: "string \<Rightarrow> json \<Rightarrow> json" where
  "redact_value key v = (if should_redact_key key \<and> v \<noteq> JNull then REDACTED else v)"

definition redact_mapping :: "(string \<times> json) list \<Rightarrow> (string \<times> json) list" where
  "redact_mapping d = map (\<lambda>(key, v). (key, redact_value key v)) d"

definition redact_processor :: "(string \<times> json) list \<Rightarrow> (string \<times> json) list" where
  "redact_processor event_dict = redact_mapping event_dict"

text \<open>A record carries the correlation id of its context unless it names one, then the ids of a valid span.\<close>

definition setdefault :: "string \<Rightarrow> json \<Rightarrow> (string \<times> json) list \<Rightarrow> (string \<times> json) list" where
  "setdefault key v d = (if key \<in> set (map fst d) then d else d @ [(key, v)])"

definition set_item :: "string \<Rightarrow> json \<Rightarrow> (string \<times> json) list \<Rightarrow> (string \<times> json) list" where
  "set_item key v d = (if key \<in> set (map fst d) then map (\<lambda>(k, u). (k, if k = key then v else u)) d else d @ [(key, v)])"

definition add_service_context ::
  "string option \<Rightarrow> (nat \<times> nat) option \<Rightarrow> (string \<times> json) list \<Rightarrow> (string \<times> json) list" where
  "add_service_context correlation_id sp event_dict =
     (let d = (case correlation_id of None \<Rightarrow> event_dict | Some c \<Rightarrow> setdefault ''correlation_id'' (JStr c) event_dict)
      in case sp of
           None \<Rightarrow> d
         | Some (trace_id, span_id) \<Rightarrow>
             set_item ''span_id'' (JStr (hex_fixed 16 span_id)) (set_item ''trace_id'' (JStr (hex_fixed 32 trace_id)) d))"

lemma py_in_iff: "py_in p s \<longleftrightarrow> (\<exists>a b. s = a @ p @ b)"
proof (induction s)
  case (Cons c cs)
  show ?case
  proof
    assume "py_in p (c # cs)"
    then consider "py_startswith (c # cs) p" | "py_in p cs" by auto
    then show "\<exists>a b. c # cs = a @ p @ b"
    proof cases
      case 1
      then have "c # cs = [] @ p @ drop (length p) (c # cs)" unfolding py_startswith_def by (metis append_Nil append_take_drop_id)
      then show ?thesis by blast
    next
      case 2
      with Cons show ?thesis by (metis append_Cons)
    qed
  next
    assume "\<exists>a b. c # cs = a @ p @ b"
    then obtain a b where ab: "c # cs = a @ p @ b" by blast
    show "py_in p (c # cs)"
    proof (cases a)
      case Nil
      with ab have "py_startswith (c # cs) p" by (simp add: py_startswith_def)
      then show ?thesis by simp
    next
      case (Cons x xs)
      with ab have "cs = xs @ p @ b" by simp
      with Cons.IH show ?thesis by auto
    qed
  qed
qed simp

lemma redact_keys: "map fst (redact_mapping d) = map fst d"
  by (simp add: redact_mapping_def case_prod_beta)

lemma redacted_values:
  assumes "(key, v) \<in> set (redact_processor d)"
  shows "should_redact_key key \<Longrightarrow> v = REDACTED \<or> v = JNull" "\<not> should_redact_key key \<Longrightarrow> (key, v) \<in> set d"
  using assms by (auto simp: redact_processor_def redact_mapping_def redact_value_def split: if_splits)

text \<open>A key is covered whatever surrounds the word and however it is written.\<close>

lemma redact_anywhere: "p \<in> set REDACT_KEYS \<Longrightarrow> py_lower key = a @ p @ b \<Longrightarrow> should_redact_key key"
  unfolding should_redact_key_def by (auto simp: list_ex_iff py_in_iff)

lemma redact_idempotent: "redact_processor (redact_processor d) = redact_processor d"
  by (auto simp: redact_processor_def redact_mapping_def redact_value_def)

section \<open>Reporting tasks\<close>

definition purge_old_idempotency_keys :: "(string \<times> string) list" where
  "purge_old_idempotency_keys = [(''status'', ''noop''), (''reason'', ''redis_ttl_is_source_of_truth'')]"

definition notify_secret_rotation_due :: "('r, 'k, int) hub" where
  "notify_secret_rotation_due = gets (\<lambda>w. int (length (db_partners (w_db w))))"

definition rotate_webhook_secrets :: "('r, 'k, (string \<times> int) list) hub" where
  "rotate_webhook_secrets = bindE (with_session notify_secret_rotation_due) (\<lambda>count. ret [(''notified'', count)])"

section \<open>Partner mock\<close>

datatype MockScenario = OK | FAIL_503 | FAIL_503_THEN_OK | FAIL_400 | TIMEOUT | FAIL_429

fun mock_scenario_value :: "MockScenario \<Rightarrow> string" where
  "mock_scenario_value OK = ''ok''"
| "mock_scenario_value FAIL_503 = ''fail_503''"
| "mock_scenario_value FAIL_503_THEN_OK = ''fail_503_then_ok''"
| "mock_scenario_value FAIL_400 = ''fail_400''"
| "mock_scenario_value TIMEOUT = ''timeout''"
| "mock_scenario_value FAIL_429 = ''fail_429''"

definition mock_scenario_of :: "string \<Rightarrow> MockScenario option" where
  "mock_scenario_of s = find (\<lambda>m. mock_scenario_value m = s) [OK, FAIL_503, FAIL_503_THEN_OK, FAIL_400, TIMEOUT, FAIL_429]"

definition parse_scenario :: "string option \<Rightarrow> MockScenario option" where
  "parse_scenario raw = (case raw of None \<Rightarrow> None | Some s \<Rightarrow> if s = [] then None else mock_scenario_of (py_lower (py_strip s)))"

definition FAIL_503_THEN_OK_LIMIT :: int where
  "FAIL_503_THEN_OK_LIMIT = 3"

text \<open>The answer: status code, the two fields of the body, and how long it is held back.\<close>

record mock_response =
  mr_code :: int
  mr_status :: string
  mr_scenario :: string
  mr_delay :: time

type_synonym mock_counts = "string \<Rightarrow> int option"

definition fail_503_then_ok_response :: "string \<Rightarrow> mock_counts \<Rightarrow> mock_response \<times> mock_counts" where
  "fail_503_then_ok_response idem counts =
     (let attempt = (case counts idem of None \<Rightarrow> 0 | Some n \<Rightarrow> n) + 1;
          counts1 = counts(idem \<mapsto> attempt)
      in if attempt \<le> FAIL_503_THEN_OK_LIMIT
         then (\<lparr>mr_code = 503, mr_status = ''error'', mr_scenario = mock_scenario_value FAIL_503_THEN_OK, mr_delay = 0\<rparr>, counts1)
         else (\<lparr>mr_code = 200, mr_status = ''ok'', mr_scenario = mock_scenario_value FAIL_503_THEN_OK, mr_delay = 0\<rparr>, counts1))"

definition handle_webhook ::
  "time \<Rightarrow> string option \<Rightarrow> string option \<Rightarrow> string \<Rightarrow> mock_counts \<Rightarrow> mock_response \<times> mock_counts" where
  "handle_webhook timeout_delay header path_scenario idem counts =
     (let scenario = (case parse_scenario header of
            Some s \<Rightarrow> Some s
          | None \<Rightarrow> (case path_scenario of None \<Rightarrow> None | Some p \<Rightarrow> parse_scenario (Some p)));
          answer = (\<lambda>code st s. (\<lparr>mr_code = code, mr_status = st, mr_scenario = mock_scenario_value s, mr_delay = 0\<rparr>, counts))
      in case scenario of
           None \<Rightarrow> (\<lparr>mr_code = 200, mr_status = ''ok'', mr_scenario = ''default'', mr_delay = 0\<rparr>, counts)
         | Some OK \<Rightarrow> answer 200 ''ok'' OK
         | Some FAIL_400 \<Rightarrow> answer 400 ''error'' FAIL_400
         | Some FAIL_503 \<Rightarrow> answer 503 ''error'' FAIL_503
         | Some FAIL_429 \<Rightarrow> answer 429 ''error'' FAIL_429
         | Some FAIL_503_THEN_OK \<Rightarrow> fail_503_then_ok_response idem counts
         | Some TIMEOUT \<Rightarrow> (\<lparr>mr_code = 200, mr_status = ''ok'', mr_scenario = mock_scenario_value TIMEOUT, mr_delay = timeout_delay\<rparr>, counts))"

text \<open>The answers to a sequence of calls, each with its idempotency key.\<close>

fun mock_calls :: "string list \<Rightarrow> mock_counts \<Rightarrow> int list" where
  "mock_calls [] counts = []"
| "mock_calls (k # ks) counts = (case fail_503_then_ok_response k counts of (r, c) \<Rightarrow> mr_code r # mock_calls ks c)"

definition calls_so_far :: "mock_counts \<Rightarrow> string \<Rightarrow> int" where
  "calls_so_far counts k = (case counts k of None \<Rightarrow> 0 | Some n \<Rightarrow> n)"

lemma flaky_recovers_from:
  "i < length ks \<Longrightarrow> mock_calls ks counts ! i =
     (if calls_so_far counts (ks ! i) + int (length (filter (\<lambda>k. k = ks ! i) (take i ks))) < 3 then 503 else 200)"
proof (induction ks arbitrary: counts i)
  case (Cons k ks)
  define c where "c = counts(k \<mapsto> calls_so_far counts k + 1)"
  have step: "mock_calls (k # ks) counts = (if calls_so_far counts k < 3 then 503 else 200) # mock_calls ks c"
    by (simp add: fail_503_then_ok_response_def FAIL_503_THEN_OK_LIMIT_def calls_so_far_def c_def Let_def split: option.splits)
  show ?case
  proof (cases i)
    case (Suc j)
    have "calls_so_far c x = calls_so_far counts x + (if x = k then 1 else 0)" for x
      by (simp add: calls_so_far_def c_def)
    with Cons Suc step show ?thesis by (auto simp: algebra_simps)
  qed (simp add: step del: mock_calls.simps)
qed simp

text \<open>Per idempotency key the first three calls fail and every later one succeeds, whatever is interleaved.\<close>

lemma flaky_recovers:
  "i < length ks \<Longrightarrow> mock_calls ks Map.empty ! i =
     (if length (filter (\<lambda>k. k = ks ! i) (take i ks)) < 3 then 503 else 200)"
  using flaky_recovers_from [of i ks Map.empty] by (simp add: calls_so_far_def)

end
