(* ===== verification/DeliveryLedger.thy ===== *)
theory DeliveryLedger
  imports CacheCoherence AdminDeliveries OutboxRelay Inbound OutboundProcessor "HOL-Library.Sublist"
begin

text \<open>
  What the whole hub promises about deliveries, as an abstract ledger, and that every process of the
  hub implements it. The ledger knows what was accepted (its content never changes), the status of
  each delivery, the attempts and the audit trail; it can take a delivery, log an attempt together
  with the step through \<open>DELIVERING\<close>, replay a failed delivery together with its audit entry, and
  log any other administrative action. The API routes, the outbox relay, the workers and the
  scheduled task run on the shared database; each of their sessions is a sequence of ledger steps.
\<close>

section \<open>The ledger\<close>

record ledger =
  lg_deliveries :: "int \<Rightarrow> (delivery \<times> DeliveryStatus) option"
  lg_attempts :: "delivery_attempt list"
  lg_audit :: "audit_log list"

text \<open>The columns that are fixed when a delivery is accepted.\<close>

definition content :: "delivery \<Rightarrow> delivery" where
  "content d = d\<lparr>d_status := DeliveryStatus.PENDING, d_attempt_count := 0, d_next_retry_at := None,
     d_first_success_at := None, d_sla_breached := False, d_last_error_code := None,
     d_last_error_message := None, d_updated_at := None\<rparr>"

inductive ledger_step :: "ledger \<Rightarrow> ledger \<Rightarrow> bool" where
  ledger_accept: "lg_deliveries L i = None \<Longrightarrow>
     ledger_step L (L\<lparr>lg_deliveries := (lg_deliveries L)(i \<mapsto> (c, DeliveryStatus.PENDING))\<rparr>)"
| ledger_attempt: "lg_deliveries L i = Some (c, s) \<Longrightarrow> can_transition s DELIVERING \<Longrightarrow> can_transition DELIVERING t \<Longrightarrow>
     length ats \<le> 1 \<Longrightarrow> list_all (\<lambda>a. at_delivery_id a = i) ats \<Longrightarrow>
     ledger_step L (L\<lparr>lg_deliveries := (lg_deliveries L)(i \<mapsto> (c, t)), lg_attempts := lg_attempts L @ ats\<rparr>)"
| ledger_replay: "lg_deliveries L i = Some (c, FAILED) \<Longrightarrow> al_action entry = ''delivery.replay'' \<Longrightarrow>
     al_resource_id entry = d_public_id c \<Longrightarrow>
     ledger_step L (L\<lparr>lg_deliveries := (lg_deliveries L)(i \<mapsto> (c, REPLAYING)), lg_audit := lg_audit L @ [entry]\<rparr>)"
| ledger_journal: "al_action entry \<noteq> ''delivery.replay'' \<Longrightarrow> ledger_step L (L\<lparr>lg_audit := lg_audit L @ [entry]\<rparr>)"

abbreviation ledger_steps :: "ledger \<Rightarrow> ledger \<Rightarrow> bool" where
  "ledger_steps \<equiv> ledger_step\<^sup>*\<^sup>*"

definition entry_of :: "delivery \<Rightarrow> delivery \<times> DeliveryStatus" where
  "entry_of d = (content d, d_status d)"

text \<open>The ledger of a database.\<close>

definition books :: "database \<Rightarrow> ledger" where
  "books db = \<lparr>lg_deliveries = (\<lambda>i. map_option entry_of (find (\<lambda>d. d_id d = i) (db_deliveries db))),
     lg_attempts = db_attempts db, lg_audit = db_audit_logs db\<rparr>"

section \<open>Changes of the tables as ledger steps\<close>

lemma find_snoc_fresh:
  "key r \<notin> key ` set rows \<Longrightarrow> find (\<lambda>x. key x = i) (rows @ [r]) = (if i = key r then Some r else find (\<lambda>x. key x = i) rows)"
  by (induction rows) auto

lemma find_put_row_key:
  "find (\<lambda>x. key x = i) (put_row key r rows) =
     (if i = key r \<and> i \<in> key ` set rows then Some r else find (\<lambda>x. key x = i) rows)"
  by (induction rows) (auto simp: put_row_def)

lemma find_id_None: "find (\<lambda>x. key x = i) rows = None \<longleftrightarrow> i \<notin> key ` set rows"
  by (auto simp: find_None_iff)

lemma books_put:
  assumes "unique_on d_id (db_deliveries db)" "d \<in> set (db_deliveries db)" "d_id r = d_id d" "content r = content d"
    "db_deliveries db' = put_row d_id r (db_deliveries db)"
  shows "lg_deliveries (books db) (d_id d) = Some (content d, d_status d)"
    and "lg_deliveries (books db') = (lg_deliveries (books db))(d_id d \<mapsto> (content d, d_status r))"
  using find_unique_on [OF assms(1,2)] assms(2-5)
  by (auto simp: books_def entry_of_def find_put_row_key fun_eq_iff)

lemma books_same:
  "db_deliveries a = db_deliveries b \<Longrightarrow> db_attempts a = db_attempts b \<Longrightarrow> db_audit_logs a = db_audit_logs b \<Longrightarrow>
     books a = books b"
  by (simp add: books_def)

lemma books_accept:
  assumes "unique_on d_id (db_deliveries db @ ds)" "\<And>d. d \<in> set ds \<Longrightarrow> d_status d = DeliveryStatus.PENDING"
    "db_deliveries db' = db_deliveries db @ ds" "db_attempts db' = db_attempts db" "db_audit_logs db' = db_audit_logs db"
  shows "ledger_steps (books db) (books db')"
proof -
  have "ledger_steps (books db) (books (db\<lparr>db_deliveries := db_deliveries db @ ds\<rparr>))"
    using assms(1,2)
  proof (induction ds rule: rev_induct)
    case (snoc d ds)
    let ?a = "db\<lparr>db_deliveries := db_deliveries db @ ds\<rparr>" and ?b = "db\<lparr>db_deliveries := db_deliveries db @ ds @ [d]\<rparr>"
    have u: "unique_on d_id (db_deliveries db @ ds)" "d_id d \<notin> d_id ` set (db_deliveries db @ ds)"
      using snoc.prems(1) by (auto simp: unique_on_def)
    then have n: "lg_deliveries (books ?a) (d_id d) = None" by (auto simp: books_def find_id_None)
    have "books ?b = (books ?a)\<lparr>lg_deliveries := (lg_deliveries (books ?a))(d_id d \<mapsto> (content d, DeliveryStatus.PENDING))\<rparr>"
      using find_snoc_fresh [OF u(2)] snoc.prems(2) [of d] by (simp add: books_def entry_of_def fun_eq_iff)
    with ledger_accept [OF n, of "content d"] have "ledger_step (books ?a) (books ?b)" by simp
    moreover have "ledger_steps (books db) (books ?a)" using snoc.IH snoc.prems(2) u(1) by simp
    ultimately show ?case by (simp add: rtranclp.rtrancl_into_rtrancl)
  qed simp
  moreover have "books db' = books (db\<lparr>db_deliveries := db_deliveries db @ ds\<rparr>)"
    by (rule books_same) (simp_all add: assms)
  ultimately show ?thesis by simp
qed

lemma books_advance:
  assumes "unique_on d_id (db_deliveries db)" "d \<in> set (db_deliveries db)" "advances d db db'"
  shows "ledger_step (books db) (books db')"
proof -
  obtain r ats dls where r: "db' = db\<lparr>db_deliveries := put_row d_id r (db_deliveries db), db_attempts := db_attempts db @ ats,
        db_dead_letters := db_dead_letters db @ dls\<rparr>" and st: "delivery_step d r" and ats: "length ats \<le> 1"
      "list_all (\<lambda>a. at_delivery_id a = d_id d \<and> at_attempt_number a = d_attempt_count d + 1) ats"
    using assms(3) unfolding advances_def by blast
  from st obtain s n t f b c m u where "r = d\<lparr>d_status := s, d_attempt_count := n, d_next_retry_at := t,
      d_first_success_at := f, d_sla_breached := b, d_last_error_code := c, d_last_error_message := m, d_updated_at := u\<rparr>"
    unfolding delivery_step_def by blast
  then have c: "d_id r = d_id d" "content r = content d" by (simp_all add: content_def)
  have tr: "can_transition (d_status d) DELIVERING" "can_transition DELIVERING (d_status r)"
    using st by (simp_all add: delivery_step_def)
  note put = books_put [OF assms(1,2) c, of db']
  have "books db' = (books db)\<lparr>lg_deliveries := (lg_deliveries (books db))(d_id d \<mapsto> (content d, d_status r)),
      lg_attempts := lg_attempts (books db) @ ats\<rparr>"
    using put(2) r by (simp add: books_def)
  with ledger_attempt [OF put(1) tr ats(1)] ats(2) r show ?thesis by (simp add: list_all_iff)
qed

section \<open>Sessions that keep to the ledger\<close>

text \<open>
  The committed database is reached from the ledger \<open>A\<close>, and the session is reached from the
  committed database as far as it can be committed at all.
\<close>

definition traced :: "ledger \<Rightarrow> database \<Rightarrow> database \<Rightarrow> bool" where
  "traced A c d \<longleftrightarrow> constraints_ok c \<and> ledger_steps A (books c) \<and>
     (unique_on d_id (db_deliveries d) \<longrightarrow> ledger_steps (books c) (books d))"

lemma constraints_unique: "constraints_ok db \<Longrightarrow> unique_on d_id (db_deliveries db)"
  by (simp add: constraints_ok_def deliveries_ok_def)

lemma traced_settle:
  "traced A c d \<Longrightarrow> constraints_ok d \<Longrightarrow> traced A d d" "traced A c d \<Longrightarrow> traced A c c"
  by (auto simp: traced_def constraints_unique)

lemma traced_same:
  assumes "db_deliveries d' = db_deliveries d" "db_attempts d' = db_attempts d" "db_audit_logs d' = db_audit_logs d"
  shows "traced A c d' \<longleftrightarrow> traced A c d"
  using books_same [OF assms] assms(1) by (simp add: traced_def)

text \<open>The tables that are not in the books.\<close>

lemma traced_other [simp]:
  "traced A c (d\<lparr>db_partners := x1\<rparr>) \<longleftrightarrow> traced A c d"
  "traced A c (d\<lparr>db_endpoints := x2\<rparr>) \<longleftrightarrow> traced A c d"
  "traced A c (d\<lparr>db_dead_letters := x3\<rparr>) \<longleftrightarrow> traced A c d"
  "traced A c (d\<lparr>db_outbox := x4\<rparr>) \<longleftrightarrow> traced A c d"
  "traced A c (d\<lparr>db_inbound_events := x5\<rparr>) \<longleftrightarrow> traced A c d"
  "traced A c (d\<lparr>db_api_keys := x6\<rparr>) \<longleftrightarrow> traced A c d"
  "traced A c (d\<lparr>db_signing_secrets := x7\<rparr>) \<longleftrightarrow> traced A c d"
  "traced A c (d\<lparr>db_payload_schemas := x8\<rparr>) \<longleftrightarrow> traced A c d"
  "traced A c (d\<lparr>db_replay_approvals := x9\<rparr>) \<longleftrightarrow> traced A c d"
  by (rule traced_same; simp)+

lemma traced_transaction [keep_intros]: "keeps (on_db (traced A)) commit" "keeps (on_db (traced A)) rollback"
  by (rule on_db_commit on_db_rollback; blast intro: traced_settle)+

lemma traced_session [keep_intros]: "keeps (on_db (traced A)) m \<Longrightarrow> keeps (on_db (traced A)) (with_session m)"
  by (erule keeps_with_session) (rule traced_settle)

lemma traced_audit [keep_intros]:
  assumes "action \<noteq> ''delivery.replay''"
  shows "keeps (on_db (traced A)) (add_audit_log e actor action rt rid metadata)"
proof -
  have "traced A c (d\<lparr>db_audit_logs := db_audit_logs d @ [\<lparr>al_id = u, al_actor_id = actor, al_action = action,
      al_resource_type = rt, al_resource_id = rid, al_metadata = metadata, al_created_at = now\<rparr>]\<rparr>)"
    if "traced A c d" for c d u now
    using that ledger_journal [of "\<lparr>al_id = u, al_actor_id = actor, al_action = action,
      al_resource_type = rt, al_resource_id = rid, al_metadata = metadata, al_created_at = now\<rparr>" "books d"] assms
    by (auto simp: traced_def books_def intro: rtranclp.rtrancl_into_rtrancl)
  then show ?thesis unfolding add_audit_log_def by (intro keep_intros on_db_update)
qed

lemma traced_replay [keep_intros]: "keeps (on_db (traced A)) (replay_delivery e u actor reason reset trigger)"
proof (rule keepsI)
  fix w :: "('a, 'b) world" assume J: "on_db (traced A) w"
  show "on_db (traced A) (snd (replay_delivery e u actor reason reset trigger w))"
  proof (cases "\<exists>d p. fst (fetch_delivery_with_partner u w) = Inr (Some (d, p)) \<and> d_status d = FAILED")
    case False
    from replay_refused [OF this, of e actor reason reset trigger] J show ?thesis by (auto simp: on_db_def)
  next
    case True
    then obtain d p where f: "fst (fetch_delivery_with_partner u w) = Inr (Some (d, p))" "d_status d = FAILED" by blast
    define db where "db = replay_database e d p actor reason reset trigger w"
    have rows: "db_deliveries db = put_row d_id (replayed_row d reset (w_clock w)) (db_deliveries (w_db w))"
      and logs: "db_audit_logs db = db_audit_logs (w_db w) @ [replay_log (uuid7 e (w_draws w)) actor d reason trigger (w_clock w)]"
      and ats: "db_attempts db = db_attempts (w_db w)"
      by (simp_all add: db_def replay_database_def)
    have uni: "unique_on d_id (db_deliveries db) = unique_on d_id (db_deliveries (w_db w))"
      unfolding rows by (rule unique_on_put_row) simp
    have step: "ledger_step (books (w_db w)) (books db)" if "unique_on d_id (db_deliveries (w_db w))"
    proof -
      note put = books_put [OF that _ _ _ rows, of d] fetch_delivery_found [OF f(1)]
      have "books db = (books (w_db w))\<lparr>lg_deliveries := (lg_deliveries (books (w_db w)))(d_id d \<mapsto> (content d, REPLAYING)),
          lg_audit := lg_audit (books (w_db w)) @ [replay_log (uuid7 e (w_draws w)) actor d reason trigger (w_clock w)]\<rparr>"
        using put logs ats by (simp add: books_def replayed_row_def content_def)
      moreover have "lg_deliveries (books (w_db w)) (d_id d) = Some (content d, FAILED)"
        using put f(2) by (simp add: replayed_row_def content_def)
      ultimately show ?thesis
        using ledger_replay [of "books (w_db w)" "d_id d" "content d"] by (simp add: replay_log_def content_def)
    qed
    have t: "traced A (w_committed w) db"
      using J step uni by (auto simp: traced_def on_db_def intro: rtranclp.rtrancl_into_rtrancl)
    obtain r w' where run: "replay_delivery e u actor reason reset trigger w = (r, w')" "w_db w' = db"
        "w_committed w' = (if constraints_ok db then db else w_committed w)"
      using replay_failed_run [OF f, of e actor reason reset trigger] unfolding db_def by blast
    have "traced A db db" if "constraints_ok db"
      using t that by (auto simp: traced_def constraints_unique)
    with run t show ?thesis by (auto simp: on_db_def)
  qed
qed

lemma traced_enqueue:
  assumes "\<And>n. uuid7 e n \<noteq> 0"
  shows "keeps (on_db (traced A)) (enqueue_outbound_for_event e pid ty payload ck ci now)"
proof (rule keepsI)
  fix w :: "('a, 'b) world" assume J: "on_db (traced A) w"
  obtain r w' where run: "enqueue_outbound_for_event e pid ty payload ck ci now w = (r, w')" by force
  then show "on_db (traced A) (snd (enqueue_outbound_for_event e pid ty payload ck ci now w))"
  proof (cases rule: enqueue_early)
    case error
    with J run show ?thesis by (simp add: on_db_def only_cache_fields)
  next
    case (stored p w1 w2 eps w3)
    define ds where "ds = fan_out e p ty payload ck ci now (w_draws w3) eps"
    define w5 where "w5 = persisted ds (map2 (pending_envelope p ty payload ck ci now) ds eps)
        (str_uuid (p_public_id p)) OUTBOUND_PENDING_TOPIC (w3\<lparr>w_draws := w_draws w3 + length eps\<rparr>)"
    note eq = enqueue_run [OF stored(1-3) assms, where ck = ck and ci = ci and now = now, folded ds_def, folded w5_def]
    have same: "w_committed w5 = w_committed w" "w_db w3 = w_db w" using stored(4) by (simp_all add: w5_def only_cache_fields)
    let ?ins = "assign_ids (w_seq_deliveries w3) (w_clock w3) ds"
    have rows: "db_deliveries (w_db w5) = db_deliveries (w_db w) @ ?ins" "db_attempts (w_db w5) = db_attempts (w_db w)"
      "db_audit_logs (w_db w5) = db_audit_logs (w_db w)"
      using same(2) by (simp_all add: w5_def persisted_def Let_def)
    have pend: "list_all (\<lambda>d. d_status d = DeliveryStatus.PENDING) ?ins"
      unfolding ds_def by (subst list_all_assign_ids) (auto simp: list_all_iff dest: fan_out_rows)
    have acc: "ledger_steps (books (w_db w)) (books (w_db w5))" if "unique_on d_id (db_deliveries (w_db w5))"
      using that pend rows by (intro books_accept [where ds = ?ins]) (simp_all add: list_all_iff)
    have uni: "unique_on d_id (db_deliveries (w_db w5)) \<Longrightarrow> unique_on d_id (db_deliveries (w_db w))"
      by (simp add: rows unique_on_append)
    have t: "traced A (w_committed w) (w_db w5)"
      using J acc uni by (auto simp: traced_def on_db_def)
    show ?thesis
    proof (cases "constraints_ok (w_db w5)")
      case True
      then have "w' = w5\<lparr>w_committed := w_db w5\<rparr>" using eq run by simp
      with t True run show ?thesis by (auto simp: on_db_def traced_def constraints_unique)
    next
      case False
      then obtain pa ea where "duplicate_or_conflict pa ea (p_id p) ck eps w5 = (r, w')" using eq run by simp
      from duplicate_or_conflict_frame(1,2) [OF this] t run same show ?thesis by (simp add: on_db_def traced_def)
    qed
  qed
qed

lemma traced_message: "keeps (on_db (traced A)) (with_session (process_outbound_message e envl stg now))"
proof (rule keepsI)
  fix w :: "('a, 'b) world" assume J: "on_db (traced A) w"
  let ?w = "w\<lparr>w_db := w_committed w\<rparr>"
  obtain r w' where run: "process_outbound_message e envl stg now ?w = (r, w')" by force
  have u: "unique_on d_id (db_deliveries (w_committed w))" using J by (simp add: on_db_def traced_def constraints_unique)
  have "w_committed w' = w_committed w \<or> ledger_step (books (w_committed w)) (books (w_committed w')) \<and> constraints_ok (w_committed w')"
    using process_settles [OF _ run] books_advance [OF u] by fastforce
  with J run show "on_db (traced A) (snd (with_session (process_outbound_message e envl stg now) w))"
    by (auto simp: on_db_def traced_def with_session_run intro: rtranclp.rtrancl_into_rtrancl)
qed

section \<open>Every process keeps to the ledger\<close>

lemma traced_lookups [keep_intros]:
  "keeps (on_db J) (get_partner_by_public_id u)" "keeps (on_db J) (refresh_partner p)"
  "keeps (on_db J) (fetch_endpoint u)" "keeps (on_db J) (partner_public_id ep)" "keeps (on_db J) (refresh_endpoint ep)"
  "keeps (on_db J) (generate_signing_secret e)" "keeps (on_db J) (encrypt_signing_secret e b k)"
  "keeps (on_db J) (generate_api_key e)" "keeps (on_db J) (fetch_primary_row pid)"
  "keeps (on_db J) (get_dead_letter_row_or_404 u)" "keeps (on_db J) (sandbox_key e given)"
  "keeps (on_db J) (fetch_replay_approval_with_delivery u)"
  unfolding get_partner_by_public_id_def refresh_partner_def fetch_endpoint_def partner_public_id_def refresh_endpoint_def
    generate_signing_secret_def encrypt_signing_secret_def generate_api_key_def fetch_primary_row_def
    get_dead_letter_row_or_404_def sandbox_key_def fetch_replay_approval_with_delivery_def fetch_partner_by_public_id_def Let_def
  by ((intro keep_intros)+, (auto intro: keep_intros split: list.splits)?)+

lemma traced_insert_partner [keep_intros]: "keeps (on_db (traced A)) (insert_partner e stg body b)"
proof -
  have "keeps (on_db (traced A)) (modify (\<lambda>w. w\<lparr>w_seq_partners := n, w_db := (w_db w)\<lparr>db_partners := f (w_db w)\<rparr>\<rparr>))" for n f
    by (simp add: keeps_def on_db_def modify_apply)
  then show ?thesis unfolding insert_partner_def Let_def by (intro keep_intros)
qed

lemma traced_retire [simp]: "traced A c (retire_rows i r t d) \<longleftrightarrow> traced A c d"
proof -
  obtain x where "retire_rows i r t d = d\<lparr>db_signing_secrets := x\<rparr>" using retire_rows_config by blast
  then show ?thesis by simp
qed

lemma traced_partner_routes:
  "keeps (on_db (traced A)) (create_partner e stg creds pbody)"
  "keeps (on_db (traced A)) (update_partner e stg creds u ubody)"
  "keeps (on_db (traced A)) (create_api_key e stg creds u kbody)"
  "keeps (on_db (traced A)) (rotate_signing_secret e stg creds u)"
  unfolding create_partner_def store_partner_def insert_primary_signing_secret_def update_partner_def
    save_partner_def create_api_key_def rotate_signing_secret_def rotate_partner_signing_secret_def Let_def
  by ((intro keep_intros)+, (auto intro: keep_intros traced_settle)?)+

lemma traced_config_routes:
  "keeps (on_db (traced A)) (create_endpoint e stg creds u ebody)"
  "keeps (on_db (traced A)) (update_endpoint e stg creds u xbody)"
  "keeps (on_db (traced A)) (create_payload_schema e stg creds sbody)"
  unfolding create_endpoint_def update_endpoint_def save_endpoint_def create_payload_schema_def Let_def
  by ((intro keep_intros)+, (auto intro: keep_intros traced_settle)?)+

lemma traced_event_routes:
  assumes "\<And>n. uuid7 e n \<noteq> 0"
  shows "keeps (on_db (traced A)) (create_outbound_event e stg creds context obody now)"
    and "keeps (on_db (traced A)) (sandbox_test_delivery e stg creds context obody now)"
  unfolding create_outbound_event_def sandbox_test_delivery_def by (intro keep_intros traced_enqueue assms)+

lemma traced_bulk [keep_intros]: "keeps (on_db (traced A)) (bulk_replay_loop e actor reason stg us br)"
  by (induction us arbitrary: br) (auto simp: bulk_replay_one_def intro!: keep_intros)

lemma traced_stale [keep_intros]: "keeps (on_db (traced A)) (stale_replay_loop e stg rows sr)"
  by (induction rows arbitrary: sr) (auto simp: stale_replay_one_def intro!: keep_intros)

lemma traced_replay_routes:
  "keeps (on_db (traced A)) (bulk_replay_deliveries_endpoint e stg creds bbody)"
  "keeps (on_db (traced A)) (replay_delivery_endpoint e stg creds u rbody)"
  "keeps (on_db (traced A)) (approve_replay_approval_endpoint e stg creds u)"
  "keeps (on_db (traced A)) (reject_replay_approval_endpoint e stg creds u jbody)"
  "keeps (on_db (traced A)) (acknowledge_dead_letter e stg creds u)"
  "keeps (on_db (traced A)) (purge_dead_letter e stg creds u pbody)"
  "keeps (on_db (traced A)) (replay_stale_failed e stg)"
  unfolding bulk_replay_deliveries_endpoint_def bulk_replay_deliveries_def replay_delivery_endpoint_def create_replay_approval_def
    approve_replay_approval_endpoint_def approve_replay_approval_def reject_replay_approval_endpoint_def reject_replay_approval_def
    decide_approval_def acknowledge_dead_letter_def purge_dead_letter_def save_dead_letter_def replay_stale_failed_def
    replay_stale_failed_deliveries_def fetch_stale_failed_deliveries_def Let_def
  by ((intro keep_intros)+, (auto intro: keep_intros traced_settle)?)+

lemma traced_outbox [keep_intros]: "keeps (on_db (traced A)) (enqueue_outbox ty i topic payload key)"
  unfolding enqueue_outbox_def Let_def by (intro keep_intros) simp_all

lemma traced_relay: "keeps (on_db (traced A)) (relay_iteration e)"
  unfolding relay_iteration_def publish_unpublished_batch_def count_unpublished_def relay_event_def save_outbox_def
    mark_inbound_published_def
  by (intro keep_intros) (auto intro: traced_settle)

lemma inbound_checks_neutral [keep_intros]: "keeps (on_db J) (authenticate_inbound e stg rq now)"
  unfolding authenticate_inbound_def load_partner_def verify_hmac_def check_api_key_def load_inbound_signing_secrets_def
    fetch_primary_row_def fetch_previous_rows_def decrypt_signing_secret_def Let_def
  by (intro keep_intros) (auto intro: keep_intros split: sum.split option.split)

lemma traced_persist_inbound [keep_intros]:
  "keeps (on_db (traced A)) (persist_inbound e stg p key ty payload raw t ci)"
proof -
  have s: "keeps (on_db (traced A)) (store_inbound e p key ty payload raw t ci)"
    unfolding store_inbound_def Let_def by (intro keep_intros) simp
  have c: "keeps (on_db (traced A)) (inbound_conflict p key)"
    unfolding inbound_conflict_def fetch_inbound_event_by_idempotency_def record_duplicate_def by (intro keep_intros)
  have a: "keeps (on_db (traced A)) (accept_inbound e stg p key ty payload t ci ie)" for ie
    unfolding accept_inbound_def by (intro keep_intros)
  have "on_db (traced A) w'" if "on_db (traced A) w" "store_inbound e p key ty payload raw t ci w = (r, w')" for w w' r
    using keepsD [OF s that(1)] that(2) by simp
  then show ?thesis
    unfolding persist_inbound_def
    by (intro keepsI) (auto intro: keepsD [OF c] keepsD [OF a] split: prod.splits sum.splits exn.splits)
qed

lemma traced_inbound: "keeps (on_db (traced A)) (inbound_endpoint e stg rq now)"
  unfolding inbound_endpoint_def ingest_event_def record_duplicate_def Let_def by (intro keep_intros)

section \<open>The hub implements the ledger\<close>

text \<open>A simulation between two step relations, and what it gives for their runs.\<close>

locale simulation =
  fixes cstep :: "'c \<Rightarrow> 'c \<Rightarrow> bool" and astep :: "'a \<Rightarrow> 'a \<Rightarrow> bool" and abstraction :: "'c \<Rightarrow> 'a" and ok :: "'c \<Rightarrow> bool"
  assumes simulates: "ok s \<Longrightarrow> cstep s s' \<Longrightarrow> ok s' \<and> astep\<^sup>*\<^sup>* (abstraction s) (abstraction s')"
begin

lemma runs: "cstep\<^sup>*\<^sup>* s s' \<Longrightarrow> ok s \<Longrightarrow> ok s' \<and> astep\<^sup>*\<^sup>* (abstraction s) (abstraction s')"
  by (induction rule: rtranclp_induct) (auto dest: simulates)

lemma invariant:
  assumes "cstep\<^sup>*\<^sup>* s s'" "ok s" "Q (abstraction s)" "\<And>a a'. Q a \<Longrightarrow> astep a a' \<Longrightarrow> Q a'"
  shows "Q (abstraction s')"
proof -
  have "astep\<^sup>*\<^sup>* (abstraction s) (abstraction s')" using runs [OF assms(1,2)] by simp
  then show ?thesis by (induction rule: rtranclp_induct) (use assms in auto)
qed

end

text \<open>
  One step of the running hub: a request of any route, a webhook, a message taken by a worker, a pass
  of the relay, the scheduled replay, or anything outside the database (time, Redis, Kafka, the
  partners, the process caches) changing.
\<close>

inductive hub_step :: "('r, 'k) env \<Rightarrow> settings \<Rightarrow> ('r, 'k) world \<Rightarrow> ('r, 'k) world \<Rightarrow> bool" for e stg where
  step_serves: "serves e stg w w' \<Longrightarrow> hub_step e stg w w'"
| step_webhook: "hub_step e stg w (snd (inbound_endpoint e stg rq now w))"
| step_sandbox: "hub_step e stg w (snd (with_session (sandbox_test_delivery e stg creds context obody now) w))"
| step_replay: "hub_step e stg w (snd (with_session (replay_delivery_endpoint e stg creds u rbody) w))"
| step_bulk_replay: "hub_step e stg w (snd (with_session (bulk_replay_deliveries_endpoint e stg creds bbody) w))"
| step_approve: "hub_step e stg w (snd (with_session (approve_replay_approval_endpoint e stg creds u) w))"
| step_reject: "hub_step e stg w (snd (with_session (reject_replay_approval_endpoint e stg creds u jbody) w))"
| step_acknowledge: "hub_step e stg w (snd (with_session (acknowledge_dead_letter e stg creds u) w))"
| step_purge: "hub_step e stg w (snd (with_session (purge_dead_letter e stg creds u pbody) w))"
| step_message: "hub_step e stg w (snd (with_session (process_outbound_message e envl stg t) w))"
| step_relay: "hub_step e stg w (snd (relay_iteration e w))"
| step_scheduled: "hub_step e stg w (snd (replay_stale_failed e stg w))"
| step_outside: "w_committed w' = w_committed w \<Longrightarrow> w_db w' = w_db w \<Longrightarrow> hub_step e stg w w'"

lemma serves_traced:
  assumes "serves e stg w w'" "\<And>n. uuid7 e n \<noteq> 0" "on_db (traced A) w"
  shows "on_db (traced A) w'"
  using assms(1,3)
proof (induction rule: serves.induct)
  case (serves_time w t m)
  then show ?case by (simp add: on_db_def)
qed (auto intro: keepsD [OF traced_session] traced_partner_routes traced_config_routes traced_event_routes(1) [OF assms(2)])

lemma hub_step_traced:
  assumes "hub_step e stg w w'" "\<And>n. uuid7 e n \<noteq> 0" "on_db (traced A) w"
  shows "on_db (traced A) w'"
  using assms(1,3)
proof (induction rule: hub_step.induct)
  case (step_serves w w')
  then show ?case using serves_traced assms(2) by blast
next
  case (step_outside w' w)
  then show ?case by (simp add: on_db_def)
qed (auto intro: keepsD [OF traced_session] keepsD [OF traced_message] keepsD [OF traced_relay] keepsD [OF traced_inbound]
      keepsD [OF traced_replay_routes(7)] traced_replay_routes traced_event_routes(2) [OF assms(2)])

text \<open>The sessions of the hub are closed between two steps.\<close>

definition hub_ok :: "('r, 'k) env \<Rightarrow> ('r, 'k) world \<Rightarrow> bool" where
  "hub_ok e w \<longleftrightarrow> constraints_ok (w_committed w) \<and> (\<forall>n. uuid7 e n \<noteq> 0) \<and> w_db w = w_committed w"

lemma closed_after: "w_db (snd (with_session m w)) = w_committed (snd (with_session m w))"
  by (simp add: with_session_run)

lemma hub_step_closed: "hub_step e stg w w' \<Longrightarrow> w_db w = w_committed w \<Longrightarrow> w_db w' = w_committed w'"
  by (induction rule: hub_step.induct)
     (auto simp: closed_after inbound_endpoint_def relay_iteration_def replay_stale_failed_def elim: serves.cases)

interpretation hub_ledger: simulation "hub_step e stg" ledger_step "\<lambda>w. books (w_committed w)" "hub_ok e"
  for e :: "('r, 'k) env" and stg :: settings
proof unfold_locales
  fix w w' :: "('r, 'k) world"
  assume ok: "hub_ok e w" and step: "hub_step e stg w w'"
  then have "on_db (traced (books (w_committed w))) w" by (simp add: hub_ok_def on_db_def traced_def)
  with ok step have "on_db (traced (books (w_committed w))) w'" using hub_step_traced unfolding hub_ok_def by blast
  with ok hub_step_closed [OF step] show "hub_ok e w' \<and> ledger_steps (books (w_committed w)) (books (w_committed w'))"
    by (simp add: hub_ok_def on_db_def traced_def)
qed

section \<open>What an integrator can rely on\<close>

lemma ledger_step_keeps:
  assumes "ledger_step L L'" "lg_deliveries L i = Some (c, s)"
  shows "\<exists>t. lg_deliveries L' i = Some (c, t) \<and> reaches s t"
  using assms
proof (cases rule: ledger_step.cases)
  case (ledger_attempt j c' s' t ats)
  have "reaches s' t" using ledger_attempt(3,4) by (meson rtranclp.rtrancl_into_rtrancl r_into_rtranclp)
  with ledger_attempt assms(2) show ?thesis by (cases "j = i") auto
next
  case (ledger_replay j c' entry)
  have "reaches FAILED REPLAYING" by (rule r_into_rtranclp) simp
  with ledger_replay assms(2) show ?thesis by (cases "j = i") auto
qed auto

lemma ledger_steps_keep:
  "ledger_steps L L' \<Longrightarrow> lg_deliveries L i = Some (c, s) \<Longrightarrow> \<exists>t. lg_deliveries L' i = Some (c, t) \<and> reaches s t"
proof (induction rule: rtranclp_induct)
  case (step L1 L2)
  then show ?case using ledger_step_keeps by (meson rtranclp_trans)
qed simp

lemma ledger_steps_append:
  "ledger_steps L L' \<Longrightarrow> (\<exists>xs. lg_attempts L' = lg_attempts L @ xs) \<and> (\<exists>ys. lg_audit L' = lg_audit L @ ys)"
  by (induction rule: rtranclp_induct) (auto elim!: ledger_step.cases)

text \<open>
  C1. The hub refines its ledger. Whatever sequence of admin requests, enqueued events, webhooks, worker
  messages, relay passes, scheduled replays and outside events the hub processes, with Redis, Kafka
  and the partners behaving as they like, the committed databases it goes through are a run of the
  abstract ledger: deliveries appear as pending, move only by an attempt through \<open>DELIVERING\<close> or by
  an audited replay, and attempts and audit entries are only appended; and the database constraints
  hold at the end.
\<close>

theorem hub_refines_ledger:
  assumes "(hub_step e stg)\<^sup>*\<^sup>* w w'" and "constraints_ok (w_committed w)" and "w_db w = w_committed w"
    and "\<forall>n. uuid7 e n \<noteq> 0"
  shows "ledger_steps (books (w_committed w)) (books (w_committed w')) \<and> constraints_ok (w_committed w')"
  using hub_ledger.runs [OF assms(1)] assms(2-4) by (simp add: hub_ok_def)

text \<open>
  C3. An accepted delivery is never lost or altered. In every later state of the hub its row is still
  there with the same payload, keys, endpoint, deadline and correlation, in a status the life cycle
  leads to; a delivered one stays delivered; and no attempt and no audit entry is ever removed or
  changed.
\<close>

theorem deliveries_never_lost:
  assumes "(hub_step e stg)\<^sup>*\<^sup>* w w'" and "constraints_ok (w_committed w)" and "w_db w = w_committed w"
    and "\<forall>n. uuid7 e n \<noteq> 0" and "d \<in> set (db_deliveries (w_committed w))"
  shows "(\<exists>r \<in> set (db_deliveries (w_committed w')). d_id r = d_id d \<and> content r = content d \<and>
       reaches (d_status d) (d_status r) \<and>
       (d_status d = DeliveryStatus.DELIVERED \<longrightarrow> d_status r = DeliveryStatus.DELIVERED)) \<and>
     prefix (db_attempts (w_committed w)) (db_attempts (w_committed w')) \<and>
     prefix (db_audit_logs (w_committed w)) (db_audit_logs (w_committed w'))"
proof -
  have L: "ledger_steps (books (w_committed w)) (books (w_committed w'))"
    using hub_ledger.runs [OF assms(1)] assms(2-4) by (simp add: hub_ok_def)
  have "lg_deliveries (books (w_committed w)) (d_id d) = Some (content d, d_status d)"
    using find_unique_on [OF constraints_unique [OF assms(2)] assms(5)] by (simp add: books_def entry_of_def)
  from ledger_steps_keep [OF L this] obtain r where
    r: "find (\<lambda>x. d_id x = d_id d) (db_deliveries (w_committed w')) = Some r" "content r = content d" "reaches (d_status d) (d_status r)"
    by (auto simp: books_def entry_of_def)
  from r(1) have "r \<in> set (db_deliveries (w_committed w'))" "d_id r = d_id d" by (auto simp: find_Some_iff)
  with r delivered_final ledger_steps_append [OF L] show ?thesis by (auto simp: books_def prefix_def)
qed

section \<open>A concrete run\<close>

text \<open>The sample delivery is taken by a worker, and then the relay makes a pass.\<close>

definition ledger_world :: "(mem_redis, message list) world" where
  "ledger_world = with_delivery (sample_delivery DeliveryStatus.PENDING 0)"

definition worked_world :: "(mem_redis, message list) world" where
  "worked_world = snd (with_session (process_outbound_message mem_env sample_envelope default_settings (Some 5)) ledger_world)"

lemma ledger_world_ok: "constraints_ok (w_committed ledger_world)" "w_db ledger_world = w_committed ledger_world"
  "db_deliveries (w_committed ledger_world) = [sample_delivery DeliveryStatus.PENDING 0]"
  by (simp_all add: ledger_world_def with_delivery_def sample_defs constraints_ok_def table_ok_defs references_def unique_on_def)

lemma ledger_world_run:
  "(hub_step mem_env default_settings)\<^sup>*\<^sup>* ledger_world (snd (relay_iteration mem_env worked_world))"
proof -
  have "hub_step mem_env default_settings ledger_world worked_world" unfolding worked_world_def by (rule step_message)
  moreover have "hub_step mem_env default_settings worked_world (snd (relay_iteration mem_env worked_world))" by (rule step_relay)
  ultimately show ?thesis by (meson r_into_rtranclp rtranclp_trans)
qed

lemma ledger_world_worked: "fst (with_session (process_outbound_message mem_env sample_envelope default_settings (Some 5)) ledger_world) = Inr DELIVERED"
proof -
  have "ledger_world\<lparr>w_db := w_committed ledger_world\<rparr> = ledger_world" by (simp add: ledger_world_def with_delivery_def)
  with sample_delivers show ?thesis by (auto simp: with_session_run ledger_world_def)
qed

theorem hub_refines_ledger_witness:
  "fst (with_session (process_outbound_message mem_env sample_envelope default_settings (Some 5)) ledger_world) = Inr DELIVERED \<and>
   ledger_steps (books (w_committed ledger_world)) (books (w_committed (snd (relay_iteration mem_env worked_world))))"
  using hub_refines_ledger [OF ledger_world_run ledger_world_ok(1,2)] ledger_world_worked mem_env_uuid_nonnil by simp

theorem deliveries_never_lost_witness:
  "\<exists>r \<in> set (db_deliveries (w_committed (snd (relay_iteration mem_env worked_world)))).
     d_id r = 1 \<and> content r = content (sample_delivery DeliveryStatus.PENDING 0)"
  using deliveries_never_lost [OF ledger_world_run ledger_world_ok(1,2), of "sample_delivery DeliveryStatus.PENDING 0"]
    ledger_world_ok(3) mem_env_uuid_nonnil by auto

end
