(* ===== verification/Migrations.thy ===== *)
theory Migrations
  imports Signing Outbox
begin

text \<open>
  The Alembic revisions under \<open>alembic/versions\<close> as lists of DDL operations, their effect on a schema
  (tables with columns and constraints, indexes), and the data step of revision 4 that copies the
  signing secrets of the partners. The schema at head is the source of the constraints that the
  model of the session enforces. The quotes around literals in server defaults are dropped.
\<close>

section \<open>Schemas and operations\<close>

datatype column_type =
    BigInteger | Integer | SmallInteger | Boolean | Varchar nat | VarcharAny | TextType | UuidType | JSONB
  | TimestampTz | LargeBinary | ARRAY column_type

record table_column =
  co_name :: string
  co_type :: column_type
  co_nullable :: bool
  co_default :: "string option"
  co_identity :: bool

definition column :: "string \<Rightarrow> column_type \<Rightarrow> bool \<Rightarrow> table_column" where
  "column name ty nullable = \<lparr>co_name = name, co_type = ty, co_nullable = nullable, co_default = None, co_identity = False\<rparr>"

definition with_default :: "string \<Rightarrow> table_column \<Rightarrow> table_column" where
  "with_default v c = c\<lparr>co_default := Some v\<rparr>"

definition identity :: "table_column \<Rightarrow> table_column" where
  "identity c = c\<lparr>co_identity := True\<rparr>"

datatype table_constraint =
    PrimaryKeyConstraint "string list"
  | UniqueConstraint "string list"
  | ForeignKeyConstraint string string string

record db_table =
  ta_columns :: "table_column list"
  ta_constraints :: "table_constraint list"

record schema =
  sc_tables :: "(string \<times> db_table) list"
  sc_indexes :: "(string \<times> string \<times> string list) list"

datatype ddl =
    create_table string "table_column list" "table_constraint list"
  | create_index string string "string list"
  | add_column string table_column
  | drop_default string string
  | drop_column string string
  | drop_index string string
  | drop_table string

datatype ddl_error =
    DuplicateTable string | UndefinedTable string | DuplicateColumn string | UndefinedColumn string
  | DuplicateObject string | UndefinedObject string | DependentObjectsStillExist string

definition empty_schema :: schema where
  "empty_schema = \<lparr>sc_tables = [], sc_indexes = []\<rparr>"

fun constraint_columns :: "table_constraint \<Rightarrow> string list" where
  "constraint_columns (PrimaryKeyConstraint cs) = cs"
| "constraint_columns (UniqueConstraint cs) = cs"
| "constraint_columns (ForeignKeyConstraint c t d) = [c]"

fun constraint_targets :: "table_constraint \<Rightarrow> string list" where
  "constraint_targets (ForeignKeyConstraint c t d) = [t]"
| "constraint_targets (PrimaryKeyConstraint cs) = []"
| "constraint_targets (UniqueConstraint cs) = []"

definition targets_of :: "db_table \<Rightarrow> string list" where
  "targets_of t = concat (map constraint_targets (ta_constraints t))"

definition set_table :: "string \<Rightarrow> (db_table \<Rightarrow> db_table) \<Rightarrow> schema \<Rightarrow> schema" where
  "set_table n f s = s\<lparr>sc_tables := map (\<lambda>(m, t). (m, if m = n then f t else t)) (sc_tables s)\<rparr>"

text \<open>Each operation as PostgreSQL runs it: refused when what it names is missing or already there.\<close>

fun apply_ddl :: "ddl \<Rightarrow> schema \<Rightarrow> ddl_error + schema" where
  "apply_ddl (create_table n cols cs) s =
     (if n \<in> set (map fst (sc_tables s)) then Inl (DuplicateTable n)
      else case find (\<lambda>c. c \<notin> set (map co_name cols)) (concat (map constraint_columns cs)) of
        Some c \<Rightarrow> Inl (UndefinedColumn c)
      | None \<Rightarrow> (case find (\<lambda>t. t \<notin> set (map fst (sc_tables s))) (concat (map constraint_targets cs)) of
          Some t \<Rightarrow> Inl (UndefinedTable t)
        | None \<Rightarrow> Inr (s\<lparr>sc_tables := sc_tables s @ [(n, \<lparr>ta_columns = cols, ta_constraints = cs\<rparr>)]\<rparr>)))"
| "apply_ddl (create_index i n cols) s =
     (if i \<in> set (map fst (sc_indexes s)) then Inl (DuplicateObject i)
      else case map_of (sc_tables s) n of
        None \<Rightarrow> Inl (UndefinedTable n)
      | Some t \<Rightarrow> (case find (\<lambda>c. c \<notin> set (map co_name (ta_columns t))) cols of
          Some c \<Rightarrow> Inl (UndefinedColumn c)
        | None \<Rightarrow> Inr (s\<lparr>sc_indexes := sc_indexes s @ [(i, n, cols)]\<rparr>)))"
| "apply_ddl (add_column n col) s =
     (case map_of (sc_tables s) n of
        None \<Rightarrow> Inl (UndefinedTable n)
      | Some t \<Rightarrow>
          if co_name col \<in> set (map co_name (ta_columns t)) then Inl (DuplicateColumn (co_name col))
          else Inr (set_table n (\<lambda>t. t\<lparr>ta_columns := ta_columns t @ [col]\<rparr>) s))"
| "apply_ddl (drop_default n c) s =
     (case map_of (sc_tables s) n of
        None \<Rightarrow> Inl (UndefinedTable n)
      | Some t \<Rightarrow>
          if c \<notin> set (map co_name (ta_columns t)) then Inl (UndefinedColumn c)
          else Inr (set_table n (\<lambda>t. t\<lparr>ta_columns :=
                 map (\<lambda>x. if co_name x = c then x\<lparr>co_default := None\<rparr> else x) (ta_columns t)\<rparr>) s))"
| "apply_ddl (drop_column n c) s =
     (case map_of (sc_tables s) n of
        None \<Rightarrow> Inl (UndefinedTable n)
      | Some t \<Rightarrow>
          if c \<notin> set (map co_name (ta_columns t)) then Inl (UndefinedColumn c)
          else Inr ((set_table n (\<lambda>t. \<lparr>ta_columns = filter (\<lambda>x. co_name x \<noteq> c) (ta_columns t),
                 ta_constraints = filter (\<lambda>k. c \<notin> set (constraint_columns k)) (ta_constraints t)\<rparr>) s)
                 \<lparr>sc_indexes := filter (\<lambda>(i, m, cols). \<not> (m = n \<and> c \<in> set cols)) (sc_indexes s)\<rparr>))"
| "apply_ddl (drop_index i n) s =
     (if i \<notin> set (map fst (sc_indexes s)) then Inl (UndefinedObject i)
      else Inr (s\<lparr>sc_indexes := filter (\<lambda>x. fst x \<noteq> i) (sc_indexes s)\<rparr>))"
| "apply_ddl (drop_table n) s =
     (if n \<notin> set (map fst (sc_tables s)) then Inl (UndefinedTable n)
      else if list_ex (\<lambda>(m, t). m \<noteq> n \<and> n \<in> set (targets_of t)) (sc_tables s) then Inl (DependentObjectsStillExist n)
      else Inr \<lparr>sc_tables = filter (\<lambda>x. fst x \<noteq> n) (sc_tables s),
                sc_indexes = filter (\<lambda>(i, m, cols). m \<noteq> n) (sc_indexes s)\<rparr>)"

fun run_ddl :: "ddl list \<Rightarrow> schema \<Rightarrow> ddl_error + schema" where
  "run_ddl [] s = Inr s"
| "run_ddl (d # ds) s = (case apply_ddl d s of Inl x \<Rightarrow> Inl x | Inr s' \<Rightarrow> run_ddl ds s')"

section \<open>The revisions\<close>

definition ddl_partners :: "ddl list" where
  "ddl_partners =
    [create_table ''partners''
       [identity (column ''id'' BigInteger False),
        column ''public_id'' UuidType False,
        column ''slug'' (Varchar 64) False,
        column ''name'' (Varchar 255) False,
        column ''status'' (Varchar 32) False,
        column ''sla_seconds'' Integer False,
        with_default ''false'' (column ''auto_replay_enabled'' Boolean False),
        with_default ''{}::jsonb'' (column ''circuit_breaker_config'' JSONB False),
        with_default ''100'' (column ''rate_limit_rps'' Integer False),
        column ''signing_secret_encrypted'' LargeBinary True,
        with_default ''now()'' (column ''created_at'' TimestampTz False),
        with_default ''now()'' (column ''updated_at'' TimestampTz False)]
       [PrimaryKeyConstraint [''id''], UniqueConstraint [''public_id''], UniqueConstraint [''slug'']]]"

definition ddl_partner_endpoints :: "ddl list" where
  "ddl_partner_endpoints =
    [create_table ''partner_endpoints''
       [column ''id'' UuidType False,
        column ''partner_id'' BigInteger False,
        column ''direction'' (Varchar 16) False,
        column ''url'' TextType False,
        column ''event_types'' (ARRAY VarcharAny) False,
        column ''status'' (Varchar 16) False,
        column ''sla_seconds'' Integer True,
        with_default ''8'' (column ''max_attempts'' SmallInteger False),
        with_default ''{}::jsonb'' (column ''backoff_policy'' JSONB False),
        with_default ''{}'' (column ''retry_on_status_codes'' (ARRAY Integer) False),
        with_default ''3000'' (column ''timeout_connect_ms'' Integer False),
        with_default ''10000'' (column ''timeout_read_ms'' Integer False),
        with_default ''now()'' (column ''created_at'' TimestampTz False),
        with_default ''now()'' (column ''updated_at'' TimestampTz False)]
       [ForeignKeyConstraint ''partner_id'' ''partners'' ''id'', PrimaryKeyConstraint [''id'']],
     create_index ''ix_partner_endpoints_partner_id_status'' ''partner_endpoints'' [''partner_id'', ''status''],
     create_index ''ix_partner_endpoints_event_types'' ''partner_endpoints'' [''event_types'']]"

definition ddl_deliveries :: "ddl list" where
  "ddl_deliveries =
    [create_table ''deliveries''
       [identity (column ''id'' BigInteger False),
        column ''public_id'' UuidType False,
        column ''partner_id'' BigInteger False,
        column ''endpoint_id'' UuidType False,
        column ''direction'' (Varchar 16) False,
        column ''event_type'' (Varchar 128) False,
        column ''idempotency_key'' (Varchar 255) False,
        column ''payload'' JSONB False,
        column ''payload_hash'' (Varchar 64) False,
        column ''status'' (Varchar 16) False,
        with_default ''0'' (column ''attempt_count'' SmallInteger False),
        column ''max_attempts'' SmallInteger False,
        column ''next_retry_at'' TimestampTz True,
        column ''first_success_at'' TimestampTz True,
        column ''sla_deadline_at'' TimestampTz False,
        with_default ''false'' (column ''sla_breached'' Boolean False),
        column ''last_error_code'' (Varchar 64) True,
        column ''last_error_message'' TextType True,
        column ''correlation_id'' (Varchar 128) False,
        column ''source_event_id'' (Varchar 255) True,
        with_default ''now()'' (column ''created_at'' TimestampTz False),
        with_default ''now()'' (column ''updated_at'' TimestampTz False)]
       [ForeignKeyConstraint ''endpoint_id'' ''partner_endpoints'' ''id'', 
        ForeignKeyConstraint ''partner_id'' ''partners'' ''id'', PrimaryKeyConstraint [''id''], UniqueConstraint [''partner_id'', ''idempotency_key''], UniqueConstraint [''public_id'']],
     create_index ''ix_deliveries_status_next_retry_at'' ''deliveries'' [''status'', ''next_retry_at''],
     create_index ''ix_deliveries_partner_id_created_at'' ''deliveries'' [''partner_id'', ''created_at''],
     create_index ''ix_deliveries_correlation_id'' ''deliveries'' [''correlation_id''],
     create_index ''ix_deliveries_partner_id_sla_breached_created_at'' ''deliveries'' [''partner_id'', ''sla_breached'', ''created_at'']]"

definition ddl_delivery_attempts :: "ddl list" where
  "ddl_delivery_attempts =
    [create_table ''delivery_attempts''
       [column ''id'' UuidType False,
        column ''delivery_id'' BigInteger False,
        column ''attempt_number'' SmallInteger False,
        column ''requested_at'' TimestampTz False,
        column ''responded_at'' TimestampTz True,
        column ''http_status_code'' Integer True,
        with_default ''{}::jsonb'' (column ''response_headers'' JSONB False),
        with_default [] (column ''response_body'' TextType False),
        column ''error_type'' (Varchar 64) True,
        column ''duration_ms'' Integer True,
        with_default ''now()'' (column ''created_at'' TimestampTz False)]
       [ForeignKeyConstraint ''delivery_id'' ''deliveries'' ''id'', 
        PrimaryKeyConstraint [''id''], UniqueConstraint [''delivery_id'', ''attempt_number'']]]"

definition ddl_dead_letters :: "ddl list" where
  "ddl_dead_letters =
    [create_table ''dead_letters''
       [column ''id'' UuidType False,
        column ''delivery_id'' BigInteger False,
        column ''partner_id'' BigInteger False,
        column ''reason'' (Varchar 64) False,
        column ''last_http_status'' Integer True,
        with_default [] (column ''last_error_message'' TextType False),
        column ''kafka_offset'' BigInteger True,
        column ''acknowledged_at'' TimestampTz True,
        column ''acknowledged_by'' (Varchar 255) True,
        with_default ''now()'' (column ''created_at'' TimestampTz False)]
       [ForeignKeyConstraint ''delivery_id'' ''deliveries'' ''id'', 
        ForeignKeyConstraint ''partner_id'' ''partners'' ''id'', PrimaryKeyConstraint [''id''], UniqueConstraint [''delivery_id'']]]"

definition ddl_inbound_events :: "ddl list" where
  "ddl_inbound_events =
    [create_table ''inbound_events''
       [column ''id'' UuidType False,
        column ''partner_id'' BigInteger False,
        column ''idempotency_key'' (Varchar 255) False,
        column ''event_type'' (Varchar 128) False,
        column ''payload'' JSONB False,
        column ''payload_hash'' (Varchar 64) False,
        column ''signature_valid'' Boolean False,
        column ''signing_secret_version'' Integer True,
        column ''received_at'' TimestampTz False,
        column ''published_at'' TimestampTz True,
        column ''correlation_id'' (Varchar 128) False]
       [ForeignKeyConstraint ''partner_id'' ''partners'' ''id'', 
        PrimaryKeyConstraint [''id''], UniqueConstraint [''partner_id'', ''idempotency_key'']]]"

definition ddl_partner_api_keys :: "ddl list" where
  "ddl_partner_api_keys =
    [create_table ''partner_api_keys''
       [column ''id'' UuidType False,
        column ''partner_id'' BigInteger False,
        column ''key_prefix'' (Varchar 16) False,
        column ''key_hash'' (Varchar 255) False,
        column ''scopes'' (ARRAY VarcharAny) False,
        column ''expires_at'' TimestampTz True,
        column ''revoked_at'' TimestampTz True,
        with_default ''now()'' (column ''created_at'' TimestampTz False)]
       [ForeignKeyConstraint ''partner_id'' ''partners'' ''id'', PrimaryKeyConstraint [''id'']]]"

definition ddl_audit_logs :: "ddl list" where
  "ddl_audit_logs =
    [create_table ''audit_logs''
       [column ''id'' UuidType False,
        column ''actor_id'' (Varchar 255) False,
        column ''action'' (Varchar 64) False,
        column ''resource_type'' (Varchar 64) False,
        column ''resource_id'' UuidType False,
        with_default ''{}::jsonb'' (column ''metadata'' JSONB False),
        with_default ''now()'' (column ''created_at'' TimestampTz False)]
       [PrimaryKeyConstraint [''id'']]]"

definition ddl_outbox_events :: "ddl list" where
  "ddl_outbox_events =
    [create_table ''outbox_events''
       [identity (column ''id'' BigInteger False),
        column ''aggregate_type'' (Varchar 64) False,
        column ''aggregate_id'' BigInteger False,
        column ''topic'' (Varchar 128) False,
        column ''payload'' JSONB False,
        with_default ''now()'' (column ''created_at'' TimestampTz False),
        column ''published_at'' TimestampTz True,
        with_default ''0'' (column ''publish_attempts'' SmallInteger False)]
       [PrimaryKeyConstraint [''id'']],
     create_index ''ix_outbox_events_published_at_created_at'' ''outbox_events'' [''published_at'', ''created_at'']]"

definition upgrade_0001 :: "ddl list" where
  "upgrade_0001 = concat [ddl_partners, ddl_partner_endpoints, ddl_deliveries, ddl_delivery_attempts,
     ddl_dead_letters, ddl_inbound_events, ddl_partner_api_keys, ddl_audit_logs, ddl_outbox_events]"

definition downgrade_0001 :: "ddl list" where
  "downgrade_0001 =
    [drop_index ''ix_outbox_events_published_at_created_at'' ''outbox_events'',
     drop_table ''outbox_events'',
     drop_table ''audit_logs'',
     drop_table ''partner_api_keys'',
     drop_table ''inbound_events'',
     drop_table ''dead_letters'',
     drop_table ''delivery_attempts'',
     drop_index ''ix_deliveries_partner_id_sla_breached_created_at'' ''deliveries'',
     drop_index ''ix_deliveries_correlation_id'' ''deliveries'',
     drop_index ''ix_deliveries_partner_id_created_at'' ''deliveries'',
     drop_index ''ix_deliveries_status_next_retry_at'' ''deliveries'',
     drop_table ''deliveries'',
     drop_index ''ix_partner_endpoints_event_types'' ''partner_endpoints'',
     drop_index ''ix_partner_endpoints_partner_id_status'' ''partner_endpoints'',
     drop_table ''partner_endpoints'',
     drop_table ''partners'']"

definition upgrade_0002 :: "ddl list" where
  "upgrade_0002 =
    [create_index ''ix_partner_api_keys_key_prefix'' ''partner_api_keys'' [''key_prefix'']]"

definition downgrade_0002 :: "ddl list" where
  "downgrade_0002 =
    [drop_index ''ix_partner_api_keys_key_prefix'' ''partner_api_keys'']"

definition upgrade_0003 :: "ddl list" where
  "upgrade_0003 =
    [add_column ''outbox_events'' (with_default [] (column ''message_key'' (Varchar 64) False)),
     drop_default ''outbox_events'' ''message_key'']"

definition downgrade_0003 :: "ddl list" where
  "downgrade_0003 =
    [drop_column ''outbox_events'' ''message_key'']"

definition upgrade_0004 :: "ddl list" where
  "upgrade_0004 =
    [create_table ''partner_signing_secrets''
       [column ''id'' UuidType False,
        column ''partner_id'' BigInteger False,
        column ''secret_encrypted'' LargeBinary False,
        column ''version'' Integer False,
        column ''status'' (Varchar 16) False,
        column ''valid_from'' TimestampTz False,
        column ''valid_until'' TimestampTz True,
        with_default ''now()'' (column ''created_at'' TimestampTz False)]
       [ForeignKeyConstraint ''partner_id'' ''partners'' ''id'', PrimaryKeyConstraint [''id'']],
     create_index ''ix_partner_signing_secrets_partner_id'' ''partner_signing_secrets'' [''partner_id'']]"

definition downgrade_0004 :: "ddl list" where
  "downgrade_0004 =
    [drop_index ''ix_partner_signing_secrets_partner_id'' ''partner_signing_secrets'',
     drop_table ''partner_signing_secrets'']"

definition upgrade_0005 :: "ddl list" where
  "upgrade_0005 =
    [create_table ''payload_schemas''
       [column ''id'' UuidType False,
        column ''event_type'' (Varchar 128) False,
        column ''version'' Integer False,
        column ''json_schema'' JSONB False,
        column ''status'' (Varchar 16) False,
        with_default ''now()'' (column ''created_at'' TimestampTz False),
        with_default ''now()'' (column ''updated_at'' TimestampTz False)]
       [PrimaryKeyConstraint [''id''], UniqueConstraint [''event_type'', ''version'']]]"

definition downgrade_0005 :: "ddl list" where
  "downgrade_0005 =
    [drop_table ''payload_schemas'']"

definition upgrade_0006 :: "ddl list" where
  "upgrade_0006 =
    [create_table ''replay_approvals''
       [column ''id'' UuidType False,
        column ''delivery_id'' BigInteger False,
        column ''reason'' TextType False,
        column ''requested_by'' (Varchar 255) False,
        column ''approved_by'' (Varchar 255) True,
        column ''status'' (Varchar 16) False,
        with_default ''now()'' (column ''created_at'' TimestampTz False),
        with_default ''now()'' (column ''updated_at'' TimestampTz False)]
       [ForeignKeyConstraint ''delivery_id'' ''deliveries'' ''id'', PrimaryKeyConstraint [''id'']]]"

definition downgrade_0006 :: "ddl list" where
  "downgrade_0006 =
    [drop_table ''replay_approvals'']"

text \<open>The chain of \<open>down_revision\<close>s.\<close>

definition revisions :: "(ddl list \<times> ddl list) list" where
  "revisions = [(upgrade_0001, downgrade_0001), (upgrade_0002, downgrade_0002), (upgrade_0003, downgrade_0003),
     (upgrade_0004, downgrade_0004), (upgrade_0005, downgrade_0005), (upgrade_0006, downgrade_0006)]"

definition upgrade_head :: "ddl list" where
  "upgrade_head = concat (map fst revisions)"

definition downgrade_base :: "ddl list" where
  "downgrade_base = concat (map snd (rev revisions))"

text \<open>Each revision can be applied after the ones before it, and its downgrade restores what it found.\<close>

fun reversible_chain :: "(ddl list \<times> ddl list) list \<Rightarrow> schema \<Rightarrow> bool" where
  "reversible_chain [] s = True"
| "reversible_chain ((up, down) # rs) s =
     (case run_ddl up s of Inl _ \<Rightarrow> False | Inr s' \<Rightarrow> run_ddl down s' = Inr s \<and> reversible_chain rs s')"

lemma run_ddl_append: "run_ddl xs s = Inr s' \<Longrightarrow> run_ddl (xs @ ys) s = run_ddl ys s'"
  by (induction xs arbitrary: s) (auto split: sum.splits)

lemma chain_there_and_back:
  "reversible_chain rs s \<Longrightarrow> \<exists>h. run_ddl (concat (map fst rs)) s = Inr h \<and> run_ddl (concat (map snd (rev rs))) h = Inr s"
  by (induction rs s rule: reversible_chain.induct) (auto simp: run_ddl_append split: sum.splits)

lemma revisions_reversible: "reversible_chain revisions empty_schema"
  by code_simp

lemma migrations_round_trip:
  "\<exists>h. run_ddl upgrade_head empty_schema = Inr h \<and> run_ddl downgrade_base h = Inr empty_schema"
  using chain_there_and_back [OF revisions_reversible] by (simp add: upgrade_head_def downgrade_base_def)

section \<open>The constraints at head\<close>

text \<open>The key columns of a row, by the names the constraints use.\<close>

datatype cell = VInt int | VUuid uuid | VStr string | VNull

type_synonym db_row = "string \<Rightarrow> cell"

definition cells :: "(string \<times> cell) list \<Rightarrow> db_row" where
  "cells kvs c = (case map_of kvs c of None \<Rightarrow> VNull | Some v \<Rightarrow> v)"

definition table_rows :: "database \<Rightarrow> string \<Rightarrow> db_row list" where
  "table_rows db n = (case map_of
     [(''partners'', map (\<lambda>p. cells [(''id'', VInt (p_id p)), (''public_id'', VUuid (p_public_id p)), (''slug'', VStr (p_slug p))])
        (db_partners db)),
      (''partner_endpoints'', map (\<lambda>ep. cells [(''id'', VUuid (ep_id ep)), (''partner_id'', VInt (ep_partner_id ep))])
        (db_endpoints db)),
      (''deliveries'', map (\<lambda>d. cells [(''id'', VInt (d_id d)), (''public_id'', VUuid (d_public_id d)),
          (''partner_id'', VInt (d_partner_id d)), (''endpoint_id'', VUuid (d_endpoint_id d)),
          (''idempotency_key'', VStr (d_idempotency_key d))]) (db_deliveries db)),
      (''delivery_attempts'', map (\<lambda>a. cells [(''id'', VUuid (at_id a)), (''delivery_id'', VInt (at_delivery_id a)),
          (''attempt_number'', VInt (at_attempt_number a))]) (db_attempts db)),
      (''dead_letters'', map (\<lambda>l. cells [(''id'', VUuid (dl_id l)), (''delivery_id'', VInt (dl_delivery_id l)),
          (''partner_id'', VInt (dl_partner_id l))]) (db_dead_letters db)),
      (''inbound_events'', map (\<lambda>ie. cells [(''id'', VUuid (ie_id ie)), (''partner_id'', VInt (ie_partner_id ie)),
          (''idempotency_key'', VStr (ie_idempotency_key ie))]) (db_inbound_events db)),
      (''partner_api_keys'', map (\<lambda>k. cells [(''id'', VUuid (ak_id k)), (''partner_id'', VInt (ak_partner_id k))])
        (db_api_keys db)),
      (''audit_logs'', map (\<lambda>a. cells [(''id'', VUuid (al_id a))]) (db_audit_logs db)),
      (''outbox_events'', map (\<lambda>ob. cells [(''id'', VInt (ob_id ob))]) (db_outbox db)),
      (''partner_signing_secrets'', map (\<lambda>x. cells [(''id'', VUuid (ss_id x)), (''partner_id'', VInt (ss_partner_id x))])
        (db_signing_secrets db)),
      (''payload_schemas'', map (\<lambda>x. cells [(''id'', VUuid (ps_id x)), (''event_type'', VStr (ps_event_type x)),
          (''version'', VInt (ps_version x))]) (db_payload_schemas db)),
      (''replay_approvals'', map (\<lambda>a. cells [(''id'', VUuid (ra_id a)), (''delivery_id'', VInt (ra_delivery_id a))])
        (db_replay_approvals db))] n of None \<Rightarrow> [] | Some rows \<Rightarrow> rows)"

text \<open>What a constraint demands of the rows; the columns the keys use are NOT NULL.\<close>

fun constraint_holds :: "database \<Rightarrow> string \<Rightarrow> table_constraint \<Rightarrow> bool" where
  "constraint_holds db n (PrimaryKeyConstraint cs) = unique_on (\<lambda>r. map r cs) (table_rows db n)"
| "constraint_holds db n (UniqueConstraint cs) = unique_on (\<lambda>r. map r cs) (table_rows db n)"
| "constraint_holds db n (ForeignKeyConstraint c t d) =
     references (\<lambda>r. r c) (table_rows db n) (\<lambda>r. r d) (table_rows db t)"

definition schema_holds :: "schema \<Rightarrow> database \<Rightarrow> bool" where
  "schema_holds s db \<longleftrightarrow> list_all (\<lambda>(n, t). list_all (constraint_holds db n) (ta_constraints t)) (sc_tables s)"

definition keys_not_null :: "schema \<Rightarrow> bool" where
  "keys_not_null s \<longleftrightarrow> list_all (\<lambda>(n, t). list_all (\<lambda>c. list_ex (\<lambda>x. co_name x = c \<and> \<not> co_nullable x) (ta_columns t))
     (concat (map constraint_columns (ta_constraints t)))) (sc_tables s)"

definition head_constraints :: "(string \<times> table_constraint list) list" where
  "head_constraints =
     [(''partners'', [PrimaryKeyConstraint [''id''], UniqueConstraint [''public_id''], UniqueConstraint [''slug'']]),
      (''partner_endpoints'', [ForeignKeyConstraint ''partner_id'' ''partners'' ''id'', PrimaryKeyConstraint [''id'']]),
      (''deliveries'', [ForeignKeyConstraint ''endpoint_id'' ''partner_endpoints'' ''id'',
         ForeignKeyConstraint ''partner_id'' ''partners'' ''id'', PrimaryKeyConstraint [''id''],
         UniqueConstraint [''partner_id'', ''idempotency_key''], UniqueConstraint [''public_id'']]),
      (''delivery_attempts'', [ForeignKeyConstraint ''delivery_id'' ''deliveries'' ''id'', PrimaryKeyConstraint [''id''],
         UniqueConstraint [''delivery_id'', ''attempt_number'']]),
      (''dead_letters'', [ForeignKeyConstraint ''delivery_id'' ''deliveries'' ''id'',
         ForeignKeyConstraint ''partner_id'' ''partners'' ''id'', PrimaryKeyConstraint [''id''], UniqueConstraint [''delivery_id'']]),
      (''inbound_events'', [ForeignKeyConstraint ''partner_id'' ''partners'' ''id'', PrimaryKeyConstraint [''id''],
         UniqueConstraint [''partner_id'', ''idempotency_key'']]),
      (''partner_api_keys'', [ForeignKeyConstraint ''partner_id'' ''partners'' ''id'', PrimaryKeyConstraint [''id'']]),
      (''audit_logs'', [PrimaryKeyConstraint [''id'']]),
      (''outbox_events'', [PrimaryKeyConstraint [''id'']]),
      (''partner_signing_secrets'', [ForeignKeyConstraint ''partner_id'' ''partners'' ''id'', PrimaryKeyConstraint [''id'']]),
      (''payload_schemas'', [PrimaryKeyConstraint [''id''], UniqueConstraint [''event_type'', ''version'']]),
      (''replay_approvals'', [ForeignKeyConstraint ''delivery_id'' ''deliveries'' ''id'', PrimaryKeyConstraint [''id'']])]"

definition constraints_at :: "schema \<Rightarrow> (string \<times> table_constraint list) list" where
  "constraints_at s = map (\<lambda>(n, t). (n, ta_constraints t)) (sc_tables s)"

lemma head_reached:
  "case run_ddl upgrade_head empty_schema of Inl _ \<Rightarrow> False
     | Inr s \<Rightarrow> constraints_at s = head_constraints \<and> keys_not_null s"
  by code_simp

lemma unique_on_map [simp]: "unique_on f (map g rows) = unique_on (\<lambda>x. f (g x)) rows"
  by (simp add: unique_on_def o_def)

lemma references_map [simp]:
  "references f (map g rows) h targets = references (\<lambda>x. f (g x)) rows h targets"
  "references f' rows' h' (map k targets') = references f' rows' (\<lambda>x. h' (k x)) targets'"
  by (simp_all add: references_def list.pred_map o_def)

lemma unique_on_same: "(\<And>x y. f x = f y \<longleftrightarrow> g x = g y) \<Longrightarrow> unique_on f rows = unique_on g rows"
  by (auto simp: unique_on_def distinct_map inj_on_def)

lemma unique_cells [simp]:
  "unique_on (\<lambda>x. [VInt (f x)]) rows = unique_on f rows"
  "unique_on (\<lambda>x. [VUuid (g x)]) rows = unique_on g rows"
  "unique_on (\<lambda>x. [VStr (h x)]) rows = unique_on h rows"
  "unique_on (\<lambda>x. [VInt (f x), VInt (f' x)]) rows = unique_on (\<lambda>x. (f x, f' x)) rows"
  "unique_on (\<lambda>x. [VInt (f x), VStr (h x)]) rows = unique_on (\<lambda>x. (f x, h x)) rows"
  "unique_on (\<lambda>x. [VStr (h x), VInt (f x)]) rows = unique_on (\<lambda>x. (h x, f x)) rows"
  by (rule unique_on_same; simp)+

lemma reference_cells [simp]:
  "references (\<lambda>x. VInt (f x)) rows (\<lambda>y. VInt (k y)) targets = references f rows k targets"
  "references (\<lambda>x. VUuid (g x)) rows (\<lambda>y. VUuid (l y)) targets = references g rows l targets"
  by (auto simp: references_def list_all_iff)

text \<open>
  C31. The constraints of the model are those of the migrations: upgrading an empty database to head
  succeeds, every column of a key is NOT NULL there, and a database satisfies the primary keys,
  unique constraints and foreign keys the revisions declare exactly when \<open>constraints_ok\<close> holds of it.
\<close>

theorem constraints_from_migrations:
  "\<exists>s. run_ddl upgrade_head empty_schema = Inr s \<and> keys_not_null s \<and> (constraints_ok db \<longleftrightarrow> schema_holds s db)"
proof -
  obtain s where s: "run_ddl upgrade_head empty_schema = Inr s" "constraints_at s = head_constraints" "keys_not_null s"
    using head_reached by (auto split: sum.splits)
  have "schema_holds s db \<longleftrightarrow> list_all (\<lambda>(n, cs). list_all (constraint_holds db n) cs) (constraints_at s)"
    by (auto simp: schema_holds_def constraints_at_def list_all_iff)
  also have "\<dots> \<longleftrightarrow> constraints_ok db"
    unfolding s(2) head_constraints_def
    by (simp add: table_rows_def cells_def constraints_ok_def table_ok_defs) (rule iffI; simp)
  finally show ?thesis using s by blast
qed

section \<open>A column that is too narrow\<close>

definition column_type_at :: "schema \<Rightarrow> string \<Rightarrow> string \<Rightarrow> column_type option" where
  "column_type_at s n c = (case map_of (sc_tables s) n of None \<Rightarrow> None
     | Some t \<Rightarrow> map_option co_type (find (\<lambda>x. co_name x = c) (ta_columns t)))"

lemma idempotency_column:
  "case run_ddl upgrade_head empty_schema of Inl _ \<Rightarrow> False
     | Inr s \<Rightarrow> column_type_at s ''deliveries'' ''idempotency_key'' = Some (Varchar 255)"
  by code_simp

text \<open>
  The key stored with a delivery is the client key with the endpoint identifier, and no bound is put
  on the client key: from 218 characters on it does not fit the column.
\<close>

lemma long_client_key_does_not_fit:
  assumes "218 \<le> length client_key"
  shows "\<exists>s n. run_ddl upgrade_head empty_schema = Inr s \<and>
     column_type_at s ''deliveries'' ''idempotency_key'' = Some (Varchar n) \<and> n < length (derived_idempotency_key client_key u)"
  using idempotency_column assms by (auto simp: derived_idempotency_key_def split: sum.splits)

section \<open>The data step of revision 4\<close>

definition stored_column_secrets :: "database \<Rightarrow> (int \<times> bytes) list" where
  "stored_column_secrets db =
     concat (map (\<lambda>p. case p_signing_secret_encrypted p of None \<Rightarrow> [] | Some c \<Rightarrow> [(p_id p, c)]) (db_partners db))"

definition backfill_row :: "('r, 'k) env \<Rightarrow> int \<times> bytes \<Rightarrow> ('r, 'k, unit) hub" where
  "backfill_row e row =
     bindE (generate_uuidv7 e) (\<lambda>u. bindE utcnow (\<lambda>now.
     update_db (\<lambda>db. db\<lparr>db_signing_secrets := db_signing_secrets db @
       [\<lparr>ss_id = u, ss_partner_id = fst row, ss_secret_encrypted = snd row, ss_version = 1, ss_status = PRIMARY,
         ss_valid_from = now, ss_valid_until = None, ss_created_at = now\<rparr>]\<rparr>)))"

definition backfill_signing_secrets :: "('r, 'k) env \<Rightarrow> ('r, 'k, unit) hub" where
  "backfill_signing_secrets e =
     bindE (gets (\<lambda>w. stored_column_secrets (w_db w))) (\<lambda>partners.
     seqE (mapE (backfill_row e) partners) (ret ()))"

abbreviation owner_and_secret :: "partner_signing_secret \<Rightarrow> int \<times> bytes" where
  "owner_and_secret r \<equiv> (ss_partner_id r, ss_secret_encrypted r)"

lemma backfill_rows_run:
  fixes w :: "('r, 'k) world"
  shows "\<exists>us w' rows. mapE (backfill_row e) pairs w = (Inr us, w') \<and>
     w_db w' = (w_db w)\<lparr>db_signing_secrets := db_signing_secrets (w_db w) @ rows\<rparr> \<and> w_clock w' = w_clock w \<and>
     map owner_and_secret rows = pairs \<and> list_all (\<lambda>r. ss_status r = PRIMARY) rows"
proof (induction pairs arbitrary: w)
  case Nil
  then show ?case by (simp add: run_simps)
next
  case (Cons pair pairs)
  let ?r = "\<lparr>ss_id = uuid7 e (w_draws w), ss_partner_id = fst pair, ss_secret_encrypted = snd pair, ss_version = 1,
    ss_status = PRIMARY, ss_valid_from = w_clock w, ss_valid_until = None, ss_created_at = w_clock w\<rparr>"
  let ?w = "w\<lparr>w_draws := Suc (w_draws w), w_db := (w_db w)\<lparr>db_signing_secrets := db_signing_secrets (w_db w) @ [?r]\<rparr>\<rparr>"
  have one: "backfill_row e pair w = (Inr (), ?w)" by (simp add: backfill_row_def run_simps)
  obtain us w' rows where "mapE (backfill_row e) pairs ?w = (Inr us, w')"
      "w_db w' = (w_db ?w)\<lparr>db_signing_secrets := db_signing_secrets (w_db ?w) @ rows\<rparr>" "w_clock w' = w_clock w"
      "map owner_and_secret rows = pairs" "list_all (\<lambda>r. ss_status r = PRIMARY) rows"
    using Cons.IH [of ?w] by auto
  with one show ?case by (intro exI [of _ "() # us"] exI [of _ w'] exI [of _ "?r # rows"]) (simp add: bindE_run ret_apply)
qed

lemma backfill_run:
  fixes w :: "('r, 'k) world"
  obtains w' rows where "backfill_signing_secrets e w = (Inr (), w')"
    "w_db w' = (w_db w)\<lparr>db_signing_secrets := db_signing_secrets (w_db w) @ rows\<rparr>" "w_clock w' = w_clock w"
    "map owner_and_secret rows = stored_column_secrets (w_db w)" "list_all (\<lambda>r. ss_status r = PRIMARY) rows"
  using backfill_rows_run [of e "stored_column_secrets (w_db w)" w]
  by (auto simp: backfill_signing_secrets_def bindE_run seqE_run gets_apply ret_apply)

lemma stored_secret_of:
  assumes "unique_on p_id (db_partners db)" "p \<in> set (db_partners db)"
  shows "filter (\<lambda>x. fst x = p_id p) (stored_column_secrets db) =
     (case p_signing_secret_encrypted p of None \<Rightarrow> [] | Some c \<Rightarrow> [(p_id p, c)])"
proof -
  define F where "F = (\<lambda>p :: partner. case p_signing_secret_encrypted p of None \<Rightarrow> [] | Some c \<Rightarrow> [(p_id p, c)])"
  have "filter (\<lambda>x. fst x = i) (concat (map F ps)) = concat (map F (filter (\<lambda>q. p_id q = i) ps))" for i ps
    by (induction ps) (auto simp: F_def split: option.splits)
  from this [of "p_id p" "db_partners db"] show ?thesis
    unfolding stored_column_secrets_def F_def [symmetric] filter_unique_on [OF assms] by (simp add: F_def)
qed

lemma backfilled_primary:
  assumes "map owner_and_secret rows = stored_column_secrets db" "list_all (\<lambda>r. ss_status r = PRIMARY) rows"
    "unique_on p_id (db_partners db)" "p \<in> set (db_partners db)"
  shows "map owner_and_secret (filter (\<lambda>r. ss_partner_id r = p_id p \<and> ss_status r = PRIMARY) rows) =
     (case p_signing_secret_encrypted p of None \<Rightarrow> [] | Some c \<Rightarrow> [(p_id p, c)])"
proof -
  have "filter (\<lambda>r. ss_partner_id r = p_id p \<and> ss_status r = PRIMARY) rows = filter (\<lambda>r. fst (owner_and_secret r) = p_id p) rows"
    using assms(2) by (induction rows) auto
  then have "map owner_and_secret (filter (\<lambda>r. ss_partner_id r = p_id p \<and> ss_status r = PRIMARY) rows) =
      filter (\<lambda>x. fst x = p_id p) (map owner_and_secret rows)"
    by (simp add: filter_map o_def)
  then show ?thesis using stored_secret_of [OF assms(3,4)] assms(1) by simp
qed

text \<open>
  C32. Revision 4 keeps every signing secret. Run on a database whose new table is empty, it succeeds,
  and for every partner the secret its outbound messages are signed with and the secrets its inbound
  webhooks are verified with are the ones from before, now read from the new table.
\<close>

theorem backfill_keeps_secrets:
  assumes "db_signing_secrets (w_db w) = []" and "unique_on p_id (db_partners (w_db w))"
    and "p \<in> set (db_partners (w_db w))" and "p_signing_secret_encrypted p \<noteq> Some []"
  shows "\<exists>w'. backfill_signing_secrets e w = (Inr (), w') \<and> db_partners (w_db w') = db_partners (w_db w) \<and>
     length (primary_rows (p_id p) (w_db w')) = (if p_signing_secret_encrypted p = None then 0 else 1) \<and>
     fst (load_outbound_primary_secret e p stg w') = fst (load_outbound_primary_secret e p stg w) \<and>
     fst (load_inbound_signing_secrets e p stg t w') = fst (load_inbound_signing_secrets e p stg t w)"
proof -
  obtain w' rows where run: "backfill_signing_secrets e w = (Inr (), w')"
    and db0: "w_db w' = (w_db w)\<lparr>db_signing_secrets := db_signing_secrets (w_db w) @ rows\<rparr>" and clock: "w_clock w' = w_clock w"
    and rows: "map owner_and_secret rows = stored_column_secrets (w_db w)" "list_all (\<lambda>r. ss_status r = PRIMARY) rows"
    by (rule backfill_run [of e w])
  have db: "w_db w' = (w_db w)\<lparr>db_signing_secrets := rows\<rparr>" using db0 assms(1) by simp
  have before: "primary_rows (p_id p) (w_db w) = []" using assms(1) by (simp add: primary_rows_def)
  have prev: "previous_rows (p_id p) (w_db w') = []"
    using rows(2) by (auto simp: previous_rows_def db filter_empty_conv list_all_iff)
  note after = backfilled_primary [OF rows assms(2,3)]
  show ?thesis
  proof (cases "p_signing_secret_encrypted p")
    case None
    with after have "primary_rows (p_id p) (w_db w') = []" by (simp add: primary_rows_def db)
    with None before run db clock show ?thesis
      by (simp add: load_outbound_primary_secret_def load_inbound_signing_secrets_def fetch_primary_row_def bindE_run gets_apply
          one_or_none_simps ret_apply utcnow_apply split: option.split)
  next
    case (Some c)
    with after obtain r where r: "primary_rows (p_id p) (w_db w') = [r]" "ss_secret_encrypted r = c"
      by (auto simp: primary_rows_def db)
    with Some before prev run db clock assms(4) show ?thesis
      by (auto simp: load_outbound_primary_secret_def load_inbound_signing_secrets_def fetch_primary_row_def fetch_previous_rows_def
          column_secret_def bindE_run gets_apply one_or_none_simps ret_apply utcnow_apply split: option.split sum.split)
  qed
qed

theorem backfill_keeps_secrets_witness:
  "\<exists>w'. backfill_signing_secrets mem_env (sample_world\<lparr>w_db := sample_db\<lparr>db_signing_secrets := [],
       db_partners := [sample_partner\<lparr>p_signing_secret_encrypted := Some ''old''\<rparr>]\<rparr>\<rparr>) = (Inr (), w') \<and>
     length (primary_rows 1 (w_db w')) = 1"
  using backfill_keeps_secrets [of "sample_world\<lparr>w_db := sample_db\<lparr>db_signing_secrets := [],
       db_partners := [sample_partner\<lparr>p_signing_secret_encrypted := Some ''old''\<rparr>]\<rparr>\<rparr>"
       "sample_partner\<lparr>p_signing_secret_encrypted := Some ''old''\<rparr>" mem_env]
  by (auto simp: unique_on_def sample_partner_def)

end
