(* ===== verification/Seeds.thy ===== *)
theory Seeds
  imports AdminPartners
begin

text \<open>
  \<open>scripts/seed_common.py\<close>: the demo partners and the upsert that brings each of them, its outbound
  endpoint and an API key into a database, and the proof that seeding is idempotent. A query first
  flushes what the session holds. The command line front ends only print the results.
\<close>

section \<open>The seeds\<close>

definition PARTNER_MOCK_BASE :: string where "PARTNER_MOCK_BASE = ''http://partner-mock:8090''"
definition CANONICAL_EVENT_TYPES :: "string list" where "CANONICAL_EVENT_TYPES = [''order.created'', ''order.updated'']"
definition SEED_WRITE_SCOPE :: string where "SEED_WRITE_SCOPE = ''inbound:write''"

definition CANONICAL_SLUGS :: "string list" where
  "CANONICAL_SLUGS = [''acme-erp'', ''flaky-logistics'', ''strict-payments'', ''slow-crm'']"

record PartnerSeed =
  sd_slug :: string
  sd_name :: string
  sd_webhook_path :: string
  sd_sla_seconds :: int
  sd_status :: PartnerStatus
  sd_timeout_read_ms :: int

text \<open>The defaults of the dataclass.\<close>

definition partner_seed :: "string \<Rightarrow> string \<Rightarrow> string \<Rightarrow> int \<Rightarrow> PartnerSeed" where
  "partner_seed slug name webhook_path sla_seconds =
     \<lparr>sd_slug = slug, sd_name = name, sd_webhook_path = webhook_path, sd_sla_seconds = sla_seconds,
      sd_status = PartnerStatus.ACTIVE, sd_timeout_read_ms = 10000\<rparr>"

definition canonical_partner_seeds :: "PartnerSeed list" where
  "canonical_partner_seeds =
     [partner_seed ''acme-erp'' ''Acme ERP'' ''/webhook'' 60,
      partner_seed ''flaky-logistics'' ''Flaky Logistics'' ''/webhook/fail_503_then_ok'' 60,
      partner_seed ''strict-payments'' ''Strict Payments'' ''/webhook/fail_400'' 60,
      (partner_seed ''slow-crm'' ''Slow CRM'' ''/webhook/timeout'' 30)\<lparr>sd_timeout_read_ms := 5000\<rparr>]"

definition prod_like_extra_seeds :: "PartnerSeed list" where
  "prod_like_extra_seeds =
     [partner_seed ''zenith-erp'' ''Zenith ERP'' ''/webhook'' 90,
      partner_seed ''continental-logistics'' ''Continental Logistics'' ''/webhook/fail_503_then_ok'' 120,
      (partner_seed ''apex-payments'' ''Apex Payments'' ''/webhook'' 45)\<lparr>sd_status := SUSPENDED\<rparr>,
      partner_seed ''velocity-crm'' ''Velocity CRM'' ''/webhook'' 15,
      partner_seed ''northstar-erp'' ''Northstar ERP'' ''/webhook/fail_429'' 75,
      partner_seed ''harbor-logistics'' ''Harbor Logistics'' ''/webhook'' 180]"

text \<open>\<open>str.replace\<close> with a pattern that is not empty.\<close>

function py_replace :: "string \<Rightarrow> string \<Rightarrow> string \<Rightarrow> string" where
  "py_replace old new [] = []"
| "py_replace old new (c # cs) =
     (if old \<noteq> [] \<and> py_startswith (c # cs) old then new @ py_replace old new (drop (length old) (c # cs))
      else c # py_replace old new cs)"
  by pat_completeness auto
termination by (relation "measure (\<lambda>(old, new, s). length s)") auto

definition resolve_database_url :: "string \<Rightarrow> string" where
  "resolve_database_url raw_url =
     (if py_in ''@postgres:'' raw_url then py_replace ''@postgres:'' ''@localhost:'' raw_url else raw_url)"

definition webhook_url :: "string \<Rightarrow> string" where
  "webhook_url path = PARTNER_MOCK_BASE @ path"

section \<open>The upsert\<close>

definition partners_named :: "string \<Rightarrow> database \<Rightarrow> partner list" where
  "partners_named slug db = filter (\<lambda>p. p_slug p = slug) (db_partners db)"

definition load_seed_partner :: "string \<Rightarrow> ('r, 'k, partner option) hub" where
  "load_seed_partner slug = seqE flush (bindE (gets (\<lambda>w. partners_named slug (w_db w))) one_or_none)"

definition outbound_of :: "int \<Rightarrow> database \<Rightarrow> partner_endpoint list" where
  "outbound_of i db = filter (\<lambda>ep. ep_partner_id ep = i \<and> ep_direction ep = EndpointDirection.OUTBOUND) (db_endpoints db)"

definition load_outbound_endpoint :: "int \<Rightarrow> ('r, 'k, partner_endpoint option) hub" where
  "load_outbound_endpoint partner_id = seqE flush (bindE (gets (\<lambda>w. outbound_of partner_id (w_db w))) one_or_none)"

definition active_keys_of :: "int \<Rightarrow> database \<Rightarrow> partner_api_key list" where
  "active_keys_of i db = filter (\<lambda>k. ak_partner_id k = i \<and> ak_revoked_at k = None) (db_api_keys db)"

definition load_active_api_key :: "int \<Rightarrow> ('r, 'k, partner_api_key option) hub" where
  "load_active_api_key partner_id = seqE flush (bindE (gets (\<lambda>w. active_keys_of partner_id (w_db w))) one_or_none)"

definition seed_on_partner :: "PartnerSeed \<Rightarrow> partner \<Rightarrow> partner" where
  "seed_on_partner seed p = p\<lparr>p_name := sd_name seed, p_status := sd_status seed, p_sla_seconds := sd_sla_seconds seed\<rparr>"

definition seed_on_endpoint :: "PartnerSeed \<Rightarrow> partner_endpoint \<Rightarrow> partner_endpoint" where
  "seed_on_endpoint seed ep = ep\<lparr>ep_url := webhook_url (sd_webhook_path seed), ep_event_types := CANONICAL_EVENT_TYPES,
     ep_status := EndpointStatus.ACTIVE, ep_sla_seconds := Some (sd_sla_seconds seed),
     ep_timeout_read_ms := sd_timeout_read_ms seed\<rparr>"

definition insert_seed_partner :: "('r, 'k) env \<Rightarrow> PartnerSeed \<Rightarrow> bytes \<Rightarrow> ('r, 'k, partner) hub" where
  "insert_seed_partner e seed encrypted =
     bindE (generate_uuidv7 e) (\<lambda>u. bindE utcnow (\<lambda>stamp. bindE (gets (\<lambda>w. w_seq_partners w + 1)) (\<lambda>n.
     let p = \<lparr>p_id = n, p_public_id = u, p_slug = sd_slug seed, p_name = sd_name seed, p_status = sd_status seed,
              p_sla_seconds = sd_sla_seconds seed, p_auto_replay_enabled = False, p_circuit_breaker_config = JObj [],
              p_rate_limit_rps = 100, p_signing_secret_encrypted = Some encrypted,
              p_created_at = Some stamp, p_updated_at = Some stamp\<rparr> in
     seqE (modify (\<lambda>w. w\<lparr>w_seq_partners := n, w_db := (w_db w)\<lparr>db_partners := db_partners (w_db w) @ [p]\<rparr>\<rparr>))
     (seqE flush (ret p)))))"

definition upsert_seed_partner ::
  "('r, 'k) env \<Rightarrow> PartnerSeed \<Rightarrow> string \<Rightarrow> ('r, 'k, partner \<times> bool \<times> string option) hub" where
  "upsert_seed_partner e seed fernet =
     bindE (load_seed_partner (sd_slug seed)) (\<lambda>found.
     case found of
       None \<Rightarrow>
         bindE (generate_signing_secret e) (\<lambda>signing_secret.
         bindE (encrypt_signing_secret e (utf8_encode signing_secret) fernet) (\<lambda>encrypted.
         bindE (insert_seed_partner e seed encrypted) (\<lambda>p.
         bindE utcnow (\<lambda>now.
         seqE (insert_primary_signing_secret e (p_id p) encrypted 1 now)
         (ret (p, True, Some signing_secret))))))
     | Some p \<Rightarrow>
         seqE (save_partner p (seed_on_partner seed p)) (ret (seed_on_partner seed p, False, None)))"

definition upsert_seed_endpoint :: "('r, 'k) env \<Rightarrow> PartnerSeed \<Rightarrow> int \<Rightarrow> ('r, 'k, unit) hub" where
  "upsert_seed_endpoint e seed partner_id =
     bindE (load_outbound_endpoint partner_id) (\<lambda>found.
     case found of
       None \<Rightarrow>
         bindE (generate_uuidv7 e) (\<lambda>u. bindE utcnow (\<lambda>stamp.
         update_db (\<lambda>db. db\<lparr>db_endpoints := db_endpoints db @
           [\<lparr>ep_id = u, ep_partner_id = partner_id, ep_direction = EndpointDirection.OUTBOUND,
             ep_url = webhook_url (sd_webhook_path seed), ep_event_types = CANONICAL_EVENT_TYPES,
             ep_status = EndpointStatus.ACTIVE, ep_sla_seconds = Some (sd_sla_seconds seed), ep_max_attempts = 8,
             ep_backoff_policy = JObj [], ep_retry_on_status_codes = [], ep_timeout_connect_ms = 3000,
             ep_timeout_read_ms = sd_timeout_read_ms seed, ep_created_at = Some stamp, ep_updated_at = Some stamp\<rparr>]\<rparr>)))
     | Some ep \<Rightarrow> save_endpoint ep (seed_on_endpoint seed ep))"

definition ensure_seed_key :: "('r, 'k) env \<Rightarrow> int \<Rightarrow> ('r, 'k, string option) hub" where
  "ensure_seed_key e partner_id =
     bindE (load_active_api_key partner_id) (\<lambda>found.
     case found of
       Some k \<Rightarrow> ret None
     | None \<Rightarrow>
         bindE (generate_api_key e) (\<lambda>(api_key_plain, prefix, key_hash).
         bindE (generate_uuidv7 e) (\<lambda>u. bindE utcnow (\<lambda>stamp.
         seqE (update_db (\<lambda>db. db\<lparr>db_api_keys := db_api_keys db @
           [\<lparr>ak_id = u, ak_partner_id = partner_id, ak_key_prefix = prefix, ak_key_hash = key_hash,
             ak_scopes = [SEED_WRITE_SCOPE], ak_expires_at = None, ak_revoked_at = None, ak_created_at = stamp\<rparr>]\<rparr>))
         (ret (Some api_key_plain))))))"

record SeedResult =
  sr_slug :: string
  sr_partner_public_id :: string
  sr_created :: bool
  sr_signing_secret :: "string option"
  sr_api_key :: "string option"

definition upsert_partner_seed ::
  "('r, 'k) env \<Rightarrow> string \<Rightarrow> bool \<Rightarrow> PartnerSeed \<Rightarrow> ('r, 'k, SeedResult) hub" where
  "upsert_partner_seed e fernet print_secrets seed =
     bindE (upsert_seed_partner e seed fernet) (\<lambda>(p, created_partner, signing_secret).
     seqE (upsert_seed_endpoint e seed (p_id p))
     (bindE (ensure_seed_key e (p_id p)) (\<lambda>api_key_plain.
     seqE flush
     (ret \<lparr>sr_slug = sd_slug seed, sr_partner_public_id = str_uuid (p_public_id p), sr_created = created_partner,
           sr_signing_secret = (if print_secrets then signing_secret else None),
           sr_api_key = (if print_secrets then api_key_plain else None)\<rparr>))))"

definition seed_partners ::
  "('r, 'k) env \<Rightarrow> settings \<Rightarrow> PartnerSeed list \<Rightarrow> bool \<Rightarrow> ('r, 'k, SeedResult list) hub" where
  "seed_partners e stg seeds print_secrets =
     (if fernet_key stg = [] then throw (SystemExit ''FERNET_KEY is required for seeding signing secrets.'')
      else with_session (bindE (mapE (upsert_partner_seed e (fernet_key stg) print_secrets) seeds) (\<lambda>results.
           seqE commit (ret results))))"

section \<open>What an upsert establishes\<close>

definition seeded :: "PartnerSeed \<Rightarrow> database \<Rightarrow> bool" where
  "seeded seed db \<longleftrightarrow> (\<exists>p ep k. partners_named (sd_slug seed) db = [p] \<and> seed_on_partner seed p = p \<and>
     outbound_of (p_id p) db = [ep] \<and> seed_on_endpoint seed ep = ep \<and> active_keys_of (p_id p) db = [k])"

text \<open>On a seeded partner an upsert does nothing.\<close>

lemma upsert_again:
  assumes "seeded seed (w_db w)" "constraints_ok (w_db w)"
  shows "\<exists>r. upsert_partner_seed e fernet pr seed w = (Inr r, w) \<and> \<not> sr_created r \<and> sr_slug r = sd_slug seed \<and>
     sr_signing_secret r = None \<and> sr_api_key r = None"
proof -
  obtain p ep k where s: "partners_named (sd_slug seed) (w_db w) = [p]" "seed_on_partner seed p = p"
      "outbound_of (p_id p) (w_db w) = [ep]" "seed_on_endpoint seed ep = ep" "active_keys_of (p_id p) (w_db w) = [k]"
    using assms(1) unfolding seeded_def by blast
  then show ?thesis using assms(2)
    by (simp add: upsert_partner_seed_def upsert_seed_partner_def load_seed_partner_def upsert_seed_endpoint_def load_outbound_endpoint_def
        ensure_seed_key_def load_active_api_key_def save_partner_def save_endpoint_def flush_def bindE_run seqE_run gets_apply
        one_or_none_simps ret_apply utcnow_apply update_db_apply)
qed

lemma upserts_again:
  assumes "\<And>s. s \<in> set seeds \<Longrightarrow> seeded s (w_db w)" "constraints_ok (w_db w)"
  shows "\<exists>rs. mapE (upsert_partner_seed e fernet pr) seeds w = (Inr rs, w) \<and> map sr_slug rs = map sd_slug seeds \<and>
     list_all (\<lambda>r. \<not> sr_created r \<and> sr_signing_secret r = None \<and> sr_api_key r = None) rs"
  using assms(1)
proof (induction seeds)
  case (Cons s seeds)
  from upsert_again [of s w e fernet pr] Cons.prems assms(2) obtain r where
    r: "upsert_partner_seed e fernet pr s w = (Inr r, w)" "\<not> sr_created r" "sr_slug r = sd_slug s"
      "sr_signing_secret r = None" "sr_api_key r = None" by auto
  from Cons obtain rs where "mapE (upsert_partner_seed e fernet pr) seeds w = (Inr rs, w)" "map sr_slug rs = map sd_slug seeds"
      "list_all (\<lambda>r. \<not> sr_created r \<and> sr_signing_secret r = None \<and> sr_api_key r = None) rs" by auto
  with r show ?case by (intro exI [of _ "r # rs"]) (simp add: bindE_run ret_apply)
qed (simp add: run_simps)

lemma singleton_filter: "filter Q rows = [a] \<Longrightarrow> a \<in> set rows \<and> Q a"
  by (metis filter_eq_ConsD in_set_conv_decomp)

text \<open>The rows an update of one of them leaves, seen through a filter that keeps the row in or out.\<close>

lemma filter_put_row_in:
  assumes "unique_on key rows" "filter Q rows = [a]" "Q r" "key r = key a"
  shows "filter Q (put_row key r rows) = [r]"
proof -
  have m: "a \<in> set rows" using singleton_filter [OF assms(2)] by simp
  have "key x = key a \<longleftrightarrow> x = a" if "x \<in> set rows" for x using unique_onD [OF assms(1)] m that by blast
  then have "put_row key r rows = map (\<lambda>x. if x = a then r else x) rows"
    using assms(4) by (auto simp: put_row_def)
  moreover have "filter Q (map (\<lambda>x. if x = a then r else x) rows) = map (\<lambda>x. if x = a then r else x) (filter Q rows)"
  proof -
    have "Q (if x = a then r else x) = Q x" for x using singleton_filter [OF assms(2)] assms(3) by simp
    then show ?thesis by (simp add: filter_map o_def)
  qed
  ultimately show ?thesis using assms(2) by simp
qed

lemma filter_put_row_out:
  assumes "\<And>x. x \<in> set rows \<Longrightarrow> key x = key r \<Longrightarrow> \<not> Q x" "\<not> Q r"
  shows "filter Q (put_row key r rows) = filter Q rows"
  using assms by (induction rows) (auto simp: put_row_def)

lemma flushed_query:
  "seqE flush (bindE (gets f) one_or_none) w = (Inr x, w') \<longleftrightarrow>
     constraints_ok (w_db w) \<and> w' = w \<and> (f w = [] \<and> x = None \<or> (\<exists>a. f w = [a] \<and> x = Some a))"
  by (auto simp: flush_def run_simps one_or_none_def split: list.splits)

text \<open>The partner: one row under the slug with the values of the seed, every other slug as it was.\<close>

lemma partner_stage:
  assumes "upsert_seed_partner e seed fernet w = (Inr (p, created, secret), w')" "constraints_ok (w_db w)"
  shows "\<exists>row. partners_named (sd_slug seed) (w_db w') = [row] \<and> p_id row = p_id p \<and> seed_on_partner seed row = row"
    and "\<And>slug. slug \<noteq> sd_slug seed \<Longrightarrow> partners_named slug (w_db w') = partners_named slug (w_db w)"
    and "db_endpoints (w_db w') = db_endpoints (w_db w)" "db_api_keys (w_db w') = db_api_keys (w_db w)"
    and "w_committed w' = w_committed w"
proof -
  let ?named = "partners_named (sd_slug seed) (w_db w)"
  consider (new) "?named = []" | (old) q where "?named = [q]"
    using assms(1) unfolding upsert_seed_partner_def load_seed_partner_def by (auto simp: bindE_Inr flushed_query)
  then have "(\<exists>row. partners_named (sd_slug seed) (w_db w') = [row] \<and> p_id row = p_id p \<and> seed_on_partner seed row = row) \<and>
     (\<forall>slug. slug \<noteq> sd_slug seed \<longrightarrow> partners_named slug (w_db w') = partners_named slug (w_db w)) \<and>
     db_endpoints (w_db w') = db_endpoints (w_db w) \<and> db_api_keys (w_db w') = db_api_keys (w_db w) \<and>
     w_committed w' = w_committed w"
  proof cases
    case new
    with assms show ?thesis
      by (auto simp: upsert_seed_partner_def load_seed_partner_def flush_def bindE_run seqE_run gets_apply one_or_none_simps ret_apply
          throw_apply generate_signing_secret_def encrypt_signing_secret_def insert_seed_partner_def insert_primary_signing_secret_def
          next_draw_apply generate_uuidv7_apply utcnow_apply modify_apply update_db_apply Let_def partners_named_def
          seed_on_partner_def split: if_splits prod.splits)
  next
    case (old q)
    let ?q = "seed_on_partner seed q"
    have q: "q \<in> set (db_partners (w_db w))" "p_slug q = sd_slug seed"
      using singleton_filter [OF old [unfolded partners_named_def]] by simp_all
    have u: "unique_on p_id (db_partners (w_db w))" using assms(2) by (simp add: constraints_ok_def partners_ok_def)
    have run: "p = ?q" "w' = w\<lparr>w_db := if ?q = q then w_db w else (w_db w)\<lparr>db_partners :=
        put_row p_id (?q\<lparr>p_updated_at := Some (w_clock w)\<rparr>) (db_partners (w_db w))\<rparr>\<rparr>"
      using assms old by (auto simp: upsert_seed_partner_def load_seed_partner_def flush_def bindE_run seqE_run gets_apply
          one_or_none_simps ret_apply save_partner_def utcnow_apply update_db_apply)
    have "partners_named (sd_slug seed) ((w_db w)\<lparr>db_partners :=
        put_row p_id (?q\<lparr>p_updated_at := Some (w_clock w)\<rparr>) (db_partners (w_db w))\<rparr>) = [?q\<lparr>p_updated_at := Some (w_clock w)\<rparr>]"
      using old q filter_put_row_in [OF u, of "\<lambda>p. p_slug p = sd_slug seed" q] by (simp add: partners_named_def seed_on_partner_def)
    moreover have "partners_named slug ((w_db w)\<lparr>db_partners :=
        put_row p_id (?q\<lparr>p_updated_at := Some (w_clock w)\<rparr>) (db_partners (w_db w))\<rparr>) = partners_named slug (w_db w)"
      if "slug \<noteq> sd_slug seed" for slug
      unfolding partners_named_def using q that unique_onD [OF u _ q(1)]
      by (simp add: seed_on_partner_def) (rule filter_put_row_out, auto simp: seed_on_partner_def)
    ultimately show ?thesis using run old
      by (auto simp: seed_on_partner_def)
  qed
  then show "\<exists>row. partners_named (sd_slug seed) (w_db w') = [row] \<and> p_id row = p_id p \<and> seed_on_partner seed row = row"
    and "\<And>slug. slug \<noteq> sd_slug seed \<Longrightarrow> partners_named slug (w_db w') = partners_named slug (w_db w)"
    and "db_endpoints (w_db w') = db_endpoints (w_db w)" "db_api_keys (w_db w') = db_api_keys (w_db w)"
    and "w_committed w' = w_committed w" by blast+
qed

text \<open>The endpoint: one outbound row of the partner with the values of the seed.\<close>

lemma endpoint_stage:
  assumes "upsert_seed_endpoint e seed i w = (Inr x, w')"
  shows "constraints_ok (w_db w)"
    and "\<exists>ep. outbound_of i (w_db w') = [ep] \<and> seed_on_endpoint seed ep = ep"
    and "\<And>j. j \<noteq> i \<Longrightarrow> outbound_of j (w_db w') = outbound_of j (w_db w)"
    and "db_partners (w_db w') = db_partners (w_db w)" "db_api_keys (w_db w') = db_api_keys (w_db w)"
    and "w_committed w' = w_committed w"
proof -
  let ?out = "outbound_of i (w_db w)"
  have c: "constraints_ok (w_db w) \<and> (?out = [] \<or> (\<exists>q. ?out = [q]))"
    using assms unfolding upsert_seed_endpoint_def load_outbound_endpoint_def by (auto simp: bindE_Inr flushed_query)
  then show "constraints_ok (w_db w)" by simp
  from c consider (new) "?out = []" | (old) q where "?out = [q]" by blast
  then have "(\<exists>ep. outbound_of i (w_db w') = [ep] \<and> seed_on_endpoint seed ep = ep) \<and>
     (\<forall>j. j \<noteq> i \<longrightarrow> outbound_of j (w_db w') = outbound_of j (w_db w)) \<and>
     db_partners (w_db w') = db_partners (w_db w) \<and> db_api_keys (w_db w') = db_api_keys (w_db w) \<and> w_committed w' = w_committed w"
  proof cases
    case new
    with assms c show ?thesis
      by (auto simp: upsert_seed_endpoint_def load_outbound_endpoint_def flush_def bindE_run seqE_run gets_apply one_or_none_simps
          ret_apply generate_uuidv7_apply utcnow_apply update_db_apply outbound_of_def seed_on_endpoint_def)
  next
    case (old q)
    let ?q = "seed_on_endpoint seed q"
    let ?db = "(w_db w)\<lparr>db_endpoints := put_row ep_id (?q\<lparr>ep_updated_at := Some (w_clock w)\<rparr>) (db_endpoints (w_db w))\<rparr>"
    have q: "q \<in> set (db_endpoints (w_db w))" "ep_partner_id q = i" "ep_direction q = EndpointDirection.OUTBOUND"
      using singleton_filter [OF old [unfolded outbound_of_def]] by simp_all
    have u: "unique_on ep_id (db_endpoints (w_db w))" using c by (simp add: constraints_ok_def endpoints_ok_def)
    have run: "w' = w\<lparr>w_db := if ?q = q then w_db w else ?db\<rparr>"
      using assms old c by (auto simp: upsert_seed_endpoint_def load_outbound_endpoint_def flush_def bindE_run seqE_run gets_apply
          one_or_none_simps ret_apply save_endpoint_def utcnow_apply update_db_apply)
    have "outbound_of i ?db = [?q\<lparr>ep_updated_at := Some (w_clock w)\<rparr>]"
      using old q filter_put_row_in [OF u, of "\<lambda>ep. ep_partner_id ep = i \<and> ep_direction ep = EndpointDirection.OUTBOUND" q]
      by (simp add: outbound_of_def seed_on_endpoint_def)
    moreover have "outbound_of j ?db = outbound_of j (w_db w)" if "j \<noteq> i" for j
    proof -
      have "x = q" if "x \<in> set (db_endpoints (w_db w))" "ep_id x = ep_id q" for x using unique_onD [OF u that(1) q(1) that(2)] .
      with q \<open>j \<noteq> i\<close> show ?thesis
        by (simp add: outbound_of_def) (rule filter_put_row_out, auto simp: seed_on_endpoint_def)
    qed
    ultimately show ?thesis using run old by (auto simp: seed_on_endpoint_def)
  qed
  then show "\<exists>ep. outbound_of i (w_db w') = [ep] \<and> seed_on_endpoint seed ep = ep"
    and "\<And>j. j \<noteq> i \<Longrightarrow> outbound_of j (w_db w') = outbound_of j (w_db w)"
    and "db_partners (w_db w') = db_partners (w_db w)" "db_api_keys (w_db w') = db_api_keys (w_db w)"
    and "w_committed w' = w_committed w" by blast+
qed

lemma key_stage:
  assumes "ensure_seed_key e i w = (Inr x, w')"
  shows "\<exists>k. active_keys_of i (w_db w') = [k]"
    and "\<And>j. j \<noteq> i \<Longrightarrow> active_keys_of j (w_db w') = active_keys_of j (w_db w)"
    and "db_partners (w_db w') = db_partners (w_db w)" "db_endpoints (w_db w') = db_endpoints (w_db w)"
    and "w_committed w' = w_committed w"
proof -
  let ?keys = "active_keys_of i (w_db w)"
  have c: "constraints_ok (w_db w) \<and> (?keys = [] \<or> (\<exists>q. ?keys = [q]))"
    using assms unfolding ensure_seed_key_def load_active_api_key_def by (auto simp: bindE_Inr flushed_query)
  then have "(\<exists>k. active_keys_of i (w_db w') = [k]) \<and> (\<forall>j. j \<noteq> i \<longrightarrow> active_keys_of j (w_db w') = active_keys_of j (w_db w)) \<and>
     db_partners (w_db w') = db_partners (w_db w) \<and> db_endpoints (w_db w') = db_endpoints (w_db w) \<and> w_committed w' = w_committed w"
    using assms
    by (auto simp: ensure_seed_key_def load_active_api_key_def flush_def bindE_run seqE_run gets_apply one_or_none_simps ret_apply
        generate_api_key_def next_draw_apply generate_uuidv7_apply utcnow_apply update_db_apply Let_def active_keys_of_def)
  then show "\<exists>k. active_keys_of i (w_db w') = [k]"
    and "\<And>j. j \<noteq> i \<Longrightarrow> active_keys_of j (w_db w') = active_keys_of j (w_db w)"
    and "db_partners (w_db w') = db_partners (w_db w)" "db_endpoints (w_db w') = db_endpoints (w_db w)"
    and "w_committed w' = w_committed w" by blast+
qed

lemma upsert_establishes:
  assumes run: "upsert_partner_seed e fernet pr seed w = (Inr r, w')" and ok: "constraints_ok (w_db w)"
  shows "constraints_ok (w_db w')" "w_committed w' = w_committed w" "seeded seed (w_db w')"
    and "\<And>s. sd_slug s \<noteq> sd_slug seed \<Longrightarrow> seeded s (w_db w) \<Longrightarrow> seeded s (w_db w')"
proof -
  obtain p cr sec w1 x w2 y where st: "upsert_seed_partner e seed fernet w = (Inr (p, cr, sec), w1)"
      "upsert_seed_endpoint e seed (p_id p) w1 = (Inr x, w2)" "ensure_seed_key e (p_id p) w2 = (Inr y, w')"
      and fl: "constraints_ok (w_db w')"
    using run unfolding upsert_partner_seed_def
    by (auto simp: bindE_run seqE_run flush_def ret_apply split: prod.splits sum.splits if_splits)
  note P = partner_stage [OF st(1) ok] and E = endpoint_stage [OF st(2)] and K = key_stage [OF st(3)]
  show "constraints_ok (w_db w')" by (rule fl)
  show "w_committed w' = w_committed w" using P(5) E(6) K(5) by simp
  have named: "partners_named slug (w_db w') = partners_named slug (w_db w1)" for slug
    using E(4) K(3) by (simp add: partners_named_def)
  obtain row where row: "partners_named (sd_slug seed) (w_db w1) = [row]" "p_id row = p_id p" "seed_on_partner seed row = row"
    using P(1) by blast
  have out: "outbound_of j (w_db w') = outbound_of j (w_db w2)" for j using K(4) by (simp add: outbound_of_def)
  show "seeded seed (w_db w')"
    unfolding seeded_def using row named out E(2) K(1) by (metis (no_types, lifting))
  fix s assume ne: "sd_slug s \<noteq> sd_slug seed" and "seeded s (w_db w)"
  then obtain q ep k where q: "partners_named (sd_slug s) (w_db w) = [q]" "seed_on_partner s q = q"
      "outbound_of (p_id q) (w_db w) = [ep]" "seed_on_endpoint s ep = ep" "active_keys_of (p_id q) (w_db w) = [k]"
    unfolding seeded_def by blast
  have q1: "partners_named (sd_slug s) (w_db w1) = [q]" using P(2) [OF ne] q(1) by simp
  have "unique_on p_id (db_partners (w_db w1))" using E(1) by (simp add: constraints_ok_def partners_ok_def)
  then have "p_id q \<noteq> p_id row"
    using singleton_filter [OF q1 [unfolded partners_named_def]] singleton_filter [OF row(1) [unfolded partners_named_def]] ne
    by (metis unique_onD)
  then have other: "p_id q \<noteq> p_id p" using row(2) by simp
  have "outbound_of (p_id q) (w_db w') = [ep]"
    using out E(3) [OF other] P(3) q(3) by (simp add: outbound_of_def)
  moreover have "active_keys_of (p_id q) (w_db w') = [k]"
    using K(2) [OF other] E(5) P(4) q(5) by (simp add: active_keys_of_def)
  ultimately show "seeded s (w_db w')" unfolding seeded_def using named q1 q(2,4) by (metis (no_types, lifting))
qed

lemma upserts_establish:
  assumes "mapE (upsert_partner_seed e fernet pr) seeds w = (Inr rs, w')" "constraints_ok (w_db w)" "distinct (map sd_slug seeds)"
  shows "constraints_ok (w_db w') \<and> w_committed w' = w_committed w \<and> (\<forall>s \<in> set seeds. seeded s (w_db w')) \<and>
     (\<forall>s. sd_slug s \<notin> sd_slug ` set seeds \<longrightarrow> seeded s (w_db w) \<longrightarrow> seeded s (w_db w'))"
  using assms
proof (induction seeds arbitrary: w rs)
  case (Cons s seeds)
  then obtain r w1 rs1 where st: "upsert_partner_seed e fernet pr s w = (Inr r, w1)"
      "mapE (upsert_partner_seed e fernet pr) seeds w1 = (Inr rs1, w')"
    by (auto simp: bindE_Inr ret_apply)
  note one = upsert_establishes [OF st(1) Cons.prems(2)]
  have rest: "constraints_ok (w_db w') \<and> w_committed w' = w_committed w1 \<and> (\<forall>s \<in> set seeds. seeded s (w_db w')) \<and>
     (\<forall>s. sd_slug s \<notin> sd_slug ` set seeds \<longrightarrow> seeded s (w_db w1) \<longrightarrow> seeded s (w_db w'))"
    using Cons.IH [OF st(2) one(1)] Cons.prems(3) by simp
  with one Cons.prems(3) show ?case by auto
qed (simp add: run_simps)

section \<open>Seeding twice\<close>

lemma seed_slugs: "distinct (map sd_slug (canonical_partner_seeds @ prod_like_extra_seeds))"
  "map sd_slug canonical_partner_seeds = CANONICAL_SLUGS"
  by (simp_all add: canonical_partner_seeds_def prod_like_extra_seeds_def partner_seed_def CANONICAL_SLUGS_def)

text \<open>
  C33. Seeding is idempotent. After a successful run every seed is in the database: one partner under
  its slug with the name, status and SLA of the seed, one outbound endpoint with its URL and one key
  that is not revoked. Running it again, at any later time on the same database, succeeds, reports no
  partner as created, issues no secret and no key, and leaves the committed database as it was.
\<close>

theorem seeding_idempotent:
  assumes "distinct (map sd_slug seeds)" and "constraints_ok (w_committed w)"
    and "seed_partners e stg seeds pr w = (Inr rs, w1)" and "w_committed w2 = w_committed w1"
  shows "(\<forall>s \<in> set seeds. seeded s (w_committed w1)) \<and>
     (\<exists>rs' w3. seed_partners e stg seeds pr' w2 = (Inr rs', w3) \<and> w_committed w3 = w_committed w2 \<and>
        map sr_slug rs' = map sd_slug seeds \<and>
        list_all (\<lambda>r. \<not> sr_created r \<and> sr_signing_secret r = None \<and> sr_api_key r = None) rs')"
proof -
  have f: "fernet_key stg \<noteq> []" using assms(3) by (auto simp: seed_partners_def throw_apply)
  let ?w = "w\<lparr>w_db := w_committed w\<rparr>"
  obtain v where m: "mapE (upsert_partner_seed e (fernet_key stg) pr) seeds ?w = (Inr rs, v)"
      and c: "constraints_ok (w_db v)" "w_committed w1 = w_db v"
    using assms(3) f
    by (auto simp: seed_partners_def with_session_def bindE_run seqE_run commit_def flush_def modify_apply ret_apply
        split: prod.splits sum.splits if_splits)
  have every: "\<forall>s \<in> set seeds. seeded s (w_db v)"
    using upserts_establish [OF m] assms(1,2) by simp
  let ?w2 = "w2\<lparr>w_db := w_committed w2\<rparr>"
  have "w_db ?w2 = w_db v" using assms(4) c(2) by simp
  then obtain rs' where "mapE (upsert_partner_seed e (fernet_key stg) pr') seeds ?w2 = (Inr rs', ?w2)"
      "map sr_slug rs' = map sd_slug seeds"
      "list_all (\<lambda>r. \<not> sr_created r \<and> sr_signing_secret r = None \<and> sr_api_key r = None) rs'"
    using upserts_again [of seeds ?w2 e "fernet_key stg" pr'] every c(1) by auto
  with f c every assms(4) show ?thesis
    by (auto simp: seed_partners_def with_session_def bindE_run seqE_run commit_def flush_def modify_apply ret_apply)
qed

lemma sample_seeding:
  "\<exists>rs w1. seed_partners mem_env admin_settings [hd canonical_partner_seeds] True sample_world = (Inr rs, w1) \<and> map sr_created rs = [True]"
  by (simp add: seed_partners_def admin_settings_def default_settings_def canonical_partner_seeds_def partner_seed_def with_session_run
      bindE_run seqE_run upsert_partner_seed_def upsert_seed_partner_def load_seed_partner_def upsert_seed_endpoint_def load_outbound_endpoint_def
      ensure_seed_key_def load_active_api_key_def flush_def commit_def gets_apply ret_apply modify_apply generate_signing_secret_def
      encrypt_signing_secret_def is_ascii_def insert_seed_partner_def insert_primary_signing_secret_def generate_api_key_def next_draw_apply
      generate_uuidv7_apply utcnow_apply update_db_apply Let_def one_or_none_def throw_apply partners_named_def outbound_of_def active_keys_of_def
      sample_defs constraints_ok_def table_ok_defs references_def unique_on_def)

theorem seeding_idempotent_witness:
  "\<exists>rs w1 rs' w3. seed_partners mem_env admin_settings [hd canonical_partner_seeds] True sample_world = (Inr rs, w1) \<and>
     seed_partners mem_env admin_settings [hd canonical_partner_seeds] True w1 = (Inr rs', w3) \<and> w_committed w3 = w_committed w1"
proof -
  obtain rs w1 where run: "seed_partners mem_env admin_settings [hd canonical_partner_seeds] True sample_world = (Inr rs, w1)"
    using sample_seeding by blast
  have "constraints_ok (w_committed sample_world)" using sample_constraints by (simp add: sample_world_def)
  from seeding_idempotent [OF _ this run refl, of True] run show ?thesis by auto
qed

end
