(* ===== verification/ColumnTypes.thy ===== *)
theory ColumnTypes
  imports Migrations DeliveryLedger
begin

text \<open>
  The rows the hub writes against the column types the migrations create: which values fit a column,
  the stored form of a row of each of the twelve tables, and the proof that serving requests within the
  bounds of the columns keeps every row in its columns.
  A BIGINT column holds an identity, which the database itself draws, and a timestamp is not bounded.
\<close>

section \<open>Stored values\<close>

datatype stored =
    SInt int | SText string | SUuid uuid | SBool bool | SJson json | STime time | SBytes bytes | SArray "stored list" | SNull

primrec fits :: "column_type \<Rightarrow> stored \<Rightarrow> bool" where
  "fits BigInteger v = (case v of SInt i \<Rightarrow> True | _ \<Rightarrow> False)"
| "fits Integer v = (case v of SInt i \<Rightarrow> - (2 ^ 31) \<le> i \<and> i < 2 ^ 31 | _ \<Rightarrow> False)"
| "fits SmallInteger v = (case v of SInt i \<Rightarrow> - (2 ^ 15) \<le> i \<and> i < 2 ^ 15 | _ \<Rightarrow> False)"
| "fits Boolean v = (case v of SBool b \<Rightarrow> True | _ \<Rightarrow> False)"
| "fits (Varchar n) v = (case v of SText t \<Rightarrow> length t \<le> n | _ \<Rightarrow> False)"
| "fits VarcharAny v = (case v of SText t \<Rightarrow> True | _ \<Rightarrow> False)"
| "fits TextType v = (case v of SText t \<Rightarrow> True | _ \<Rightarrow> False)"
| "fits UuidType v = (case v of SUuid u \<Rightarrow> True | _ \<Rightarrow> False)"
| "fits JSONB v = (case v of SJson j \<Rightarrow> True | _ \<Rightarrow> False)"
| "fits TimestampTz v = (case v of STime t \<Rightarrow> True | _ \<Rightarrow> False)"
| "fits LargeBinary v = (case v of SBytes b \<Rightarrow> True | _ \<Rightarrow> False)"
| "fits (ARRAY ty) v = (case v of SArray vs \<Rightarrow> list_all (fits ty) vs | _ \<Rightarrow> False)"

definition row_typed :: "table_column list \<Rightarrow> (string \<times> stored) list \<Rightarrow> bool" where
  "row_typed cols row \<longleftrightarrow> map fst row = map co_name cols \<and>
     list_all2 (\<lambda>c v. if v = SNull then co_nullable c else fits (co_type c) v) cols (map snd row)"

definition columns_at :: "schema \<Rightarrow> string \<Rightarrow> table_column list" where
  "columns_at s n = (case map_of (sc_tables s) n of None \<Rightarrow> [] | Some t \<Rightarrow> ta_columns t)"

definition nullable :: "('a \<Rightarrow> stored) \<Rightarrow> 'a option \<Rightarrow> stored" where
  "nullable f v = (case v of None \<Rightarrow> SNull | Some x \<Rightarrow> f x)"

section \<open>The stored form of the rows\<close>

fun partner_status_value :: "PartnerStatus \<Rightarrow> string" where
  "partner_status_value PartnerStatus.ACTIVE = ''active''"
| "partner_status_value SUSPENDED = ''suspended''"
| "partner_status_value PROVISIONING = ''provisioning''"

fun endpoint_direction_value :: "EndpointDirection \<Rightarrow> string" where
  "endpoint_direction_value EndpointDirection.OUTBOUND = ''outbound''"
| "endpoint_direction_value INBOUND = ''inbound''"

fun endpoint_status_value :: "EndpointStatus \<Rightarrow> string" where
  "endpoint_status_value EndpointStatus.ACTIVE = ''active''"
| "endpoint_status_value PAUSED = ''paused''"
| "endpoint_status_value DISABLED = ''disabled''"

fun delivery_direction_value :: "DeliveryDirection \<Rightarrow> string" where
  "delivery_direction_value DeliveryDirection.OUTBOUND = ''outbound''"

fun payload_schema_status_value :: "PayloadSchemaStatus \<Rightarrow> string" where
  "payload_schema_status_value PayloadSchemaStatus.ACTIVE = ''active''"
| "payload_schema_status_value DEPRECATED = ''deprecated''"

fun signing_secret_status_value :: "SigningSecretStatus \<Rightarrow> string" where
  "signing_secret_status_value PRIMARY = ''primary''"
| "signing_secret_status_value PREVIOUS = ''previous''"
| "signing_secret_status_value REVOKED = ''revoked''"

definition partner_row :: "partner \<Rightarrow> (string \<times> stored) list" where
  "partner_row p =
     [(''id'', SInt (p_id p)), (''public_id'', SUuid (p_public_id p)), (''slug'', SText (p_slug p)), (''name'', SText (p_name p)),
      (''status'', SText (partner_status_value (p_status p))), (''sla_seconds'', SInt (p_sla_seconds p)),
      (''auto_replay_enabled'', SBool (p_auto_replay_enabled p)), (''circuit_breaker_config'', SJson (p_circuit_breaker_config p)),
      (''rate_limit_rps'', SInt (p_rate_limit_rps p)),
      (''signing_secret_encrypted'', nullable SBytes (p_signing_secret_encrypted p)),
      (''created_at'', nullable STime (p_created_at p)), (''updated_at'', nullable STime (p_updated_at p))]"

definition endpoint_row :: "partner_endpoint \<Rightarrow> (string \<times> stored) list" where
  "endpoint_row ep =
     [(''id'', SUuid (ep_id ep)), (''partner_id'', SInt (ep_partner_id ep)),
      (''direction'', SText (endpoint_direction_value (ep_direction ep))), (''url'', SText (ep_url ep)),
      (''event_types'', SArray (map SText (ep_event_types ep))), (''status'', SText (endpoint_status_value (ep_status ep))),
      (''sla_seconds'', nullable SInt (ep_sla_seconds ep)), (''max_attempts'', SInt (ep_max_attempts ep)),
      (''backoff_policy'', SJson (ep_backoff_policy ep)),
      (''retry_on_status_codes'', SArray (map SInt (ep_retry_on_status_codes ep))),
      (''timeout_connect_ms'', SInt (ep_timeout_connect_ms ep)), (''timeout_read_ms'', SInt (ep_timeout_read_ms ep)),
      (''created_at'', nullable STime (ep_created_at ep)), (''updated_at'', nullable STime (ep_updated_at ep))]"

definition payload_schema_row :: "payload_schema \<Rightarrow> (string \<times> stored) list" where
  "payload_schema_row x =
     [(''id'', SUuid (ps_id x)), (''event_type'', SText (ps_event_type x)), (''version'', SInt (ps_version x)),
      (''json_schema'', SJson (ps_json_schema x)), (''status'', SText (payload_schema_status_value (ps_status x))),
      (''created_at'', nullable STime (ps_created_at x)), (''updated_at'', nullable STime (ps_updated_at x))]"

definition delivery_row :: "delivery \<Rightarrow> (string \<times> stored) list" where
  "delivery_row d =
     [(''id'', SInt (d_id d)), (''public_id'', SUuid (d_public_id d)), (''partner_id'', SInt (d_partner_id d)),
      (''endpoint_id'', SUuid (d_endpoint_id d)), (''direction'', SText (delivery_direction_value (d_direction d))),
      (''event_type'', SText (d_event_type d)), (''idempotency_key'', SText (d_idempotency_key d)),
      (''payload'', SJson (d_payload d)), (''payload_hash'', SText (d_payload_hash d)),
      (''status'', SText (delivery_status_value (d_status d))), (''attempt_count'', SInt (d_attempt_count d)),
      (''max_attempts'', SInt (d_max_attempts d)), (''next_retry_at'', nullable STime (d_next_retry_at d)),
      (''first_success_at'', nullable STime (d_first_success_at d)), (''sla_deadline_at'', STime (d_sla_deadline_at d)),
      (''sla_breached'', SBool (d_sla_breached d)), (''last_error_code'', nullable SText (d_last_error_code d)),
      (''last_error_message'', nullable SText (d_last_error_message d)), (''correlation_id'', SText (d_correlation_id d)),
      (''source_event_id'', nullable SText (d_source_event_id d)),
      (''created_at'', nullable STime (d_created_at d)), (''updated_at'', nullable STime (d_updated_at d))]"

definition outbox_row_cells :: "outbox_event \<Rightarrow> (string \<times> stored) list" where
  "outbox_row_cells ob =
     [(''id'', SInt (ob_id ob)), (''aggregate_type'', SText (ob_aggregate_type ob)), (''aggregate_id'', SInt (ob_aggregate_id ob)),
      (''topic'', SText (ob_topic ob)), (''payload'', SJson (ob_payload ob)), (''created_at'', STime (ob_created_at ob)),
      (''published_at'', nullable STime (ob_published_at ob)), (''publish_attempts'', SInt (ob_publish_attempts ob)),
      (''message_key'', SText (ob_message_key ob))]"

definition api_key_row :: "partner_api_key \<Rightarrow> (string \<times> stored) list" where
  "api_key_row k =
     [(''id'', SUuid (ak_id k)), (''partner_id'', SInt (ak_partner_id k)), (''key_prefix'', SText (ak_key_prefix k)),
      (''key_hash'', SText (ak_key_hash k)), (''scopes'', SArray (map SText (ak_scopes k))),
      (''expires_at'', nullable STime (ak_expires_at k)), (''revoked_at'', nullable STime (ak_revoked_at k)),
      (''created_at'', STime (ak_created_at k))]"

definition signing_secret_row :: "partner_signing_secret \<Rightarrow> (string \<times> stored) list" where
  "signing_secret_row x =
     [(''id'', SUuid (ss_id x)), (''partner_id'', SInt (ss_partner_id x)), (''secret_encrypted'', SBytes (ss_secret_encrypted x)),
      (''version'', SInt (ss_version x)), (''status'', SText (signing_secret_status_value (ss_status x))),
      (''valid_from'', STime (ss_valid_from x)), (''valid_until'', nullable STime (ss_valid_until x)),
      (''created_at'', STime (ss_created_at x))]"

definition audit_row :: "audit_log \<Rightarrow> (string \<times> stored) list" where
  "audit_row a =
     [(''id'', SUuid (al_id a)), (''actor_id'', SText (al_actor_id a)), (''action'', SText (al_action a)),
      (''resource_type'', SText (al_resource_type a)), (''resource_id'', SUuid (al_resource_id a)),
      (''metadata'', SJson (JObj (al_metadata a))), (''created_at'', STime (al_created_at a))]"

definition attempt_row :: "delivery_attempt \<Rightarrow> (string \<times> stored) list" where
  "attempt_row a =
     [(''id'', SUuid (at_id a)), (''delivery_id'', SInt (at_delivery_id a)), (''attempt_number'', SInt (at_attempt_number a)),
      (''requested_at'', STime (at_requested_at a)), (''responded_at'', nullable STime (at_responded_at a)),
      (''http_status_code'', nullable SInt (at_http_status_code a)),
      (''response_headers'', SJson (JObj (map (\<lambda>(k, v). (k, JStr v)) (at_response_headers a)))),
      (''response_body'', SText (at_response_body a)), (''error_type'', nullable SText (at_error_type a)),
      (''duration_ms'', nullable SInt (at_duration_ms a)), (''created_at'', nullable STime (at_created_at a))]"

definition dead_letter_row :: "dead_letter \<Rightarrow> (string \<times> stored) list" where
  "dead_letter_row x =
     [(''id'', SUuid (dl_id x)), (''delivery_id'', SInt (dl_delivery_id x)), (''partner_id'', SInt (dl_partner_id x)),
      (''reason'', SText (dead_letter_reason_value (dl_reason x))), (''last_http_status'', nullable SInt (dl_last_http_status x)),
      (''last_error_message'', SText (dl_last_error_message x)), (''kafka_offset'', nullable SInt (dl_kafka_offset x)),
      (''acknowledged_at'', nullable STime (dl_acknowledged_at x)), (''acknowledged_by'', nullable SText (dl_acknowledged_by x)),
      (''created_at'', STime (dl_created_at x))]"

definition inbound_event_row :: "inbound_event \<Rightarrow> (string \<times> stored) list" where
  "inbound_event_row x =
     [(''id'', SUuid (ie_id x)), (''partner_id'', SInt (ie_partner_id x)), (''idempotency_key'', SText (ie_idempotency_key x)),
      (''event_type'', SText (ie_event_type x)), (''payload'', SJson (ie_payload x)), (''payload_hash'', SText (ie_payload_hash x)),
      (''signature_valid'', SBool (ie_signature_valid x)),
      (''signing_secret_version'', nullable SInt (ie_signing_secret_version x)), (''received_at'', STime (ie_received_at x)),
      (''published_at'', nullable STime (ie_published_at x)), (''correlation_id'', SText (ie_correlation_id x))]"

definition approval_row :: "replay_approval \<Rightarrow> (string \<times> stored) list" where
  "approval_row x =
     [(''id'', SUuid (ra_id x)), (''delivery_id'', SInt (ra_delivery_id x)), (''reason'', SText (ra_reason x)),
      (''requested_by'', SText (ra_requested_by x)), (''approved_by'', nullable SText (ra_approved_by x)),
      (''status'', SText (replay_approval_status_value (ra_status x))), (''created_at'', STime (ra_created_at x)),
      (''updated_at'', STime (ra_updated_at x))]"

definition tables_typed :: "schema \<Rightarrow> database \<Rightarrow> bool" where
  "tables_typed s db \<longleftrightarrow>
     list_all (\<lambda>p. row_typed (columns_at s ''partners'') (partner_row p)) (db_partners db) \<and>
     list_all (\<lambda>ep. row_typed (columns_at s ''partner_endpoints'') (endpoint_row ep)) (db_endpoints db) \<and>
     list_all (\<lambda>x. row_typed (columns_at s ''payload_schemas'') (payload_schema_row x)) (db_payload_schemas db) \<and>
     list_all (\<lambda>d. row_typed (columns_at s ''deliveries'') (delivery_row d)) (db_deliveries db) \<and>
     list_all (\<lambda>ob. row_typed (columns_at s ''outbox_events'') (outbox_row_cells ob)) (db_outbox db) \<and>
     list_all (\<lambda>k. row_typed (columns_at s ''partner_api_keys'') (api_key_row k)) (db_api_keys db) \<and>
     list_all (\<lambda>x. row_typed (columns_at s ''partner_signing_secrets'') (signing_secret_row x)) (db_signing_secrets db) \<and>
     list_all (\<lambda>a. row_typed (columns_at s ''audit_logs'') (audit_row a)) (db_audit_logs db) \<and>
     list_all (\<lambda>a. row_typed (columns_at s ''delivery_attempts'') (attempt_row a)) (db_attempts db) \<and>
     list_all (\<lambda>x. row_typed (columns_at s ''dead_letters'') (dead_letter_row x)) (db_dead_letters db) \<and>
     list_all (\<lambda>x. row_typed (columns_at s ''inbound_events'') (inbound_event_row x)) (db_inbound_events db) \<and>
     list_all (\<lambda>x. row_typed (columns_at s ''replay_approvals'') (approval_row x)) (db_replay_approvals db)"

section \<open>The types at head\<close>

text \<open>What the columns ask of each row, computed from the revisions.\<close>

definition int4 :: "int \<Rightarrow> bool" where "int4 i \<longleftrightarrow> - (2 ^ 31) \<le> i \<and> i < 2 ^ 31"
definition int2 :: "int \<Rightarrow> bool" where "int2 i \<longleftrightarrow> - (2 ^ 15) \<le> i \<and> i < 2 ^ 15"

fun created_columns :: "ddl list \<Rightarrow> table_column list" where
  "created_columns (create_table n cols cs # ds) = cols"
| "created_columns ds = []"

lemma head_columns_computed:
  "case run_ddl upgrade_head empty_schema of Inl _ \<Rightarrow> False
     | Inr s \<Rightarrow> columns_at s ''partners'' = created_columns ddl_partners \<and>
        columns_at s ''partner_endpoints'' = created_columns ddl_partner_endpoints \<and>
        columns_at s ''payload_schemas'' = created_columns upgrade_0005 \<and>
        columns_at s ''deliveries'' = created_columns ddl_deliveries \<and>
        columns_at s ''outbox_events'' = created_columns ddl_outbox_events @ [column ''message_key'' (Varchar 64) False] \<and>
        columns_at s ''partner_api_keys'' = created_columns ddl_partner_api_keys \<and>
        columns_at s ''partner_signing_secrets'' = created_columns upgrade_0004 \<and>
        columns_at s ''audit_logs'' = created_columns ddl_audit_logs \<and>
        columns_at s ''delivery_attempts'' = created_columns ddl_delivery_attempts \<and>
        columns_at s ''dead_letters'' = created_columns ddl_dead_letters \<and>
        columns_at s ''inbound_events'' = created_columns ddl_inbound_events \<and>
        columns_at s ''replay_approvals'' = created_columns upgrade_0006"
  by code_simp

lemma stored_values_short:
  "length (partner_status_value ps) \<le> 32" "length (endpoint_direction_value dr) \<le> 16" "length (endpoint_status_value es) \<le> 16"
  "length (delivery_direction_value dd) \<le> 16" "length (delivery_status_value ds) \<le> 16" "length (payload_schema_status_value pss) \<le> 16"
  "length (signing_secret_status_value sss) \<le> 16" "length (dead_letter_reason_value dlr) \<le> 64"
  "length (replay_approval_status_value ras) \<le> 16"
  by ((cases ps; simp), (cases dr; simp), (cases es; simp), (cases dd; simp), (cases ds; simp), (cases pss; simp),
      (cases sss; simp), (cases dlr; simp), (cases ras; simp))

lemma head_columns:
  assumes "run_ddl upgrade_head empty_schema = Inr s"
  shows "columns_at s ''partners'' = created_columns ddl_partners"
    "columns_at s ''partner_endpoints'' = created_columns ddl_partner_endpoints"
    "columns_at s ''payload_schemas'' = created_columns upgrade_0005"
    "columns_at s ''deliveries'' = created_columns ddl_deliveries"
    "columns_at s ''outbox_events'' = created_columns ddl_outbox_events @ [column ''message_key'' (Varchar 64) False]"
    "columns_at s ''partner_api_keys'' = created_columns ddl_partner_api_keys"
    "columns_at s ''partner_signing_secrets'' = created_columns upgrade_0004"
    "columns_at s ''audit_logs'' = created_columns ddl_audit_logs"
    "columns_at s ''delivery_attempts'' = created_columns ddl_delivery_attempts"
    "columns_at s ''dead_letters'' = created_columns ddl_dead_letters"
    "columns_at s ''inbound_events'' = created_columns ddl_inbound_events"
    "columns_at s ''replay_approvals'' = created_columns upgrade_0006"
  using head_columns_computed assms by auto

definition partner_fits :: "partner \<Rightarrow> bool" where
  "partner_fits p \<longleftrightarrow> length (p_slug p) \<le> 64 \<and> length (p_name p) \<le> 255 \<and> int4 (p_sla_seconds p) \<and> int4 (p_rate_limit_rps p) \<and>
     p_created_at p \<noteq> None \<and> p_updated_at p \<noteq> None"

definition endpoint_fits :: "partner_endpoint \<Rightarrow> bool" where
  "endpoint_fits ep \<longleftrightarrow> pred_option int4 (ep_sla_seconds ep) \<and> int2 (ep_max_attempts ep) \<and>
     list_all int4 (ep_retry_on_status_codes ep) \<and> int4 (ep_timeout_connect_ms ep) \<and> int4 (ep_timeout_read_ms ep) \<and>
     ep_created_at ep \<noteq> None \<and> ep_updated_at ep \<noteq> None"

definition payload_schema_fits :: "payload_schema \<Rightarrow> bool" where
  "payload_schema_fits x \<longleftrightarrow> length (ps_event_type x) \<le> 128 \<and> int4 (ps_version x) \<and> ps_created_at x \<noteq> None \<and> ps_updated_at x \<noteq> None"

definition delivery_fits :: "delivery \<Rightarrow> bool" where
  "delivery_fits d \<longleftrightarrow> length (d_event_type d) \<le> 128 \<and> length (d_idempotency_key d) \<le> 255 \<and> length (d_payload_hash d) \<le> 64 \<and>
     int2 (d_attempt_count d) \<and> int2 (d_max_attempts d) \<and> pred_option (\<lambda>t. length t \<le> 64) (d_last_error_code d) \<and>
     length (d_correlation_id d) \<le> 128 \<and> pred_option (\<lambda>t. length t \<le> 255) (d_source_event_id d) \<and>
     d_created_at d \<noteq> None \<and> d_updated_at d \<noteq> None"

definition outbox_fits :: "outbox_event \<Rightarrow> bool" where
  "outbox_fits ob \<longleftrightarrow> length (ob_aggregate_type ob) \<le> 64 \<and> length (ob_topic ob) \<le> 128 \<and> length (ob_message_key ob) \<le> 64 \<and>
     int2 (ob_publish_attempts ob)"

definition api_key_fits :: "partner_api_key \<Rightarrow> bool" where
  "api_key_fits k \<longleftrightarrow> length (ak_key_prefix k) \<le> 16 \<and> length (ak_key_hash k) \<le> 255"

definition secret_fits :: "partner_signing_secret \<Rightarrow> bool" where
  "secret_fits x \<longleftrightarrow> int4 (ss_version x)"

definition audit_fits :: "audit_log \<Rightarrow> bool" where
  "audit_fits a \<longleftrightarrow> length (al_actor_id a) \<le> 255 \<and> length (al_action a) \<le> 64 \<and> length (al_resource_type a) \<le> 64"

definition attempt_fits :: "delivery_attempt \<Rightarrow> bool" where
  "attempt_fits a \<longleftrightarrow> int2 (at_attempt_number a) \<and> pred_option int4 (at_http_status_code a) \<and>
     pred_option (\<lambda>t. length t \<le> 64) (at_error_type a) \<and> pred_option int4 (at_duration_ms a) \<and> at_created_at a \<noteq> None"

definition dead_letter_fits :: "dead_letter \<Rightarrow> bool" where
  "dead_letter_fits x \<longleftrightarrow> pred_option int4 (dl_last_http_status x) \<and> pred_option (\<lambda>t. length t \<le> 255) (dl_acknowledged_by x)"

definition inbound_event_fits :: "inbound_event \<Rightarrow> bool" where
  "inbound_event_fits x \<longleftrightarrow> length (ie_idempotency_key x) \<le> 255 \<and> length (ie_event_type x) \<le> 128 \<and> length (ie_payload_hash x) \<le> 64 \<and>
     pred_option int4 (ie_signing_secret_version x) \<and> length (ie_correlation_id x) \<le> 128"

definition approval_fits :: "replay_approval \<Rightarrow> bool" where
  "approval_fits x \<longleftrightarrow> length (ra_requested_by x) \<le> 255 \<and> pred_option (\<lambda>t. length t \<le> 255) (ra_approved_by x)"

lemmas typed_defs = row_typed_def column_def with_default_def identity_def int4_def int2_def nullable_def list.pred_map o_def

lemma partner_row_typed: "row_typed (created_columns ddl_partners) (partner_row p) \<longleftrightarrow> partner_fits p"
  using stored_values_short(1) [of "p_status p"]
  by (auto simp: typed_defs ddl_partners_def partner_row_def partner_fits_def split: option.splits)

lemma endpoint_row_typed: "row_typed (created_columns ddl_partner_endpoints) (endpoint_row ep) \<longleftrightarrow> endpoint_fits ep"
  using stored_values_short(2) [of "ep_direction ep"] stored_values_short(3) [of "ep_status ep"]
  by (auto simp: typed_defs ddl_partner_endpoints_def endpoint_row_def endpoint_fits_def list_all_iff split: option.splits)

lemma payload_schema_row_typed: "row_typed (created_columns upgrade_0005) (payload_schema_row x) \<longleftrightarrow> payload_schema_fits x"
  using stored_values_short(6) [of "ps_status x"]
  by (auto simp: typed_defs upgrade_0005_def payload_schema_row_def payload_schema_fits_def split: option.splits)

lemma delivery_row_typed: "row_typed (created_columns ddl_deliveries) (delivery_row d) \<longleftrightarrow> delivery_fits d"
  using stored_values_short(4) [of "d_direction d"] stored_values_short(5) [of "d_status d"]
  by (auto simp: typed_defs ddl_deliveries_def delivery_row_def delivery_fits_def split: option.splits)

lemma outbox_row_typed:
  "row_typed (created_columns ddl_outbox_events @ [column ''message_key'' (Varchar 64) False]) (outbox_row_cells ob) \<longleftrightarrow> outbox_fits ob"
  by (auto simp: typed_defs ddl_outbox_events_def outbox_row_cells_def outbox_fits_def split: option.splits)

lemma api_key_row_typed: "row_typed (created_columns ddl_partner_api_keys) (api_key_row k) \<longleftrightarrow> api_key_fits k"
  by (auto simp: typed_defs ddl_partner_api_keys_def api_key_row_def api_key_fits_def list_all_iff split: option.splits)

lemma signing_secret_row_typed: "row_typed (created_columns upgrade_0004) (signing_secret_row x) \<longleftrightarrow> secret_fits x"
  using stored_values_short(7) [of "ss_status x"]
  by (auto simp: typed_defs upgrade_0004_def signing_secret_row_def secret_fits_def split: option.splits)

lemma audit_row_typed: "row_typed (created_columns ddl_audit_logs) (audit_row a) \<longleftrightarrow> audit_fits a"
  by (auto simp: typed_defs ddl_audit_logs_def audit_row_def audit_fits_def split: option.splits)

lemma attempt_row_typed: "row_typed (created_columns ddl_delivery_attempts) (attempt_row a) \<longleftrightarrow> attempt_fits a"
  by (auto simp: typed_defs ddl_delivery_attempts_def attempt_row_def attempt_fits_def split: option.splits)

lemma dead_letter_row_typed: "row_typed (created_columns ddl_dead_letters) (dead_letter_row x) \<longleftrightarrow> dead_letter_fits x"
  using stored_values_short(8) [of "dl_reason x"]
  by (auto simp: typed_defs ddl_dead_letters_def dead_letter_row_def dead_letter_fits_def split: option.splits)

lemma inbound_event_row_typed: "row_typed (created_columns ddl_inbound_events) (inbound_event_row x) \<longleftrightarrow> inbound_event_fits x"
  by (auto simp: typed_defs ddl_inbound_events_def inbound_event_row_def inbound_event_fits_def split: option.splits)

lemma approval_row_typed: "row_typed (created_columns upgrade_0006) (approval_row x) \<longleftrightarrow> approval_fits x"
  using stored_values_short(9) [of "ra_status x"]
  by (auto simp: typed_defs upgrade_0006_def approval_row_def approval_fits_def split: option.splits)

definition rows_fit :: "database \<Rightarrow> bool" where
  "rows_fit db \<longleftrightarrow> list_all partner_fits (db_partners db) \<and> list_all endpoint_fits (db_endpoints db) \<and>
     list_all payload_schema_fits (db_payload_schemas db) \<and> list_all delivery_fits (db_deliveries db) \<and> list_all outbox_fits (db_outbox db) \<and>
     list_all api_key_fits (db_api_keys db) \<and> list_all secret_fits (db_signing_secrets db) \<and> list_all audit_fits (db_audit_logs db) \<and>
     list_all attempt_fits (db_attempts db) \<and> list_all dead_letter_fits (db_dead_letters db) \<and>
     list_all inbound_event_fits (db_inbound_events db) \<and> list_all approval_fits (db_replay_approvals db)"

lemma tables_typed_head: "run_ddl upgrade_head empty_schema = Inr s \<Longrightarrow> tables_typed s db \<longleftrightarrow> rows_fit db"
  by (simp add: tables_typed_def rows_fit_def head_columns partner_row_typed endpoint_row_typed payload_schema_row_typed
      delivery_row_typed outbox_row_typed api_key_row_typed signing_secret_row_typed audit_row_typed attempt_row_typed
      dead_letter_row_typed inbound_event_row_typed approval_row_typed)

section \<open>Requests within the bounds\<close>

text \<open>
  What the request schemas leave open: integers have no upper bound, and neither have the event type
  and the key of an event.
\<close>

definition small_settings :: "settings \<Rightarrow> bool" where
  "small_settings stg \<longleftrightarrow> int4 (hub_rate_limit_rps_default stg) \<and> int2 (hub_max_attempts_default stg) \<and>
     int4 (hub_http_connect_timeout_ms stg) \<and> int4 (hub_http_read_timeout_ms stg)"

definition small_partner_create :: "PartnerCreate \<Rightarrow> bool" where
  "small_partner_create b \<longleftrightarrow> int4 (pc_sla_seconds b) \<and> pred_option int4 (pc_rate_limit_rps b)"

definition small_partner_update :: "PartnerUpdate \<Rightarrow> bool" where
  "small_partner_update b \<longleftrightarrow> pred_option int4 (pu_sla_seconds b) \<and> pred_option int4 (pu_rate_limit_rps b)"

definition small_endpoint_create :: "EndpointCreate \<Rightarrow> bool" where
  "small_endpoint_create b \<longleftrightarrow> pred_option int4 (ec_sla_seconds b) \<and> pred_option int4 (ec_timeout_connect_ms b) \<and>
     pred_option int4 (ec_timeout_read_ms b)"

definition short_event :: "string option \<Rightarrow> OutboundEventRequest \<Rightarrow> bool" where
  "short_event context b \<longleftrightarrow> length (oq_event_type b) \<le> 128 \<and> pred_option (\<lambda>k. length k \<le> 217) (oq_idempotency_key b) \<and>
     pred_option (\<lambda>c. length c \<le> 128) context"

definition fitting :: "database \<Rightarrow> database \<Rightarrow> bool" where
  "fitting c d \<longleftrightarrow> rows_fit c \<and> rows_fit d"

lemma fitting_settle: "fitting c d \<Longrightarrow> fitting d d" "fitting c d \<Longrightarrow> fitting c c"
  by (simp_all add: fitting_def)

lemma fitting_transaction [keep_intros]: "keeps (on_db fitting) commit" "keeps (on_db fitting) rollback"
  by (rule on_db_commit on_db_rollback; blast intro: fitting_settle)+

lemma fitting_session [keep_intros]: "keeps (on_db fitting) m \<Longrightarrow> keeps (on_db fitting) (with_session m)"
  by (erule keeps_with_session) (rule fitting_settle)

lemma fitting_insert:
  "fitting c d \<Longrightarrow> partner_fits p \<Longrightarrow> fitting c (d\<lparr>db_partners := db_partners d @ [p]\<rparr>)"
  "fitting c d \<Longrightarrow> endpoint_fits ep \<Longrightarrow> fitting c (d\<lparr>db_endpoints := db_endpoints d @ [ep]\<rparr>)"
  "fitting c d \<Longrightarrow> payload_schema_fits x \<Longrightarrow> fitting c (d\<lparr>db_payload_schemas := db_payload_schemas d @ [x]\<rparr>)"
  "fitting c d \<Longrightarrow> api_key_fits k \<Longrightarrow> fitting c (d\<lparr>db_api_keys := db_api_keys d @ [k]\<rparr>)"
  "fitting c d \<Longrightarrow> secret_fits y \<Longrightarrow> fitting c (d\<lparr>db_signing_secrets := db_signing_secrets d @ [y]\<rparr>)"
  "fitting c d \<Longrightarrow> audit_fits a \<Longrightarrow> fitting c (d\<lparr>db_audit_logs := db_audit_logs d @ [a]\<rparr>)"
  by (simp_all add: fitting_def rows_fit_def)

lemma list_all_put_row: "list_all P rows \<Longrightarrow> P r \<Longrightarrow> list_all P (put_row key r rows)"
  by (auto simp: put_row_def list_all_iff)

lemma fitting_put:
  "fitting c d \<Longrightarrow> partner_fits p \<Longrightarrow> fitting c (d\<lparr>db_partners := put_row p_id p (db_partners d)\<rparr>)"
  "fitting c d \<Longrightarrow> endpoint_fits ep \<Longrightarrow> fitting c (d\<lparr>db_endpoints := put_row ep_id ep (db_endpoints d)\<rparr>)"
  by (simp_all add: fitting_def rows_fit_def list_all_put_row)

text \<open>A row that was read is one of the session, a body that was validated is within its own bounds.\<close>

lemma keeps_validated: "(\<And>b. r = Inr b \<Longrightarrow> keeps I (k b)) \<Longrightarrow> keeps I (bindE (liftE r) k)"
  by (cases r) (auto simp: keeps_def bindE_run liftE_apply)

lemma keeps_found_partner:
  assumes "\<And>p. partner_fits p \<Longrightarrow> keeps (on_db fitting) (k p)"
  shows "keeps (on_db fitting) (bindE (get_partner_by_public_id u) k)"
proof -
  have "partner_fits p" if "on_db fitting w" "fst (get_partner_by_public_id u w) = Inr p" for w :: "('x, 'y) world" and p
    using that(1) fetch_found(1) [OF that(2)] by (simp add: on_db_def fitting_def rows_fit_def list_all_iff)
  then show ?thesis
    by (intro keepsI, intro bind_step [where P = "on_db fitting"]) (auto intro!: keepsD [OF assms])
qed

lemma keeps_found_endpoint:
  assumes "\<And>ep. endpoint_fits ep \<Longrightarrow> keeps (on_db fitting) (k ep)"
  shows "keeps (on_db fitting) (bindE (fetch_endpoint u) k)"
proof -
  have "endpoint_fits ep" if "on_db fitting w" "fst (fetch_endpoint u w) = Inr ep" for w :: "('x, 'y) world" and ep
    using that(1) fetch_found(2) [OF that(2)] by (simp add: on_db_def fitting_def rows_fit_def list_all_iff)
  then show ?thesis
    by (intro keepsI, intro bind_step [where P = "on_db fitting"]) (auto intro!: keepsD [OF assms])
qed

section \<open>The routes\<close>

lemma int_or_fits: "pred_option P v \<Longrightarrow> P n \<Longrightarrow> P (int_or v n)"
  by (auto simp: int_or_def split: option.splits)

lemma set_some_fits: "pred_option P v \<Longrightarrow> P x \<Longrightarrow> P (set_some v x)"
  by (auto simp: set_some_def split: option.splits)

lemma fitting_insert_partner:
  assumes "validate_partner_create body = Inr b" "small_partner_create body" "small_settings stg"
  shows "keeps (on_db fitting) (insert_partner e stg b c)"
proof -
  have b: "b = body" "length (pc_slug b) \<le> 64" "length (pc_name b) \<le> 255"
    using assms(1) by (auto simp: validate_partner_create_def split: if_splits)
  have m: "keeps (on_db fitting) (modify (\<lambda>w. w\<lparr>w_seq_partners := n, w_db := (w_db w)\<lparr>db_partners := db_partners (w_db w) @ [p]\<rparr>\<rparr>))"
    if "partner_fits p" for n p using that by (simp add: keeps_def on_db_def modify_apply fitting_insert)
  show ?thesis unfolding insert_partner_def Let_def
    using assms(2,3) b by (intro keep_intros m) (auto simp: partner_fits_def small_partner_create_def small_settings_def intro: int_or_fits)
qed

lemma fitting_retire:
  assumes "fitting c d" "secret_fits r"
  shows "fitting c (retire_rows i r t d)"
proof -
  let ?f = "\<lambda>d row. if ss_id row \<noteq> ss_id r
      then d\<lparr>db_signing_secrets := put_row ss_id (row\<lparr>ss_status := REVOKED\<rparr>) (db_signing_secrets d)\<rparr> else d"
  have put: "fitting c (d\<lparr>db_signing_secrets := put_row ss_id x (db_signing_secrets d)\<rparr>)" if "fitting c d" "secret_fits x" for d x
    using that by (simp add: fitting_def rows_fit_def list_all_put_row)
  have "fitting c (foldl ?f d rows)" if "fitting c d" "list_all secret_fits rows" for d rows
    using that
  proof (induction rows arbitrary: d)
    case (Cons x rows)
    have "secret_fits (x\<lparr>ss_status := REVOKED\<rparr>)" using Cons.prems(2) by (simp add: secret_fits_def)
    with Cons put show ?case by simp
  qed simp
  moreover have "list_all secret_fits (previous_rows i d)" if "fitting c d" for d
    using that by (auto simp: fitting_def rows_fit_def previous_rows_def list_all_iff)
  moreover have "secret_fits (demote r t)" using assms(2) by (simp add: secret_fits_def demote_def)
  ultimately show ?thesis using assms(1) put by (simp add: retire_rows_def Let_def)
qed

lemma fitting_primary [keep_intros]:
  "int4 version \<Longrightarrow> keeps (on_db fitting) (insert_primary_signing_secret e i x version t)"
  unfolding insert_primary_signing_secret_def Let_def
  by (intro keep_intros on_db_update fitting_insert) (simp_all add: secret_fits_def)

lemma fitting_audit [keep_intros]:
  "length actor \<le> 255 \<Longrightarrow> length action \<le> 64 \<Longrightarrow> length rt \<le> 64 \<Longrightarrow>
     keeps (on_db fitting) (add_audit_log e actor action rt rid metadata)"
  unfolding add_audit_log_def by (intro keep_intros on_db_update fitting_insert) (simp_all add: audit_fits_def)

lemma fitting_route:
  assumes "\<And>b. r = Inr b \<Longrightarrow> keeps (on_db fitting) (k b)"
  shows "keeps (on_db fitting) (seqE (require_roles e allowed creds stg) (bindE (liftE r) k))"
  by (intro keeps_seqE settled_get keeps_validated assms)

lemma fitting_create_partner:
  assumes "small_partner_create body" "small_settings stg"
  shows "keeps (on_db fitting) (create_partner e stg creds body)"
  unfolding create_partner_def store_partner_def
  by (rule fitting_route, intro keep_intros fitting_insert_partner [where body = body] assms)
    (auto intro: keep_intros fitting_settle simp: int4_def)

lemma fitting_save [keep_intros]:
  "partner_fits (p1\<lparr>p_updated_at := Some 0\<rparr>) \<Longrightarrow> keeps (on_db fitting) (save_partner p p1)"
  "endpoint_fits (ep1\<lparr>ep_updated_at := Some 0\<rparr>) \<Longrightarrow> keeps (on_db fitting) (save_endpoint ep ep1)"
  unfolding save_partner_def save_endpoint_def
  by (intro keep_intros on_db_update; simp add: fitting_put partner_fits_def endpoint_fits_def)+

lemma fitting_update_partner:
  assumes "small_partner_update body"
  shows "keeps (on_db fitting) (update_partner e stg creds u body)"
proof -
  have n: "partner_fits ((patch_partner b p)\<lparr>p_updated_at := Some 0\<rparr>)" if "validate_partner_update body = Inr b" "partner_fits p" for b p
    using that assms
    by (auto simp: validate_partner_update_def partner_fits_def patch_partner_def small_partner_update_def intro: set_some_fits
        split: if_splits)
  show ?thesis unfolding update_partner_def
    by (rule fitting_route, rule keeps_found_partner, intro keep_intros n) (auto intro: fitting_settle)
qed

lemma fitting_create_endpoint:
  assumes "small_endpoint_create body" "small_settings stg"
  shows "keeps (on_db fitting) (create_endpoint e stg creds u body)"
proof -
  have v: "b = body \<and> pred_option int2 (ec_max_attempts b)" if "validate_endpoint_create body = Inr b" for b
    using that by (auto simp: validate_endpoint_create_def int2_def split: if_splits option.splits)
  have n: "endpoint_fits \<lparr>ep_id = v, ep_partner_id = i, ep_direction = ec_direction b, ep_url = ec_url b,
      ep_event_types = ec_event_types b, ep_status = EndpointStatus.ACTIVE, ep_sla_seconds = ec_sla_seconds b,
      ep_max_attempts = int_or (ec_max_attempts b) (hub_max_attempts_default stg), ep_backoff_policy = JObj [],
      ep_retry_on_status_codes = [], ep_timeout_connect_ms = int_or (ec_timeout_connect_ms b) (hub_http_connect_timeout_ms stg),
      ep_timeout_read_ms = int_or (ec_timeout_read_ms b) (hub_http_read_timeout_ms stg),
      ep_created_at = Some stamp, ep_updated_at = Some stamp\<rparr>"
    if "validate_endpoint_create body = Inr b" for b v i stamp
    using v [OF that] assms by (auto simp: endpoint_fits_def small_endpoint_create_def small_settings_def int_or_fits)
  show ?thesis unfolding create_endpoint_def Let_def
    by (rule fitting_route, intro keep_intros on_db_update fitting_insert n) (auto intro: fitting_settle)
qed

lemma fitting_update_endpoint:
  assumes "pred_option int4 (eu_sla_seconds body)"
  shows "keeps (on_db fitting) (update_endpoint e stg creds u body)"
proof -
  have n: "endpoint_fits ((patch_endpoint b ep)\<lparr>ep_updated_at := Some 0\<rparr>)" if "validate_endpoint_update body = Inr b" "endpoint_fits ep" for b ep
    using that assms
    by (auto simp: validate_endpoint_update_def endpoint_fits_def patch_endpoint_def split: if_splits option.splits)
  show ?thesis unfolding update_endpoint_def
    by (rule fitting_route, rule keeps_found_endpoint, intro keep_intros n) (auto intro: fitting_settle)
qed

lemma fitting_create_schema:
  assumes "int4 (sc_version body)"
  shows "keeps (on_db fitting) (create_payload_schema e stg creds body)"
proof -
  have "b = body \<and> length (sc_event_type b) \<le> 128" if "validate_payload_schema_create body = Inr b" for b
    using that by (auto simp: validate_payload_schema_create_def split: if_splits)
  then show ?thesis unfolding create_payload_schema_def Let_def using assms
    by (intro fitting_route) (auto intro!: keep_intros fitting_insert intro: fitting_settle simp: payload_schema_fits_def)
qed

lemma fitting_secret_column:
  "fitting c d \<Longrightarrow> fitting c (d\<lparr>db_partners := map (\<lambda>q. if p_id q = i then q\<lparr>p_signing_secret_encrypted := x, p_updated_at := Some t\<rparr> else q) (db_partners d)\<rparr>)"
  by (auto simp: fitting_def rows_fit_def list_all_iff partner_fits_def)

text \<open>The hash of a generated key is a text of the length Argon2 documents for its encoded form (under 100).\<close>

definition short_hashes :: "('r, 'k) env \<Rightarrow> bool" where
  "short_hashes e \<longleftrightarrow> (\<forall>salt n. length (argon2_hash e salt (''pk_live_'' @ token_urlsafe e n 24)) \<le> 255)"

lemma keeps_generated_key:
  assumes "short_hashes e" "\<And>full_key pre hash. length pre \<le> 16 \<Longrightarrow> length hash \<le> 255 \<Longrightarrow> keeps (on_db fitting) (k (full_key, pre, hash))"
  shows "keeps (on_db fitting) (bindE (generate_api_key e) k)"
  unfolding generate_api_key_def Let_def using assms
  by (auto simp: keeps_def on_db_def run_simps short_hashes_def)

lemma fitting_api_key:
  assumes "short_hashes e"
  shows "keeps (on_db fitting) (create_api_key e stg creds u body)"
  unfolding create_api_key_def Let_def
  by (rule keeps_seqE, rule settled_get, rule keeps_bindE, rule traced_lookups, rule keeps_generated_key [OF assms])
    (auto intro!: keep_intros fitting_insert intro: fitting_settle simp: api_key_fits_def)

text \<open>Rotation: the next version has to fit, and so has the caller's name in the audit row.\<close>

definition short_caller :: "('r, 'k) env \<Rightarrow> settings \<Rightarrow> string option \<Rightarrow> bool" where
  "short_caller e stg creds \<longleftrightarrow> (\<forall>token now claims name. creds = Some token \<longrightarrow>
     jwt_decode e token (admin_bootstrap_token stg) now = Some claims \<longrightarrow> cl_sub claims = Some (JStr name) \<longrightarrow> length name \<le> 255)"

lemma caller_short:
  "short_caller e stg creds \<Longrightarrow> fst (require_roles e allowed creds stg w) = Inr pr \<Longrightarrow> length (ap_sub pr) \<le> 255"
  by (auto simp: short_caller_def require_roles_def get_admin_principal_def authenticate_token_def run_simps
      split: option.splits if_splits json.splits list.splits)
    (drule spec, drule spec, drule mp, assumption, drule spec, drule mp, assumption, simp)

definition secret_room :: "database \<Rightarrow> bool" where
  "secret_room db \<longleftrightarrow> list_all (\<lambda>x. int4 (ss_version x + 1)) (db_signing_secrets db)"

definition roomy :: "database \<Rightarrow> database \<Rightarrow> bool" where
  "roomy c d \<longleftrightarrow> fitting c d \<and> secret_room d"

text \<open>From a state with \<open>P\<close> the program ends in one with \<open>Q\<close>.\<close>

definition leads :: "(('r, 'k) world \<Rightarrow> bool) \<Rightarrow> ('r, 'k, 'a) hub \<Rightarrow> (('r, 'k) world \<Rightarrow> bool) \<Rightarrow> bool" where
  "leads P m Q \<longleftrightarrow> (\<forall>w. P w \<longrightarrow> Q (snd (m w)))"

lemma leads_keeps: "keeps Q m \<Longrightarrow> (\<And>w. P w \<Longrightarrow> Q w) \<Longrightarrow> leads P m Q"
  by (simp add: leads_def keeps_def)

lemma leads_bind:
  assumes "keeps P m" "\<And>w. P w \<Longrightarrow> Q w" "\<And>x w. P w \<Longrightarrow> fst (m w) = Inr x \<Longrightarrow> leads P (k x) Q"
  shows "leads P (bindE m k) Q"
  unfolding leads_def
proof (intro allI impI)
  fix w assume w: "P w"
  obtain r w1 where m: "m w = (r, w1)" by force
  with keepsD [OF assms(1) w] have "P w1" by simp
  with assms(2,3) [OF w] m show "Q (snd (bindE m k w))"
    using assms(3) [OF w] by (cases r) (auto simp: bindE_run leads_def assms(2))
qed

lemma leads_then: "leads P m Q \<Longrightarrow> (\<And>x. keeps Q (k x)) \<Longrightarrow> leads P (bindE m k) Q"
  by (auto simp: leads_def keeps_def bindE_run split: prod.splits sum.splits)

lemma roomy_fitting: "on_db roomy w \<Longrightarrow> on_db fitting w"
  by (simp add: on_db_def roomy_def)

lemma rotation_tail:
  assumes "\<And>row. current = Some row \<Longrightarrow> secret_fits row \<and> int4 (ss_version row + 1)" "length actor \<le> 255"
  defines "version \<equiv> (case current of None \<Rightarrow> 1 | Some row \<Rightarrow> ss_version row + 1)"
  shows "keeps (on_db fitting)
    (seqE (case current of None \<Rightarrow> ret () | Some row \<Rightarrow> update_db (retire_rows i row t))
     (seqE (insert_primary_signing_secret e i encrypted version now)
     (bindE utcnow (\<lambda>stamp.
      seqE (update_db (\<lambda>db. db\<lparr>db_partners := map (\<lambda>q. if p_id q = i
              then q\<lparr>p_signing_secret_encrypted := Some encrypted, p_updated_at := Some stamp\<rparr> else q) (db_partners db)\<rparr>))
     (seqE (add_audit_log e actor ''signing_secret.rotate'' ''partner'' u metadata)
     (seqE commit
     (ret plaintext)))))))"
proof -
  have "int4 version" using assms(1) by (cases current) (simp_all add: version_def int4_def)
  with assms(1,2) show ?thesis
    by (cases current)
      (simp_all, (intro keep_intros on_db_update fitting_secret_column; auto intro: fitting_retire fitting_settle)+)
qed

lemma primary_found:
  assumes "on_db roomy w" "fst (fetch_primary_row i w) = Inr (Some row)"
  shows "secret_fits row \<and> int4 (ss_version row + 1)"
proof -
  have "row \<in> set (db_signing_secrets (w_db w))"
    using assms(2)
    by (auto simp: fetch_primary_row_def run_simps one_or_none_def primary_rows_def dest!: filter_eq_ConsD split: list.splits)
  with assms(1) show ?thesis
    by (auto simp: on_db_def roomy_def fitting_def rows_fit_def secret_room_def list_all_iff)
qed

lemma rotation_fits:
  assumes "length actor \<le> 255"
  shows "leads (on_db roomy) (rotate_partner_signing_secret e p stg actor None) (on_db fitting)"
proof -
  have tail: "leads (on_db roomy)
      (bindE (fetch_primary_row (p_id p)) (\<lambda>current_primary. rotation_rest current_primary)) (on_db fitting)"
    if "\<And>current. (\<And>row. current = Some row \<Longrightarrow> secret_fits row \<and> int4 (ss_version row + 1)) \<Longrightarrow>
          keeps (on_db fitting) (rotation_rest current)" for rotation_rest :: "_ \<Rightarrow> ('a, 'b, string) hub"
    by (intro leads_bind leads_keeps roomy_fitting that keep_intros) (auto dest: primary_found)
  show ?thesis
    unfolding rotate_partner_signing_secret_def Let_def option.case
    by (rule leads_bind, intro keep_intros, erule roomy_fitting,
        rule leads_bind, intro keep_intros, erule roomy_fitting,
        rule leads_bind, intro keep_intros, erule roomy_fitting,
        rule tail, rule rotation_tail [OF _ assms])
qed

lemma fitting_rotate:
  assumes "short_caller e stg creds"
  shows "leads (on_db roomy) (rotate_signing_secret e stg creds u) (on_db fitting)"
proof -
  have "leads (on_db roomy) (bindE (get_partner_by_public_id u) (\<lambda>p. bindE (rotate_partner_signing_secret e p stg actor None) (\<lambda>plaintext.
      bindE (refresh_partner p) (\<lambda>q. ret (partner_with_secret q plaintext))))) (on_db fitting)"
    if "length actor \<le> 255" for actor
    by (rule leads_bind, intro keep_intros, erule roomy_fitting, rule leads_then, rule rotation_fits [OF that], intro keep_intros)
  moreover have "leads (on_db roomy) (throw x) (on_db fitting)" for x
    by (intro leads_keeps keep_intros roomy_fitting)
  ultimately show ?thesis
    unfolding rotate_signing_secret_def
    by (intro leads_bind settled_get(2) roomy_fitting) (auto dest: caller_short [OF assms])
qed

section \<open>The accepted events\<close>

lemma resolved_endpoints:
  assumes "resolve_endpoints i ty w = (Inr eps, w')" "cache_fresh (w_db w) (w_cache w)" "ep \<in> set eps"
  shows "\<exists>q \<in> set (db_endpoints (w_db w)). ep_max_attempts ep = ep_max_attempts q"
proof (cases "fst (cache_get (w_monotonic w) (endpoints_cache_key i ty) (w_cache w))")
  case None
  with assms(1) have "eps = active_outbound_endpoints i ty (w_db w)"
    by (auto simp: resolve_endpoints_def Let_def run_simps fetch_active_outbound_endpoints_def split: if_splits)
  with assms(3) show ?thesis by (auto simp: active_outbound_endpoints_def)
next
  case (Some v)
  then obtain t where "w_cache w (endpoints_cache_key i ty) = Some (t, v)" by (auto simp: cache_get_value split: option.splits if_splits)
  with assms(2) have "v = CachedEndpoints (map copy_endpoint (active_outbound_endpoints i ty (w_db w)))"
    unfolding cache_fresh_def by blast
  with Some assms(1) have "eps = map copy_endpoint (active_outbound_endpoints i ty (w_db w))"
    by (auto simp: resolve_endpoints_def Let_def run_simps split: if_splits)
  with assms(3) show ?thesis by (auto simp: active_outbound_endpoints_def copy_endpoint_def)
qed

lemma fan_out_fits:
  assumes "length ty \<le> 128" "length ck \<le> 217" "length ci \<le> 128" "\<And>ep. ep \<in> set eps \<Longrightarrow> int2 (ep_max_attempts ep)"
  shows "list_all delivery_fits (assign_ids n stamp (fan_out e p ty payload ck ci now k eps))"
  using assms(4)
proof (induction eps arbitrary: n k)
  case (Cons ep eps)
  with assms(1-3) show ?case
    by (simp add: delivery_fits_def build_pending_delivery_def canonical_payload_hash_def length_sha256_hexdigest int2_def
        derived_idempotency_key_def)
qed simp

lemma outbox_rows_fit:
  assumes "length topic \<le> 128" "length key \<le> 64"
  shows "list_all outbox_fits (outbox_rows n stamp topic key rs)"
  using assms by (induction rs arbitrary: n) (auto simp: outbox_row_def outbox_fits_def int2_def)

lemma enqueue_rows_fit:
  assumes "fresh w" "w_db w = w_committed w" "rows_fit (w_committed w)" "length ty \<le> 128" "length ck \<le> 217" "length ci \<le> 128"
    and "\<And>n. uuid7 e n \<noteq> 0"
  shows "rows_fit (w_committed (snd (enqueue_outbound_for_event e pid ty payload ck ci now w)))"
proof -
  obtain r w' where run: "enqueue_outbound_for_event e pid ty payload ck ci now w = (r, w')" by force
  then show ?thesis
  proof (cases rule: enqueue_early)
    case error
    with assms(3) run show ?thesis by (simp add: only_cache_fields)
  next
    case (stored p w1 w2 eps w3)
    define ds where "ds = fan_out e p ty payload ck ci now (w_draws w3) eps"
    define w5 where "w5 = persisted ds (map2 (pending_envelope p ty payload ck ci now) ds eps)
        (str_uuid (p_public_id p)) OUTBOUND_PENDING_TOPIC (w3\<lparr>w_draws := w_draws w3 + length eps\<rparr>)"
    note eq = enqueue_run [OF stored(1-3) assms(7), where ck = ck and ci = ci and now = now, folded ds_def, folded w5_def]
    have same: "w_committed w5 = w_committed w" "w_db w3 = w_db w" using stored(4) by (simp_all add: w5_def only_cache_fields)
    have "on_state (settled_config (w_committed w)) w"
      using assms(1,2) by (simp add: on_state_def settled_config_def fresh_def)
    then have "on_state (settled_config (w_committed w)) w2"
      using keepsD [OF settled_lookups(1)] keepsD [OF settled_lookups(2)] stored(1,2) by (metis snd_conv)
    moreover have "w_db w2 = w_db w"
      using stored(1,2) cache_only_resolve_partner cache_only_check_schema only_cache_fields by (metis cache_only_def snd_conv)
    ultimately have "cache_fresh (w_db w2) (w_cache w2)"
      using assms(2) by (simp add: on_state_def settled_config_def)
    then have "\<exists>q \<in> set (db_endpoints (w_db w)). ep_max_attempts ep = ep_max_attempts q" if "ep \<in> set eps" for ep
      using resolved_endpoints [OF stored(3) _ that] \<open>w_db w2 = w_db w\<close> by simp
    then have m: "int2 (ep_max_attempts ep)" if "ep \<in> set eps" for ep
      using assms(2,3) that by (force simp: rows_fit_def list_all_iff endpoint_fits_def)
    have "rows_fit (w_db w5)"
      using assms(2,3) same(2) fan_out_fits [OF assms(4-6) m]
      by (simp add: w5_def persisted_def Let_def rows_fit_def ds_def outbox_rows_fit OUTBOUND_PENDING_TOPIC_def)
    then have "rows_fit (w_committed w')"
      using eq run same(1) assms(3) duplicate_or_conflict_frame(1) [where i = "p_id p" and ck = ck and eps = eps and w = w5 and r = r and w' = w'] by (auto split: if_splits)
    then show ?thesis using run by simp
  qed
qed

lemma event_rows_fit:
  assumes "fresh w" "w_db w = w_committed w" "rows_fit (w_committed w)" "short_event context b" "\<And>n. uuid7 e n \<noteq> 0"
  shows "rows_fit (w_committed (snd (create_outbound_event e stg creds context b now w)))"
proof -
  have c: "length ci \<le> 128" if "outbound_correlation g context = Inr ci" for g ci
    using that assms(4) by (auto simp: outbound_correlation_def short_event_def split: option.splits)
  have v: "x = b" if "validate_outbound_event b = Inr x" for x
    using that by (auto simp: validate_outbound_event_def split: option.splits if_splits sum.splits)
  obtain r where r: "require_roles e RequireAdmin creds stg w = (r, w)"
    using require_roles_state by (metis prod.collapse)
  show ?thesis
    using enqueue_rows_fit [OF assms(1-3) _ _ c assms(5)] assms(3,4) r
    by (auto simp: create_outbound_event_def seqE_run bindE_run liftE_apply short_event_def dest!: v
        split: sum.splits option.splits)
qed

section \<open>Every row fits its columns\<close>

inductive bounded_serves :: "('r, 'k) env \<Rightarrow> settings \<Rightarrow> ('r, 'k) world \<Rightarrow> ('r, 'k) world \<Rightarrow> bool" for e stg where
  bounded_create_partner: "small_partner_create pbody \<Longrightarrow>
     bounded_serves e stg w (snd (with_session (create_partner e stg creds pbody) w))"
| bounded_update_partner: "small_partner_update ubody \<Longrightarrow>
     bounded_serves e stg w (snd (with_session (update_partner e stg creds u ubody) w))"
| bounded_create_api_key: "bounded_serves e stg w (snd (with_session (create_api_key e stg creds u kbody) w))"
| bounded_rotate: "short_caller e stg creds \<Longrightarrow> secret_room (w_committed w) \<Longrightarrow>
     bounded_serves e stg w (snd (with_session (rotate_signing_secret e stg creds u) w))"
| bounded_create_endpoint: "small_endpoint_create ebody \<Longrightarrow>
     bounded_serves e stg w (snd (with_session (create_endpoint e stg creds u ebody) w))"
| bounded_update_endpoint: "pred_option int4 (eu_sla_seconds xbody) \<Longrightarrow>
     bounded_serves e stg w (snd (with_session (update_endpoint e stg creds u xbody) w))"
| bounded_create_schema: "int4 (sc_version sbody) \<Longrightarrow>
     bounded_serves e stg w (snd (with_session (create_payload_schema e stg creds sbody) w))"
| bounded_enqueue: "short_event context obody \<Longrightarrow>
     bounded_serves e stg w (snd (with_session (create_outbound_event e stg creds context obody now) w))"
| bounded_time: "bounded_serves e stg w (w\<lparr>w_clock := t, w_monotonic := m\<rparr>)"

lemma bounded_serves_serves: "bounded_serves e stg w w' \<Longrightarrow> serves e stg w w'"
  by (induction rule: bounded_serves.induct) (auto intro: serves.intros)

lemma fitting_served:
  assumes "keeps (on_db fitting) m" "rows_fit (w_committed w)"
  shows "rows_fit (w_committed (snd (with_session m w)))"
  using keepsD [OF assms(1), of "w\<lparr>w_db := w_committed w\<rparr>"] assms(2) by (simp add: on_db_def fitting_def with_session_run)

lemma rotation_served:
  assumes "short_caller e stg creds" "secret_room (w_committed w)" "rows_fit (w_committed w)"
  shows "rows_fit (w_committed (snd (with_session (rotate_signing_secret e stg creds u) w)))"
proof -
  have "on_db roomy (w\<lparr>w_db := w_committed w\<rparr>)" using assms(2,3) by (simp add: on_db_def roomy_def fitting_def)
  with fitting_rotate [OF assms(1), of u] show ?thesis
    by (auto simp: leads_def on_db_def fitting_def with_session_run)
qed

lemma bounded_serves_fit:
  assumes "bounded_serves e stg w w'" "fresh w" "rows_fit (w_committed w)" "small_settings stg" "\<And>n. uuid7 e n \<noteq> 0" "short_hashes e"
  shows "rows_fit (w_committed w')"
  using assms(1)
proof cases
  case (bounded_enqueue cx obody creds now)
  with event_rows_fit [of "w\<lparr>w_db := w_committed w\<rparr>" cx obody e stg creds now] assms(2-5) show ?thesis
    by (simp add: with_session_run fresh_def)
qed (use assms(3,4,6) in \<open>auto intro: fitting_served fitting_create_partner fitting_update_partner fitting_api_key rotation_served
    fitting_create_endpoint fitting_update_endpoint fitting_create_schema\<close>)

text \<open>
  C22. Every row fits its columns: take the schema the migrations create, and a database whose rows are
  within it. A process that serves partner, endpoint, schema, credential and event requests leaves every row of
  all twelve tables within the types of its columns (no text is too long, no integer overflows and no column
  that must have a value is null), as long as what the request schemas leave open is bounded: integers fit
  32 bits, event types and keys are at most 128 and 217 characters long, the name in an admin token that
  rotates a secret at most 255, and the version of a secret is not yet the largest 32-bit integer.
\<close>

theorem rows_fit_columns:
  assumes "(bounded_serves e stg)\<^sup>*\<^sup>* w w'" and "run_ddl upgrade_head empty_schema = Inr s" and "tables_typed s (w_committed w)"
    and "w_cache w = Map.empty" and "constraints_ok (w_committed w)" and "small_settings stg" and "\<And>n. uuid7 e n \<noteq> 0"
    and "short_hashes e"
  shows "tables_typed s (w_committed w')"
proof -
  have "fresh w" using assms(4,5) by (simp add: fresh_def cache_fresh_def)
  moreover have "rows_fit (w_committed w)" using assms(2,3) by (simp add: tables_typed_head)
  ultimately have start: "fresh w \<and> rows_fit (w_committed w)" ..
  from assms(1) have "fresh w' \<and> rows_fit (w_committed w')"
    by (induction rule: rtranclp_induct) (use start assms(6-8) in \<open>blast intro: bounded_serves_fit serves_fresh bounded_serves_serves\<close>)+
  then show ?thesis using assms(2) by (simp add: tables_typed_head)
qed

text \<open>A partner is suspended, gets an API key and a new signing secret.\<close>

definition served_world :: "(mem_redis, message list) world" where
  "served_world =
     snd (with_session (rotate_signing_secret mem_env admin_settings (Some ''bootstrap-token'') 1)
     (snd (with_session (create_api_key mem_env admin_settings (Some ''bootstrap-token'') 1
        \<lparr>kc_scopes = [''status:read''], kc_expires_at = None\<rparr>) suspended_world)))"

definition both_roomy :: "database \<Rightarrow> database \<Rightarrow> bool" where
  "both_roomy c d \<longleftrightarrow> secret_room c \<and> secret_room d"

lemma room_kept:
  "keeps (on_db both_roomy) (create_api_key e stg creds u kbody)" "keeps (on_db both_roomy) (update_partner e stg creds u ubody)"
proof -
  have c: "keeps (on_db both_roomy) commit" by (rule on_db_commit) (simp add: both_roomy_def)
  show "keeps (on_db both_roomy) (create_api_key e stg creds u kbody)"
    unfolding create_api_key_def Let_def
    by (intro keep_intros c) (auto intro!: keep_intros c simp: both_roomy_def secret_room_def)
  show "keeps (on_db both_roomy) (update_partner e stg creds u ubody)"
    unfolding update_partner_def save_partner_def
    by (intro keep_intros c) (auto intro!: keep_intros c simp: both_roomy_def secret_room_def)
qed

lemma room_served: "keeps (on_db both_roomy) m \<Longrightarrow> secret_room (w_committed w) \<Longrightarrow> secret_room (w_committed (snd (with_session m w)))"
  by (drule keepsD [where s = "w\<lparr>w_db := w_committed w\<rparr>"]) (simp_all add: on_db_def both_roomy_def with_session_run)

theorem rows_fit_columns_witness:
  "\<exists>s. run_ddl upgrade_head empty_schema = Inr s \<and> tables_typed s (w_committed served_world) \<and>
     (bounded_serves mem_env admin_settings)\<^sup>*\<^sup>* sample_world served_world"
proof -
  let ?k = "with_session (create_api_key mem_env admin_settings (Some ''bootstrap-token'') 1
        \<lparr>kc_scopes = [''status:read''], kc_expires_at = None\<rparr>)"
  obtain s where s: "run_ddl upgrade_head empty_schema = Inr s" using head_reached by (auto split: sum.splits)
  have one: "bounded_serves mem_env admin_settings sample_world suspended_world"
    unfolding suspended_world_def
    by (rule bounded_update_partner) (simp add: suspension_def small_partner_update_def)
  have two: "bounded_serves mem_env admin_settings suspended_world (snd (?k suspended_world))"
    by (rule bounded_create_api_key)
  have "secret_room (w_committed sample_world)" by (simp add: secret_room_def sample_defs int4_def)
  then have "secret_room (w_committed (snd (?k suspended_world)))"
    unfolding suspended_world_def by (intro room_served room_kept)
  moreover have "short_caller mem_env admin_settings (Some ''bootstrap-token'')"
    by (simp add: short_caller_def mem_env_def)
  ultimately have "bounded_serves mem_env admin_settings (snd (?k suspended_world)) served_world"
    unfolding served_world_def by (intro bounded_rotate)
  with one two have run: "(bounded_serves mem_env admin_settings)\<^sup>*\<^sup>* sample_world served_world"
    by (meson converse_rtranclp_into_rtranclp rtranclp.rtrancl_refl)
  have "tables_typed s (w_committed sample_world)"
    by (simp add: tables_typed_head [OF s] rows_fit_def sample_defs partner_fits_def endpoint_fits_def secret_fits_def int4_def int2_def)
  moreover have "small_settings admin_settings"
    by (simp add: small_settings_def admin_settings_def default_settings_def int4_def int2_def)
  moreover have "short_hashes mem_env" by (simp add: short_hashes_def mem_env_def)
  ultimately have "tables_typed s (w_committed served_world)"
    using rows_fit_columns [OF run s _ sample_start] mem_env_uuid_nonnil by blast
  with s run show ?thesis by blast
qed

end
