(* ===== verification/RelayLoop.thy ===== *)
theory RelayLoop
  imports OutboxRelay
begin

text \<open>
  The main loop of the relay (\<open>OutboxRelay.run\<close> and \<open>_sleep_until_shutdown\<close> in
  \<open>app/workers/outbox_relay.py\<close>): passes until the shutdown event is set, with a sleep in chunks after a
  pass that published nothing. The loop need not end, so it is a partial function whose value \<open>None\<close>
  means that it does not return. Its surroundings are parameters: when the shutdown event is set, how
  late a sleep returns, and what happens to the hub while a pass runs.
\<close>

definition EMPTY_BATCH_SLEEP :: time where "EMPTY_BATCH_SLEEP = us_per_second"
definition SHUTDOWN_POLL_CHUNK :: time where "SHUTDOWN_POLL_CHUNK = us_per_second div 2"

record ('r, 'k) relay_env =
  relay_shutdown :: "time \<Rightarrow> bool"
  relay_late :: "time \<Rightarrow> time"
  relay_meanwhile :: "('r, 'k) world \<Rightarrow> ('r, 'k) world"

text \<open>The time at which the sleep returns.\<close>

function sleep_until_shutdown :: "('r, 'k) relay_env \<Rightarrow> time \<Rightarrow> time \<Rightarrow> time" where
  "sleep_until_shutdown re remaining now =
     (if 0 < remaining \<and> \<not> relay_shutdown re now
      then let chunk = min remaining SHUTDOWN_POLL_CHUNK
           in sleep_until_shutdown re (remaining - chunk) (now + chunk + max 0 (relay_late re now))
      else now)"
  by pat_completeness auto

termination
  by (relation "measure (\<lambda>(re, remaining, now). nat remaining)") (auto simp: SHUTDOWN_POLL_CHUNK_def us_per_second_def)

declare sleep_until_shutdown.simps [simp del]

partial_function (option) relay_run ::
  "('r, 'k) env \<Rightarrow> ('r, 'k) relay_env \<Rightarrow> ('r, 'k) world \<Rightarrow> ((exn + unit) \<times> ('r, 'k) world) option" where
  "relay_run e re w =
     (if relay_shutdown re (w_clock w) then Some (Inr (), w)
      else case relay_iteration e (relay_meanwhile re w) of
             (Inl x, w1) \<Rightarrow> Some (Inl x, w1)
           | (Inr published, w1) \<Rightarrow>
               relay_run e re (if published = 0
                 then w1\<lparr>w_clock := sleep_until_shutdown re EMPTY_BATCH_SLEEP (w_clock w1)\<rparr> else w1))"

declare relay_run.simps [code]

section \<open>The sleep\<close>

lemma sleep_ge: "now \<le> sleep_until_shutdown re r now"
proof (induction re r now rule: sleep_until_shutdown.induct)
  case (1 re r now)
  have "0 \<le> min r SHUTDOWN_POLL_CHUNK" if "0 < r" using that by (simp add: SHUTDOWN_POLL_CHUNK_def us_per_second_def)
  with 1 show ?case by (subst sleep_until_shutdown.simps) (fastforce simp: Let_def)
qed

text \<open>A sleep lasts its time unless the event is set, and notices the event within a chunk.\<close>

lemma sleep_bounds:
  assumes "0 \<le> r"
  shows "relay_shutdown re (sleep_until_shutdown re r now) \<or> now + r \<le> sleep_until_shutdown re r now"
  using assms
proof (induction re r now rule: sleep_until_shutdown.induct)
  case (1 re r now)
  show ?case
  proof (cases "0 < r \<and> \<not> relay_shutdown re now")
    case True
    let ?c = "min r SHUTDOWN_POLL_CHUNK" and ?n = "now + min r SHUTDOWN_POLL_CHUNK + max 0 (relay_late re now)"
    have "sleep_until_shutdown re r now = sleep_until_shutdown re (r - ?c) ?n"
      using True by (subst sleep_until_shutdown.simps) (simp add: Let_def)
    moreover have "relay_shutdown re (sleep_until_shutdown re (r - ?c) ?n) \<or> ?n + (r - ?c) \<le> sleep_until_shutdown re (r - ?c) ?n"
      using 1 True by simp
    moreover have "now + r \<le> ?n + (r - ?c)" by simp
    ultimately show ?thesis by auto
  next
    case False
    with 1(2) show ?thesis by (subst (1 2) sleep_until_shutdown.simps) (auto simp: sleep_until_shutdown.simps [of re r now])
  qed
qed

section \<open>A pass does not move the clock back\<close>

definition at_clock :: "time \<Rightarrow> ('r, 'k) world \<Rightarrow> bool" where
  "at_clock t w \<longleftrightarrow> w_clock w = t"

lemma at_clock_primitives [keep_intros]:
  "keeps (at_clock t) utcnow" "keeps (at_clock t) (update_db f)" "keeps (at_clock t) (send_and_wait e m)"
  "keeps (at_clock t) (emit_metric x)" "keeps (at_clock t) commit"
  by (auto simp: keeps_def at_clock_def run_simps send_and_wait_def commit_def flush_def split: prod.splits reply.splits)

lemma pass_keeps_clock: "w_clock (snd (relay_iteration e w)) = w_clock w"
proof -
  let ?m = "bindE (publish_unpublished_batch e 100) (\<lambda>published. seqE commit (ret published))"
  have "keeps (at_clock (w_clock w)) ?m"
    unfolding publish_unpublished_batch_def count_unpublished_def relay_event_def save_outbox_def mark_inbound_published_def
      set_gauge_metric_def by (intro keep_intros)
  from keepsD [OF this, of "w\<lparr>w_db := w_committed w\<rparr>"] show ?thesis
    by (simp add: at_clock_def relay_iteration_def with_session_run)
qed

section \<open>The loop\<close>

text \<open>What the next turn starts from.\<close>

definition after_pass :: "('r, 'k) relay_env \<Rightarrow> nat \<Rightarrow> ('r, 'k) world \<Rightarrow> ('r, 'k) world" where
  "after_pass re published w =
     (if published = 0 then w\<lparr>w_clock := sleep_until_shutdown re EMPTY_BATCH_SLEEP (w_clock w)\<rparr> else w)"

lemma after_pass_simps [simp]:
  "w_clock w \<le> w_clock (after_pass re n w)" "w_committed (after_pass re n w) = w_committed w"
  "0 < n \<Longrightarrow> after_pass re n w = w"
  by (simp_all add: after_pass_def sleep_ge)

lemma relay_run_stop: "relay_shutdown re (w_clock w) \<Longrightarrow> relay_run e re w = Some (Inr (), w)"
  by (subst relay_run.simps) simp

lemma relay_run_pass:
  "\<not> relay_shutdown re (w_clock w) \<Longrightarrow> relay_iteration e (relay_meanwhile re w) = (Inr n, w1) \<Longrightarrow>
     relay_run e re w = relay_run e re (after_pass re n w1)"
  by (subst relay_run.simps) (simp add: after_pass_def)

lemma relay_run_fail:
  "\<not> relay_shutdown re (w_clock w) \<Longrightarrow> relay_iteration e (relay_meanwhile re w) = (Inl x, w1) \<Longrightarrow>
     relay_run e re w = Some (Inl x, w1)"
  by (subst relay_run.simps) simp

text \<open>
  C21. The relay stops: once the shutdown event is set for good and every pass takes time, the loop
  returns, whatever the broker, the database and the other processes do. It ends at a moment the
  event was seen, or with the exception of a pass.
\<close>

theorem relay_run_returns:
  assumes "\<And>t. stop \<le> t \<Longrightarrow> relay_shutdown re t" and "\<And>v. w_clock v < w_clock (relay_meanwhile re v)"
  shows "\<exists>r w'. relay_run e re w = Some (r, w') \<and> (r = Inr () \<longrightarrow> relay_shutdown re (w_clock w'))"
proof (induction "nat (stop - w_clock w)" arbitrary: w rule: less_induct)
  case less
  show ?case
  proof (cases "relay_shutdown re (w_clock w)")
    case True
    then show ?thesis by (simp add: relay_run_stop)
  next
    case False
    obtain r w1 where pass: "relay_iteration e (relay_meanwhile re w) = (r, w1)" by force
    then have c: "w_clock w < w_clock w1" using pass_keeps_clock [of e "relay_meanwhile re w"] assms(2) [of w] by simp
    show ?thesis
    proof (cases r)
      case (Inl x)
      with relay_run_fail [OF False] pass show ?thesis by auto
    next
      case (Inr n)
      have "w_clock w < w_clock (after_pass re n w1)" using c after_pass_simps(1) [of w1 re n] by linarith
      moreover have "w_clock w < stop" using False assms(1) by (meson not_le)
      ultimately have "nat (stop - w_clock (after_pass re n w1)) < nat (stop - w_clock w)" by linarith
      from less [OF this] relay_run_pass [OF False] pass Inr show ?thesis by auto
    qed
  qed
qed

text \<open>
  C12. The loop empties the outbox: with a broker that accepts messages, no other writer and rows that can all
  be relayed, a backlog of any size is published by the time the loop stops, if a pass takes at most
  \<open>pace\<close> and the shutdown leaves one pass for every hundred rows. A loop that is stopped earlier leaves the rest.
\<close>

theorem relay_run_drains:
  assumes "kafka_up (producer e) klog"
    and "constraints_ok (w_committed w)" and "list_all relayable (db_outbox (w_committed w))"
    and "\<And>t. relay_shutdown re t \<longleftrightarrow> stop \<le> t"
    and "\<And>v. w_clock v < w_clock (relay_meanwhile re v) \<and> w_clock (relay_meanwhile re v) \<le> w_clock v + pace \<and>
           w_committed (relay_meanwhile re v) = w_committed v"
    and "w_clock w + pace * ((int (length (filter unpublished (db_outbox (w_committed w)))) + 99) div 100) \<le> stop"
  shows "\<exists>w'. relay_run e re w = Some (Inr (), w') \<and> filter unpublished (db_outbox (w_committed w')) = [] \<and> stop \<le> w_clock w'"
proof -
  let ?left = "\<lambda>v :: ('r, 'k) world. int (length (filter unpublished (db_outbox (w_committed v))))"
  have pace: "0 < pace" using assms(5) [of w] by linarith
  have "\<exists>w'. relay_run e re v = Some (Inr (), w') \<and> filter unpublished (db_outbox (w_committed w')) = [] \<and> stop \<le> w_clock w'"
    if "constraints_ok (w_committed v)" "list_all relayable (db_outbox (w_committed v))"
      "?left v = 0 \<or> w_clock v + pace * ((?left v + 99) div 100) \<le> stop" for v
    using that
  proof (induction "nat (stop - w_clock v)" arbitrary: v rule: less_induct)
    case less
    show ?case
    proof (cases "stop \<le> w_clock v")
      case True
      have "?left v = 0"
      proof (rule ccontr)
        assume "?left v \<noteq> 0"
        then have "1 \<le> (?left v + 99) div 100" by linarith
        then have "pace * 1 \<le> pace * ((?left v + 99) div 100)" using pace by (intro mult_left_mono) auto
        with less.prems(3) True pace \<open>?left v \<noteq> 0\<close> show False by linarith
      qed
      with True show ?thesis using relay_run_stop [of re v e] assms(4) by simp
    next
      case False
      let ?v = "relay_meanwhile re v" and ?n = "min 100 (nat (?left v))"
      obtain w1 where pass: "relay_iteration e ?v = (Inr ?n, w1)"
          "length (filter unpublished (db_outbox (w_committed w1))) = nat (?left v) - 100"
          "w_clock w1 = w_clock ?v" "constraints_ok (w_committed w1)" "list_all relayable (db_outbox (w_committed w1))"
        using relay_pass [OF assms(1), of ?v] less.prems(1,2) assms(5) [of v] by auto
      let ?w2 = "after_pass re ?n w1"
      have "w_clock v < w_clock ?w2" using pass(3) assms(5) [of v] after_pass_simps(1) [of w1 re ?n] by linarith
      then have "nat (stop - w_clock ?w2) < nat (stop - w_clock v)" using False by linarith
      moreover have "?left ?w2 = 0 \<or> w_clock ?w2 + pace * ((?left ?w2 + 99) div 100) \<le> stop"
      proof (cases "?left v = 0")
        case True
        with pass(2) show ?thesis by simp
      next
        case ne: False
        then have w2: "?w2 = w1" by (intro after_pass_simps(3)) simp
        show ?thesis
        proof (cases "100 \<le> ?left v")
          case True
          with pass(2) have "?left w1 = ?left v - 100" by linarith
          then have "(?left w1 + 99) div 100 = (?left v + 99) div 100 - 1" by linarith
          then have "pace * ((?left w1 + 99) div 100) = pace * ((?left v + 99) div 100) - pace" by (simp add: right_diff_distrib)
          moreover have "w_clock w1 \<le> w_clock v + pace" using pass(3) assms(5) [of v] by simp
          moreover have "w_clock v + pace * ((?left v + 99) div 100) \<le> stop" using less.prems(3) ne by simp
          ultimately have "w_clock w1 + pace * ((?left w1 + 99) div 100) \<le> stop" by linarith
          then show ?thesis using w2 by simp
        qed (use pass(2) w2 in simp)
      qed
      ultimately show ?thesis
        using less.hyps [of ?w2] pass(4,5) relay_run_pass [of re v e, OF _ pass(1)] assms(4) False by simp
    qed
  qed
  with assms(2,3,6) show ?thesis by blast
qed

section \<open>A run\<close>

definition quiet_relay :: "(mem_redis, message list) relay_env" where
  "quiet_relay = \<lparr>relay_shutdown = (\<lambda>t. 5 \<le> t), relay_late = (\<lambda>_. 0), relay_meanwhile = (\<lambda>w. w\<lparr>w_clock := w_clock w + 1\<rparr>)\<rparr>"

theorem relay_run_returns_witness:
  "\<exists>r w'. relay_run mem_env quiet_relay outbox_world = Some (r, w') \<and> (r = Inr () \<longrightarrow> 5 \<le> w_clock w')"
  using relay_run_returns [of 5 quiet_relay mem_env outbox_world] by (simp add: quiet_relay_def)

theorem relay_run_drains_witness:
  "\<exists>w'. relay_run mem_env quiet_relay outbox_world = Some (Inr (), w') \<and> filter unpublished (db_outbox (w_committed w')) = [] \<and> 5 \<le> w_clock w'"
  using relay_run_drains [OF memkup.kafka_up_axioms [folded mem_env_simps(2)], of outbox_world quiet_relay 5 1]
  by (simp add: quiet_relay_def)

end
