(* ===== verification/App.thy ===== *)
theory App
  imports ApiAuth
begin

text \<open>
  The assembled HTTP application (\<open>create_app\<close> in \<open>app/main.py\<close>): the correlation variable of
  \<open>app/logging.py\<close>, the middlewares in the order in which \<open>add_middleware\<close> nests them (the last one added is
  the outermost), the exception handlers around the router and the two liveness routes. The other
  routes are an argument; the CORS middleware is a parameter, and a body the framework formats is \<open>None\<close>.
  The lemmas show what every request is answered with, and that the correlation variable is restored.
\<close>

section \<open>The correlation variable\<close>

record ('r, 'k) app_state =
  as_world :: "('r, 'k) world"
  as_correlation :: "string option"

type_synonym ('r, 'k, 'a) scoped = "(('r, 'k) app_state, exn, 'a) prog"

definition in_app :: "('r, 'k, 'a) hub \<Rightarrow> ('r, 'k, 'a) scoped" where
  "in_app m = (\<lambda>s. case m (as_world s) of (r, w) \<Rightarrow> (r, s\<lparr>as_world := w\<rparr>))"

definition get_correlation_id :: "('r, 'k, string option) scoped" where
  "get_correlation_id = gets as_correlation"

text \<open>The token of a \<open>ContextVar\<close> holds the value it had before.\<close>

datatype correlation_token = Token "string option"

definition bind_correlation_id :: "string \<Rightarrow> ('r, 'k, correlation_token) scoped" where
  "bind_correlation_id correlation_id =
     bindE get_correlation_id (\<lambda>old.
     seqE (modify (\<lambda>s. s\<lparr>as_correlation := Some correlation_id\<rparr>)) (ret (Token old)))"

definition clear_correlation_id :: "correlation_token option \<Rightarrow> ('r, 'k, unit) scoped" where
  "clear_correlation_id token =
     (case token of
        Some (Token old) \<Rightarrow> modify (\<lambda>s. s\<lparr>as_correlation := old\<rparr>)
      | None \<Rightarrow> modify (\<lambda>s. s\<lparr>as_correlation := None\<rparr>))"

section \<open>Requests and answers\<close>

record app_request =
  rq_method :: string
  rq_path :: string
  rq_correlation :: "string option"
  rq_content_length :: "string option"
  rq_origin :: "string option"

record app_answer =
  an_status :: int
  an_headers :: "(string \<times> string) list"
  an_content :: "json option"

type_synonym ('r, 'k) asgi = "app_request \<Rightarrow> ('r, 'k, app_answer) scoped"

definition answer :: "int \<Rightarrow> json option \<Rightarrow> app_answer" where
  "answer code content = \<lparr>an_status = code, an_headers = [], an_content = content\<rparr>"

definition CORRELATION_HEADER :: string where "CORRELATION_HEADER = ''X-Correlation-Id''"

definition correlation_validation_error :: "string \<Rightarrow> app_answer" where
  "correlation_validation_error raw = answer 422 (Some (JObj [(''detail'', JArr [JObj
     [(''type'', JStr ''uuid_version''), (''loc'', JArr [JStr ''header'', JStr CORRELATION_HEADER]),
      (''msg'', JStr ''X-Correlation-Id must be a UUID version 7''), (''input'', JStr raw)]])]))"

definition payload_too_large_response :: app_answer where
  "payload_too_large_response = answer 413 (Some (JObj [(''detail'', JArr [JObj
     [(''type'', JStr ''payload_too_large''), (''loc'', JArr [JStr ''body'']),
      (''msg'', JStr ''Request body exceeds the 256 KB payload limit''), (''input'', JNull)]])]))"

section \<open>The middlewares\<close>

definition correlation_app :: "('r, 'k) env \<Rightarrow> ('r, 'k) asgi \<Rightarrow> ('r, 'k) asgi" where
  "correlation_app e app rq =
     bindE (catchE (bindE (in_app (resolve_correlation_id e (rq_correlation rq))) (\<lambda>s. ret (Inr s)))
                   (\<lambda>x. ret (Inl (correlation_validation_error (case rq_correlation rq of None \<Rightarrow> [] | Some raw \<Rightarrow> raw)))))
       (\<lambda>resolved. case resolved of
          Inl refused \<Rightarrow> ret refused
        | Inr s \<Rightarrow>
            bindE (bind_correlation_id s) (\<lambda>token.
            finallyE (bindE (app rq) (\<lambda>a. ret (a\<lparr>an_headers := an_headers a @ [(CORRELATION_HEADER, s)]\<rparr>)))
                     (clear_correlation_id (Some token))))"

definition max_body_app :: "int \<Rightarrow> ('r, 'k) asgi \<Rightarrow> ('r, 'k) asgi" where
  "max_body_app max_body_size app rq =
     (case rq_content_length rq of
        None \<Rightarrow> app rq
      | Some content_length \<Rightarrow>
          (case py_int 10 content_length of
             None \<Rightarrow> ret payload_too_large_response
           | Some declared \<Rightarrow> if declared > max_body_size then ret payload_too_large_response else app rq))"

text \<open>
  The handlers inside the middlewares: the registered one for domain errors and the framework's for
  \<open>HTTPException\<close> and failed validation. Anything else leaves the stack and is answered with a 500.
\<close>

definition handled_exception :: "exn \<Rightarrow> app_answer option" where
  "handled_exception x = (case x of
     HTTPException code detail \<Rightarrow> Some (answer code (Some (JObj [(''detail'', JStr detail)])))
   | RequestValidationError field \<Rightarrow> Some (answer 422 None)
   | _ \<Rightarrow> (case hub_error_handler x of
            None \<Rightarrow> None
          | Some (code, detail) \<Rightarrow> Some (answer code (Some (JObj [(''detail'', JStr detail)])))))"

definition exception_handlers :: "('r, 'k) asgi \<Rightarrow> ('r, 'k) asgi" where
  "exception_handlers app rq = catchE (app rq) (\<lambda>x. case handled_exception x of None \<Rightarrow> throw x | Some a \<Rightarrow> ret a)"

definition server_error_handler :: "('r, 'k) asgi \<Rightarrow> ('r, 'k) asgi" where
  "server_error_handler app rq = catchE (app rq) (\<lambda>x. ret (answer 500 None))"

section \<open>The application\<close>

definition HealthResponse :: json where "HealthResponse = JObj [(''status'', JStr ''ok'')]"

definition inbound_health :: "('r, 'k, app_answer) scoped" where
  "inbound_health = ret (answer 200 (Some HealthResponse))"

definition internal_health :: "('r, 'k, app_answer) scoped" where
  "internal_health = ret (answer 200 (Some HealthResponse))"

definition router :: "('r, 'k) asgi \<Rightarrow> ('r, 'k) asgi" where
  "router routes rq =
     (if rq_method rq = ''GET'' \<and> rq_path rq = ''/inbound/v1/health'' then inbound_health
      else if rq_method rq = ''GET'' \<and> rq_path rq = ''/internal/v1/health'' then internal_health
      else routes rq)"

definition create_app ::
  "('r, 'k) env \<Rightarrow> settings \<Rightarrow> (('r, 'k) asgi \<Rightarrow> ('r, 'k) asgi) \<Rightarrow> ('r, 'k) asgi \<Rightarrow> ('r, 'k) asgi" where
  "create_app e stg cors routes =
     server_error_handler (cors (correlation_app e
       (max_body_app (hub_max_payload_bytes stg) (exception_handlers (router routes)))))"

section \<open>Lemmas\<close>

lemma in_app_run: "in_app m s = (fst (m (as_world s)), s\<lparr>as_world := snd (m (as_world s))\<rparr>)"
  by (simp add: in_app_def split: prod.splits)

text \<open>What the application behind the correlation middleware leaves, seen from outside.\<close>

lemma correlation_app_run:
  assumes "resolve_correlation_id e (rq_correlation rq) (as_world s) = (r, w)"
  shows "correlation_app e app rq s = (case r of
      Inl x \<Rightarrow> (Inr (correlation_validation_error (case rq_correlation rq of None \<Rightarrow> [] | Some raw \<Rightarrow> raw)), s\<lparr>as_world := w\<rparr>)
    | Inr c \<Rightarrow> (case app rq (s\<lparr>as_world := w, as_correlation := Some c\<rparr>) of
        (Inl x, s1) \<Rightarrow> (Inl x, s1\<lparr>as_correlation := as_correlation s\<rparr>)
      | (Inr a, s1) \<Rightarrow> (Inr (a\<lparr>an_headers := an_headers a @ [(CORRELATION_HEADER, c)]\<rparr>), s1\<lparr>as_correlation := as_correlation s\<rparr>)))"
  using assms
  by (auto simp: correlation_app_def bindE_run catchE_run seqE_run in_app_run ret_apply throw_apply bind_correlation_id_def
      get_correlation_id_def gets_apply modify_apply finallyE_run clear_correlation_id_def split: sum.splits prod.splits)

definition declared_ok :: "settings \<Rightarrow> app_request \<Rightarrow> bool" where
  "declared_ok stg rq \<longleftrightarrow> (case rq_content_length rq of None \<Rightarrow> True
     | Some h \<Rightarrow> (case py_int 10 h of None \<Rightarrow> False | Some n \<Rightarrow> n \<le> hub_max_payload_bytes stg))"

lemma max_body_run:
  "max_body_app (hub_max_payload_bytes stg) app rq s =
     (if declared_ok stg rq then app rq s else (Inr payload_too_large_response, s))"
  by (auto simp: max_body_app_def declared_ok_def ret_apply split: option.splits)

lemma handlers_run:
  "exception_handlers app rq s = (case app rq s of (Inr a, s1) \<Rightarrow> (Inr a, s1)
     | (Inl x, s1) \<Rightarrow> (case handled_exception x of None \<Rightarrow> (Inl x, s1) | Some a \<Rightarrow> (Inr a, s1)))"
  by (auto simp: exception_handlers_def catchE_run throw_apply ret_apply split: prod.splits sum.splits option.splits)

lemma handled_status: "handled_exception x = Some a \<Longrightarrow> an_status a = answer_status x \<and> an_headers a = []"
  by (auto simp: handled_exception_def answer_status_def answer_def split: exn.splits option.splits)

lemma unhandled_status: "handled_exception x = None \<Longrightarrow> answer_status x = 500"
  by (auto simp: handled_exception_def answer_status_def split: exn.splits option.splits)

section \<open>Properties\<close>

text \<open>
  C23. Every request the CORS middleware passes on (any but a preflight, to which it answers itself; it only
  appends its own headers to an answer) is answered, and the correlation variable of the process is afterwards what it
  was. A bad correlation header is refused with a 422 before anything else and a declared body over the limit
  with a 413, the route not running in either case; otherwise the route runs with the resolved identifier in
  the variable, and its answer or the status of its exception is what is answered. The answer carries the
  identifier, except when there is none (the 422 of a bad header) and when the exception is one that no
  handler takes: that 500 is made outside the middlewares.
\<close>

theorem app_answers:
  assumes "\<And>app s. cors app rq s = (case app rq s of
        (Inr a, s1) \<Rightarrow> (Inr (a\<lparr>an_headers := an_headers a @ extra\<rparr>), s1) | (Inl x, s1) \<Rightarrow> (Inl x, s1))"
    and "resolve_correlation_id e (rq_correlation rq) (as_world s) = (r, w)"
  shows "\<exists>a s'. create_app e stg cors routes rq s = (Inr a, s') \<and> as_correlation s' = as_correlation s \<and>
     (case r of
        Inl x \<Rightarrow> an_status a = 422 \<and> an_headers a = extra \<and> as_world s' = w
      | Inr c \<Rightarrow>
          if \<not> declared_ok stg rq then an_status a = 413 \<and> an_headers a = (CORRELATION_HEADER, c) # extra \<and> as_world s' = w
          else (case router routes rq (s\<lparr>as_world := w, as_correlation := Some c\<rparr>) of
             (Inr b, s1) \<Rightarrow> a = b\<lparr>an_headers := an_headers b @ (CORRELATION_HEADER, c) # extra\<rparr> \<and> as_world s' = as_world s1
           | (Inl x, s1) \<Rightarrow> an_status a = answer_status x \<and> as_world s' = as_world s1 \<and>
               an_headers a = (if handled_exception x = None then [] else (CORRELATION_HEADER, c) # extra)))"
proof -
  let ?stack = "max_body_app (hub_max_payload_bytes stg) (exception_handlers (router routes))"
  have run: "create_app e stg cors routes rq s = (case correlation_app e ?stack rq s of
      (Inl x, s1) \<Rightarrow> (Inr (answer 500 None), s1) | (Inr a, s1) \<Rightarrow> (Inr (a\<lparr>an_headers := an_headers a @ extra\<rparr>), s1))"
    by (auto simp: create_app_def server_error_handler_def catchE_run ret_apply assms(1) split: prod.splits sum.splits)
  show ?thesis
  proof (cases r)
    case (Inl x)
    then show ?thesis unfolding run correlation_app_run [OF assms(2)] by (simp add: correlation_validation_error_def answer_def)
  next
    case (Inr c)
    note stack = run correlation_app_run [OF assms(2)] Inr max_body_run handlers_run
    show ?thesis
    proof (cases "declared_ok stg rq")
      case False
      then show ?thesis unfolding stack by (simp add: Inr payload_too_large_response_def answer_def)
    next
      case True
      obtain q s1 where route: "router routes rq (s\<lparr>as_world := w, as_correlation := Some c\<rparr>) = (q, s1)" by force
      show ?thesis
      proof (cases q)
        case (Inr b)
        with True route show ?thesis unfolding stack by (simp add: \<open>r = Inr c\<close>)
      next
        case (Inl x)
        with True route \<open>r = Inr c\<close> show ?thesis
          using handled_status [of x] unhandled_status [of x]
          by (cases "handled_exception x") (simp_all add: stack answer_def)
      qed
    qed
  qed
qed

text \<open>A probe of the console with an oversized body: refused, with the generated identifier and the CORS header.\<close>

definition oversized_probe :: app_request where
  "oversized_probe = \<lparr>rq_method = ''GET'', rq_path = ''/inbound/v1/health'', rq_correlation = None,
     rq_content_length = Some ''262145'', rq_origin = Some ''http://localhost:8080''\<rparr>"

definition allow_origin :: "('r, 'k) asgi \<Rightarrow> ('r, 'k) asgi" where
  "allow_origin app rq = (case rq_origin rq of
     None \<Rightarrow> app rq
   | Some origin \<Rightarrow> bindE (app rq) (\<lambda>a. ret (a\<lparr>an_headers := an_headers a @ [(''access-control-allow-origin'', origin)]\<rparr>)))"

theorem app_answers_witness:
  "\<exists>a s'. create_app mem_env default_settings allow_origin (\<lambda>rq. throw KafkaError) oversized_probe
       \<lparr>as_world = sample_world, as_correlation = Some ''outer''\<rparr> = (Inr a, s') \<and>
     as_correlation s' = Some ''outer'' \<and> an_status a = 413 \<and>
     an_headers a = [(CORRELATION_HEADER, str_uuid 1), (''access-control-allow-origin'', ''http://localhost:8080'')]"
proof -
  let ?s = "\<lparr>as_world = sample_world, as_correlation = Some ''outer''\<rparr>"
  have r: "resolve_correlation_id mem_env (rq_correlation oversized_probe) (as_world ?s) =
      (Inr (str_uuid 1), sample_world\<lparr>w_draws := 1\<rparr>)"
    by (simp add: resolve_correlation_id_def oversized_probe_def run_simps sample_world_def initial_world_def mem_env_def)
  have "py_int 10 ''262145'' = Some 262145"
    by (simp add: py_int_def py_strip_def is_space_def unsigned_int_def digit_val_def)
  then have big: "\<not> declared_ok default_settings oversized_probe"
    by (simp add: declared_ok_def oversized_probe_def default_settings_def)
  have "allow_origin app oversized_probe s = (case app oversized_probe s of
      (Inr a, s1) \<Rightarrow> (Inr (a\<lparr>an_headers := an_headers a @ [(''access-control-allow-origin'', ''http://localhost:8080'')]\<rparr>), s1)
    | (Inl x, s1) \<Rightarrow> (Inl x, s1))" for app :: "(mem_redis, message list) asgi" and s
    by (auto simp: allow_origin_def bindE_run ret_apply oversized_probe_def split: prod.splits sum.splits)
  with app_answers [of allow_origin oversized_probe _ mem_env ?s, OF _ r, of _ default_settings "\<lambda>rq. throw KafkaError"] big
  show ?thesis by fastforce
qed

end
