(* ===== verification/LoadTests.thy ===== *)
theory LoadTests
  imports AdminPartners OutboxRelay
begin

text \<open>
  The load scenarios (\<open>loadtests/config.py\<close>, \<open>preflight.py\<close> and the verdicts of \<open>locustfile.py\<close>): the process
  environment, the preflight checks before a run and the tests on each answer. The process environment is
  a map and the HTTP client a function of base URL, path and bearer token; Locust itself is not modelled.
  The lemmas tie the partner lookup to the page the hub serves.
\<close>

section \<open>The process environment\<close>

type_synonym environ = "string \<Rightarrow> string option"

definition DEFAULT_LOAD_HOST :: string where "DEFAULT_LOAD_HOST = ''http://127.0.0.1:8000''"
definition DEFAULT_PARTNER_SLUG :: string where "DEFAULT_PARTNER_SLUG = ''acme-erp''"

text \<open>\<open>os.environ.get(name) or default\<close>: an empty value counts as missing.\<close>

definition env_or :: "environ \<Rightarrow> string \<Rightarrow> string \<Rightarrow> string" where
  "env_or env name fallback = (case env name of None \<Rightarrow> fallback | Some v \<Rightarrow> if v = [] then fallback else v)"

definition rstrip_slash :: "string \<Rightarrow> string" where
  "rstrip_slash s = rev (dropWhile (\<lambda>c. c = CHR ''/'') (rev s))"

definition load_host :: "environ \<Rightarrow> string" where
  "load_host env = rstrip_slash (env_or env ''LOAD_HOST'' (env_or env ''BASE_URL'' DEFAULT_LOAD_HOST))"

definition admin_token :: "environ \<Rightarrow> string" where
  "admin_token env = py_strip (env_or env ''LOAD_ADMIN_TOKEN'' (env_or env ''ADMIN_BOOTSTRAP_TOKEN'' []))"

definition partner_slug :: "environ \<Rightarrow> string" where
  "partner_slug env = py_strip (env_or env ''LOAD_PARTNER_SLUG'' DEFAULT_PARTNER_SLUG)"

definition partner_public_id_from_env :: "environ \<Rightarrow> string option" where
  "partner_public_id_from_env env =
     (let v = py_strip (case env ''LOAD_PARTNER_PUBLIC_ID'' of None \<Rightarrow> [] | Some v \<Rightarrow> v)
      in if v = [] then None else Some v)"

section \<open>Preflight\<close>

datatype load_error = PreflightError string | AttributeError | OtherError exn

text \<open>A reply of the client: an \<open>httpx.HTTPError\<close>, or a status with a body that may not be JSON.\<close>

datatype http_reply = HttpError string | HttpReply int "json option"

type_synonym http_get = "string \<Rightarrow> string \<Rightarrow> string option \<Rightarrow> http_reply"

definition READY_PATH :: string where "READY_PATH = ''/inbound/v1/health''"
definition PARTNERS_PATH :: string where "PARTNERS_PATH = ''/admin/v1/partners''"
definition MIN_SMOKE_REQUESTS :: int where "MIN_SMOKE_REQUESTS = 1"

definition preflight_credentials :: "environ \<Rightarrow> load_error + string" where
  "preflight_credentials env =
     (let token = admin_token env
      in if token = [] then Inl (PreflightError ''ADMIN_BOOTSTRAP_TOKEN or LOAD_ADMIN_TOKEN must be set in process environment'')
         else Inr token)"

definition base_url :: "environ \<Rightarrow> string option \<Rightarrow> string" where
  "base_url env host = rstrip_slash (case host of None \<Rightarrow> load_host env | Some h \<Rightarrow> if h = [] then load_host env else h)"

definition preflight_api_ready :: "environ \<Rightarrow> http_get \<Rightarrow> string option \<Rightarrow> load_error + unit" where
  "preflight_api_ready env get host =
     (case get (base_url env host) READY_PATH None of
        HttpError m \<Rightarrow> Inl (PreflightError (''health check failed: '' @ m))
      | HttpReply code body \<Rightarrow>
          if code \<noteq> 200 then Inl (PreflightError (''health check failed: HTTP '' @ str_int code)) else Inr ())"

text \<open>What a \<open>for\<close> loop over a JSON value runs through.\<close>

definition iterate_json :: "json \<Rightarrow> load_error + json list" where
  "iterate_json j = (case j of
     JArr xs \<Rightarrow> Inr xs | JObj kvs \<Rightarrow> Inr (map (\<lambda>kv. JStr (fst kv)) kvs) | JStr s \<Rightarrow> Inr (map (\<lambda>c. JStr [c]) s)
   | _ \<Rightarrow> Inl (OtherError TypeError))"

fun find_partner :: "string \<Rightarrow> json list \<Rightarrow> load_error + string" where
  "find_partner slug [] = Inl (PreflightError (''partner with slug '' @ slug @ '' not found in partners list''))"
| "find_partner slug (x # xs) = (case x of
     JObj kvs \<Rightarrow>
       if jget x ''slug'' = Some (JStr slug)
       then (case jget x ''id'' of None \<Rightarrow> Inl (OtherError (KeyError ''id'')) | Some v \<Rightarrow> Inr (header_text v))
       else find_partner slug xs
   | _ \<Rightarrow> Inl AttributeError)"

definition resolve_partner_public_id :: "environ \<Rightarrow> http_get \<Rightarrow> string option \<Rightarrow> string \<Rightarrow> load_error + string" where
  "resolve_partner_public_id env get host token =
     (case partner_public_id_from_env env of
        Some env_id \<Rightarrow> Inr env_id
      | None \<Rightarrow>
          let slug = partner_slug env in
          (case get (base_url env host) (PARTNERS_PATH @ ''?limit=50&offset=0'') (Some token) of
             HttpError m \<Rightarrow> Inl (PreflightError (''partner lookup failed for slug '' @ slug @ '': '' @ m))
           | HttpReply code body \<Rightarrow>
               if code \<noteq> 200
               then Inl (PreflightError (''partner lookup failed for slug '' @ slug @ '': HTTP '' @ str_int code))
               else (case body of
                  None \<Rightarrow> Inl (OtherError (ValueError ''json''))
                | Some (JObj kvs) \<Rightarrow>
                    (case iterate_json (case map_of kvs ''items'' of None \<Rightarrow> JArr [] | Some v \<Rightarrow> v) of
                       Inl x \<Rightarrow> Inl x | Inr xs \<Rightarrow> find_partner slug xs)
                | Some _ \<Rightarrow> Inl AttributeError)))"

definition run_smoke_preflight :: "environ \<Rightarrow> http_get \<Rightarrow> string option \<Rightarrow> load_error + string" where
  "run_smoke_preflight env get host =
     (case preflight_credentials env of Inl x \<Rightarrow> Inl x | Inr token \<Rightarrow>
     (case preflight_api_ready env get host of Inl x \<Rightarrow> Inl x | Inr _ \<Rightarrow>
      resolve_partner_public_id env get host token))"

definition assert_minimum_requests :: "int \<Rightarrow> int \<Rightarrow> load_error + unit" where
  "assert_minimum_requests request_count minimum =
     (if request_count < minimum
      then Inl (PreflightError (str_int request_count @ '' HTTP request(s) below minimum '' @ str_int minimum)) else Inr ())"

text \<open>The exit code; an exception that is no \<open>PreflightError\<close> ends the process with a traceback, code 1.\<close>

definition preflight_main :: "environ \<Rightarrow> http_get \<Rightarrow> int" where
  "preflight_main env get = (case run_smoke_preflight env get None of Inr _ \<Rightarrow> 0 | Inl _ \<Rightarrow> 1)"

section \<open>The verdicts of the scenarios\<close>

text \<open>A failure of a request, or none.\<close>

definition accept_outbound_verdict :: "int \<Rightarrow> json option \<Rightarrow> load_error + string option" where
  "accept_outbound_verdict code body =
     (if code \<noteq> 202 then Inr (Some (''expected 202, got '' @ str_int code))
      else (case body of
         None \<Rightarrow> Inr (Some ''invalid JSON response'')
       | Some (JObj kvs) \<Rightarrow>
           if map_of kvs ''status'' = Some (JStr ''accepted'') then Inr None
           else Inr (Some (''expected status=accepted, got '' @ header_text (case map_of kvs ''status'' of None \<Rightarrow> JNull | Some v \<Rightarrow> v)))
       | Some _ \<Rightarrow> Inl AttributeError))"

definition inbound_health_verdict :: "int \<Rightarrow> string option" where
  "inbound_health_verdict code = (if code \<noteq> 200 then Some (''expected 200, got '' @ str_int code) else None)"

definition user_on_start :: "environ \<Rightarrow> http_get \<Rightarrow> load_error + string \<times> string" where
  "user_on_start env get =
     (let token = admin_token env in
      if token = [] then Inl (PreflightError ''ADMIN_BOOTSTRAP_TOKEN or LOAD_ADMIN_TOKEN must be set in process environment'')
      else (case partner_public_id_from_env env of
         Some partner_id \<Rightarrow> Inr (token, partner_id)
       | None \<Rightarrow> (case resolve_partner_public_id env get None token of Inl x \<Rightarrow> Inl x | Inr partner_id \<Rightarrow> Inr (token, partner_id))))"

definition exit_code_on_quit :: "int \<Rightarrow> int \<Rightarrow> int" where
  "exit_code_on_quit num_requests process_exit_code =
     (case assert_minimum_requests num_requests MIN_SMOKE_REQUESTS of Inl _ \<Rightarrow> 1 | Inr _ \<Rightarrow> process_exit_code)"

section \<open>The lookup against the hub\<close>

text \<open>The fields of the list route that the lookup reads, for a page of partners.\<close>

definition partner_json :: "PartnerResponse \<Rightarrow> json" where
  "partner_json p = JObj [(''id'', JStr (str_uuid (rp_id p))), (''slug'', JStr (rp_slug p))]"

definition partners_page :: "PartnerResponse PaginatedResponse \<Rightarrow> json" where
  "partners_page pg = JObj [(''items'', JArr (map partner_json (pr_items pg)))]"

lemma find_partner_page:
  "find_partner slug (map partner_json ps) = (case find (\<lambda>p. rp_slug p = slug) ps of
     None \<Rightarrow> Inl (PreflightError (''partner with slug '' @ slug @ '' not found in partners list''))
   | Some p \<Rightarrow> Inr (str_uuid (rp_id p)))"
  by (induction ps) (auto simp: partner_json_def jget_def header_text_def)

text \<open>
  Against a hub that answers with its first page the lookup finds the partner with the configured slug
  exactly when it is among the fifty newest; an older one is reported as missing although it exists.
\<close>

lemma lookup_newest_fifty:
  assumes "partner_public_id_from_env env = None"
    and "list_partners e stg creds \<lparr>pg_limit = 50, pg_offset = 0\<rparr> w = (Inr page, w)"
    and "\<And>base token. get base (PARTNERS_PATH @ ''?limit=50&offset=0'') token = HttpReply 200 (Some (partners_page page))"
    and "unique_on p_slug (db_partners (w_db w))" and "p \<in> set (db_partners (w_db w))" and "p_slug p = partner_slug env"
  defines "newest \<equiv> take 50 (order_desc (\<lambda>p. stamp_of (p_created_at p)) (db_partners (w_db w)))"
  shows "resolve_partner_public_id env get host token =
     (if p \<in> set newest then Inr (str_uuid (p_public_id p))
      else Inl (PreflightError (''partner with slug '' @ partner_slug env @ '' not found in partners list'')))"
proof -
  have items: "pr_items page = map partner_to_response newest"
    using assms(2)
    by (auto simp: list_partners_def validate_pagination_def seqE_run bindE_run liftE_apply gets_apply paginate_def newest_def take_map
        split: prod.splits sum.splits)
  have one: "q \<in> set newest \<and> p_slug q = partner_slug env \<longleftrightarrow> q = p \<and> p \<in> set newest" for q
  proof -
    have "q \<in> set (db_partners (w_db w))" if "q \<in> set newest"
      using in_set_takeD [OF that [unfolded newest_def]] by (simp add: order_desc_def)
    then show ?thesis using unique_onD [OF assms(4) _ assms(5)] assms(6) by metis
  qed
  have "find (\<lambda>q. rp_slug q = partner_slug env) (map partner_to_response newest) =
      (if p \<in> set newest then Some (partner_to_response p) else None)"
  proof (cases "find (\<lambda>q. rp_slug q = partner_slug env) (map partner_to_response newest)")
    case None
    then have "\<forall>q \<in> set newest. p_slug q \<noteq> partner_slug env" by (auto simp: find_None_iff partner_to_response_def)
    with None one show ?thesis by auto
  next
    case (Some x)
    then obtain q where q: "q \<in> set newest" "x = partner_to_response q" "p_slug q = partner_slug env"
    proof -
      from Some obtain i where i: "i < length newest" "x = partner_to_response (newest ! i)" "rp_slug x = partner_slug env"
        by (auto simp: find_Some_iff)
      then show thesis using that [of "newest ! i"] by (simp add: partner_to_response_def)
    qed
    with one [of q] Some show ?thesis by auto
  qed
  then have "find_partner (partner_slug env) (map partner_json (pr_items page)) = (if p \<in> set newest then Inr (str_uuid (p_public_id p))
      else Inl (PreflightError (''partner with slug '' @ partner_slug env @ '' not found in partners list'')))"
    unfolding items find_partner_page by (simp add: partner_to_response_def)
  then show ?thesis
    using assms(1,3) by (simp add: resolve_partner_public_id_def Let_def partners_page_def iterate_json_def)
qed

end
