(* ===== verification/Processes.thy ===== *)
theory Processes
  imports OutboundConsumer RelayLoop
begin

text \<open>
  What a process holds while it runs: the telemetry providers (\<open>app/observability/otel.py\<close>), the engines
  and session factories per database URL (\<open>app/db/session.py\<close>), and the set-up and tear-down around the
  main loops of the relay, of the outbound consumer and of the API (\<open>run\<close> of the two workers, \<open>_lifespan\<close>
  in \<open>app/main.py\<close>). Whether a resource can be opened and closed is a parameter.
  The lemmas show that what was opened is closed, and where it is not.
\<close>

datatype resource =
    Producer | Consumer | RedisPool | HttpClient | DbEngine string | TracerProvider | MeterProvider

record 's process =
  pr_inner :: 's
  pr_open :: "resource list"
  pr_tracer :: bool
  pr_meter :: bool
  pr_sessionmakers :: "string \<Rightarrow> nat option"
  pr_made :: nat

type_synonym ('s, 'a) running = "('s process, exn, 'a) prog"

record process_env =
  opens :: "resource \<Rightarrow> bool"
  closes :: "resource \<Rightarrow> bool"
  pe_database_url :: string
  pe_otel_endpoint :: string
  pe_otel_disabled :: bool

definition in_process :: "('s, exn, 'a) prog \<Rightarrow> ('s, 'a) running" where
  "in_process m = (\<lambda>p. case m (pr_inner p) of (r, s) \<Rightarrow> (r, p\<lparr>pr_inner := s\<rparr>))"

text \<open>The exception of a client that cannot be started or stopped.\<close>

definition open_resource :: "process_env \<Rightarrow> resource \<Rightarrow> ('s, unit) running" where
  "open_resource pe x = (if opens pe x then modify (\<lambda>p. p\<lparr>pr_open := x # pr_open p\<rparr>) else throw KafkaError)"

definition close_resource :: "process_env \<Rightarrow> resource \<Rightarrow> ('s, unit) running" where
  "close_resource pe x = (if closes pe x then modify (\<lambda>p. p\<lparr>pr_open := remove1 x (pr_open p)\<rparr>) else throw KafkaError)"

section \<open>Telemetry\<close>

definition py_endswith :: "string \<Rightarrow> string \<Rightarrow> bool" where
  "py_endswith s p \<longleftrightarrow> drop (length s - length p) s = p"

definition otlp_http_signal_url :: "string \<Rightarrow> string \<Rightarrow> string" where
  "otlp_http_signal_url base signal =
     (let cleaned = rev (dropWhile (\<lambda>c. c = CHR ''/'') (rev base)); suffix = ''/v1/'' @ signal
      in if py_endswith cleaned suffix then cleaned else cleaned @ suffix)"

definition configure_otel :: "process_env \<Rightarrow> ('s, unit) running" where
  "configure_otel pe =
     (if pe_otel_disabled pe then ret ()
      else modify (\<lambda>p. p\<lparr>pr_open := MeterProvider # TracerProvider # pr_open p, pr_tracer := True, pr_meter := True\<rparr>))"

definition shutdown_otel :: "('s, unit) running" where
  "shutdown_otel =
     seqE (modify (\<lambda>p. if pr_tracer p then p\<lparr>pr_open := remove1 TracerProvider (pr_open p), pr_tracer := False\<rparr> else p))
          (modify (\<lambda>p. if pr_meter p then p\<lparr>pr_open := remove1 MeterProvider (pr_open p), pr_meter := False\<rparr> else p))"

section \<open>Sessions\<close>

text \<open>A session factory is named by the number of its creation.\<close>

definition get_sessionmaker :: "process_env \<Rightarrow> ('s, nat) running" where
  "get_sessionmaker pe =
     (let url = pe_database_url pe in
      bindE (gets (\<lambda>p. pr_sessionmakers p url)) (\<lambda>cached.
      case cached of
        Some maker \<Rightarrow> ret maker
      | None \<Rightarrow>
          bindE (gets pr_made) (\<lambda>maker.
          seqE (modify (\<lambda>p. p\<lparr>pr_made := maker + 1, pr_sessionmakers := (pr_sessionmakers p)(url \<mapsto> maker)\<rparr>)) (ret maker))))"

definition reset_sessionmakers :: "('s, unit) running" where
  "reset_sessionmakers = modify (\<lambda>p. p\<lparr>pr_sessionmakers := Map.empty\<rparr>)"

section \<open>The processes\<close>

definition relay_process :: "process_env \<Rightarrow> ('s, exn, unit) prog \<Rightarrow> ('s, unit) running" where
  "relay_process pe loop =
     seqE (configure_otel pe)
     (seqE (get_sessionmaker pe)
     (seqE (open_resource pe Producer)
     (finallyE (in_process loop) (seqE (close_resource pe Producer) shutdown_otel))))"

definition consumer_process :: "process_env \<Rightarrow> ('s, exn, unit) prog \<Rightarrow> ('s, unit) running" where
  "consumer_process pe loop =
     seqE (configure_otel pe)
     (seqE (get_sessionmaker pe)
     (seqE (open_resource pe Producer)
     (seqE (open_resource pe RedisPool)
     (seqE (open_resource pe Consumer)
     (seqE (open_resource pe HttpClient)
     (finallyE (in_process loop)
       (seqE (close_resource pe HttpClient)
       (seqE (close_resource pe Consumer)
       (seqE (close_resource pe Producer)
       (seqE (close_resource pe RedisPool) shutdown_otel)))))))))) "

text \<open>The API: the part after \<open>yield\<close> runs when the server shuts down in order.\<close>

definition lifespan :: "process_env \<Rightarrow> ('s, exn, unit) prog \<Rightarrow> ('s, unit) running" where
  "lifespan pe serve =
     seqE (configure_otel pe)
     (seqE (open_resource pe (DbEngine (pe_database_url pe)))
     (seqE (open_resource pe RedisPool)
     (seqE (in_process serve)
     (seqE (close_resource pe RedisPool)
     (seqE (close_resource pe (DbEngine (pe_database_url pe))) shutdown_otel)))))"

section \<open>Lemmas\<close>

lemma in_process_run: "in_process m p = (fst (m (pr_inner p)), p\<lparr>pr_inner := snd (m (pr_inner p))\<rparr>)"
  by (simp add: in_process_def split: prod.splits)

lemma get_sessionmaker_run:
  "get_sessionmaker pe p = (case pr_sessionmakers p (pe_database_url pe) of
     Some k \<Rightarrow> (Inr k, p)
   | None \<Rightarrow> (Inr (pr_made p), p\<lparr>pr_made := pr_made p + 1, pr_sessionmakers := (pr_sessionmakers p)(pe_database_url pe \<mapsto> pr_made p)\<rparr>))"
  by (simp add: get_sessionmaker_def Let_def bindE_run seqE_run gets_apply modify_apply ret_apply split: option.splits)

text \<open>One factory, so one engine with its pool, per database.\<close>

lemma get_sessionmaker_once:
  assumes "get_sessionmaker pe p = (Inr k, p1)"
  shows "get_sessionmaker pe p1 = (Inr k, p1)"
  using assms by (auto simp: get_sessionmaker_run split: option.splits)

lemma py_endswith_append: "py_endswith s p \<longleftrightarrow> (\<exists>x. s = x @ p)"
proof
  assume "py_endswith s p"
  then show "\<exists>x. s = x @ p" unfolding py_endswith_def by (metis append_take_drop_id)
qed (auto simp: py_endswith_def)

text \<open>An endpoint that already names the signal is left alone.\<close>

lemma signal_url_idempotent:
  "otlp_http_signal_url (otlp_http_signal_url base ''traces'') ''traces'' = otlp_http_signal_url base ''traces''"
proof -
  have "py_endswith (otlp_http_signal_url base ''traces'') ''/v1/traces''"
    by (simp add: otlp_http_signal_url_def Let_def py_endswith_append)
  then obtain x where x: "otlp_http_signal_url base ''traces'' = x @ ''/v1/traces''" by (auto simp: py_endswith_append)
  show ?thesis unfolding x by (simp add: otlp_http_signal_url_def Let_def py_endswith_append)
qed

section \<open>What is opened is closed\<close>

text \<open>What a process looks like from outside when it is over.\<close>

definition released :: "'s process \<Rightarrow> 's process \<Rightarrow> bool" where
  "released p p' \<longleftrightarrow> pr_open p' = pr_open p \<and> \<not> pr_tracer p' \<and> \<not> pr_meter p'"

lemma open_run: "opens pe x \<Longrightarrow> open_resource pe x p = (Inr (), p\<lparr>pr_open := x # pr_open p\<rparr>)"
  by (simp add: open_resource_def modify_apply)

lemma close_run: "closes pe x \<Longrightarrow> close_resource pe x p = (Inr (), p\<lparr>pr_open := remove1 x (pr_open p)\<rparr>)"
  by (simp add: close_resource_def modify_apply)

lemma otel_run:
  "configure_otel pe p = (Inr (), if pe_otel_disabled pe then p
     else p\<lparr>pr_open := MeterProvider # TracerProvider # pr_open p, pr_tracer := True, pr_meter := True\<rparr>)"
  "shutdown_otel p = (Inr (), let q = (if pr_tracer p then p\<lparr>pr_open := remove1 TracerProvider (pr_open p), pr_tracer := False\<rparr> else p)
     in if pr_meter q then q\<lparr>pr_open := remove1 MeterProvider (pr_open q), pr_meter := False\<rparr> else q)"
  by (simp_all add: configure_otel_def shutdown_otel_def ret_apply modify_apply seqE_run Let_def)

lemmas process_runs = seqE_run finallyE_run in_process_run open_run close_run otel_run get_sessionmaker_run ret_apply throw_apply

text \<open>
  The workers release what they hold: when every resource can be opened and closed, the relay and the
  consumer end with the outcome of their loop, an exception included, and with every producer, consumer,
  pool, client and telemetry provider they opened closed again.
\<close>

lemma workers_release:
  assumes "\<And>x. opens pe x" and "\<And>x. closes pe x" and "\<not> pr_tracer p" and "\<not> pr_meter p"
    and "loop (pr_inner p) = (r, s)"
  shows "\<exists>p'. relay_process pe loop p = (r, p') \<and> pr_inner p' = s \<and> released p p'"
    and "\<exists>p'. consumer_process pe loop p = (r, p') \<and> pr_inner p' = s \<and> released p p'"
proof -
  show "\<exists>p'. relay_process pe loop p = (r, p') \<and> pr_inner p' = s \<and> released p p'"
    using assms by (cases r) (auto simp: relay_process_def process_runs released_def Let_def split: option.splits)
  show "\<exists>p'. consumer_process pe loop p = (r, p') \<and> pr_inner p' = s \<and> released p p'"
    using assms by (cases r) (auto simp: consumer_process_def process_runs released_def Let_def split: option.splits)
qed

text \<open>
  The set-up of the consumer stands before the \<open>try\<close>: when the consumer cannot join its group, the
  producer and the pool that were opened before it stay open.
\<close>

lemma consumer_start_leaks:
  assumes "opens pe Producer" "opens pe RedisPool" "\<not> opens pe Consumer"
  shows "\<exists>p'. consumer_process pe loop p = (Inl KafkaError, p') \<and> Producer \<in> set (pr_open p') \<and> RedisPool \<in> set (pr_open p')"
  using assms by (auto simp: consumer_process_def process_runs open_resource_def [of pe Consumer] Let_def split: option.splits)

lemma lifespan_releases:
  assumes "\<And>x. opens pe x" "\<And>x. closes pe x" "\<not> pr_tracer p" "\<not> pr_meter p" "serve (pr_inner p) = (Inr (), s)"
  shows "\<exists>p'. lifespan pe serve p = (Inr (), p') \<and> pr_inner p' = s \<and> released p p'"
  using assms by (auto simp: lifespan_def process_runs released_def Let_def)

end
