(* ===== verification/EndToEnd.thy ===== *)
theory EndToEnd
  imports CacheCoherence OutboundConsumer OutboxRelay
begin

text \<open>
  The accepted event on its way to the partner, through the components that carry it: the API stores
  it (\<open>enqueue_outbound_for_event\<close>), the relay publishes it (\<open>relay_iteration\<close>), the consumer hands it to
  the worker (\<open>consume_messages\<close>), which delivers it. The other theories say what each of them may do;
  this one says that together they do it when the services they rely on are up.
\<close>

section \<open>Surroundings in which a delivery succeeds\<close>

text \<open>The endpoint answers every request with a 2xx status.\<close>

definition answers_success :: "('r, 'k) env \<Rightarrow> partner_endpoint \<Rightarrow> bool" where
  "answers_success e ep \<longleftrightarrow> (\<forall>rqs rq. rq_url rq = ep_url ep \<longrightarrow>
     (\<exists>code hs rtext took. http_post e rqs rq = (HttpResponse code hs rtext, took) \<and>
        200 \<le> code \<and> code < 300 \<and> 0 \<le> took))"

text \<open>From now on the stored state of the partner's circuit reads as closed.\<close>

definition circuit_closed :: "('r \<Rightarrow> time \<Rightarrow> string \<Rightarrow> rval option) \<Rightarrow> string \<Rightarrow> ('r, 'k) world \<Rightarrow> bool" where
  "circuit_closed view slug w \<longleftrightarrow>
     (\<forall>t \<ge> w_clock w. circuit_state_of (view (w_redis w) t (state_key slug)) = Inr CLOSED)"

text \<open>The next \<open>k\<close> identifiers drawn are new to the attempts table.\<close>

definition fresh_ids :: "('r, 'k) env \<Rightarrow> nat \<Rightarrow> nat \<Rightarrow> database \<Rightarrow> bool" where
  "fresh_ids e n k db \<longleftrightarrow> distinct (map (uuid7 e) [n..<n + k]) \<and>
     set (map (uuid7 e) [n..<n + k]) \<inter> at_id ` set (db_attempts db) = {}"

definition attempt_numbers :: "database \<Rightarrow> (int \<times> int) set" where
  "attempt_numbers db = (\<lambda>a. (at_delivery_id a, at_attempt_number a)) ` set (db_attempts db)"

section \<open>The worker\<close>

lemma secret_reads:
  "load_outbound_primary_secret e p stg w = (r, w') \<Longrightarrow> db_signing_secrets (w_db v) = db_signing_secrets (w_db w) \<Longrightarrow>
     load_outbound_primary_secret e p stg v = (r, v)"
  by (auto simp: load_outbound_primary_secret_def fetch_primary_row_def primary_rows_def run_simps one_or_none_def
      split: list.splits option.splits sum.splits)

lemma context_found:
  assumes "constraints_ok (w_db w)" "d \<in> set (db_deliveries (w_db w))" "p \<in> set (db_partners (w_db w))" "d_partner_id d = p_id p"
    "ep \<in> set (db_endpoints (w_db w))" "d_endpoint_id d = ep_id ep"
  shows "fst (fetch_delivery_context (d_public_id d) w) = Inr (Some (d, p, ep))"
proof -
  have "filter (\<lambda>x. d_public_id x = d_public_id d) (db_deliveries (w_db w)) = [d]"
    using assms(1,2) by (intro filter_unique_on) (simp_all add: constraints_ok_def deliveries_ok_def)
  moreover have "filter (\<lambda>x. p_id p = p_id x) (db_partners (w_db w)) = [p]"
    using filter_unique_on [of p_id "db_partners (w_db w)" p] assms(1,3)
    by (simp add: constraints_ok_def partners_ok_def eq_commute)
  moreover have "filter (\<lambda>x. ep_id ep = ep_id x) (db_endpoints (w_db w)) = [ep]"
    using filter_unique_on [of ep_id "db_endpoints (w_db w)" ep] assms(1,5)
    by (simp add: constraints_ok_def endpoints_ok_def eq_commute)
  ultimately show ?thesis by (simp add: fetch_delivery_context_def run_simps assms(4,6))
qed

text \<open>The row of a delivery that was delivered keeps every key.\<close>

lemma delivered_constraints:
  assumes "constraints_ok c" "d \<in> set (db_deliveries c)"
    "(d_id d, at_attempt_number a) \<notin> attempt_numbers c" "at_delivery_id a = d_id d" "at_id a \<notin> at_id ` set (db_attempts c)"
  shows "constraints_ok (c\<lparr>db_deliveries := put_row d_id (delivered_row d t stamp) (db_deliveries c),
     db_attempts := db_attempts c @ [a]\<rparr>)"
proof -
  let ?r = "delivered_row d t stamp"
  have r: "d_id ?r = d_id d" "d_public_id ?r = d_public_id d" "d_partner_id ?r = d_partner_id d"
      "d_endpoint_id ?r = d_endpoint_id d" "d_idempotency_key ?r = d_idempotency_key d"
    by (simp_all add: delivered_row_def)
  have u: "unique_on d_id (db_deliveries c)" using assms(1) by (simp add: constraints_ok_def deliveries_ok_def)
  have same: "map f (put_row d_id ?r (db_deliveries c)) = map f (db_deliveries c)" if "f ?r = f d" for f :: "delivery \<Rightarrow> 'x"
  proof (rule map_put_row_same)
    fix x assume "x \<in> set (db_deliveries c)" "d_id x = d_id ?r"
    then have "x = d" using unique_onD [OF u _ assms(2)] r(1) by simp
    then show "f x = f ?r" using that by simp
  qed
  show ?thesis
    using assms
    by (simp add: constraints_ok_def table_ok_defs unique_on_def references_def list_all_iff same r attempt_numbers_def
        image_image [symmetric] flip: set_map)
       (auto dest!: set_put_rowD simp: r)
qed

lemma delivered_row_again [simp]: "delivered_row (d\<lparr>d_status := s\<rparr>) t stamp = delivered_row d t stamp"
  by (simp add: delivered_row_def)

text \<open>
  The deliveries of one partner wait for the worker, and nothing stands in their way: the partner's
  secret can be read, its circuit is closed, its endpoints answer, and neither the numbers nor the
  identifiers of the coming attempts are taken.
\<close>

definition awaiting :: "('r, 'k) env \<Rightarrow> settings \<Rightarrow> ('r \<Rightarrow> time \<Rightarrow> string \<Rightarrow> rval option) \<Rightarrow> partner \<Rightarrow> bytes \<Rightarrow>
   delivery list \<Rightarrow> ('r, 'k) world \<Rightarrow> bool" where
  "awaiting e stg view p secret ds w \<longleftrightarrow>
     constraints_ok (w_committed w) \<and> p \<in> set (db_partners (w_committed w)) \<and> circuit_closed view (p_slug p) w \<and>
     fst (load_outbound_primary_secret e p stg (w\<lparr>w_db := w_committed w\<rparr>)) = Inr (Some secret) \<and>
     fresh_ids e (w_draws w) (length ds) (w_committed w) \<and> distinct ds \<and>
     (\<forall>d \<in> set ds. d \<in> set (db_deliveries (w_committed w)) \<and> d_status d \<in> set DELIVERING_SOURCES \<and>
        d_partner_id d = p_id p \<and> (d_id d, d_attempt_count d + 1) \<notin> attempt_numbers (w_committed w) \<and>
        (\<exists>ep \<in> set (db_endpoints (w_committed w)). d_endpoint_id d = ep_id ep \<and> answers_success e ep))"

text \<open>The request of a delivery, and the table once the deliveries in \<open>ds\<close> are delivered.\<close>

definition sent_for :: "database \<Rightarrow> bytes \<Rightarrow> delivery \<Rightarrow> http_request \<Rightarrow> bool" where
  "sent_for db secret d rq \<longleftrightarrow>
     (\<exists>ep \<in> set (db_endpoints db). d_endpoint_id d = ep_id ep \<and> (\<exists>t. rq = request_for d ep secret t))"

definition delivered_rows :: "delivery set \<Rightarrow> delivery list \<Rightarrow> delivery list \<Rightarrow> bool" where
  "delivered_rows D = list_all2 (\<lambda>x y. if x \<in> D then \<exists>t stamp. y = delivered_row x t stamp else y = x)"

primrec offsets_after :: "offsets \<Rightarrow> consumer_record list \<Rightarrow> offsets" where
  "offsets_after ofs [] = ofs"
| "offsets_after ofs (m # ms) = offsets_after (ofs((cr_topic m, cr_partition m) \<mapsto> cr_offset m + 1)) ms"

lemma fresh_ids_Suc:
  assumes "fresh_ids e n (Suc k) db" "db_attempts db' = db_attempts db @ [a]" "at_id a = uuid7 e n"
  shows "uuid7 e n \<notin> at_id ` set (db_attempts db)" "fresh_ids e (Suc n) k db'"
  using assms by (auto simp: fresh_ids_def upt_conv_Cons simp del: upt_Suc)

lemma delivered_rows_put:
  assumes "unique_on d_id rows" "d \<in> set rows"
  shows "delivered_rows {d} rows (put_row d_id (delivered_row d t stamp) rows)"
proof -
  have i: "d_id (delivered_row d t stamp) = d_id d" by (simp add: delivered_row_def)
  have "d_id x = d_id d \<longleftrightarrow> x = d" if "x \<in> set rows" for x using unique_onD [OF assms(1) that assms(2)] by auto
  then show ?thesis
    by (auto simp: delivered_rows_def put_row_def i list_all2_conv_all_nth)
qed

lemma delivered_rows_trans:
  assumes "delivered_rows {d} as bs" "delivered_rows D bs cs" "d \<notin> D"
    "\<And>x. x \<in> D \<Longrightarrow> d_id x \<noteq> d_id d"
  shows "delivered_rows (insert d D) as cs"
  using assms(1,2) unfolding delivered_rows_def
proof (rule list_all2_trans [rotated], goal_cases)
  case (1 a b c)
  have "d_id (delivered_row d t stamp) = d_id d" for t stamp by (simp add: delivered_row_def)
  then have "delivered_row d t stamp \<notin> D" for t stamp using assms(4) by metis
  with 1 assms(3) show ?case by (auto split: if_splits)
qed

lemma delivered_rows_in:
  assumes "delivered_rows D as bs" "x \<in> set as" "x \<in> D"
  shows "\<exists>t stamp. delivered_row x t stamp \<in> set bs"
  using assms unfolding delivered_rows_def by (induction rule: list_all2_induct) (auto, blast)

text \<open>The services are up: Redis answers, and Kafka accepts what is sent.\<close>

locale services_up = redis_up ops view + kafka_up kops klog
  for ops :: "'r redis_ops" and view :: "'r \<Rightarrow> time \<Rightarrow> string \<Rightarrow> rval option"
    and kops :: "'k kafka_ops" and klog :: "'k \<Rightarrow> message list" +
  fixes e :: "('r, 'k) env"
  assumes redis_env: "redis e = Some ops" and producer_env: "producer e = kops"
begin

lemma success_recorded:
  "\<exists>r ms. record_success e slug stg w = (Inr CLOSED, w\<lparr>w_redis := r, w_metrics := ms\<rparr>) \<and>
     circuit_closed view slug (w\<lparr>w_redis := r, w_metrics := ms\<rparr>)"
proof -
  define r where "r = snd (redis_set ops (w_clock w) (state_key slug) (RText ''closed'') False None
      (snd (redis_delete ops (w_clock w) [failures_key slug, probe_key slug, opened_at_key slug] (w_redis w))))"
  have "\<exists>ms. record_success e slug stg w = (Inr CLOSED, w\<lparr>w_redis := r, w_metrics := ms\<rparr>)"
    by (simp add: record_success_def redis_env run_simps call_set call_delete r_def) blast
  moreover have "circuit_closed view slug (w\<lparr>w_redis := r, w_metrics := ms\<rparr>)" for ms
    by (simp add: circuit_closed_def r_def redis_view live_def)
  ultimately show ?thesis by blast
qed

lemma closed_allows:
  assumes "circuit_closed view slug w"
  shows "\<exists>r. allow_outbound e slug stg w = (Inr True, w\<lparr>w_redis := r\<rparr>) \<and> view r = view (w_redis w)"
  using allow_closed [OF redis_env, of w stg slug] assms by (simp add: circuit_at_def seen_def circuit_closed_def)

lemma success_branch_up:
  fixes w :: "('r, 'k) world" and d :: delivery and t :: time
  defines "db \<equiv> (w_db w)\<lparr>db_deliveries := put_row d_id (delivered_row d t (w_clock w)) (db_deliveries (w_db w))\<rparr>"
  assumes "constraints_ok db"
  shows "\<exists>r k ms. success_branch e d p stg t w = (Inr DELIVERED, w\<lparr>w_redis := r, w_kafka := k, w_metrics := ms,
       w_db := db, w_committed := db\<rparr>) \<and>
     circuit_closed view (p_slug p) (w\<lparr>w_redis := r\<rparr>) \<and> (\<exists>sent. klog k = klog (w_kafka w) @ sent)"
proof -
  have tr: "transition None DELIVERING DeliveryStatus.DELIVERED = ret DeliveryStatus.DELIVERED"
    by (simp add: transition_ok)
  obtain r ms where rs: "record_success e (p_slug p) stg w = (Inr CLOSED, w\<lparr>w_redis := r, w_metrics := ms\<rparr>)"
      and cl: "circuit_closed view (p_slug p) (w\<lparr>w_redis := r, w_metrics := ms\<rparr>)"
    using success_recorded by blast
  obtain fs br where f: "apply_first_success t (d_sla_deadline_at d) (d_first_success_at d) (d_sla_breached d) = (fs, br)"
    by force
  have db: "db = (w_db w)\<lparr>db_deliveries := put_row d_id (d\<lparr>d_status := DeliveryStatus.DELIVERED,
      d_first_success_at := Some fs, d_sla_breached := br, d_last_error_code := None, d_last_error_message := None,
      d_updated_at := Some (w_clock w)\<rparr>) (db_deliveries (w_db w))\<rparr>"
    by (simp add: db_def delivered_row_def f)
  define sla where "sla = (if br \<and> \<not> d_sla_breached d then
      seqE (record_delivery_metric ''hub_sla_breaches_total'' [(''partner_slug'', p_slug p)] 1)
           (publish_sla_breached e (d_public_id d) (p_public_id p) (d_event_type d) (d_correlation_id d) (d_sla_deadline_at d))
      else ret ())"
  define w1 where "w1 = w\<lparr>w_redis := r, w_metrics := ms, w_db := db, w_committed := db\<rparr>"
  have run: "success_branch e d p stg t w = seqE sla (ret DELIVERED) w1"
    using assms(2)
    by (simp add: success_branch_def seqE_run [of "record_success e (p_slug p) stg"] rs tr f bindE_simps Let_def
        save_delivery_def seqE_run [of "bindE utcnow _"] bindE_run utcnow_apply update_db_apply seqE_run [of commit] commit_ok
        db sla_def w1_def)
  have "\<exists>k ms. sla w1 = (Inr (), w1\<lparr>w_kafka := k, w_metrics := ms\<rparr>) \<and> (\<exists>sent. klog k = klog (w_kafka w) @ sent)"
  proof (cases "br \<and> \<not> d_sla_breached d")
    case True
    define ms' where "ms' = ms @ [Counter ''hub_sla_breaches_total'' 1 [(''partner_slug'', p_slug p)]]"
    obtain k m where "publish_sla_breached e (d_public_id d) (p_public_id p) (d_event_type d) (d_correlation_id d)
        (d_sla_deadline_at d) (w1\<lparr>w_metrics := ms'\<rparr>) = (Inr (), w1\<lparr>w_metrics := ms', w_kafka := k\<rparr>)"
        "klog k = klog (w_kafka w1) @ [m]"
      unfolding publish_sla_breached_def using send_eq [OF producer_env, of _ "w1\<lparr>w_metrics := ms'\<rparr>"] by fastforce
    with True show ?thesis
      by (intro exI [of _ k] exI [of _ ms']) (simp add: sla_def run_simps w1_def ms'_def)
  next
    case False
    then show ?thesis
      by (intro exI [of _ "w_kafka w"] exI [of _ ms]) (auto simp: sla_def ret_apply w1_def)
  qed
  then obtain k ms' where "sla w1 = (Inr (), w1\<lparr>w_kafka := k, w_metrics := ms'\<rparr>)" "\<exists>sent. klog k = klog (w_kafka w) @ sent"
    by blast
  with run cl show ?thesis
    by (intro exI [of _ r] exI [of _ k] exI [of _ ms']) (simp add: seqE_run ret_apply w1_def circuit_closed_def)
qed

lemma worker_delivers:
  fixes w :: "('r, 'k) world"
  assumes "w_db w = w_committed w" "constraints_ok (w_committed w)"
    and d: "d \<in> set (db_deliveries (w_committed w))" "d_status d \<in> set DELIVERING_SOURCES"
    and p: "p \<in> set (db_partners (w_committed w))" "d_partner_id d = p_id p"
    and ep: "ep \<in> set (db_endpoints (w_committed w))" "d_endpoint_id d = ep_id ep"
    and up: "answers_success e ep" "circuit_closed view (p_slug p) w"
    and secret: "fst (load_outbound_primary_secret e p stg w) = Inr (Some secret)"
    and new: "(d_id d, d_attempt_count d + 1) \<notin> attempt_numbers (w_committed w)"
      "uuid7 e (w_draws w) \<notin> at_id ` set (db_attempts (w_committed w))"
    and envl: "item envl ''delivery_id'' = Inr (JStr (str_uuid (d_public_id d)))"
  shows "\<exists>a stamp w'. process_outbound_message e envl stg None w = (Inr DELIVERED, w') \<and>
     at_id a = uuid7 e (w_draws w) \<and> at_delivery_id a = d_id d \<and> at_attempt_number a = d_attempt_count d + 1 \<and>
     w_committed w' = (w_committed w)\<lparr>db_deliveries := put_row d_id (delivered_row d (w_clock w) stamp) (db_deliveries (w_committed w)),
        db_attempts := db_attempts (w_committed w) @ [a]\<rparr> \<and>
     constraints_ok (w_committed w') \<and> w_db w' = w_committed w' \<and> w_draws w' = Suc (w_draws w) \<and>
     w_clock w \<le> w_clock w' \<and> w_http w' = w_http w @ [request_for d ep secret (w_clock w)] \<and>
     circuit_closed view (p_slug p) w' \<and> (\<exists>sent. klog (w_kafka w') = klog (w_kafka w) @ sent)"
proof -
  let ?d = "d\<lparr>d_status := DELIVERING\<rparr>" and ?t = "w_clock w" and ?c = "w_committed w"
  define rq where "rq = request_for d ep secret ?t"
  have load: "load_outbound_primary_secret e p stg w = (Inr (Some secret), w)"
    using secret secret_reads [of e p stg w _ _ w] by (metis prod.collapse)
  obtain r1 where allow: "allow_outbound e (p_slug p) stg w = (Inr True, w\<lparr>w_redis := r1\<rparr>)" "view r1 = view (w_redis w)"
    using closed_allows [OF up(2)] by blast
  obtain code hs rtext took where post: "http_post e (w_http w) rq = (HttpResponse code hs rtext, took)"
      "200 \<le> code" "code < 300" "0 \<le> took"
    using up(1) unfolding answers_success_def rq_def by (metis request_for_def http_request.select_convs(1))
  define pr where "pr = \<lparr>pr_http_status_code = Some code, pr_response_headers = hs, pr_response_body = rtext,
      pr_duration_ms = (w_monotonic w + took) div 1000 - w_monotonic w div 1000, pr_error_type = None\<rparr>"
  define a where "a = \<lparr>at_id = uuid7 e (w_draws w), at_delivery_id = d_id d, at_attempt_number = d_attempt_count d + 1,
      at_requested_at = ?t, at_responded_at = Some (?t + took), at_http_status_code = Some code,
      at_response_headers = hs, at_response_body = truncate_response_body rtext, at_error_type = None,
      at_duration_ms = Some (pr_duration_ms pr), at_created_at = Some (?t + took)\<rparr>"
  define w2 where "w2 = w\<lparr>w_redis := r1, w_http := w_http w @ [rq], w_clock := ?t + took, w_monotonic := w_monotonic w + took,
      w_draws := Suc (w_draws w), w_db := ?c\<lparr>db_attempts := db_attempts ?c @ [a]\<rparr>\<rparr>"
  have cl: "classify_http_outcome (Some code) (ep_retry_on_status_codes ep) None = SUCCESS"
    using post by (simp add: classify_success)
  have att: "send_delivery e ?d p ep stg ?t w = success_branch e ?d p stg ?t w2"
    using post cl assms(1)
    by (simp add: send_delivery_def bindE_run load allow Let_def attempt_delivery_def post_outbound_def now_ms_def run_simps
        add_attempt_def network_error_from_result_def rq_def request_for_def a_def pr_def w2_def)
  have proc: "process_outbound_message e envl stg None w = success_branch e ?d p stg ?t w2"
    using context_found [of w d p ep] assms(1,2) d p ep
    by (auto simp: process_run envl att DELIVERING_SOURCES_def)
  let ?db = "?c\<lparr>db_deliveries := put_row d_id (delivered_row d ?t (?t + took)) (db_deliveries ?c), db_attempts := db_attempts ?c @ [a]\<rparr>"
  have ok: "constraints_ok ?db"
    by (rule delivered_constraints [OF assms(2) d(1)]) (use new in \<open>simp_all add: a_def\<close>)
  have dbeq: "(w_db w2)\<lparr>db_deliveries := put_row d_id (delivered_row ?d ?t (w_clock w2)) (db_deliveries (w_db w2))\<rparr> = ?db"
    and kf: "w_kafka w2 = w_kafka w" by (simp_all add: w2_def)
  obtain r k ms where s: "success_branch e ?d p stg ?t w2 = (Inr DELIVERED, w2\<lparr>w_redis := r, w_kafka := k, w_metrics := ms,
       w_db := ?db, w_committed := ?db\<rparr>)" "circuit_closed view (p_slug p) (w2\<lparr>w_redis := r\<rparr>)" "\<exists>sent. klog k = klog (w_kafka w) @ sent"
    using success_branch_up [where w = w2 and d = ?d and t = ?t and p = p and stg = stg, unfolded dbeq, OF ok]
    unfolding kf by blast
  show ?thesis
    by (rule exI [of _ a], rule exI [of _ "?t + took"], rule exI [of _ "w2\<lparr>w_redis := r, w_kafka := k, w_metrics := ms,
       w_db := ?db, w_committed := ?db\<rparr>"])
      (use proc s ok post(4) in \<open>simp add: w2_def a_def rq_def circuit_closed_def\<close>)
qed

lemma session_delivers:
  fixes w :: "('r, 'k) world"
  assumes wait: "awaiting e stg view p secret (d # ds) w"
    and envl: "item envl ''delivery_id'' = Inr (JStr (str_uuid (d_public_id d)))"
  shows "\<exists>w' rq. with_session (process_outbound_message e envl stg None) w = (Inr DELIVERED, w') \<and>
     awaiting e stg view p secret ds w' \<and> w_db w' = w_committed w' \<and>
     delivered_rows {d} (db_deliveries (w_committed w)) (db_deliveries (w_committed w')) \<and>
     db_endpoints (w_committed w') = db_endpoints (w_committed w) \<and>
     w_http w' = w_http w @ [rq] \<and> sent_for (w_committed w) secret d rq \<and>
     (\<exists>sent. klog (w_kafka w') = klog (w_kafka w) @ sent)"
proof -
  let ?w = "w\<lparr>w_db := w_committed w\<rparr>" and ?c = "w_committed w"
  have c: "constraints_ok ?c" "p \<in> set (db_partners ?c)" "circuit_closed view (p_slug p) ?w"
      "fst (load_outbound_primary_secret e p stg ?w) = Inr (Some secret)" "fresh_ids e (w_draws w) (Suc (length ds)) ?c"
    and d: "d \<in> set (db_deliveries ?c)" "d_status d \<in> set DELIVERING_SOURCES" "d_partner_id d = p_id p"
      "(d_id d, d_attempt_count d + 1) \<notin> attempt_numbers ?c" and dist: "distinct (d # ds)"
    using wait by (simp_all add: awaiting_def circuit_closed_def)
  obtain ep where ep: "ep \<in> set (db_endpoints ?c)" "d_endpoint_id d = ep_id ep" "answers_success e ep"
    using wait by (auto simp: awaiting_def)
  have u: "unique_on d_id (db_deliveries ?c)" using c(1) by (simp add: constraints_ok_def deliveries_ok_def)
  have id: "uuid7 e (w_draws ?w) \<notin> at_id ` set (db_attempts (w_committed ?w))"
    using c(5) by (auto simp: fresh_ids_def upt_conv_Cons simp del: upt_Suc)
  obtain a stamp w1 where r: "process_outbound_message e envl stg None ?w = (Inr DELIVERED, w1)"
      "at_id a = uuid7 e (w_draws w)" "at_delivery_id a = d_id d" "at_attempt_number a = d_attempt_count d + 1"
      and db: "w_committed w1 = ?c\<lparr>db_deliveries := put_row d_id (delivered_row d (w_clock w) stamp) (db_deliveries ?c),
        db_attempts := db_attempts ?c @ [a]\<rparr>"
      and w1: "constraints_ok (w_committed w1)" "w_db w1 = w_committed w1" "w_draws w1 = Suc (w_draws w)"
        "w_http w1 = w_http w @ [request_for d ep secret (w_clock w)]" "circuit_closed view (p_slug p) w1"
        "\<exists>sent. klog (w_kafka w1) = klog (w_kafka w) @ sent"
    using worker_delivers [of ?w d p ep stg secret envl, OF _ _ _ d(2) _ d(3) _ ep(2,3) c(3,4) _ id envl] c(1,2) d ep(1) by auto
  have run: "with_session (process_outbound_message e envl stg None) w = (Inr DELIVERED, w1)"
    using r(1) w1(2) by (simp add: with_session_run)
  have other: "x \<in> set (db_deliveries (w_committed w1))" "d_id x \<noteq> d_id d" if "x \<in> set ds" for x
  proof -
    have "x \<in> set (db_deliveries ?c)" "x \<noteq> d" using that wait dist by (auto simp: awaiting_def)
    then show i: "d_id x \<noteq> d_id d" using unique_onD [OF u _ d(1)] by blast
    show "x \<in> set (db_deliveries (w_committed w1))"
      unfolding db using \<open>x \<in> set (db_deliveries ?c)\<close> i by (simp add: in_put_row_other delivered_row_def)
  qed
  have "fst (load_outbound_primary_secret e p stg (w1\<lparr>w_db := v\<rparr>)) = Inr (Some secret)"
    if "db_signing_secrets v = db_signing_secrets ?c" for v
    using c(4) that secret_reads [of e p stg ?w "Inr (Some secret)" "snd (load_outbound_primary_secret e p stg ?w)" "w1\<lparr>w_db := v\<rparr>"]
    by (cases "load_outbound_primary_secret e p stg ?w") simp
  then have "awaiting e stg view p secret ds w1"
    using wait w1 fresh_ids_Suc(2) [OF c(5), of "w_committed w1" a] db r(2-4) other
    by (auto simp: awaiting_def attempt_numbers_def)
  moreover have "delivered_rows {d} (db_deliveries ?c) (db_deliveries (w_committed w1))"
    unfolding db using delivered_rows_put [OF u d(1)] by simp
  moreover have "sent_for ?c secret d (request_for d ep secret (w_clock w))" using ep by (auto simp: sent_for_def)
  ultimately show ?thesis using run w1 db by auto
qed

text \<open>A batch of pending messages, one for each waiting delivery.\<close>

lemma batch_delivers:
  assumes "shutdown_at c = None" "\<And>tp n. offset_taken c tp n"
    and "list_all2 (\<lambda>d m. cr_topic m = OUTBOUND_PENDING_TOPIC \<and>
        item (cr_value m) ''delivery_id'' = Inr (JStr (str_uuid (d_public_id d)))) ds ms"
    and "awaiting e stg view p secret ds (cs_world s)"
  shows "\<exists>s' rqs. consume_messages e stg c ms s = (Inr (), s') \<and>
     delivered_rows (set ds) (db_deliveries (w_committed (cs_world s))) (db_deliveries (w_committed (cs_world s'))) \<and>
     w_http (cs_world s') = w_http (cs_world s) @ rqs \<and>
     list_all2 (sent_for (w_committed (cs_world s)) secret) ds rqs \<and>
     cs_offsets s' = offsets_after (cs_offsets s) ms"
  using assms(3,4)
proof (induction ds ms arbitrary: s rule: list_all2_induct)
  case Nil
  then show ?case by (auto simp: run_simps delivered_rows_def list_all2_same)
next
  case (Cons d ds m ms)
  let ?w = "cs_world s"
  obtain w1 rq where one: "with_session (process_outbound_message e (cr_value m) stg None) ?w = (Inr DELIVERED, w1)"
      "awaiting e stg view p secret ds w1"
      "delivered_rows {d} (db_deliveries (w_committed ?w)) (db_deliveries (w_committed w1))"
      "db_endpoints (w_committed w1) = db_endpoints (w_committed ?w)"
      "w_http w1 = w_http ?w @ [rq]" "sent_for (w_committed ?w) secret d rq"
    using session_delivers [OF Cons.prems, of "cr_value m"] Cons.hyps(1) by blast
  define s1 where "s1 = s\<lparr>cs_world := w1, cs_offsets := (cs_offsets s)((cr_topic m, cr_partition m) \<mapsto> cr_offset m + 1)\<rparr>"
  have h: "handle_message e stg c m s = (Inr (), s1)"
    using Cons.hyps(1) one(1) assms(2) by (simp add: handle_message_def run_simps commit_offset_def s1_def)
  have w1: "w1 = cs_world s1" by (simp add: s1_def)
  obtain s2 rqs where rest: "consume_messages e stg c ms s1 = (Inr (), s2)"
      "delivered_rows (set ds) (db_deliveries (w_committed w1)) (db_deliveries (w_committed (cs_world s2)))"
      "w_http (cs_world s2) = w_http w1 @ rqs" "list_all2 (sent_for (w_committed w1) secret) ds rqs"
      "cs_offsets s2 = offsets_after (cs_offsets s1) ms"
    using Cons.IH [of s1] one(2) unfolding w1 by blast
  have u: "unique_on d_id (db_deliveries (w_committed ?w))"
    using Cons.prems by (simp add: awaiting_def constraints_ok_def deliveries_ok_def)
  have "d_id x \<noteq> d_id d" if "x \<in> set ds" for x
    using Cons.prems that unique_onD [OF u, of x d] by (auto simp: awaiting_def)
  then have "delivered_rows (insert d (set ds)) (db_deliveries (w_committed ?w)) (db_deliveries (w_committed (cs_world s2)))"
    using delivered_rows_trans [OF one(3) rest(2)] by blast
  moreover have "list_all2 (sent_for (w_committed ?w) secret) (d # ds) (rq # rqs)"
    using one(6) rest(4) unfolding sent_for_def one(4) by simp
  moreover have "consume_messages e stg c (m # ms) s = (Inr (), s2)"
    using assms(1) h rest(1) by (simp add: run_simps shutdown_set_def)
  ultimately show ?case using one(5) rest(3,5) by (intro exI [of _ s2] exI [of _ "rq # rqs"]) (simp add: s1_def)
qed

end

section \<open>Accepting\<close>

text \<open>Accepting an event, on a cache that agrees with the database.\<close>

lemma accepted_event:
  fixes w :: "('r, 'k) world"
  assumes "cache_fresh (w_committed w) (w_cache w)" "constraints_ok (w_committed w)"
    "p \<in> set (db_partners (w_committed w))" "\<And>n. uuid7 e n \<noteq> 0"
    "with_session (enqueue_outbound_for_event e (p_public_id p) ty payload ck ci now) w = (Inr (OutboundEventAcceptedResponse u us), w')"
  obtains ds obs where "us = map d_public_id ds"
    "w_committed w' = (w_committed w)\<lparr>db_deliveries := db_deliveries (w_committed w) @ ds, db_outbox := db_outbox (w_committed w) @ obs\<rparr>"
    "constraints_ok (w_committed w')"
    "\<forall>d \<in> set ds. d_status d = DeliveryStatus.PENDING \<and> d_attempt_count d = 0 \<and> d_partner_id d = p_id p \<and> d_payload d = payload"
    "map d_endpoint_id ds = map ep_id (active_outbound_endpoints (p_id p) ty (w_committed w))"
    "list_all2 (\<lambda>d ob. ob_aggregate_type ob = ''delivery'' \<and> ob_topic ob = OUTBOUND_PENDING_TOPIC \<and> ob_created_at ob = w_clock w \<and>
       ob_published_at ob = None \<and> item (ob_payload ob) ''delivery_id'' = Inr (JStr (str_uuid (d_public_id d)))) ds obs"
    "w_draws w' = w_draws w + length ds" "w_clock w' = w_clock w" "w_redis w' = w_redis w" "w_kafka w' = w_kafka w" "w_http w' = w_http w"
proof -
  let ?w = "w\<lparr>w_db := w_committed w\<rparr>"
  obtain v where run: "enqueue_outbound_for_event e (p_public_id p) ty payload ck ci now ?w =
      (Inr (OutboundEventAcceptedResponse u us), v)" and w': "w' = v\<lparr>w_db := w_committed v\<rparr>"
    using assms(5) by (auto simp: with_session_def split: prod.splits)
  from run obtain q w1 w2 eps w3 where st: "resolve_partner (p_public_id p) ?w = (Inr q, w1)"
      "check_schema e ty payload w1 = (Inr (), w2)" "resolve_endpoints (p_id q) ty w2 = (Inr eps, w3)" and oc: "only_cache ?w w3"
    by (cases rule: enqueue_early) auto
  have q: "p_id q = p_id p" using fresh_partner [of ?w p q w1] assms(1-3) st(1) by simp
  have eps: "map ep_id eps = map ep_id (active_outbound_endpoints (p_id p) ty (w_committed w))"
    by (rule fresh_lookups [OF _ _ _ st]) (use assms(1,2) q in simp_all)
  have w3: "w_redis w3 = w_redis w" "w_kafka w3 = w_kafka w" "w_http w3 = w_http w" "w_clock w3 = w_clock w"
    using oc unfolding only_cache_def by (cases w; cases w3; simp)+
  have clean: "w_db ?w = w_committed ?w" by simp
  show thesis
    using st clean assms(4) run
  proof (cases rule: enqueue_rows)
    case (accepted ds obs)
    have v: "w_clock v = w_clock w" "w_redis v = w_redis w" "w_kafka v = w_kafka w" "w_http v = w_http w" "w_draws v = w_draws w + length ds"
      by (subst accepted(8), simp add: w3)+
    show thesis
      by (rule that [of ds obs]) (use accepted(1-7) v w' q eps in \<open>auto elim: list_all2_mono\<close>)
  qed blast
qed

section \<open>The relay\<close>

text \<open>A pass of the relay touches the outbox, the inbound events, Kafka and the metrics, and nothing else.\<close>

definition core :: "database \<Rightarrow> database" where
  "core db = db\<lparr>db_outbox := [], db_inbound_events := []\<rparr>"

definition beside_relay :: "'r \<Rightarrow> nat \<Rightarrow> http_request list \<Rightarrow> database \<Rightarrow> ('r, 'k) world \<Rightarrow> bool" where
  "beside_relay r n rqs c w \<longleftrightarrow> w_redis w = r \<and> w_draws w = n \<and> w_http w = rqs \<and> core (w_db w) = c \<and> core (w_committed w) = c"

lemma core_tables:
  assumes "core a = core b"
  shows "db_partners a = db_partners b" "db_endpoints a = db_endpoints b" "db_deliveries a = db_deliveries b"
    "db_attempts a = db_attempts b" "db_signing_secrets a = db_signing_secrets b"
  using assms by (cases a; cases b; simp add: core_def)+

lemma beside_primitives [keep_intros]:
  "keeps (beside_relay r n rqs c) utcnow" "keeps (beside_relay r n rqs c) (send_and_wait e m)"
  "keeps (beside_relay r n rqs c) (emit_metric x)" "keeps (beside_relay r n rqs c) commit"
  "keeps (beside_relay r n rqs c) (update_db (\<lambda>db. db\<lparr>db_outbox := f db\<rparr>))"
  "keeps (beside_relay r n rqs c) (update_db (\<lambda>db. db\<lparr>db_inbound_events := g db\<rparr>))"
  by (auto simp: keeps_def beside_relay_def run_simps send_and_wait_def commit_def flush_def core_def split: prod.splits reply.splits)

lemma relay_frame:
  assumes "relay_iteration e w = (r, w')"
  shows "w_redis w' = w_redis w" "w_draws w' = w_draws w" "w_http w' = w_http w" "core (w_committed w') = core (w_committed w)"
proof -
  have "keeps (beside_relay (w_redis w) (w_draws w) (w_http w) (core (w_committed w)))
      (bindE (publish_unpublished_batch e 100) (\<lambda>published. seqE commit (ret published)))"
    unfolding publish_unpublished_batch_def count_unpublished_def relay_event_def save_outbox_def mark_inbound_published_def
      set_gauge_metric_def by (intro keep_intros)
  from keepsD [OF this, of "w\<lparr>w_db := w_committed w\<rparr>"] assms
  show "w_redis w' = w_redis w" "w_draws w' = w_draws w" "w_http w' = w_http w" "core (w_committed w') = core (w_committed w)"
    by (auto simp: relay_iteration_def with_session_run beside_relay_def)
qed

text \<open>The rows of one event, in an outbox that was drained, are the next batch, in their order.\<close>

lemma select_new_rows:
  assumes "filter unpublished (db_outbox c) = []" "\<forall>ob \<in> set obs. ob_published_at ob = None \<and> ob_created_at ob = t"
    "length obs \<le> 100" "db_outbox c' = db_outbox c @ obs"
  shows "unpublished_outbox_select 100 c' = obs"
proof -
  have "map ob_created_at obs = replicate (length obs) t" using assms(2) by (simp add: map_replicate_const [symmetric])
  then have "sort_key ob_created_at obs = obs" by (intro sort_key_id_if_sorted) (simp add: sorted_replicate)
  moreover have "filter unpublished obs = obs" using assms(2) by (simp add: unpublished_def filter_id_conv)
  ultimately show ?thesis using assms(1,3,4) by (simp add: unpublished_outbox_select_def)
qed

section \<open>From the accept to the partner\<close>

interpretation memservices: services_up mem_redis_ops mem_view mem_kafka_ops "\<lambda>log. log" mem_env
  by unfold_locales simp_all

text \<open>New deliveries have no attempts yet.\<close>

lemma new_delivery_unattempted:
  assumes "constraints_ok c" "unique_on d_id (db_deliveries c @ ds)" "d \<in> set ds"
  shows "(d_id d, n) \<notin> attempt_numbers c"
proof
  assume "(d_id d, n) \<in> attempt_numbers c"
  then have "d_id d \<in> d_id ` set (db_deliveries c)"
    using assms(1) by (auto simp: attempt_numbers_def constraints_ok_def attempts_ok_def references_def list_all_iff)
  with assms(2,3) show False by (auto simp: unique_on_append)
qed

lemma sent_to_endpoints:
  assumes "unique_on ep_id (db_endpoints db)" "set act \<subseteq> set (db_endpoints db)" "map d_endpoint_id ds = map ep_id act"
    "list_all2 (sent_for db secret) ds rqs" "\<And>d. d \<in> set ds \<Longrightarrow> d_payload d = payload"
  shows "map rq_url rqs = map ep_url act" "\<forall>rq \<in> set rqs. rq_body rq = serialize_payload payload"
proof -
  have len: "length act = length ds" "length rqs = length ds"
    using arg_cong [OF assms(3), of length] list_all2_lengthD [OF assms(4)] by simp_all
  have one: "rq_url (rqs ! i) = ep_url (act ! i) \<and> rq_body (rqs ! i) = serialize_payload payload" if i: "i < length ds" for i
  proof -
    obtain ep t where ep: "ep \<in> set (db_endpoints db)" "d_endpoint_id (ds ! i) = ep_id ep" "rqs ! i = request_for (ds ! i) ep secret t"
      using list_all2_nthD [OF assms(4) i] by (auto simp: sent_for_def)
    have "ep_id (act ! i) = ep_id ep" using assms(3) ep(2) i len by (metis nth_map)
    moreover have "act ! i \<in> set (db_endpoints db)" using assms(2) i len by auto
    ultimately have "ep = act ! i" using unique_onD [OF assms(1) ep(1)] by metis
    with ep(3) assms(5) i show ?thesis by (simp add: request_for_def)
  qed
  show "map rq_url rqs = map ep_url act" by (rule nth_equalityI) (use len one in auto)
  show "\<forall>rq \<in> set rqs. rq_body rq = serialize_payload payload" using one len by (auto simp: in_set_conv_nth)
qed

text \<open>A polled record carries a message of the log: same topic, and the value the deserializer reads back.\<close>

definition carries :: "message \<Rightarrow> consumer_record \<Rightarrow> bool" where
  "carries m r \<longleftrightarrow> cr_topic r = m_topic m \<and> cr_value r = m_value m"

context services_up
begin

lemma accepted_awaits:
  fixes w w' w2 :: "('r, 'k) world"
  assumes "set act \<subseteq> set (db_endpoints (w_committed w))" "constraints_ok (w_committed w)" "p \<in> set (db_partners (w_committed w))" "circuit_closed view (p_slug p) w"
    "fst (load_outbound_primary_secret e p stg (w\<lparr>w_db := w_committed w\<rparr>)) = Inr (Some secret)"
    "\<forall>ep \<in> set act. answers_success e ep" "fresh_ids e (w_draws w + length act) (length act) (w_committed w)"
    and ds: "\<And>d. d \<in> set ds \<Longrightarrow> d_status d = DeliveryStatus.PENDING \<and> d_partner_id d = p_id p"
      "map d_endpoint_id ds = map ep_id act"
    and w2: "constraints_ok (w_committed w2)" "core (w_committed w2) = core ((w_committed w)\<lparr>db_deliveries := db_deliveries (w_committed w) @ ds\<rparr>)"
      "w_redis w2 = w_redis w" "w_clock w2 = w_clock w" "w_draws w2 = w_draws w + length ds"
  shows "awaiting e stg view p secret ds w2"
proof -
  let ?c = "w_committed w" and ?c2 = "w_committed w2"
  note tab = core_tables [OF w2(2)]
  have u: "unique_on d_id (db_deliveries ?c @ ds)"
    using w2(1) tab by (simp add: constraints_ok_def deliveries_ok_def)
  have len: "length act = length ds" using arg_cong [OF ds(2), of length] by simp
  have "distinct ds" using u by (simp add: unique_on_def distinct_map)
  moreover have "(d_id d, d_attempt_count d + 1) \<notin> attempt_numbers ?c2" if "d \<in> set ds" for d
    using new_delivery_unattempted [OF assms(2) u that] tab by (simp add: attempt_numbers_def)
  moreover have "\<exists>ep \<in> set (db_endpoints ?c2). d_endpoint_id d = ep_id ep \<and> answers_success e ep" if "d \<in> set ds" for d
  proof -
    have "d_endpoint_id d \<in> ep_id ` set act" using that arg_cong [OF ds(2), of set] by (auto simp: image_iff)
    then show ?thesis using assms(1,6) tab by auto
  qed
  moreover have "fst (load_outbound_primary_secret e p stg (w2\<lparr>w_db := ?c2\<rparr>)) = Inr (Some secret)"
    using secret_reads [of e p stg "w\<lparr>w_db := ?c\<rparr>" "Inr (Some secret)" _ "w2\<lparr>w_db := ?c2\<rparr>"] assms(5) tab
    by (cases "load_outbound_primary_secret e p stg (w\<lparr>w_db := ?c\<rparr>)") simp
  moreover have "fresh_ids e (w_draws w2) (length ds) ?c2" using assms(7) tab w2(5) len by (simp add: fresh_ids_def)
  ultimately show ?thesis
    using assms(2-4) w2 tab ds(1) by (simp add: awaiting_def circuit_closed_def DELIVERING_SOURCES_def)
qed

text \<open>What the relay publishes for the event, as the consumer sees it.\<close>

lemma relayed_records:
  fixes w1 w2 :: "('r, 'k) world"
  assumes "relay_iteration e w1 = (n, w2)" "constraints_ok (w_committed w1)" "db_outbox (w_committed w1) = db_outbox c @ obs"
    "filter unpublished (db_outbox c) = []" "list_all relayable (db_outbox c)" "length obs \<le> 100"
    and rows: "list_all2 (\<lambda>d ob. ob_aggregate_type ob = ''delivery'' \<and> ob_topic ob = OUTBOUND_PENDING_TOPIC \<and> ob_created_at ob = t \<and>
       ob_published_at ob = None \<and> item (ob_payload ob) ''delivery_id'' = Inr (JStr (str_uuid (d_public_id d)))) ds obs"
    and carry: "list_all2 carries (drop (length (klog (w_kafka w1))) (klog (w_kafka w2))) ms"
  shows "list_all2 (\<lambda>d m. cr_topic m = OUTBOUND_PENDING_TOPIC \<and>
      item (cr_value m) ''delivery_id'' = Inr (JStr (str_uuid (d_public_id d)))) ds ms"
    and "constraints_ok (w_committed w2)" "w_clock w2 = w_clock w1"
proof -
  have new: "\<forall>ob \<in> set obs. ob_aggregate_type ob = ''delivery'' \<and> ob_published_at ob = None \<and> ob_created_at ob = t"
    using rows by (auto simp: list_all2_conv_all_nth in_set_conv_nth)
  have rel: "list_all relayable (db_outbox (w_committed w1))"
    using assms(3,5) new by (auto simp: list_all_iff relayable_def)
  have sel: "unpublished_outbox_select 100 (w_committed w1) = obs"
    using new by (intro select_new_rows [where t = t, OF assms(4) _ assms(6,3)]) simp
  have up: "kafka_up (producer e) klog" using kafka_up_axioms producer_env by simp
  from relay_pass [OF up assms(2) rel] assms(1) sel
  have log: "klog (w_kafka w2) = klog (w_kafka w1) @ map (outbox_message e) obs"
    and "constraints_ok (w_committed w2)" "w_clock w2 = w_clock w1" by auto
  then show "constraints_ok (w_committed w2)" "w_clock w2 = w_clock w1" by simp_all
  have "list_all2 carries (map (outbox_message e) obs) ms" using carry log by simp
  then have "list_all2 (\<lambda>ob m. cr_topic m = ob_topic ob \<and> cr_value m = ob_payload ob) obs ms"
    by (simp add: list_all2_map1 carries_def outbox_message_def)
  from list_all2_trans [OF _ rows this]
  show "list_all2 (\<lambda>d m. cr_topic m = OUTBOUND_PENDING_TOPIC \<and>
      item (cr_value m) ''delivery_id'' = Inr (JStr (str_uuid (d_public_id d)))) ds ms" by simp
qed

lemma event_delivered:
  fixes w w1 w2 :: "('r, 'k) world"
  assumes "\<And>n. uuid7 e n \<noteq> 0"
    and "cache_fresh (w_committed w) (w_cache w)" and "constraints_ok (w_committed w)"
    and "filter unpublished (db_outbox (w_committed w)) = []" and "list_all relayable (db_outbox (w_committed w))"
    and "p \<in> set (db_partners (w_committed w))" and "circuit_closed view (p_slug p) w"
    and "fst (load_outbound_primary_secret e p stg (w\<lparr>w_db := w_committed w\<rparr>)) = Inr (Some secret)"
    and act: "act = active_outbound_endpoints (p_id p) ty (w_committed w)" and "length act \<le> 100"
    and "\<forall>ep \<in> set act. answers_success e ep"
    and "fresh_ids e (w_draws w + length act) (length act) (w_committed w)"
    and accept: "with_session (enqueue_outbound_for_event e (p_public_id p) ty payload ck ci now) w =
           (Inr (OutboundEventAcceptedResponse u us), w1)"
    and relay: "relay_iteration e w1 = (relayed, w2)"
    and carry: "list_all2 carries (drop (length (klog (w_kafka w1))) (klog (w_kafka w2))) ms"
    and "shutdown_at c = None" and "\<forall>tp n. offset_taken c tp n"
  shows "\<exists>s rqs. consume_messages e stg c ms \<lparr>cs_world = w2, cs_offsets = ofs\<rparr> = (Inr (), s) \<and>
     w_http (cs_world s) = w_http w @ rqs \<and> map rq_url rqs = map ep_url act \<and>
     (\<forall>rq \<in> set rqs. rq_body rq = serialize_payload payload) \<and>
     (\<forall>u \<in> set us. \<exists>d \<in> set (db_deliveries (w_committed (cs_world s))). d_public_id d = u \<and> d_payload d = payload \<and>
        d_status d = DeliveryStatus.DELIVERED \<and> d_first_success_at d \<noteq> None) \<and>
     cs_offsets s = offsets_after ofs ms"
proof -
  obtain ds obs where ds: "us = map d_public_id ds"
    "w_committed w1 = (w_committed w)\<lparr>db_deliveries := db_deliveries (w_committed w) @ ds, db_outbox := db_outbox (w_committed w) @ obs\<rparr>"
    "constraints_ok (w_committed w1)"
    "\<forall>d \<in> set ds. d_status d = DeliveryStatus.PENDING \<and> d_attempt_count d = 0 \<and> d_partner_id d = p_id p \<and> d_payload d = payload"
    "map d_endpoint_id ds = map ep_id act"
    "list_all2 (\<lambda>d ob. ob_aggregate_type ob = ''delivery'' \<and> ob_topic ob = OUTBOUND_PENDING_TOPIC \<and> ob_created_at ob = w_clock w \<and>
       ob_published_at ob = None \<and> item (ob_payload ob) ''delivery_id'' = Inr (JStr (str_uuid (d_public_id d)))) ds obs"
    "w_draws w1 = w_draws w + length ds" "w_clock w1 = w_clock w" "w_redis w1 = w_redis w" "w_kafka w1 = w_kafka w" "w_http w1 = w_http w"
    by (rule accepted_event [OF assms(2,3,6,1) accept, folded act])
  have len: "length obs \<le> 100"
    using list_all2_lengthD [OF ds(6)] arg_cong [OF ds(5), of length] assms(10) by simp
  have ob: "db_outbox (w_committed w1) = db_outbox (w_committed w) @ obs" using ds(2) by simp
  note rec = relayed_records [OF relay ds(3) ob assms(4,5) len ds(6) carry]
  note fr = relay_frame [OF relay]
  have core: "core (w_committed w2) = core ((w_committed w)\<lparr>db_deliveries := db_deliveries (w_committed w) @ ds\<rparr>)"
    using fr(4) ds(2) by (simp add: core_def)
  have sub: "set act \<subseteq> set (db_endpoints (w_committed w))" using act by (auto simp: active_outbound_endpoints_def)
  have wait: "awaiting e stg view p secret ds w2"
    by (rule accepted_awaits [OF sub assms(3,6,7,8,11,12) _ ds(5) rec(2) core]) (use ds(4,7-9) fr rec(3) in simp_all)
  obtain s rqs where s: "consume_messages e stg c ms \<lparr>cs_world = w2, cs_offsets = ofs\<rparr> = (Inr (), s)"
      and rows: "delivered_rows (set ds) (db_deliveries (w_committed w2)) (db_deliveries (w_committed (cs_world s)))"
      and http: "w_http (cs_world s) = w_http w2 @ rqs" "list_all2 (sent_for (w_committed w2) secret) ds rqs"
      and ofs: "cs_offsets s = offsets_after ofs ms"
    using batch_delivers [where s = "\<lparr>cs_world = w2, cs_offsets = ofs\<rparr>" and stg = stg and p = p and secret = secret, OF assms(16) _ rec(1)]
      wait assms(17) by auto
  have eps: "db_endpoints (w_committed w2) = db_endpoints (w_committed w)" using core_tables(2) [OF core] by simp
  have u: "unique_on ep_id (db_endpoints (w_committed w2))"
    using rec(2) by (simp add: constraints_ok_def endpoints_ok_def)
  note urls = sent_to_endpoints [OF u sub [folded eps] ds(5) http(2)]
  have "\<exists>d \<in> set (db_deliveries (w_committed (cs_world s))). d_public_id d = v \<and> d_payload d = payload \<and>
        d_status d = DeliveryStatus.DELIVERED \<and> d_first_success_at d \<noteq> None" if "v \<in> set us" for v
  proof -
    obtain d where d: "d \<in> set ds" "v = d_public_id d" using \<open>v \<in> set us\<close> ds(1) by auto
    then have "d \<in> set (db_deliveries (w_committed w2))" using core_tables(3) [OF core] by simp
    from delivered_rows_in [OF rows this d(1)] obtain d' t stamp where
      "d' \<in> set (db_deliveries (w_committed (cs_world s)))" "d' = delivered_row d t stamp" by blast
    then show ?thesis using d ds(4) by (intro bexI [of _ d']) (simp_all add: delivered_row_def)
  qed
  with s http(1) urls ds(4,11) fr(3) ofs show ?thesis by (intro exI [of _ s] exI [of _ rqs]) simp
qed

end

text \<open>
  C2. An accepted event reaches its partner. Suppose that Redis and Kafka are up, the cache agrees with
  the database, the outbox is drained, the partner's signing secret can be read, its circuit is closed
  and its active endpoints for the event (a hundred at most) answer 2xx. Then, once the API has
  answered "accepted", one pass of the relay and one batch of the consumer over the messages the relay
  added are enough: the batch ends normally, every active endpoint has received exactly one request,
  with the event's payload as its body, every delivery named in the answer is stored as delivered with
  its first success recorded, and the offsets of all the messages are committed.
\<close>

theorem accepted_event_is_delivered:
  fixes w w1 w2 :: "('r, 'k) world"
  assumes "services_up ops view kops klog e" and "\<And>n. uuid7 e n \<noteq> 0"
    and "cache_fresh (w_committed w) (w_cache w)" and "constraints_ok (w_committed w)"
    and "filter unpublished (db_outbox (w_committed w)) = []" and "list_all relayable (db_outbox (w_committed w))"
    and "p \<in> set (db_partners (w_committed w))" and "circuit_closed view (p_slug p) w"
    and "fst (load_outbound_primary_secret e p stg (w\<lparr>w_db := w_committed w\<rparr>)) = Inr (Some secret)"
    and "act = active_outbound_endpoints (p_id p) ty (w_committed w)" and "length act \<le> 100"
    and "\<forall>ep \<in> set act. answers_success e ep"
    and "fresh_ids e (w_draws w + length act) (length act) (w_committed w)"
    and "with_session (enqueue_outbound_for_event e (p_public_id p) ty payload ck ci now) w =
           (Inr (OutboundEventAcceptedResponse u us), w1)"
    and "relay_iteration e w1 = (relayed, w2)"
    and "list_all2 carries (drop (length (klog (w_kafka w1))) (klog (w_kafka w2))) ms"
    and "shutdown_at c = None" and "\<forall>tp n. offset_taken c tp n"
  shows "\<exists>s rqs. consume_messages e stg c ms \<lparr>cs_world = w2, cs_offsets = ofs\<rparr> = (Inr (), s) \<and>
     w_http (cs_world s) = w_http w @ rqs \<and> map rq_url rqs = map ep_url act \<and>
     (\<forall>rq \<in> set rqs. rq_body rq = serialize_payload payload) \<and>
     (\<forall>u \<in> set us. \<exists>d \<in> set (db_deliveries (w_committed (cs_world s))). d_public_id d = u \<and> d_payload d = payload \<and>
        d_status d = DeliveryStatus.DELIVERED \<and> d_first_success_at d \<noteq> None) \<and>
     cs_offsets s = offsets_after ofs ms"
  by (rule services_up.event_delivered [OF assms])

text \<open>The sample event, accepted, relayed and delivered.\<close>

lemma sample_world_healthy:
  "cache_fresh (w_committed sample_world) (w_cache sample_world)" "constraints_ok (w_committed sample_world)"
  "db_outbox (w_committed sample_world) = []" "sample_partner \<in> set (db_partners (w_committed sample_world))"
  "circuit_closed mem_view (p_slug sample_partner) sample_world" "w_http sample_world = []" "w_kafka sample_world = []"
  "fst (load_outbound_primary_secret mem_env sample_partner default_settings (sample_world\<lparr>w_db := w_committed sample_world\<rparr>)) = Inr (Some ''old'')"
  "active_outbound_endpoints (p_id sample_partner) ''order.created'' (w_committed sample_world) = [sample_endpoint]"
  "answers_success mem_env sample_endpoint" "fresh_ids mem_env (w_draws sample_world + 1) 1 (w_committed sample_world)"
  using sample_start
  by (simp_all add: cache_fresh_def circuit_closed_def mem_view_def answers_success_def fresh_ids_def active_outbound_endpoints_def
      load_outbound_primary_secret_def fetch_primary_row_def primary_rows_def run_simps decrypt_signing_secret_def
      default_settings_def is_ascii_def sample_defs)

theorem accepted_event_is_delivered_witness:
  "\<exists>w1 w2 s rq. with_session (enqueue_outbound_for_event mem_env 1 ''order.created'' (JObj []) ''k1'' ''c1'' 0) sample_world =
       (Inr (OutboundEventAcceptedResponse 1 [1]), w1) \<and> snd (relay_iteration mem_env w1) = w2 \<and>
     consume_messages mem_env default_settings sample_consumer_env
       (map (\<lambda>m. \<lparr>cr_topic = m_topic m, cr_partition = 0, cr_offset = 0, cr_value = m_value m\<rparr>) (w_kafka w2))
       \<lparr>cs_world = w2, cs_offsets = Map.empty\<rparr> = (Inr (), s) \<and>
     w_http (cs_world s) = [rq] \<and> rq_url rq = ''https://acme.example/hook'' \<and>
     (\<exists>d \<in> set (db_deliveries (w_committed (cs_world s))). d_public_id d = 1 \<and> d_status d = DeliveryStatus.DELIVERED)"
proof -
  have id: "p_public_id sample_partner = 1" by (simp add: sample_partner_def)
  have "sample_world\<lparr>w_db := w_committed sample_world\<rparr> = sample_world" by (simp add: sample_world_def)
  then obtain w1 where acc: "with_session (enqueue_outbound_for_event mem_env 1 ''order.created'' (JObj []) ''k1'' ''c1'' 0) sample_world =
      (Inr (OutboundEventAcceptedResponse 1 [1]), w1)"
    using sample_accepted [of "JObj []" "''k1''" "''c1''" 0] by (auto simp: with_session_def)
  then have acc': "with_session (enqueue_outbound_for_event mem_env (p_public_id sample_partner) ''order.created'' (JObj []) ''k1'' ''c1'' 0)
      sample_world = (Inr (OutboundEventAcceptedResponse 1 [1]), w1)" by (simp add: id)
  have env: "shutdown_at sample_consumer_env = None" "\<forall>tp n. offset_taken sample_consumer_env tp n"
    by (simp_all add: sample_consumer_env_def)
  obtain relayed w2 where rel: "relay_iteration mem_env w1 = (relayed, w2)" by force
  have k: "w_kafka w1 = []"
    by (rule accepted_event [OF sample_world_healthy(1,2,4) mem_env_uuid_nonnil acc']) (simp add: sample_world_healthy(7))
  let ?ms = "map (\<lambda>m. \<lparr>cr_topic = m_topic m, cr_partition = 0, cr_offset = 0, cr_value = m_value m\<rparr>) (w_kafka w2)"
  have ms: "list_all2 carries (drop (length (w_kafka w1)) (w_kafka w2)) ?ms"
    by (simp add: k list_all2_map2 carries_def list_all2_same)
  have one: "[sample_endpoint] = active_outbound_endpoints (p_id sample_partner) ''order.created'' (w_committed sample_world)"
    by (simp add: sample_world_healthy(9))
  obtain s rqs where "consume_messages mem_env default_settings sample_consumer_env ?ms \<lparr>cs_world = w2, cs_offsets = Map.empty\<rparr> = (Inr (), s)"
      "w_http (cs_world s) = rqs" "map rq_url rqs = map ep_url [sample_endpoint]"
      "\<exists>d \<in> set (db_deliveries (w_committed (cs_world s))). d_public_id d = 1 \<and> d_status d = DeliveryStatus.DELIVERED"
    using accepted_event_is_delivered [OF memservices.services_up_axioms mem_env_uuid_nonnil sample_world_healthy(1,2) _ _
        sample_world_healthy(4,5,8) one _ _ _ acc' rel ms env, of Map.empty] sample_world_healthy(3,6,10,11)
    by force
  then show ?thesis using acc rel by (auto simp: sample_endpoint_def)
qed

end
