(* ===== verification/AttemptBudget.thy ===== *)
theory AttemptBudget
  imports EndToEnd OutboundFindings
begin

text \<open>
  How often a partner is called for one delivery. A message may be delivered again by Kafka and a
  delivery is retried, but the consumer's sessions that end normally send at most as many requests
  for a delivery as it has attempts left; when the last one fails, the delivery is dead-lettered.
\<close>

section \<open>The budget of a delivery\<close>

definition finished :: "delivery \<Rightarrow> bool" where
  "finished d \<longleftrightarrow> d_status d = DeliveryStatus.DELIVERED \<or> d_status d = FAILED"

text \<open>
  The bound the properties are about (the code has no such function): nothing for a finished delivery;
  otherwise what its counter leaves, and at least one, since a message is processed before it is counted.
\<close>

definition attempts_left :: "delivery \<Rightarrow> int" where
  "attempts_left d = (if finished d then 0 else max 1 (d_max_attempts d - d_attempt_count d))"

text \<open>The requests that name the delivery in their header.\<close>

definition requests_for :: "uuid \<Rightarrow> http_request list \<Rightarrow> nat" where
  "requests_for u rqs = length (filter (\<lambda>rq. map_of (rq_headers rq) ''X-Hub-Delivery-Id'' = Some (str_uuid u)) rqs)"

lemma requests_for_append [simp]: "requests_for u (a @ b) = requests_for u a + requests_for u b" "requests_for u [] = 0"
  by (simp_all add: requests_for_def)

lemma requests_for_request [simp]: "requests_for u [request_for d ep secret t] = (if d_public_id d = u then 1 else 0)"
  by (auto simp: requests_for_def request_for_def build_outbound_headers_def)

section \<open>What the branches leave\<close>

text \<open>The commit stored a row of the delivery with at most \<open>k\<close> attempts left.\<close>

definition leaves :: "delivery \<Rightarrow> int \<Rightarrow> ('r, 'k) world \<Rightarrow> ('r, 'k) world \<Rightarrow> bool" where
  "leaves d k w w' \<longleftrightarrow> (\<exists>row. db_deliveries (w_committed w') = put_row d_id row (db_deliveries (w_db w)) \<and>
     d_id row = d_id d \<and> d_public_id row = d_public_id d \<and> attempts_left row \<le> k)"

lemma leaves_mono: "leaves d k w w' \<Longrightarrow> k \<le> l \<Longrightarrow> leaves d l w w'"
  unfolding leaves_def by fastforce

lemma leaves_from: "leaves d k w w' \<Longrightarrow> db_deliveries (w_db v) = db_deliveries (w_db w) \<Longrightarrow> leaves d k v w'"
  by (simp add: leaves_def)

lemma commit_Inr: "seqE commit k w = (Inr y, w') \<Longrightarrow> constraints_ok (w_db w)"
  by (cases "constraints_ok (w_db w)") (auto simp: seqE_run commit_violation)

lemma mark_failed_leaves:
  assumes "mark_failed_dlq e d p ep reason st msg w = (Inr y, w')"
  shows "leaves d 0 w w'"
proof -
  let ?row = "d\<lparr>d_status := FAILED, d_last_error_message := Some (truncate_response_body msg), d_updated_at := Some (w_clock w)\<rparr>"
  have "db_deliveries (w_committed w') = put_row d_id ?row (db_deliveries (w_db w))"
    using assms mark_failed_committed [of e d p ep reason st msg w]
    by (auto simp: mark_failed_dlq_def transition_ok bindE_simps Let_def save_delivery_def add_dead_letter_def
        seqE_run [of "bindE utcnow _"] seqE_run [of "bindE (generate_uuidv7 e) _"] bindE_run
        utcnow_apply update_db_apply generate_uuidv7_apply dest: commit_Inr split: if_splits)
  then show ?thesis unfolding leaves_def by (intro exI [of _ ?row]) (simp add: attempts_left_def finished_def)
qed

lemma schedule_retry_leaves:
  assumes "schedule_retry e d p t delay w = (Inr y, w')"
  shows "leaves d (max 1 (d_max_attempts d - d_attempt_count d)) w w'"
proof -
  let ?row = "d\<lparr>d_next_retry_at := Some (t + timedelta_seconds delay), d_status := RETRYING, d_updated_at := Some (w_clock w)\<rparr>"
  have "db_deliveries (w_committed w') = put_row d_id ?row (db_deliveries (w_db w))"
    using assms schedule_retry_committed [of e d p t delay w]
    by (auto simp: schedule_retry_def transition_ok bindE_simps Let_def save_delivery_def
        seqE_run [of "bindE utcnow _"] bindE_run utcnow_apply update_db_apply dest: commit_Inr split: if_splits)
  then show ?thesis unfolding leaves_def by (intro exI [of _ ?row]) (simp add: attempts_left_def finished_def)
qed

lemma success_leaves:
  assumes "success_branch e d p stg t w = (Inr y, w')"
  shows "leaves d 0 w w'"
proof -
  obtain stamp where "w_committed w' = (w_db w)\<lparr>db_deliveries := put_row d_id (delivered_row d t stamp) (db_deliveries (w_db w))\<rparr>"
    using success_Inr [OF assms] by blast
  then show ?thesis
    unfolding leaves_def by (intro exI [of _ "delivered_row d t stamp"]) (simp add: delivered_row_def attempts_left_def finished_def)
qed

lemma leaves_same_id: "leaves d k w w' \<Longrightarrow> d_id c = d_id d \<Longrightarrow> d_public_id c = d_public_id d \<Longrightarrow> leaves c k w w'"
  by (simp add: leaves_def)

lemma seq_ret_Inr: "seqE m (ret x) w = (Inr y, w') \<Longrightarrow> \<exists>z. m w = (Inr z, w')"
  by (auto simp: seqE_run ret_apply split: prod.splits sum.splits)

lemma poison_leaves:
  assumes "poison_branch e d p ep pr w = (Inr y, w')"
  shows "leaves d 0 w w'"
proof -
  obtain d' z msg where "mark_failed_dlq e d' p ep NON_RETRYABLE_ERROR (pr_http_status_code pr) msg w = (Inr z, w')"
      "d_id d' = d_id d" "d_public_id d' = d_public_id d"
    using assms by (auto simp: poison_branch_def Let_def dest!: seq_ret_Inr)
  then show ?thesis using mark_failed_leaves leaves_same_id by metis
qed

lemma circuit_open_leaves:
  assumes "circuit_open_branch e d p stg t w = (Inr y, w')"
  shows "leaves d (max 1 (d_max_attempts d - d_attempt_count d)) w w'"
  using assms
  by (auto simp: circuit_open_branch_def bindE_run liftE_apply ret_apply dest: schedule_retry_leaves split: if_splits sum.splits)

lemma retryable_leaves:
  assumes "retryable_branch e d p ep stg t pr w = (Inr y, w')"
  shows "leaves d (max 1 (d_max_attempts d - d_attempt_count d) - 1) w w'"
proof -
  let ?k = "max 1 (d_max_attempts d - d_attempt_count d) - 1"
  obtain st w1 where rf: "record_failure e (p_slug p) stg w = (Inr st, w1)"
    using assms by (auto simp: retryable_branch_def seqE_run split: prod.splits sum.splits)
  have same: "db_deliveries (w_db w) = db_deliveries (w_db w1)"
    using neutral_fields [OF circuit_neutral(2), where w = w] rf by (metis snd_conv)
  define msg where "msg = truncate_response_body (text_or (pr_response_body pr) (pr_error_type pr) ''retryable failure'')"
  define d' where "d' = d\<lparr>d_attempt_count := d_attempt_count d + 1, d_last_error_code := Some (code_or (pr_http_status_code pr)
      (text_or [] (pr_error_type pr) ''retry'')), d_last_error_message := Some msg\<rparr>"
  have ids: "d_id d' = d_id d" "d_public_id d' = d_public_id d" "d_attempt_count d' = d_attempt_count d + 1"
      "d_max_attempts d' = d_max_attempts d" by (simp_all add: d'_def)
  have run: "(d_attempt_count d' < d_max_attempts d' \<and> (\<exists>delay. schedule_retry e d' p t delay w1 = (Inr y, w'))) \<or>
       (\<exists>z m. mark_failed_dlq e d' p ep MAX_ATTEMPTS_EXCEEDED (pr_http_status_code pr) m w1 = (Inr z, w'))"
    using assms rf
    by (auto simp: retryable_branch_def Let_def seqE_run [of "record_failure e (p_slug p) stg"] bindE_run liftE_apply
        msg_def [symmetric] d'_def [symmetric] ids dest!: seq_ret_Inr split: if_splits sum.splits)
  have "leaves d' ?k w1 w'"
    using run
  proof (elim disjE conjE exE)
    fix delay assume a: "d_attempt_count d' < d_max_attempts d'" "schedule_retry e d' p t delay w1 = (Inr y, w')"
    then show ?thesis using leaves_mono [OF schedule_retry_leaves [OF a(2)]] ids by simp
  next
    fix z msg assume "mark_failed_dlq e d' p ep MAX_ATTEMPTS_EXCEEDED (pr_http_status_code pr) msg w1 = (Inr z, w')"
    then show ?thesis by (rule leaves_mono [OF mark_failed_leaves]) simp
  qed
  then show ?thesis using leaves_from [OF _ same] leaves_same_id [of d'] ids by metis
qed

lemma on_http_failure [keep_intros]: "keeps (on_http P) (record_failure e slug stg)"
  unfolding record_failure_def set_state_metric_def by (intro keep_intros)

lemma on_http_branches [keep_intros]:
  "keeps (on_http P) (schedule_retry e d p t delay)" "keeps (on_http P) (poison_branch e d p ep pr)"
  "keeps (on_http P) (retryable_branch e d p ep stg t pr)"
proof -
  show r: "keeps (on_http P) (schedule_retry e d p t delay)" for d delay
    unfolding schedule_retry_def save_delivery_def publish_outbound_retry_def Let_def
    by (intro keep_intros) (simp add: transition_ok keeps_ret)
  show "keeps (on_http P) (poison_branch e d p ep pr)" unfolding poison_branch_def Let_def by (intro keep_intros)
  show "keeps (on_http P) (retryable_branch e d p ep stg t pr)" unfolding retryable_branch_def Let_def by (intro keep_intros r)
qed

section \<open>One session\<close>

lemma attempt_leaves:
  assumes "attempt_delivery e d p ep stg t body hs w = (Inr y, w')"
  shows "leaves d (max 1 (d_max_attempts d - d_attempt_count d) - 1) w w'"
    and "\<exists>tc tr. w_http w' = w_http w @ [\<lparr>rq_url = ep_url ep, rq_body = body, rq_headers = hs, rq_timeout_connect_ms = tc, rq_timeout_read_ms = tr\<rparr>]"
proof -
  let ?k = "max 1 (d_max_attempts d - d_attempt_count d) - 1"
  obtain pr w1 where post: "post_outbound e (ep_url ep) body hs (ep_timeout_connect_ms ep) (ep_timeout_read_ms ep) w = (Inr pr, w1)"
    using assms by (auto simp: attempt_delivery_def bindE_run split: prod.splits sum.splits)
  obtain w2 where add: "add_attempt e (d_id d) (d_attempt_count d + 1) t pr w1 = (Inr (), w2)"
      and w2: "db_deliveries (w_db w2) = db_deliveries (w_db w1)" "w_http w2 = w_http w1"
    by (simp add: add_attempt_def run_simps)
  have same: "db_deliveries (w_db w) = db_deliveries (w_db w2)"
    using neutral_fields [OF on_db_post, where w = w] post w2(1) by (metis snd_conv)
  consider "success_branch e d p stg t w2 = (Inr y, w')" | "poison_branch e d p ep pr w2 = (Inr y, w')"
    | "retryable_branch e d p ep stg t pr w2 = (Inr y, w')"
    using assms post add by (auto simp: attempt_delivery_def bindE_run seqE_run Let_def split: if_splits)
  then have "leaves d ?k w2 w' \<and> w_http w' = w_http w2"
  proof cases
    case 1
    then show ?thesis using leaves_mono [OF success_leaves [OF 1], of ?k] http_same [OF on_http_success 1] by simp
  next
    case 2
    then show ?thesis using leaves_mono [OF poison_leaves [OF 2], of ?k] http_same [OF on_http_branches(2) 2] by simp
  next
    case 3
    then show ?thesis using retryable_leaves [OF 3] http_same [OF on_http_branches(3) 3] by simp
  qed
  then show "leaves d ?k w w'"
    and "\<exists>tc tr. w_http w' = w_http w @ [\<lparr>rq_url = ep_url ep, rq_body = body, rq_headers = hs, rq_timeout_connect_ms = tc, rq_timeout_read_ms = tr\<rparr>]"
    using leaves_from [OF _ same] w2(2) post_run(1) [OF post] by auto
qed

lemma send_leaves:
  assumes "send_delivery e d p ep stg t w = (Inr y, w')"
  shows "\<exists>rqs. w_http w' = w_http w @ rqs \<and> (\<forall>u. u \<noteq> d_public_id d \<longrightarrow> requests_for u rqs = 0) \<and>
     leaves d (max 1 (d_max_attempts d - d_attempt_count d) - int (requests_for (d_public_id d) rqs)) w w'"
proof -
  let ?k = "max 1 (d_max_attempts d - d_attempt_count d)"
  obtain so w1 where l: "load_outbound_primary_secret e p stg w = (Inr so, w1)"
    using assms by (auto simp: send_delivery_def bindE_run split: prod.splits sum.splits)
  have w1: "w_http w1 = w_http w" "w_db w1 = w_db w"
    using http_same [OF on_http_secret l] neutral_fields [OF secret_neutral, where w = w] l by (metis snd_conv)+
  show ?thesis
  proof (cases so)
    case None
    then obtain z where m: "mark_failed_dlq e d p ep NON_RETRYABLE_ERROR None ''missing signing secret'' w1 = (Inr z, w')"
      using assms l by (auto simp: send_delivery_def bindE_run dest!: seq_ret_Inr)
    have "leaves d ?k w w'" using leaves_mono [OF mark_failed_leaves [OF m], of ?k] leaves_from w1(2) by force
    then show ?thesis using http_same [OF on_http_mark_failed m] w1(1) by (intro exI [of _ "[]"]) simp
  next
    case (Some secret)
    obtain al w2 where a: "allow_outbound e (p_slug p) stg w1 = (Inr al, w2)"
      using assms l Some by (auto simp: send_delivery_def bindE_run Let_def split: prod.splits sum.splits)
    have w2: "w_http w2 = w_http w" "db_deliveries (w_db w) = db_deliveries (w_db w2)"
      using http_same [OF on_http_circuit(2) a] neutral_fields [OF circuit_neutral(1), where w = w1] a w1 by (metis snd_conv)+
    show ?thesis
    proof (cases al)
      case False
      then have c: "circuit_open_branch e d p stg t w2 = (Inr y, w')"
        using assms l Some a by (simp add: send_delivery_def bindE_run Let_def)
      show ?thesis
        using leaves_from [OF circuit_open_leaves [OF c] w2(2)] http_same [OF on_http_circuit_open c] w2(1)
        by (intro exI [of _ "[]"]) simp
    next
      case True
      then have c: "attempt_delivery e d p ep stg t (serialize_payload (d_payload d))
          (build_outbound_headers (str_uuid (d_public_id d)) (d_event_type d) (str_int (int_timestamp t))
             (serialize_payload (d_payload d)) secret (d_idempotency_key d) (d_correlation_id d)) w2 = (Inr y, w')"
        using assms l Some a by (simp add: send_delivery_def bindE_run Let_def)
      from attempt_leaves [OF c] w2 show ?thesis
        by (auto simp: requests_for_def build_outbound_headers_def intro: leaves_from)
    qed
  qed
qed

text \<open>Every delivery after a session: what it may still be sent, and what it was sent.\<close>

lemma session_budget:
  assumes "with_session (process_outbound_message e envl stg now) w = (Inr y, w')" "constraints_ok (w_committed w)"
    "x \<in> set (db_deliveries (w_committed w))"
  shows "constraints_ok (w_committed w') \<and> (\<exists>rqs x'. w_http w' = w_http w @ rqs \<and> x' \<in> set (db_deliveries (w_committed w')) \<and>
     d_public_id x' = d_public_id x \<and> int (requests_for (d_public_id x) rqs) + attempts_left x' \<le> attempts_left x)"
proof -
  let ?w = "w\<lparr>w_db := w_committed w\<rparr>"
  obtain v where run: "process_outbound_message e envl stg now ?w = (Inr y, v)" and w': "w' = v\<lparr>w_db := w_committed v\<rparr>"
    using assms(1) by (auto simp: with_session_def split: prod.splits)
  have ok: "constraints_ok (w_committed v)" using process_settles [OF _ run] assms(2) by fastforce
  have quiet: ?thesis if "w_committed v = w_committed w" "w_http v = w_http w"
    using that ok w' assms(3) by (intro conjI exI [of _ "[]"] exI [of _ x]) simp_all
  show ?thesis
  proof (cases "\<exists>raw u d p ep. item envl ''delivery_id'' = Inr raw \<and> uuid_of raw = Inr u \<and>
      fst (fetch_delivery_context u ?w) = Inr (Some (d, p, ep)) \<and> d_status d \<in> set DELIVERING_SOURCES")
    case False
    then have "w_committed v = w_committed w" "w_http v = w_http w"
      using run by (auto simp: process_run split: sum.splits option.splits if_splits)
    then show ?thesis by (rule quiet)
  next
    case True
    then obtain raw u d p ep where c: "item envl ''delivery_id'' = Inr raw" "uuid_of raw = Inr u"
        "fst (fetch_delivery_context u ?w) = Inr (Some (d, p, ep))" and st: "d_status d \<in> set DELIVERING_SOURCES" by blast
    let ?d = "d\<lparr>d_status := DELIVERING\<rparr>"
    have d: "d \<in> set (db_deliveries (w_committed w))" using fetch_context_Some(2) [OF fetch_context_eq [OF c(3)]] by simp
    have "\<not> finished d" using st by (auto simp: finished_def DELIVERING_SOURCES_def)
    then have left: "attempts_left d = max 1 (d_max_attempts d - d_attempt_count d)" by (simp add: attempts_left_def)
    have "send_delivery e ?d p ep stg (case now of Some t \<Rightarrow> t | None \<Rightarrow> w_clock ?w) ?w = (Inr y, v)"
      using run c st by (auto simp: process_run DELIVERING_SOURCES_def)
    from send_leaves [OF this] obtain rqs row where r: "w_http v = w_http w @ rqs" "\<forall>u. u \<noteq> d_public_id d \<longrightarrow> requests_for u rqs = 0"
        "db_deliveries (w_committed v) = put_row d_id row (db_deliveries (w_committed w))" "d_id row = d_id d"
        "d_public_id row = d_public_id d" "attempts_left row \<le> attempts_left d - int (requests_for (d_public_id d) rqs)"
      unfolding leaves_def left by auto
    have u: "unique_on d_id (db_deliveries (w_committed w))" "unique_on d_public_id (db_deliveries (w_committed w))"
      using assms(2) by (simp_all add: constraints_ok_def deliveries_ok_def)
    show ?thesis
    proof (cases "x = d")
      case True
      then show ?thesis
        using r w' ok in_put_row [of d _ d_id row] d by (intro conjI exI [of _ rqs] exI [of _ row]) simp_all
    next
      case False
      then have "d_id x \<noteq> d_id row" "d_public_id x \<noteq> d_public_id d"
        using unique_onD [OF u(1) assms(3) d] unique_onD [OF u(2) assms(3) d] r(4) by auto
      then show ?thesis
        using r w' ok in_put_row_other [OF assms(3), of d_id row] by (intro conjI exI [of _ rqs] exI [of _ x]) simp_all
    qed
  qed
qed

section \<open>The property\<close>

lemma processed_budget:
  "processed e stg ms s s' \<Longrightarrow> constraints_ok (w_committed (cs_world s)) \<Longrightarrow> x \<in> set (db_deliveries (w_committed (cs_world s))) \<Longrightarrow>
   \<exists>rqs x'. w_http (cs_world s') = w_http (cs_world s) @ rqs \<and> x' \<in> set (db_deliveries (w_committed (cs_world s'))) \<and>
     d_public_id x' = d_public_id x \<and> int (requests_for (d_public_id x) rqs) + attempts_left x' \<le> attempts_left x"
proof (induction arbitrary: x rule: processed.induct)
  case (processed_Nil s)
  then show ?case by (intro exI [of _ "[]"] exI [of _ x]) simp
next
  case (processed_Cons m s w1 outcome w2 ms s')
  have w1: "w_committed w1 = w_committed (cs_world s)" "w_http w1 = w_http (cs_world s)"
    using processed_Cons.hyps(1) unfolding due_def by (cases "cs_world s"; cases w1; auto split: if_splits)+
  obtain rqs x' where one: "constraints_ok (w_committed w2)" "w_http w2 = w_http w1 @ rqs" "x' \<in> set (db_deliveries (w_committed w2))"
      "d_public_id x' = d_public_id x" "int (requests_for (d_public_id x) rqs) + attempts_left x' \<le> attempts_left x"
    using session_budget [OF processed_Cons.hyps(2), of x] processed_Cons.prems w1 by auto
  obtain rqs' x'' where "w_http (cs_world s') = w_http w2 @ rqs'" "x'' \<in> set (db_deliveries (w_committed (cs_world s')))"
      "d_public_id x'' = d_public_id x'" "int (requests_for (d_public_id x') rqs') + attempts_left x'' \<le> attempts_left x'"
    using processed_Cons.IH [of x'] one(1,3) by auto
  with one w1 show ?case by (intro exI [of _ "rqs @ rqs'"] exI [of _ x'']) simp
qed

lemma attempts_left_nonneg: "0 \<le> attempts_left d" "attempts_left d \<le> 0 \<longleftrightarrow> finished d"
  by (auto simp: attempts_left_def)

text \<open>
  C6. The budget of attempts is a budget of requests. In a batch of the consumer that ends normally and is not
  cut short by a shutdown, with any mixture of first deliveries, retries and messages that Kafka delivers
  again, whatever the partners, Redis and the clock do, a partner receives at most as many requests for a
  delivery as the delivery has attempts left; and if it receives that many, the delivery is delivered or
  dead-lettered at the end. A batch that ends in an exception is outside it: a request whose attempt
  cannot be stored is sent again when its message is delivered again.
\<close>

theorem requests_within_budget:
  assumes "consume_batch e stg c batch s = (Inr (), s')" and "\<not> shutdown_set c (w_clock (cs_world s'))"
    and "constraints_ok (w_committed (cs_world s))" and "d \<in> set (db_deliveries (w_committed (cs_world s)))"
  shows "\<exists>rqs r. w_http (cs_world s') = w_http (cs_world s) @ rqs \<and> r \<in> set (db_deliveries (w_committed (cs_world s'))) \<and>
     d_public_id r = d_public_id d \<and> int (requests_for (d_public_id d) rqs) \<le> attempts_left d \<and>
     (int (requests_for (d_public_id d) rqs) = attempts_left d \<longrightarrow> finished r)"
proof -
  have "processed e stg (concat batch) s s'"
    using consume_messages_prefix [of e stg c "concat batch" s "Inr ()" s'] assms(1,2)
    by (auto simp: consume_batch_flat prefix_processed_def)
  from processed_budget [OF this assms(3,4)] obtain rqs r where
    "w_http (cs_world s') = w_http (cs_world s) @ rqs" "r \<in> set (db_deliveries (w_committed (cs_world s')))"
    "d_public_id r = d_public_id d" "int (requests_for (d_public_id d) rqs) + attempts_left r \<le> attempts_left d" by blast
  then show ?thesis using attempts_left_nonneg [of r] by (intro exI [of _ rqs] exI [of _ r]) auto
qed

theorem requests_within_budget_witness:
  "\<exists>s' rqs. consume_batch mem_env default_settings sample_consumer_env [[sample_record]]
       \<lparr>cs_world = with_delivery (sample_delivery DeliveryStatus.PENDING 0), cs_offsets = Map.empty\<rparr> = (Inr (), s') \<and>
     w_http (cs_world s') = rqs \<and> length rqs = 1 \<and> int (requests_for 6 rqs) \<le> 2"
proof -
  let ?d = "sample_delivery DeliveryStatus.PENDING 0"
  let ?s = "\<lparr>cs_world = with_delivery ?d, cs_offsets = Map.empty\<rparr>"
  have env: "shutdown_at sample_consumer_env = None" "offset_taken sample_consumer_env tp n" for tp n
    by (simp_all add: sample_consumer_env_def)
  have ok: "constraints_ok (w_committed (with_delivery ?d))"
    by (simp add: with_delivery_def sample_defs constraints_ok_def table_ok_defs references_def unique_on_def)
  have wait: "awaiting mem_env default_settings mem_view sample_partner ''old'' [?d] (cs_world ?s)"
    using ok sample_world_healthy(10)
    by (auto simp: awaiting_def circuit_closed_def mem_view_def fresh_ids_def attempt_numbers_def DELIVERING_SOURCES_def
        load_outbound_primary_secret_def fetch_primary_row_def primary_rows_def run_simps decrypt_signing_secret_def
        default_settings_def is_ascii_def with_delivery_def sample_world_def sample_db_def initial_world_def empty_database_def
        sample_secret_def, simp_all add: sample_partner_def sample_endpoint_def)
  have rec: "list_all2 (\<lambda>d m. cr_topic m = OUTBOUND_PENDING_TOPIC \<and>
      item (cr_value m) ''delivery_id'' = Inr (JStr (str_uuid (d_public_id d)))) [?d] [sample_record]"
    by (simp add: sample_record_def sample_envelope_def)
  obtain s' rqs where s: "consume_messages mem_env default_settings sample_consumer_env [sample_record] ?s = (Inr (), s')"
      "w_http (cs_world s') = w_http (cs_world ?s) @ rqs" "list_all2 (sent_for (w_committed (cs_world ?s)) ''old'') [?d] rqs"
    using memservices.batch_delivers [OF env rec wait] by blast
  have one: "length rqs = 1" using list_all2_lengthD [OF s(3)] by simp
  have run: "consume_batch mem_env default_settings sample_consumer_env [[sample_record]] ?s = (Inr (), s')"
    unfolding consume_batch_flat using s(1) by (simp only: concat.simps append_Nil2)
  have "attempts_left ?d = 2" by (simp add: attempts_left_def finished_def)
  with requests_within_budget [OF run, of ?d] ok s(2) env(1) show ?thesis
    using run one by (auto simp: shutdown_set_def with_delivery_def sample_defs)
qed

end
