(* ===== verification/Routes.thy ===== *)
theory Routes
  imports App Analytics DeliveryLedger
begin

text \<open>
  The routes of the HTTP API put together (\<open>include_router\<close> in \<open>app/main.py\<close> and the \<open>@router\<close> declarations
  of \<open>app/api/v1\<close>): one call per declared route with its arguments, the handler it runs with the status it
  answers, the table of methods and path templates in the order of registration, and the choice of the first
  one that fits. The lemmas show that no route hides another and what each role can change.
\<close>

section \<open>Calls\<close>

datatype api_call =
    CreatePartner PartnerCreate
  | ListPartners PaginationParams
  | GetPartner uuid
  | UpdatePartner uuid PartnerUpdate
  | CreateApiKey uuid ApiKeyCreate
  | RotateSigningSecret uuid
  | GetPartnerAnalyticsSummary uuid
  | GetAnalyticsOverview
  | GetComplianceExport time time "string option"
  | ListDeliveries delivery_filters PaginationParams
  | BulkReplayDeliveries BulkReplayRequest
  | SandboxTestDelivery OutboundEventRequest
  | GetDelivery uuid
  | ListDeliveryAttempts uuid PaginationParams
  | ReplayDelivery uuid DeliveryReplayRequest
  | ListReplayApprovals "ReplayApprovalStatus option" PaginationParams
  | ApproveReplayApproval uuid
  | RejectReplayApproval uuid ReplayApprovalRejectRequest
  | ListDeadLetters PaginationParams
  | AcknowledgeDeadLetter uuid
  | PurgeDeadLetter uuid DeadLetterPurgeRequest
  | CreateEndpoint uuid EndpointCreate
  | GetEndpoint uuid
  | UpdateEndpoint uuid EndpointUpdate
  | CreatePayloadSchema PayloadSchemaCreate
  | ListPayloadSchemas string
  | IngestEvent inbound_request
  | CreateOutboundEvent OutboundEventRequest
  | GetDeliveryStatus uuid "string option"

text \<open>What a request carries besides its call: the bearer credentials, the correlation variable and the clock.\<close>

record call_context =
  cc_credentials :: "string option"
  cc_correlation :: "string option"
  cc_now :: int

definition answered :: "int \<Rightarrow> ('r, 'k, 'a) hub \<Rightarrow> ('r, 'k, int) hub" where
  "answered code m = bindE m (\<lambda>resp. ret code)"

definition inbound_status :: "inbound_response \<Rightarrow> int" where
  "inbound_status resp = (case resp of InboundEventAcceptedResponse u \<Rightarrow> 202 | InboundEventDuplicateResponse u \<Rightarrow> 200)"

definition enqueue_status :: "enqueue_response \<Rightarrow> int" where
  "enqueue_status resp =
     (case resp of OutboundEventAcceptedResponse u us \<Rightarrow> 202 | OutboundEventDuplicateResponse u us \<Rightarrow> 200)"

definition replay_status :: "replay_response \<Rightarrow> int" where
  "replay_status resp = (case resp of JSONResponse code pending \<Rightarrow> code | Replayed started \<Rightarrow> 200)"

fun handle :: "('r, 'k) env \<Rightarrow> settings \<Rightarrow> (rat \<Rightarrow> string) \<Rightarrow> call_context \<Rightarrow> api_call \<Rightarrow> ('r, 'k, int) hub" where
  "handle e stg str_float cc (CreatePartner body) = answered 201 (create_partner e stg (cc_credentials cc) body)"
| "handle e stg str_float cc (ListPartners pg) = answered 200 (list_partners e stg (cc_credentials cc) pg)"
| "handle e stg str_float cc (GetPartner u) = answered 200 (get_partner e stg (cc_credentials cc) u)"
| "handle e stg str_float cc (UpdatePartner u body) = answered 200 (update_partner e stg (cc_credentials cc) u body)"
| "handle e stg str_float cc (CreateApiKey u body) = answered 201 (create_api_key e stg (cc_credentials cc) u body)"
| "handle e stg str_float cc (RotateSigningSecret u) = answered 200 (rotate_signing_secret e stg (cc_credentials cc) u)"
| "handle e stg str_float cc (GetPartnerAnalyticsSummary u) =
     answered 200 (get_partner_analytics_summary e stg (cc_credentials cc) u (cc_now cc))"
| "handle e stg str_float cc GetAnalyticsOverview = answered 200 (get_analytics_overview e stg (cc_credentials cc) (cc_now cc))"
| "handle e stg str_float cc (GetComplianceExport from_dt to_dt accept) =
     answered 200 (get_compliance_export e stg str_float (cc_credentials cc) from_dt to_dt accept)"
| "handle e stg str_float cc (ListDeliveries f pg) = answered 200 (list_deliveries e stg (cc_credentials cc) f pg)"
| "handle e stg str_float cc (BulkReplayDeliveries body) =
     answered 200 (bulk_replay_deliveries_endpoint e stg (cc_credentials cc) body)"
| "handle e stg str_float cc (SandboxTestDelivery body) =
     bindE (sandbox_test_delivery e stg (cc_credentials cc) (cc_correlation cc) body (cc_now cc)) (\<lambda>resp. ret (enqueue_status resp))"
| "handle e stg str_float cc (GetDelivery u) = answered 200 (get_delivery e stg (cc_credentials cc) u)"
| "handle e stg str_float cc (ListDeliveryAttempts u pg) = answered 200 (list_delivery_attempts e stg (cc_credentials cc) u pg)"
| "handle e stg str_float cc (ReplayDelivery u body) =
     bindE (replay_delivery_endpoint e stg (cc_credentials cc) u body) (\<lambda>resp. ret (replay_status resp))"
| "handle e stg str_float cc (ListReplayApprovals s pg) = answered 200 (list_replay_approvals e stg (cc_credentials cc) s pg)"
| "handle e stg str_float cc (ApproveReplayApproval u) = answered 200 (approve_replay_approval_endpoint e stg (cc_credentials cc) u)"
| "handle e stg str_float cc (RejectReplayApproval u body) =
     answered 200 (reject_replay_approval_endpoint e stg (cc_credentials cc) u body)"
| "handle e stg str_float cc (ListDeadLetters pg) = answered 200 (list_dead_letters e stg (cc_credentials cc) pg)"
| "handle e stg str_float cc (AcknowledgeDeadLetter u) = answered 200 (acknowledge_dead_letter e stg (cc_credentials cc) u)"
| "handle e stg str_float cc (PurgeDeadLetter u body) = answered 200 (purge_dead_letter e stg (cc_credentials cc) u body)"
| "handle e stg str_float cc (CreateEndpoint u body) = answered 201 (create_endpoint e stg (cc_credentials cc) u body)"
| "handle e stg str_float cc (GetEndpoint u) = answered 200 (get_endpoint e stg (cc_credentials cc) u)"
| "handle e stg str_float cc (UpdateEndpoint u body) = answered 200 (update_endpoint e stg (cc_credentials cc) u body)"
| "handle e stg str_float cc (CreatePayloadSchema body) = answered 201 (create_payload_schema e stg (cc_credentials cc) body)"
| "handle e stg str_float cc (ListPayloadSchemas ty) = answered 200 (list_payload_schemas e stg (cc_credentials cc) ty)"
| "handle e stg str_float cc (IngestEvent rq) = bindE (ingest_event e stg rq (cc_now cc)) (\<lambda>resp. ret (inbound_status resp))"
| "handle e stg str_float cc (CreateOutboundEvent body) =
     bindE (create_outbound_event e stg (cc_credentials cc) (cc_correlation cc) body (cc_now cc)) (\<lambda>resp. ret (enqueue_status resp))"
| "handle e stg str_float cc (GetDeliveryStatus u authorization) = answered 200 (get_delivery_status e authorization u)"

definition serve :: "('r, 'k) env \<Rightarrow> settings \<Rightarrow> (rat \<Rightarrow> string) \<Rightarrow> call_context \<Rightarrow> api_call \<Rightarrow> ('r, 'k, int) hub" where
  "serve e stg str_float cc call = with_session (handle e stg str_float cc call)"

section \<open>The table of routes\<close>

text \<open>A template is the list of its segments; a parameter stands for any one segment that is not empty.\<close>

datatype segment = Lit string | Param

fun fits :: "segment list \<Rightarrow> string list \<Rightarrow> bool" where
  "fits [] [] \<longleftrightarrow> True"
| "fits (Lit s # t) (x # xs) \<longleftrightarrow> s = x \<and> fits t xs"
| "fits (Param # t) (x # xs) \<longleftrightarrow> x \<noteq> [] \<and> fits t xs"
| "fits _ _ \<longleftrightarrow> False"

type_synonym route = "string \<times> segment list \<times> string"

definition prefixed :: "string list \<Rightarrow> route list \<Rightarrow> route list" where
  "prefixed pre rs = map (\<lambda>(m, t, name). (m, map Lit pre @ t, name)) rs"

definition health_routes :: "route list" where
  "health_routes =
     [(''GET'', [Lit ''inbound'', Lit ''v1'', Lit ''health''], ''inbound_health''),
      (''GET'', [Lit ''internal'', Lit ''v1'', Lit ''health''], ''internal_health'')]"

definition partner_routes :: "route list" where
  "partner_routes = prefixed [''admin'', ''v1'', ''partners'']
     [(''POST'', [], ''create_partner''), (''GET'', [], ''list_partners''), (''GET'', [Param], ''get_partner''),
      (''PATCH'', [Param], ''update_partner''), (''POST'', [Param, Lit ''api-keys''], ''create_api_key''),
      (''POST'', [Param, Lit ''rotate-secret''], ''rotate_signing_secret'')]"

definition analytics_routes :: "route list" where
  "analytics_routes = prefixed [''admin'', ''v1'', ''analytics'']
     [(''GET'', [Lit ''partners'', Param, Lit ''summary''], ''get_partner_analytics_summary''),
      (''GET'', [Lit ''overview''], ''get_analytics_overview''),
      (''GET'', [Lit ''compliance-export''], ''get_compliance_export'')]"

definition delivery_routes :: "route list" where
  "delivery_routes = prefixed [''admin'', ''v1'', ''deliveries'']
     [(''GET'', [], ''list_deliveries''), (''POST'', [Lit ''bulk-replay''], ''bulk_replay_deliveries_endpoint''),
      (''POST'', [Lit ''test''], ''sandbox_test_delivery''), (''GET'', [Param], ''get_delivery''),
      (''GET'', [Param, Lit ''attempts''], ''list_delivery_attempts''),
      (''POST'', [Param, Lit ''replay''], ''replay_delivery_endpoint'')]"

definition replay_approval_routes :: "route list" where
  "replay_approval_routes = prefixed [''admin'', ''v1'', ''replay-approvals'']
     [(''GET'', [], ''list_replay_approvals''), (''POST'', [Param, Lit ''approve''], ''approve_replay_approval_endpoint''),
      (''POST'', [Param, Lit ''reject''], ''reject_replay_approval_endpoint'')]"

definition dead_letter_routes :: "route list" where
  "dead_letter_routes = prefixed [''admin'', ''v1'', ''dead-letters'']
     [(''GET'', [], ''list_dead_letters''), (''POST'', [Param, Lit ''ack''], ''acknowledge_dead_letter''),
      (''DELETE'', [Param], ''purge_dead_letter'')]"

definition endpoint_routes :: "route list" where
  "endpoint_routes = prefixed [''admin'', ''v1'']
     [(''POST'', [Lit ''partners'', Param, Lit ''endpoints''], ''create_endpoint''),
      (''GET'', [Lit ''endpoints'', Param], ''get_endpoint''), (''PATCH'', [Lit ''endpoints'', Param], ''update_endpoint'')]"

definition schema_routes :: "route list" where
  "schema_routes = prefixed [''admin'', ''v1'']
     [(''POST'', [Lit ''schemas''], ''create_payload_schema''), (''GET'', [Lit ''schemas''], ''list_payload_schemas'')]"

definition inbound_routes :: "route list" where
  "inbound_routes = prefixed [''inbound'', ''v1''] [(''POST'', [Param, Lit ''events''], ''ingest_event'')]"

definition outbound_routes :: "route list" where
  "outbound_routes = prefixed [''internal'', ''v1''] [(''POST'', [Lit ''outbound'', Lit ''events''], ''create_outbound_event'')]"

definition status_routes :: "route list" where
  "status_routes = prefixed [''partner'', ''v1''] [(''GET'', [Lit ''deliveries'', Param], ''get_delivery_status'')]"

definition api_routes :: "route list" where
  "api_routes = health_routes @ partner_routes @ analytics_routes @ delivery_routes @ replay_approval_routes @
     dead_letter_routes @ endpoint_routes @ schema_routes @ inbound_routes @ outbound_routes @ status_routes"

definition find_route :: "route list \<Rightarrow> string \<Rightarrow> string list \<Rightarrow> string option" where
  "find_route rs meth segments =
     map_option (\<lambda>(m, t, name). name) (find (\<lambda>(m, t, name). m = meth \<and> fits t segments) rs)"

lemmas route_tables = health_routes_def partner_routes_def analytics_routes_def delivery_routes_def replay_approval_routes_def
  dead_letter_routes_def endpoint_routes_def schema_routes_def inbound_routes_def outbound_routes_def status_routes_def

lemmas api_table = api_routes_def [unfolded route_tables prefixed_def, simplified]

section \<open>No route hides another\<close>

fun compatible :: "segment list \<Rightarrow> segment list \<Rightarrow> bool" where
  "compatible [] [] \<longleftrightarrow> True"
| "compatible (Lit s # t) (Lit s' # t') \<longleftrightarrow> s = s' \<and> compatible t t'"
| "compatible (_ # t) (_ # t') \<longleftrightarrow> compatible t t'"
| "compatible _ _ \<longleftrightarrow> False"

lemma fits_compatible: "fits t xs \<Longrightarrow> fits t' xs \<Longrightarrow> compatible t t'"
proof (induction t xs arbitrary: t' rule: fits.induct)
  case (2 s t x xs)
  then show ?case by (cases t'; cases "hd t'") auto
next
  case (3 t x xs)
  then show ?case by (cases t'; cases "hd t'") auto
qed (auto elim: fits.elims)

definition overlap :: "route \<Rightarrow> route \<Rightarrow> bool" where
  "overlap r q \<longleftrightarrow> fst r = fst q \<and> compatible (fst (snd r)) (fst (snd q))"

primrec separate :: "route list \<Rightarrow> bool" where
  "separate [] \<longleftrightarrow> True"
| "separate (r # rs) \<longleftrightarrow> list_all (\<lambda>q. \<not> overlap r q) rs \<and> separate rs"

lemma api_routes_separate: "separate api_routes"
  by (simp add: api_routes_def route_tables prefixed_def overlap_def)

lemma separate_unique:
  assumes "separate rs" "(m, t, n) \<in> set rs" "(m, t', n') \<in> set rs" "fits t xs" "fits t' xs"
  shows "(t, n) = (t', n')"
proof -
  have "compatible t t'" "compatible t' t" using assms(4,5) by (simp_all add: fits_compatible)
  with assms(1-3) show ?thesis by (induction rs) (auto simp: overlap_def list_all_iff)
qed

lemma fitting_route_found:
  assumes "separate rs" "(m, t, n) \<in> set rs" "fits t xs"
  shows "find (\<lambda>(m', t', n'). m' = m \<and> fits t' xs) rs = Some (m, t, n)"
proof -
  let ?P = "\<lambda>(m', t', n'). m' = m \<and> fits t' xs"
  obtain q where q: "find ?P rs = Some q" using assms(2,3) by (cases "find ?P rs") (auto simp: find_None_iff)
  then have "q \<in> set rs" "?P q" by (auto simp: find_Some_iff in_set_conv_nth)
  then obtain t' n' where "q = (m, t', n')" "(m, t', n') \<in> set rs" "fits t' xs" by (cases q) auto
  with separate_unique [OF assms(1,2) _ assms(3)] q show ?thesis by auto
qed

text \<open>The order in which the routers are registered does not matter.\<close>

lemma find_route_order:
  assumes "set rs = set api_routes"
  shows "find_route rs meth xs = find_route api_routes meth xs"
proof (cases "find (\<lambda>(m, t, name). m = meth \<and> fits t xs) rs")
  case None
  then have "find (\<lambda>(m, t, name). m = meth \<and> fits t xs) api_routes = None" unfolding find_None_iff assms .
  with None show ?thesis by (simp add: find_route_def)
next
  case (Some r)
  then have "r \<in> set api_routes" "case r of (m, t, name) \<Rightarrow> m = meth \<and> fits t xs"
    using assms by (auto simp: find_Some_iff in_set_conv_nth)
  moreover from this(2) obtain t n where r: "r = (meth, t, n)" "fits t xs" by (cases r) simp
  ultimately have "(meth, t, n) \<in> set api_routes" by simp
  from fitting_route_found [OF api_routes_separate this r(2)] Some r show ?thesis by (simp add: find_route_def)
qed

section \<open>Paths of the calls\<close>

abbreviation admin_path :: "string \<Rightarrow> string list \<Rightarrow> string list" where
  "admin_path part rest \<equiv> [''admin'', ''v1'', part] @ rest"

fun request_line :: "api_call \<Rightarrow> string \<times> string list \<times> string" where
  "request_line (CreatePartner body) = (''POST'', admin_path ''partners'' [], ''create_partner'')"
| "request_line (ListPartners pg) = (''GET'', admin_path ''partners'' [], ''list_partners'')"
| "request_line (GetPartner u) = (''GET'', admin_path ''partners'' [str_uuid u], ''get_partner'')"
| "request_line (UpdatePartner u body) = (''PATCH'', admin_path ''partners'' [str_uuid u], ''update_partner'')"
| "request_line (CreateApiKey u body) = (''POST'', admin_path ''partners'' [str_uuid u, ''api-keys''], ''create_api_key'')"
| "request_line (RotateSigningSecret u) = (''POST'', admin_path ''partners'' [str_uuid u, ''rotate-secret''], ''rotate_signing_secret'')"
| "request_line (GetPartnerAnalyticsSummary u) =
     (''GET'', admin_path ''analytics'' [''partners'', str_uuid u, ''summary''], ''get_partner_analytics_summary'')"
| "request_line GetAnalyticsOverview = (''GET'', admin_path ''analytics'' [''overview''], ''get_analytics_overview'')"
| "request_line (GetComplianceExport from_dt to_dt accept) =
     (''GET'', admin_path ''analytics'' [''compliance-export''], ''get_compliance_export'')"
| "request_line (ListDeliveries f pg) = (''GET'', admin_path ''deliveries'' [], ''list_deliveries'')"
| "request_line (BulkReplayDeliveries body) = (''POST'', admin_path ''deliveries'' [''bulk-replay''], ''bulk_replay_deliveries_endpoint'')"
| "request_line (SandboxTestDelivery body) = (''POST'', admin_path ''deliveries'' [''test''], ''sandbox_test_delivery'')"
| "request_line (GetDelivery u) = (''GET'', admin_path ''deliveries'' [str_uuid u], ''get_delivery'')"
| "request_line (ListDeliveryAttempts u pg) = (''GET'', admin_path ''deliveries'' [str_uuid u, ''attempts''], ''list_delivery_attempts'')"
| "request_line (ReplayDelivery u body) = (''POST'', admin_path ''deliveries'' [str_uuid u, ''replay''], ''replay_delivery_endpoint'')"
| "request_line (ListReplayApprovals s pg) = (''GET'', admin_path ''replay-approvals'' [], ''list_replay_approvals'')"
| "request_line (ApproveReplayApproval u) =
     (''POST'', admin_path ''replay-approvals'' [str_uuid u, ''approve''], ''approve_replay_approval_endpoint'')"
| "request_line (RejectReplayApproval u body) =
     (''POST'', admin_path ''replay-approvals'' [str_uuid u, ''reject''], ''reject_replay_approval_endpoint'')"
| "request_line (ListDeadLetters pg) = (''GET'', admin_path ''dead-letters'' [], ''list_dead_letters'')"
| "request_line (AcknowledgeDeadLetter u) = (''POST'', admin_path ''dead-letters'' [str_uuid u, ''ack''], ''acknowledge_dead_letter'')"
| "request_line (PurgeDeadLetter u body) = (''DELETE'', admin_path ''dead-letters'' [str_uuid u], ''purge_dead_letter'')"
| "request_line (CreateEndpoint u body) = (''POST'', admin_path ''partners'' [str_uuid u, ''endpoints''], ''create_endpoint'')"
| "request_line (GetEndpoint u) = (''GET'', admin_path ''endpoints'' [str_uuid u], ''get_endpoint'')"
| "request_line (UpdateEndpoint u body) = (''PATCH'', admin_path ''endpoints'' [str_uuid u], ''update_endpoint'')"
| "request_line (CreatePayloadSchema body) = (''POST'', admin_path ''schemas'' [], ''create_payload_schema'')"
| "request_line (ListPayloadSchemas ty) = (''GET'', admin_path ''schemas'' [], ''list_payload_schemas'')"
| "request_line (IngestEvent rq) = (''POST'', [''inbound'', ''v1'', ir_partner_slug rq, ''events''], ''ingest_event'')"
| "request_line (CreateOutboundEvent body) = (''POST'', [''internal'', ''v1'', ''outbound'', ''events''], ''create_outbound_event'')"
| "request_line (GetDeliveryStatus u authorization) =
     (''GET'', [''partner'', ''v1'', ''deliveries'', str_uuid u], ''get_delivery_status'')"

definition slug_named :: "api_call \<Rightarrow> bool" where
  "slug_named c \<longleftrightarrow> (case c of IngestEvent rq \<Rightarrow> ir_partner_slug rq \<noteq> [] | _ \<Rightarrow> True)"

lemma call_in_table:
  "slug_named c \<Longrightarrow> list_ex (\<lambda>(m, t, n). m = fst (request_line c) \<and> n = snd (snd (request_line c)) \<and>
     fits t (fst (snd (request_line c)))) api_routes"
  by (cases c) (simp_all add: api_table slug_named_def)

lemma call_is_routed:
  assumes "slug_named c" "request_line c = (meth, segments, name)"
  shows "find_route api_routes meth segments = Some name"
proof -
  obtain t where "(meth, t, name) \<in> set api_routes" "fits t segments"
    using call_in_table [OF assms(1)] assms(2) by (auto simp: list_ex_iff)
  from fitting_route_found [OF api_routes_separate this] show ?thesis by (simp add: find_route_def)
qed

section \<open>Roles\<close>

fun call_roles :: "api_call \<Rightarrow> HubRole list option" where
  "call_roles (IngestEvent rq) = None"
| "call_roles (GetDeliveryStatus u authorization) = None"
| "call_roles (ListPartners pg) = Some RequireViewer"
| "call_roles (GetPartner u) = Some RequireViewer"
| "call_roles (GetPartnerAnalyticsSummary u) = Some RequireViewer"
| "call_roles GetAnalyticsOverview = Some RequireViewer"
| "call_roles (GetComplianceExport from_dt to_dt accept) = Some RequireViewer"
| "call_roles (ListDeliveries f pg) = Some RequireViewer"
| "call_roles (GetDelivery u) = Some RequireViewer"
| "call_roles (ListDeliveryAttempts u pg) = Some RequireViewer"
| "call_roles (ListReplayApprovals s pg) = Some RequireViewer"
| "call_roles (ListDeadLetters pg) = Some RequireViewer"
| "call_roles (GetEndpoint u) = Some RequireViewer"
| "call_roles (ListPayloadSchemas ty) = Some RequireViewer"
| "call_roles (ReplayDelivery u body) = Some RequireOperator"
| "call_roles (AcknowledgeDeadLetter u) = Some RequireOperator"
| "call_roles c = Some RequireAdmin"

lemmas handler_defs = create_partner_def list_partners_def get_partner_def update_partner_def create_api_key_def
  rotate_signing_secret_def get_partner_analytics_summary_def get_analytics_overview_def get_compliance_export_def
  list_deliveries_def bulk_replay_deliveries_endpoint_def sandbox_test_delivery_def get_delivery_def list_delivery_attempts_def
  replay_delivery_endpoint_def list_replay_approvals_def approve_replay_approval_endpoint_def reject_replay_approval_endpoint_def
  list_dead_letters_def acknowledge_dead_letter_def purge_dead_letter_def create_endpoint_def get_endpoint_def
  update_endpoint_def create_payload_schema_def list_payload_schemas_def create_outbound_event_def

text \<open>Every guarded handler checks the role before anything else.\<close>

lemma handle_refused:
  assumes "call_roles c = Some allowed" "require_roles e allowed (cc_credentials cc) stg w = (Inl x, w)"
  shows "handle e stg str_float cc c w = (Inl x, w)"
  using assms by (cases c) (simp_all add: answered_def handler_defs bindE_run seqE_run)

text \<open>The routes of viewers write nothing.\<close>

lemma analytics_read [keep_intros]:
  "keeps (on_db J) (build_partner_summary e p stg now)" "keeps (on_db J) (build_analytics_overview now)"
  "keeps (on_db J) (build_compliance_export from_dt to_dt)"
  unfolding build_partner_summary_def fetch_partner_terminal_rows_def fetch_partner_attempt_durations_def
    fetch_oldest_unacked_dlq_created_at_def get_analytics_circuit_state_def build_analytics_overview_def
    fetch_dlq_backlog_count_def fetch_overview_partner_rows_def build_compliance_export_def
    fetch_compliance_delivery_rows_def fetch_partner_dlq_counts_in_window_def Let_def
  by (intro keep_intros)+

lemma get_delivery_partner_read [keep_intros]: "keeps (on_db J) (get_delivery_partner_or_404 u)"
  unfolding get_delivery_partner_or_404_def by (intro keep_intros)

lemma reading_handlers:
  "keeps (on_db J) (list_partners e stg creds pg)" "keeps (on_db J) (get_partner e stg creds u)"
  "keeps (on_db J) (get_partner_analytics_summary e stg creds u now)" "keeps (on_db J) (get_analytics_overview e stg creds now)"
  "keeps (on_db J) (get_compliance_export e stg str_float creds from_dt to_dt accept)"
  "keeps (on_db J) (list_deliveries e stg creds f pg)" "keeps (on_db J) (get_delivery e stg creds u)"
  "keeps (on_db J) (list_delivery_attempts e stg creds u pg)" "keeps (on_db J) (list_replay_approvals e stg creds s pg)"
  "keeps (on_db J) (list_dead_letters e stg creds pg)" "keeps (on_db J) (get_endpoint e stg creds u)"
  "keeps (on_db J) (list_payload_schemas e stg creds ty)"
  unfolding handler_defs Let_def by (intro keep_intros)+

lemma viewer_routes_read:
  assumes "call_roles c = Some RequireViewer"
  shows "keeps (on_db J) (handle e stg str_float cc c)"
proof -
  have "RequireOperator \<noteq> RequireViewer" "RequireAdmin \<noteq> RequireViewer"
    by (simp_all add: RequireViewer_def RequireOperator_def RequireAdmin_def)
  then show ?thesis using assms by (cases c) (auto simp: answered_def intro: keeps_bindE reading_handlers keeps_ret)
qed

text \<open>The routes of operators leave the configuration as it is.\<close>

definition configuration :: "database \<Rightarrow>
  partner list \<times> partner_endpoint list \<times> partner_api_key list \<times> partner_signing_secret list \<times> payload_schema list" where
  "configuration db = (db_partners db, db_endpoints db, db_api_keys db, db_signing_secrets db, db_payload_schemas db)"

definition configured_as ::
  "partner list \<times> partner_endpoint list \<times> partner_api_key list \<times> partner_signing_secret list \<times> payload_schema list \<Rightarrow>
   database \<Rightarrow> database \<Rightarrow> bool" where
  "configured_as cfg c d \<longleftrightarrow> configuration c = cfg \<and> configuration d = cfg"

lemma configured_transaction [keep_intros]:
  "keeps (on_db (configured_as cfg)) commit" "keeps (on_db (configured_as cfg)) rollback"
  by (rule on_db_commit on_db_rollback; simp add: configured_as_def)+

lemma configuration_kept [simp]:
  "configuration (d\<lparr>db_deliveries := x\<rparr>) = configuration d" "configuration (d\<lparr>db_dead_letters := y\<rparr>) = configuration d"
  "configuration (d\<lparr>db_audit_logs := z\<rparr>) = configuration d" "configuration (d\<lparr>db_replay_approvals := v\<rparr>) = configuration d"
  "configuration (d\<lparr>db_outbox := o1\<rparr>) = configuration d"
  by (simp_all add: configuration_def)

lemma configured_update [keep_intros]:
  "(\<And>d. configuration (f d) = configuration d) \<Longrightarrow> keeps (on_db (configured_as cfg)) (update_db f)"
  by (rule on_db_update) (simp add: configured_as_def)

lemma replay_keeps_configuration [keep_intros]:
  "keeps (on_db (configured_as cfg)) (replay_delivery e u actor reason reset trigger)"
proof (rule keepsI)
  fix w :: "('a, 'b) world" assume J: "on_db (configured_as cfg) w"
  show "on_db (configured_as cfg) (snd (replay_delivery e u actor reason reset trigger w))"
  proof (cases "\<exists>d p. fst (fetch_delivery_with_partner u w) = Inr (Some (d, p)) \<and> d_status d = FAILED")
    case False
    from replay_refused [OF this, of e actor reason reset trigger] J show ?thesis by (auto simp: on_db_def)
  next
    case True
    then obtain d p where f: "fst (fetch_delivery_with_partner u w) = Inr (Some (d, p))" "d_status d = FAILED" by blast
    have "configuration (replay_database e d p actor reason reset trigger w) = configuration (w_db w)"
      by (simp add: replay_database_def configuration_def)
    with replay_failed_run [OF f, of e actor reason reset trigger] J show ?thesis
      by (auto simp: on_db_def configured_as_def)
  qed
qed

lemma operator_handlers:
  "keeps (on_db (configured_as cfg)) (replay_delivery_endpoint e stg creds u body)"
  "keeps (on_db (configured_as cfg)) (acknowledge_dead_letter e stg creds u)"
  unfolding replay_delivery_endpoint_def acknowledge_dead_letter_def create_replay_approval_def add_audit_log_def
    save_dead_letter_def Let_def
  by (intro keep_intros; simp)+

lemma operator_routes_keep_configuration:
  assumes "call_roles c = Some RequireOperator"
  shows "keeps (on_db (configured_as cfg)) (handle e stg str_float cc c)"
proof -
  have "RequireViewer \<noteq> RequireOperator" "RequireAdmin \<noteq> RequireOperator"
    by (simp_all add: RequireViewer_def RequireOperator_def RequireAdmin_def)
  then show ?thesis using assms by (cases c) (auto simp: answered_def intro: keeps_bindE operator_handlers keeps_ret)
qed

lemma call_roles_cases:
  assumes "call_roles c = Some allowed"
  obtains (viewer) "allowed = RequireViewer" | (operator) "allowed = RequireOperator" | (admin) "allowed = RequireAdmin"
  using assms by (cases c) auto

text \<open>Who calls: the principals the bearer token names.\<close>

definition caller :: "('r, 'k) env \<Rightarrow> settings \<Rightarrow> call_context \<Rightarrow> ('r, 'k) world \<Rightarrow> AdminPrincipal \<Rightarrow> bool" where
  "caller e stg cc w p \<longleftrightarrow> (\<exists>token. cc_credentials cc = Some token \<and> token_names e stg (w_clock w) token p)"

lemma serve_refused:
  assumes "call_roles c = Some allowed" "\<And>p. caller e stg cc w p \<Longrightarrow> ap_role p \<notin> set allowed"
  shows "\<exists>x. serve e stg str_float cc c w = (Inl x, w\<lparr>w_db := w_committed w\<rparr>) \<and> answer_status x \<in> {401, 403}"
proof -
  let ?w = "w\<lparr>w_db := w_committed w\<rparr>"
  have "fst (require_roles e allowed (cc_credentials cc) stg ?w) \<noteq> Inr p" for p
    using admin_access [of e allowed "cc_credentials cc" stg ?w p] assms(2) [of p] by (auto simp: caller_def)
  then obtain x where "fst (require_roles e allowed (cc_credentials cc) stg ?w) = Inl x" "answer_status x \<in> {401, 403}"
    using admin_access [of e allowed "cc_credentials cc" stg ?w] by metis
  then have "require_roles e allowed (cc_credentials cc) stg ?w = (Inl x, ?w)"
    using require_roles_state [of e allowed "cc_credentials cc" stg ?w] by (metis prod.collapse)
  from handle_refused [OF assms(1) this] \<open>answer_status x \<in> _\<close> show ?thesis by (simp add: serve_def with_session_run)
qed

lemma serve_keeps:
  assumes "keeps (on_db J) (handle e stg str_float cc c)" "\<And>c d. J c d \<Longrightarrow> J c c" "J (w_committed w) (w_committed w)"
  shows "J (w_committed (snd (serve e stg str_float cc c w))) (w_committed (snd (serve e stg str_float cc c w)))"
proof -
  have "on_db J (w\<lparr>w_db := w_committed w\<rparr>)" using assms(3) by (simp add: on_db_def)
  with assms(1) have "on_db J (snd (handle e stg str_float cc c (w\<lparr>w_db := w_committed w\<rparr>)))" by (rule keepsD)
  with assms(2) show ?thesis by (auto simp: serve_def with_session_run on_db_def)
qed

section \<open>Properties\<close>

text \<open>
  C30. Separation of roles over the whole operator API: a caller whose token names no principal with a role
  the route allows is answered with a 401 or 403 and the call does nothing; whatever the call, a caller that
  is at most a viewer changes nothing in the database, and one that is not an administrator leaves partners,
  endpoints, API keys, signing secrets and payload schemas as they were.
\<close>

theorem role_separation:
  assumes "call_roles c = Some allowed" "serve e stg str_float cc c w = (r, w')"
  shows "((\<forall>p. caller e stg cc w p \<longrightarrow> ap_role p \<notin> set allowed) \<longrightarrow>
        (\<exists>x. r = Inl x \<and> answer_status x \<in> {401, 403}) \<and> w' = w\<lparr>w_db := w_committed w\<rparr>) \<and>
     ((\<forall>p. caller e stg cc w p \<longrightarrow> ap_role p = HUB_VIEWER) \<longrightarrow> w_committed w' = w_committed w) \<and>
     ((\<forall>p. caller e stg cc w p \<longrightarrow> ap_role p \<noteq> HUB_ADMIN) \<longrightarrow>
        configuration (w_committed w') = configuration (w_committed w))"
proof -
  note refused = serve_refused [OF assms(1), of e stg cc w str_float]
  have reads: "w_committed w' = w_committed w" if "allowed = RequireViewer"
    using serve_keeps [where J = "\<lambda>c d. c = w_committed w", OF viewer_routes_read, of c w e stg str_float cc] assms that by simp
  have keeps: "configuration (w_committed w') = configuration (w_committed w)" if "allowed = RequireOperator"
    using serve_keeps [where J = "configured_as (configuration (w_committed w))", OF operator_routes_keep_configuration,
      of c w e stg str_float cc] assms that by (simp add: configured_as_def)
  from assms(1) show ?thesis
  proof (cases rule: call_roles_cases)
    case viewer
    with reads refused assms(2) show ?thesis by auto
  next
    case operator
    then have "w' = w\<lparr>w_db := w_committed w\<rparr>" if "\<forall>p. caller e stg cc w p \<longrightarrow> ap_role p = HUB_VIEWER"
      using refused that assms(2) by (auto simp: RequireOperator_def)
    with operator keeps refused assms(2) show ?thesis by auto
  next
    case admin
    then have "w' = w\<lparr>w_db := w_committed w\<rparr>" if "\<forall>p. caller e stg cc w p \<longrightarrow> ap_role p \<noteq> HUB_ADMIN"
      using refused that assms(2) by (auto simp: RequireAdmin_def)
    with refused assms(2) show ?thesis by auto
  qed
qed

text \<open>An operator with a valid token asks for a new signing secret: refused, and nothing changed.\<close>

definition operator_env :: "(mem_redis, message list) env" where
  "operator_env = mem_env\<lparr>jwt_decode := (\<lambda>token key t.
     Some \<lparr>cl_sub = Some (JStr ''olga''), cl_role = Some (JStr (hub_role_value HUB_OPERATOR))\<rparr>)\<rparr>"

definition operator_context :: call_context where
  "operator_context = \<lparr>cc_credentials = Some ''olga-token'', cc_correlation = None, cc_now = 0\<rparr>"

lemma operator_caller: "caller operator_env admin_settings operator_context w p \<longleftrightarrow> p = \<lparr>ap_sub = ''olga'', ap_role = HUB_OPERATOR\<rparr>"
proof -
  have role: "hub_role_value HUB_OPERATOR = hub_role_value r \<longleftrightarrow> r = HUB_OPERATOR" for r by (cases r) simp_all
  show ?thesis
    by (cases p) (auto simp: caller_def token_names_def operator_env_def operator_context_def admin_settings_def role simp del: hub_role_value.simps)
qed

theorem role_separation_witness:
  "(\<exists>p. caller operator_env admin_settings operator_context sample_world p) \<and>
   (\<exists>x w'. serve operator_env admin_settings (\<lambda>q. []) operator_context (RotateSigningSecret 5) sample_world = (Inl x, w') \<and>
      answer_status x \<in> {401, 403} \<and> configuration (w_committed w') = configuration (w_committed sample_world))"
proof -
  obtain r w' where run: "serve operator_env admin_settings (\<lambda>q. []) operator_context (RotateSigningSecret 5) sample_world = (r, w')"
    by force
  have "call_roles (RotateSigningSecret 5) = Some RequireAdmin" by simp
  from role_separation [OF this run] show ?thesis using run by (auto simp: operator_caller RequireAdmin_def)
qed

end
