(* ===== verification/Logging.thy ===== *)
theory Logging
  imports Support App
begin

text \<open>
  The set-up of logging (\<open>configure_logging\<close> and \<open>reset_logging_for_tests\<close> in \<open>app/logging.py\<close>): the level and
  the handlers of the root logger, the chain of processors given to structlog and the bound service name. The
  processors of structlog are parameters; the two of the hub are those of \<open>Support\<close>. The lemmas show that
  configuring again adds no handler and that whatever is rendered has its sensitive keys masked.
\<close>

section \<open>Configuration\<close>

datatype processor =
    MergeContextvars
  | AddLogLevel
  | AddLoggerName
  | TimeStamper string string
  | AddServiceContext
  | RedactProcessor
  | EventRenamer string
  | JSONRenderer

record log_state =
  ls_root_level :: int
  ls_root_handlers :: "string list"
  ls_processors :: "processor list option"
  ls_wrapper_level :: "int option"
  ls_contextvars :: "(string \<times> json) list"

definition py_upper :: "string \<Rightarrow> string" where
  "py_upper s = map (\<lambda>c. if CHR ''a'' \<le> c \<and> c \<le> CHR ''z'' then char_of (of_char c - 32 :: nat) else c) s"

text \<open>
  The attribute of the \<open>logging\<close> module with an upper-case name: a level, one of the two that are no level
  (which \<open>setLevel\<close> refuses), or none, for which \<open>INFO\<close> is taken.
\<close>

definition LOGGING_LEVELS :: "(string \<times> int) list" where
  "LOGGING_LEVELS = [(''CRITICAL'', 50), (''FATAL'', 50), (''ERROR'', 40), (''WARNING'', 30), (''WARN'', 30),
     (''INFO'', 20), (''DEBUG'', 10), (''NOTSET'', 0)]"

definition level_of_name :: "string \<Rightarrow> exn + int" where
  "level_of_name log_level =
     (let name = py_upper log_level in
      if name \<in> {''BASIC_FORMAT'', ''_STYLES''} then Inl (ValueError ''level'')
      else Inr (case map_of LOGGING_LEVELS name of None \<Rightarrow> 20 | Some n \<Rightarrow> n))"

definition PROCESSORS :: "processor list" where
  "PROCESSORS = [MergeContextvars, AddLogLevel, AddLoggerName, TimeStamper ''iso'' ''timestamp'', AddServiceContext,
     RedactProcessor, EventRenamer ''message'', JSONRenderer]"

definition configure_logging :: "string \<Rightarrow> string \<Rightarrow> log_state \<Rightarrow> exn + log_state" where
  "configure_logging log_level otel_service_name s =
     (case level_of_name log_level of
        Inl x \<Rightarrow> Inl x
      | Inr level \<Rightarrow> Inr (s\<lparr>ls_root_level := level,
          ls_root_handlers := (if ls_root_handlers s = [] then [''%(message)s''] else ls_root_handlers s),
          ls_processors := Some PROCESSORS, ls_wrapper_level := Some level,
          ls_contextvars := set_item ''service'' (JStr otel_service_name) (ls_contextvars s)\<rparr>))"

definition reset_logging_for_tests :: "log_state \<Rightarrow> ('r, 'k, log_state) scoped" where
  "reset_logging_for_tests s =
     seqE (clear_correlation_id None)
     (ret (s\<lparr>ls_processors := None, ls_wrapper_level := None, ls_root_handlers := [], ls_root_level := 30\<rparr>))"

section \<open>A record through the chain\<close>

type_synonym event_dict = "(string \<times> json) list"

record structlog =
  sl_merge :: "event_dict \<Rightarrow> event_dict \<Rightarrow> event_dict"
  sl_level :: "event_dict \<Rightarrow> event_dict"
  sl_name :: "event_dict \<Rightarrow> event_dict"
  sl_stamp :: "string \<Rightarrow> string \<Rightarrow> event_dict \<Rightarrow> event_dict"
  sl_rename :: "string \<Rightarrow> event_dict \<Rightarrow> event_dict"
  sl_render :: "event_dict \<Rightarrow> string"

text \<open>Each processor takes the dictionary of the one before it; the renderer ends the chain.\<close>

fun run_processors ::
  "structlog \<Rightarrow> event_dict \<Rightarrow> string option \<Rightarrow> (nat \<times> nat) option \<Rightarrow> processor list \<Rightarrow> event_dict \<Rightarrow> event_dict + string" where
  "run_processors sl ctx corr sp [] d = Inl d"
| "run_processors sl ctx corr sp (JSONRenderer # ps) d = Inr (sl_render sl d)"
| "run_processors sl ctx corr sp (MergeContextvars # ps) d = run_processors sl ctx corr sp ps (sl_merge sl ctx d)"
| "run_processors sl ctx corr sp (AddLogLevel # ps) d = run_processors sl ctx corr sp ps (sl_level sl d)"
| "run_processors sl ctx corr sp (AddLoggerName # ps) d = run_processors sl ctx corr sp ps (sl_name sl d)"
| "run_processors sl ctx corr sp (TimeStamper fmt key # ps) d = run_processors sl ctx corr sp ps (sl_stamp sl fmt key d)"
| "run_processors sl ctx corr sp (AddServiceContext # ps) d = run_processors sl ctx corr sp ps (add_service_context corr sp d)"
| "run_processors sl ctx corr sp (RedactProcessor # ps) d = run_processors sl ctx corr sp ps (redact_processor d)"
| "run_processors sl ctx corr sp (EventRenamer to # ps) d = run_processors sl ctx corr sp ps (sl_rename sl to d)"

section \<open>Lemmas\<close>

lemma configure_twice:
  assumes "configure_logging lvl svc s = Inr s1" "configure_logging lvl svc s1 = Inr s2"
  shows "s2 = s1"
proof -
  have "set_item k v (set_item k v d) = set_item k v d" for k v d
    by (induction d) (auto simp: set_item_def split: if_splits)
  then show ?thesis using assms by (auto simp: configure_logging_def split: sum.splits)
qed

text \<open>
  Whatever an event carries, what a configured process renders is masked: under a sensitive key there is the
  mask or nothing. The renaming moves the value of the event under the key \<open>message\<close> and touches no other.
\<close>

lemma rendered_masked:
  assumes "configure_logging lvl svc s0 = Inr s" and "ls_processors s = Some ps"
    and rename: "\<And>to d k v. (k, v) \<in> set (sl_rename sl to d) \<Longrightarrow> k = to \<or> (k, v) \<in> set d"
  shows "\<exists>d. run_processors sl (ls_contextvars s) corr sp ps ev = Inr (sl_render sl d) \<and>
     (\<forall>k v. (k, v) \<in> set d \<longrightarrow> should_redact_key k \<longrightarrow> v \<in> {REDACTED, JNull})"
proof -
  have "ps = PROCESSORS" using assms(1,2) by (auto simp: configure_logging_def split: sum.splits)
  moreover have "\<not> should_redact_key ''message''"
    by (simp add: should_redact_key_def REDACT_KEYS_def separators_def py_lower_def py_startswith_def)
  ultimately show ?thesis using rename redacted_values(1)
    by (auto simp: PROCESSORS_def) blast
qed

end
