(* ===== verification/Spec2Isabelle.thy ===== *)
theory Spec2Isabelle
  imports OutboundFindings OutboundConsumer OutboxRelay Enqueue RateLimit Replay Inbound ApiAuth
    AdminDeliveries Credentials Analytics Support DeliveryLedger Migrations Seeds
    ColumnTypes RelayLoop App LoadTests Processes EndToEnd AttemptBudget
    Routes Logging
begin

text \<open>
  A verification library for the B2B partner integration hub: a service that accepts events for
  partners, delivers them as signed webhooks with retries, and takes webhooks from partners.

  \<^bold>\<open>The program.\<close> The HTTP API (\<open>src/app/api\<close>) accepts outbound events from internal producers and
  inbound webhooks from partners and serves the admin routes. An accepted event becomes one delivery
  per endpoint in PostgreSQL, with an outbox row in the same transaction
  (\<open>src/app/domain/services\<close>). The relay (\<open>src/app/workers/outbox_relay.py\<close>) publishes outbox rows to
  Kafka. The consumer and the processor (\<open>outbound_consumer.py\<close>, \<open>outbound_processor.py\<close>) sign and
  send each delivery, guarded by a circuit breaker per partner in Redis, and store attempts,
  retries and dead letters. Operators and a scheduled Celery task replay failed deliveries.

  \<^bold>\<open>Layout.\<close>
  \<^item> \<open>Prelude\<close>: programs over a state with exceptions (\<open>bindE\<close>, \<open>seqE\<close>, \<open>catchE\<close>), the invariant
    predicate \<open>keeps\<close> with its rule collection \<open>keep_intros\<close>, keyed table updates; \<open>PyText\<close>, \<open>PyTime\<close>
    and \<open>Json\<close>: the parts of Python's strings, \<open>int\<close>, \<open>uuid\<close>, \<open>datetime\<close> and \<open>json\<close> the code uses;
    \<open>Sha256\<close>: the digest, computed in the logic.
  \<^item> \<open>Domain\<close>, \<open>Models\<close>: enumerations, errors, settings, the tables with their constraints.
  \<^item> \<open>Ports\<close>: what the hub calls and does not contain, as the record \<open>env\<close>, with the laws of Redis and
    Kafka as the locales \<open>redis_service\<close>, \<open>redis_up\<close> and \<open>kafka_service\<close>, interpreted on services that
    are up and on services that are down. \<open>World\<close>: the session with commit and rollback, clocks,
    draws, metrics; every handler of the hub is a program over this state.
  \<^item> Policies: \<open>StatusMachine\<close>, \<open>RetryPolicy\<close>, \<open>CircuitBreaker\<close>, \<open>RateLimit\<close>, \<open>AcceptCache\<close>, \<open>Signing\<close>.
  \<^item> Outbound: \<open>KafkaProducer\<close>, \<open>Outbox\<close>, \<open>Enqueue\<close>, \<open>OutboxRelay\<close>, \<open>HttpClient\<close>,
    \<open>OutboundProcessor\<close>, \<open>OutboundConsumer\<close>, \<open>OutboundFindings\<close>; \<open>RelayLoop\<close>: the main loop of the relay;
    \<open>Processes\<close>: what the relay, the consumer and the API open and close around their loops.
  \<^item> Inbound and API: \<open>Inbound\<close> (\<open>api/v1/inbound\<close>), \<open>ApiSchemas\<close> (request bodies, their validators and the
    response mappers), \<open>ApiAuth\<close> (\<open>api/auth.py\<close>, \<open>deps_partner.py\<close>, the middlewares, the partner and internal
    routes), \<open>Replay\<close> (replay and approval services, the scheduled replay), \<open>App\<close> (the assembled application of
    \<open>main.py\<close> with its middlewares, handlers and liveness routes), \<open>Routes\<close> (the calls of all declared routes, the table
    of their paths and the roles each needs).
  \<^item> Admin routes: \<open>AdminPartners\<close> (partners, endpoints, payload schemas, keys, secrets), \<open>AdminDeliveries\<close>
    (deliveries, dead letters, approvals), \<open>Analytics\<close>. \<open>CacheCoherence\<close> and \<open>Credentials\<close> join them with
    the accept path and with authentication.
  \<^item> \<open>DeliveryLedger\<close>: the abstract specification of the whole hub and the refinement of it by all processes
    together, through the locale \<open>simulation\<close>. \<open>EndToEnd\<close>: the accept path, the relay and the worker in a
    row, with services that are up as the locale \<open>services_up\<close>. \<open>AttemptBudget\<close>: the requests sent for one delivery
    over the batches of the consumer.
  \<^item> \<open>Support\<close>: log redaction, \<open>Logging\<close> the chain of processors it stands in (\<open>app/logging.py\<close>); the reporting Celery tasks and the partner mock. \<open>Migrations\<close>: the Alembic
    revisions (\<open>alembic/versions\<close>) as DDL over a schema and the data step of revision 0004. \<open>Seeds\<close>: the
    demo partners and their upsert (\<open>scripts/seed_common.py\<close>). \<open>ColumnTypes\<close>: the rows against the column types of
    the migrations. \<open>LoadTests\<close>: the preflight and the verdicts of \<open>loadtests\<close>.

  \<^bold>\<open>State and operations.\<close> A handler of the code is a function of type \<open>('r, 'k, 'a) hub\<close>: it takes the world
  (the committed and the pending database of the session, the identity counters, Redis and Kafka, clocks,
  draws, the process cache and the metrics) and returns a value or an exception with the new world. A row is
  a record with the columns of its SQLAlchemy model; \<open>flush\<close> and \<open>commit\<close> test the unique and foreign key
  constraints and raise \<open>IntegrityError\<close>; \<open>rollback\<close> restores the committed tables and expires the rows the session
  had loaded, which \<open>read_after_rollback\<close> makes an error where the code goes on to read them. Each handler is
  written in the order of the code, every early return and exception as a branch.

  \<^bold>\<open>What is shown.\<close>
  \<^item> The whole hub: every run of the routes, the workers, the relay and the scheduled task is a run of the
    abstract ledger of deliveries, so an accepted delivery is never lost or altered, moves only along the
    status machine, is replayed only with an audit entry, and the trails of attempts and actions only grow.
  \<^item> Progress: with the services up and a partner that answers, an accepted event is published by the next
    pass of the relay and delivered by the consumer, one request per endpoint.
  \<^item> Acceptance: an accepted event commits one delivery and one outbox row for each active endpoint or nothing, a
    repeated key stores nothing and returns the stored deliveries (with a partner from the cache; on a cold cache
    the handler fails after its rollback), and the cache an event is accepted from never differs from the
    committed configuration of this process, so a suspended partner is refused at once, and by any other
    process when its cache entry has expired.
  \<^item> Publication: a stamped row was acknowledged by the broker; with the broker up a pass drains its batch in order
    and the loop a backlog of any size; the loop returns after a shutdown, whatever happens around it.
  \<^item> Delivery: a message moves its delivery by one step of the status machine, DELIVERED means a signed POST
    answered with 2xx, offsets are committed for the processed prefix only, the hold-back of a retry ends, and a partner is sent at
    most as many requests for a delivery in a batch that ends normally as it has attempts left.
  \<^item> Inbound: an accepted webhook was authentic and is stored with its message; a repeated key stores nothing and is answered as a
    duplicate while Redis holds it; neither the rollback handler nor a failing Redis leads to an answer.
  \<^item> Credentials: issued secrets and keys work, rotated ones overlap, a signature verifies exactly when it is the digest.
  \<^item> Protection: the circuit opens when the failures of a window reach the threshold and admits one probe at a time, the
    bucket bounds the admitted requests of every window.
  \<^item> Operation: replay, approval, dead letters, pages and statistics do what their routes say.
  \<^item> Deployment: the constraints of the model are those the migrations create, the copied secrets stay in use,
    seeding twice changes nothing, and requests within the bounds of the columns leave every row of all tables in its columns.
  \<^item> Assembly: every request CORS passes on is answered, in the order of the middlewares and with its correlation identifier
    (but for a bad header and an unhandled exception); no
    route hides another, and over all of them viewers change nothing and only administrators the configuration.

  \<^bold>\<open>Bounds and fuel.\<close> No definition uses fuel. Loops over rows and messages are structural recursions, the
  hold-back loop of the consumer and the sleep of the relay terminate by a measure on the remaining time, the
  endless loop of the relay is a partial function whose value \<open>None\<close> means that it does not return, and that of
  the consumer a run over a given list of polls. Python integers are \<open>int\<close>,
  identifiers are 128-bit words, floats of delays, tokens and rates are exact rationals, times are microseconds.

  \<^bold>\<open>Parameters.\<close> Redis, Kafka, the partner's HTTP answer, Fernet, Argon2, PyJWT and jsonschema are fields of \<open>env\<close>;
  the laws a theorem uses are its hypotheses and hold for the in-memory services of \<open>World\<close>.

  \<^bold>\<open>Not modelled.\<close> The options of engines, clients and exporters, the Celery application (\<open>celery_app/app.py\<close>), the CORS middleware, signal handling of the workers, the Alembic environment, the command lines
  of the seed scripts, the Locust runner and the React console: they configure third-party code or generate traffic.
  A flush does not test the widths of the columns, which \<open>ColumnTypes\<close> treats apart. Concurrency
  between database sessions is represented only by the committed state a handler starts from: two relays that skip each
  other's locked rows, and two processes between the \<open>GET\<close> and the \<open>SET\<close> of the rate limiter, are outside the model.
  Queries without \<open>ORDER BY\<close> (the endpoints of an event, the deliveries of a client key, the join of the outbox insert) return
  the rows in the order of their insertion. A sleep moves the wall clock forward by at least its length.
\<close>

end
